(* ===== verification/Prelude.thy ===== *)
theory Prelude
  imports Main "HOL-Library.Char_ord" "HOL-Library.List_Lexorder" "HOL-Library.Multiset" "HOL-Library.Word"
begin

text \<open>
  Shared vocabulary of the development: Go's error values, the string functions of package
  \<open>strings\<close> that the program calls, Go maps as association lists, and the contract of
  package \<open>sort\<close>.

  Conventions. A nil-able pointer is an \<open>option\<close>. A call that returns \<open>(T, error)\<close> is a
  value of \<open>go_error + 'a\<close>, \<open>Inl\<close> for the error. A call that returns only \<open>error\<close> is a
  \<open>go_error option\<close>. Strings are byte strings (\<open>string\<close>), ordered bytewise as Go orders
  them. A call with an effect on the outside world takes and returns an opaque world \<open>'w\<close>.
\<close>

section \<open>Collections of facts\<close>

named_theorems keyed_simps \<open>lookup laws of the keyed stores\<close>
named_theorems inv_intros \<open>operations keep the invariant\<close>

section \<open>Errors\<close>

text \<open>
  What the program observes of an error: its class, which the predicates
  \<open>kerrors.IsNotFound\<close>, \<open>IsAlreadyExists\<close>, \<open>IsConflict\<close>, \<open>IsInvalid\<close> and
  \<open>runtime.IsNotRegisteredError\<close> ask for, and its text.
\<close>

datatype err_class = NotFound | AlreadyExists | Conflict | Invalid | NotRegistered | Unclassified

datatype go_error = GoError (err_class: err_class) (err_text: string)

definition IsNotFound :: "go_error \<Rightarrow> bool" where
  "IsNotFound e \<longleftrightarrow> err_class e = NotFound"

definition IsAlreadyExists :: "go_error \<Rightarrow> bool" where
  "IsAlreadyExists e \<longleftrightarrow> err_class e = AlreadyExists"

definition IsConflict :: "go_error \<Rightarrow> bool" where
  "IsConflict e \<longleftrightarrow> err_class e = Conflict"

definition IsInvalid :: "go_error \<Rightarrow> bool" where
  "IsInvalid e \<longleftrightarrow> err_class e = Invalid"

definition IsNotRegisteredError :: "go_error \<Rightarrow> bool" where
  "IsNotRegisteredError e \<longleftrightarrow> err_class e = NotRegistered"

lemmas err_defs = IsNotFound_def IsAlreadyExists_def IsConflict_def IsInvalid_def
  IsNotRegisteredError_def

text \<open>\<open>fmt.Errorf\<close> without \<open>%w\<close> loses the class; \<open>errors.Wrap\<close> keeps it.\<close>

definition Errorf :: "string \<Rightarrow> go_error" where
  "Errorf s = GoError Unclassified s"

definition err_wrap :: "go_error \<Rightarrow> string \<Rightarrow> go_error" where
  "err_wrap e msg = GoError (err_class e) (msg @ '': '' @ err_text e)"

lemma err_class_Errorf [simp]: "err_class (Errorf s) = Unclassified"
  by (simp add: Errorf_def)

lemma err_class_wrap [simp]: "err_class (err_wrap e m) = err_class e"
  by (simp add: err_wrap_def)

section \<open>Package strings\<close>

text \<open>\<open>strings.Split\<close> with a one-byte separator: never empty, one element more than separators.\<close>

fun split_on :: "char \<Rightarrow> string \<Rightarrow> string list" where
  "split_on c [] = [[]]"
| "split_on c (x # xs) =
     (if x = c then [] # split_on c xs
      else (case split_on c xs of [] \<Rightarrow> [[x]] | w # ws \<Rightarrow> (x # w) # ws))"

text \<open>\<open>strings.SplitN(s, c, 2)\<close>: cut at the first separator only.\<close>

definition split_first :: "char \<Rightarrow> string \<Rightarrow> string list" where
  "split_first c s =
     (if c \<in> set s then [takeWhile (\<lambda>x. x \<noteq> c) s, tl (dropWhile (\<lambda>x. x \<noteq> c) s)] else [s])"

fun join_with :: "string \<Rightarrow> string list \<Rightarrow> string" where
  "join_with sep [] = []"
| "join_with sep [w] = w"
| "join_with sep (w # ws) = w @ sep @ join_with sep ws"

definition has_suffix :: "string \<Rightarrow> string \<Rightarrow> bool" where
  "has_suffix s suf \<longleftrightarrow> length suf \<le> length s \<and> drop (length s - length suf) s = suf"

lemma split_on_nonempty [simp]: "split_on c s \<noteq> []"
  by (induction s) (auto split: list.splits)

lemma length_split_on: "length (split_on c s) = Suc (length (filter (\<lambda>x. x = c) s))"
  by (induction s) (auto split: list.splits)

lemma split_on_no_sep: "c \<notin> set s \<Longrightarrow> split_on c s = [s]"
  by (induction s) auto

lemma split_on_append_sep:
  "c \<notin> set a \<Longrightarrow> split_on c (a @ c # b) = a # split_on c b"
  by (induction a) auto

lemma has_suffix_append [simp]: "has_suffix (s @ suf) suf"
  by (simp add: has_suffix_def)

text \<open>\<open>strconv.Itoa\<close> and \<open>FormatInt(n, 10)\<close>: decimal digits, a minus sign for a negative value.\<close>

fun digits_of :: "nat \<Rightarrow> string" where
  "digits_of n = (if n < 10 then [char_of (48 + n)]
                  else digits_of (n div 10) @ [char_of (48 + n mod 10)])"

declare digits_of.simps [simp del]

definition itoa :: "int \<Rightarrow> string" where
  "itoa i = (if i < 0 then ''-'' @ digits_of (nat (- i)) else digits_of (nat i))"

text \<open>The verb \<open>%q\<close>, for printable text.\<close>

definition quoted :: "string \<Rightarrow> string" where
  "quoted s = CHR 0x22 # concat (map (\<lambda>c. if c = CHR 0x22 \<or> c = CHR 0x5C then [CHR 0x5C, c] else [c]) s) @ [CHR 0x22]"

text \<open>\<open>len(s) > 256\<close> bounds of log messages: \<open>s[0:253] + "..."\<close>.\<close>

definition truncate_message :: "string \<Rightarrow> string" where
  "truncate_message m = (if length m > 256 then take 253 m @ ''...'' else m)"

lemma length_truncate_message: "length (truncate_message m) \<le> 256"
  by (simp add: truncate_message_def)

section \<open>Go maps\<close>

text \<open>
  A Go map is an association list with distinct keys. Reading is \<open>map_of\<close>. A write replaces the
  entry or adds one; \<open>delete\<close> removes it. Go leaves the order of \<open>range\<close> open, so every loop
  over a map either does not depend on the order or takes the order as a parameter.
\<close>

fun map_put :: "'k \<Rightarrow> 'v \<Rightarrow> ('k \<times> 'v) list \<Rightarrow> ('k \<times> 'v) list" where
  "map_put k v [] = [(k, v)]"
| "map_put k v ((a, b) # m) = (if a = k then (k, v) # m else (a, b) # map_put k v m)"

definition map_del :: "'k \<Rightarrow> ('k \<times> 'v) list \<Rightarrow> ('k \<times> 'v) list" where
  "map_del k m = filter (\<lambda>p. fst p \<noteq> k) m"

lemma map_of_map_put [simp]: "map_of (map_put k v m) = (map_of m)(k \<mapsto> v)"
  by (induction k v m rule: map_put.induct) auto

lemma map_of_map_del [simp]: "map_of (map_del k m) = (map_of m)(k := None)"
  by (induction m) (auto simp: map_del_def)

lemma keys_map_put [simp]: "fst ` set (map_put k v m) = insert k (fst ` set m)"
  by (induction k v m rule: map_put.induct) auto

lemma keys_map_del [simp]: "fst ` set (map_del k m) = fst ` set m - {k}"
  by (auto simp: map_del_def)

lemma set_keys_map_put [simp]: "set (map fst (map_put k v m)) = insert k (set (map fst m))"
  by (induction k v m rule: map_put.induct) auto

lemma distinct_map_put [simp]:
  "distinct (map fst m) \<Longrightarrow> distinct (map fst (map_put k v m))"
  by (induction k v m rule: map_put.induct) (auto simp del: set_map)

lemma distinct_map_del [simp]: "distinct (map fst m) \<Longrightarrow> distinct (map fst (map_del k m))"
  by (simp add: map_del_def distinct_map_filter)

lemma set_map_del [simp]: "set (map_del k m) = {p \<in> set m. fst p \<noteq> k}"
  by (simp add: map_del_def)

lemma distinct_map_ConsD: "distinct (map f (x # xs)) \<Longrightarrow> y \<in> set xs \<Longrightarrow> f y \<noteq> f x"
  by (metis distinct.simps(2) image_eqI list.set_map list.simps(9))

section \<open>Package sort\<close>

text \<open>
  \<open>sort.Slice\<close> and \<open>sort.Sort\<close> promise a permutation in which no element is less than an
  earlier one. The clients' lemmas below use nothing else.
\<close>

locale go_sort =
  fixes lt :: "'a \<Rightarrow> 'a \<Rightarrow> bool"
    and sort :: "'a list \<Rightarrow> 'a list"
  assumes sort_perm: "mset (sort xs) = mset xs"
    and sort_sorted: "sorted_wrt (\<lambda>a b. \<not> lt b a) (sort xs)"
begin

lemma set_sort: "set (sort xs) = set xs"
  using sort_perm [of xs] by (rule mset_eq_setD)

lemma length_sort: "length (sort xs) = length xs"
  using sort_perm [of xs] by (rule mset_eq_length)

lemma sort_Nil_iff: "sort xs = [] \<longleftrightarrow> xs = []"
  using length_sort [of xs] by auto

lemma distinct_sort: "distinct (map f (sort xs)) \<longleftrightarrow> distinct (map f xs)"
proof -
  have "mset (map f (sort xs)) = mset (map f xs)"
    by (simp only: mset_map sort_perm)
  then show ?thesis by (rule mset_eq_imp_distinct_iff)
qed

lemma hd_sort_min: "xs \<noteq> [] \<Longrightarrow> x \<in> set xs \<Longrightarrow> x \<noteq> hd (sort xs) \<Longrightarrow> \<not> lt x (hd (sort xs))"
  using sort_sorted [of xs] set_sort [of xs] by (cases "sort xs") auto

end

text \<open>
  A comparator that is a strict weak order, and the insertion sort that package \<open>sort\<close> runs on
  short slices: each element moves left past the sorted prefix (kept reversed) while it is less
  than its neighbour.
\<close>

fun insert_back :: "('a \<Rightarrow> 'a \<Rightarrow> bool) \<Rightarrow> 'a \<Rightarrow> 'a list \<Rightarrow> 'a list" where
  "insert_back lt x [] = [x]"
| "insert_back lt x (y # ys) = (if lt x y then y # insert_back lt x ys else x # y # ys)"

definition sort_slice :: "('a \<Rightarrow> 'a \<Rightarrow> bool) \<Rightarrow> 'a list \<Rightarrow> 'a list" where
  "sort_slice lt xs = rev (foldl (\<lambda>acc x. insert_back lt x acc) [] xs)"

lemma mset_insert_back [simp]: "mset (insert_back lt x ys) = add_mset x (mset ys)"
  by (induction ys) auto

lemma set_insert_back [simp]: "set (insert_back lt x ys) = insert x (set ys)"
  by (metis mset_insert_back set_mset_add_mset_insert set_mset_mset)

lemma mset_insert_fold:
  "mset (foldl (\<lambda>acc x. insert_back lt x acc) acc xs) = mset xs + mset acc"
  by (induction xs arbitrary: acc) auto

lemma mset_sort_slice [simp]: "mset (sort_slice lt xs) = mset xs"
  by (simp add: sort_slice_def mset_insert_fold)

locale weak_order =
  fixes lt :: "'a \<Rightarrow> 'a \<Rightarrow> bool"
  assumes less_asym: "lt a b \<Longrightarrow> \<not> lt b a"
    and less_negtrans: "\<not> lt a b \<Longrightarrow> \<not> lt b c \<Longrightarrow> \<not> lt a c"
begin

lemma insert_back_sorted:
  "sorted_wrt (\<lambda>a b. \<not> lt a b) ys \<Longrightarrow> sorted_wrt (\<lambda>a b. \<not> lt a b) (insert_back lt x ys)"
proof (induction ys)
  case Nil
  then show ?case by simp
next
  case (Cons y ys)
  then show ?case
    by (auto dest: less_asym less_negtrans)
qed

lemma insert_fold_sorted:
  "sorted_wrt (\<lambda>a b. \<not> lt a b) acc \<Longrightarrow>
   sorted_wrt (\<lambda>a b. \<not> lt a b) (foldl (\<lambda>acc x. insert_back lt x acc) acc xs)"
  by (induction xs arbitrary: acc) (auto intro: insert_back_sorted)

lemma sort_slice_sorted: "sorted_wrt (\<lambda>a b. \<not> lt b a) (sort_slice lt xs)"
  using insert_fold_sorted [of "[]" xs] by (simp add: sort_slice_def sorted_wrt_rev)

end

sublocale weak_order \<subseteq> go_sort lt "sort_slice lt"
  by unfold_locales (auto simp: sort_slice_sorted)

section \<open>Keyed stores\<close>

text \<open>
  The contract between a store of entries identified by a key and the code that edits it through
  \<open>put\<close> and \<open>del\<close>: what a lookup sees after each operation, up to the observable state of an
  entry (\<open>same\<close>), and that both keep the store's invariant.
\<close>

locale key_store =
  fixes get :: "'s \<Rightarrow> 'k \<Rightarrow> 'v option"
    and put :: "'s \<Rightarrow> 'v \<Rightarrow> 's"
    and del :: "'s \<Rightarrow> 'k \<Rightarrow> 's"
    and key :: "'v \<Rightarrow> 'k"
    and same :: "'v \<Rightarrow> 'v \<Rightarrow> bool"
    and inv :: "'s \<Rightarrow> bool"
  assumes inv_put: "inv s \<Longrightarrow> inv (put s v)"
    and inv_del: "inv s \<Longrightarrow> inv (del s k)"
    and get_put_same: "inv s \<Longrightarrow> \<exists>v'. get (put s v) (key v) = Some v' \<and> same v' v"
    and get_put_other: "inv s \<Longrightarrow> k \<noteq> key v \<Longrightarrow> get (put s v) k = get s k"
    and get_del: "inv s \<Longrightarrow> get (del s k) k' = (if k' = k then None else get s k')"

datatype ('v, 'k) edit = Put 'v | Del 'k

context key_store
begin

fun edit_key :: "('v, 'k) edit \<Rightarrow> 'k" where
  "edit_key (Put v) = key v"
| "edit_key (Del k) = k"

fun run_edits :: "'s \<Rightarrow> ('v, 'k) edit list \<Rightarrow> 's" where
  "run_edits s [] = s"
| "run_edits s (Put v # es) = run_edits (put s v) es"
| "run_edits s (Del k # es) = run_edits (del s k) es"

lemma run_edits_append: "run_edits s (xs @ ys) = run_edits (run_edits s xs) ys"
  by (induction s xs rule: run_edits.induct) auto

lemma run_edits_inv: "inv s \<Longrightarrow> inv (run_edits s es)"
  by (induction s es rule: run_edits.induct) (auto intro: inv_put inv_del)

lemma run_edits_other:
  "inv s \<Longrightarrow> k \<notin> edit_key ` set es \<Longrightarrow> get (run_edits s es) k = get s k"
  by (induction s es rule: run_edits.induct) (auto simp: get_put_other get_del inv_put inv_del)

lemma run_edits_put:
  "inv s \<Longrightarrow> distinct (map edit_key es) \<Longrightarrow> Put v \<in> set es \<Longrightarrow>
   \<exists>v'. get (run_edits s es) (key v) = Some v' \<and> same v' v"
proof (induction s es rule: run_edits.induct)
  case (2 s u es)
  show ?case
  proof (cases "v = u")
    case True
    with "2.prems" have "get (run_edits (put s u) es) (key v) = get (put s u) (key v)"
      by (intro run_edits_other) (auto intro: inv_put)
    with True "2.prems" show ?thesis by (auto simp: get_put_same)
  next
    case False
    with "2" show ?thesis by (auto intro: inv_put)
  qed
qed (auto intro: inv_put inv_del)

lemma run_edits_del:
  "inv s \<Longrightarrow> distinct (map edit_key es) \<Longrightarrow> Del k \<in> set es \<Longrightarrow> get (run_edits s es) k = None"
proof (induction s es rule: run_edits.induct)
  case (3 s j es)
  show ?case
  proof (cases "k = j")
    case True
    with "3.prems" have "get (run_edits (del s j) es) k = get (del s j) k"
      by (intro run_edits_other) (auto intro: inv_del)
    with True "3.prems" show ?thesis by (simp add: get_del)
  next
    case False
    with "3" show ?thesis by (auto intro: inv_del)
  qed
qed (auto intro: inv_put inv_del)

end

end
