(* ===== verification/Logging.thy ===== *)
theory Logging
  imports Prelude
begin

text \<open>
  Log output: the sink of \<open>pkg/util/log/log.go\<close>, the formatting logger of
  \<open>pkg/util/loghelper/loghelper.go\<close>, and between them the \<open>Logger\<close> of the vendored
  \<open>github.com/go-logr/logr\<close>. A call gives the lines it hands to klog. controller-runtime's delegating
  logger, which passes every call on to the one \<open>main\<close> has set, is left out, and so is \<open>fmt.Sprintf\<close>:
  a message comes formatted.
\<close>

section \<open>The sink (log.go)\<close>

text \<open>A value of a key and value list; \<open>LOther\<close> carries its \<open>%#v\<close> form.\<close>

datatype log_value = LString string | LError go_error | LOther string

definition show_value :: "log_value \<Rightarrow> string" where
  "show_value kv = (case kv of LString t \<Rightarrow> t | LError e \<Rightarrow> err_text e | LOther t \<Rightarrow> t)"

definition formatKeysAndValues :: "log_value list \<Rightarrow> string" where
  "formatKeysAndValues keysAndValues = join_with '' '' (map show_value keysAndValues)"

record log =
  current :: int
  lgLevel :: int
  prefixes :: "string list"
  depth :: int

definition formatMsg :: "log \<Rightarrow> string \<Rightarrow> log_value list \<Rightarrow> string" where
  "formatMsg l msg keysAndValues =
     (let prefix = join_with '': '' (prefixes l);
          addString = formatKeysAndValues keysAndValues;
          retString = (if prefix \<noteq> [] then prefix @ '': '' @ msg else msg)
      in if addString \<noteq> [] then retString @ '' '' @ addString else retString)"

text \<open>What reaches klog: the severity, the call depth and the text.\<close>

datatype severity = KInfo | KError

type_synonym log_line = "severity \<times> int \<times> string"

definition log_Info :: "log \<Rightarrow> int \<Rightarrow> string \<Rightarrow> log_value list \<Rightarrow> log_line list" where
  "log_Info l level msg keysAndValues = [(KInfo, depth l, formatMsg l msg keysAndValues)]"

definition log_Enabled :: "log \<Rightarrow> int \<Rightarrow> bool" where
  "log_Enabled l level = True"

definition log_Error :: "log \<Rightarrow> go_error \<Rightarrow> string \<Rightarrow> log_value list \<Rightarrow> log_line list" where
  "log_Error l err msg keysAndValues = [(KError, depth l, formatMsg l msg (LError err # keysAndValues))]"

definition log_WithValues :: "log \<Rightarrow> log_value list \<Rightarrow> log" where
  "log_WithValues l keysAndValues = l\<lparr>prefixes := prefixes l @ [formatKeysAndValues keysAndValues]\<rparr>"

definition log_WithName :: "log \<Rightarrow> string \<Rightarrow> log" where
  "log_WithName l name = (if name = [] then l else l\<lparr>prefixes := prefixes l @ [name]\<rparr>)"

section \<open>Sinks and loggers (logr)\<close>

text \<open>The two sinks of log.go.\<close>

datatype sink = LogSink log | Silent

definition sink_Info :: "sink \<Rightarrow> int \<Rightarrow> string \<Rightarrow> log_value list \<Rightarrow> log_line list" where
  "sink_Info s level msg keysAndValues = (case s of LogSink l \<Rightarrow> log_Info l level msg keysAndValues | Silent \<Rightarrow> [])"

definition sink_Enabled :: "sink \<Rightarrow> int \<Rightarrow> bool" where
  "sink_Enabled s level = (case s of LogSink l \<Rightarrow> log_Enabled l level | Silent \<Rightarrow> False)"

definition sink_Error :: "sink \<Rightarrow> go_error \<Rightarrow> string \<Rightarrow> log_value list \<Rightarrow> log_line list" where
  "sink_Error s err msg keysAndValues = (case s of LogSink l \<Rightarrow> log_Error l err msg keysAndValues | Silent \<Rightarrow> [])"

definition sink_WithValues :: "sink \<Rightarrow> log_value list \<Rightarrow> sink" where
  "sink_WithValues s keysAndValues = (case s of LogSink l \<Rightarrow> LogSink (log_WithValues l keysAndValues) | Silent \<Rightarrow> Silent)"

definition sink_WithName :: "sink \<Rightarrow> string \<Rightarrow> sink" where
  "sink_WithName s name = (case s of LogSink l \<Rightarrow> LogSink (log_WithName l name) | Silent \<Rightarrow> Silent)"

record logger =
  lgSink :: sink
  lgV :: int

definition logr_New :: "sink \<Rightarrow> logger" where
  "logr_New s = \<lparr>lgSink = s, lgV = 0\<rparr>"

definition Logger_Enabled :: "logger \<Rightarrow> bool" where
  "Logger_Enabled l = sink_Enabled (lgSink l) (lgV l)"

definition Logger_Info :: "logger \<Rightarrow> string \<Rightarrow> log_value list \<Rightarrow> log_line list" where
  "Logger_Info l msg keysAndValues =
     (if Logger_Enabled l then sink_Info (lgSink l) (lgV l) msg keysAndValues else [])"

definition Logger_Error :: "logger \<Rightarrow> go_error \<Rightarrow> string \<Rightarrow> log_value list \<Rightarrow> log_line list" where
  "Logger_Error l err msg keysAndValues = sink_Error (lgSink l) err msg keysAndValues"

definition Logger_V :: "logger \<Rightarrow> int \<Rightarrow> logger" where
  "Logger_V l level = (let level = (if level < 0 then 0 else level) in l\<lparr>lgV := lgV l + level\<rparr>)"

definition Logger_WithValues :: "logger \<Rightarrow> log_value list \<Rightarrow> logger" where
  "Logger_WithValues l keysAndValues = l\<lparr>lgSink := sink_WithValues (lgSink l) keysAndValues\<rparr>"

definition Logger_WithName :: "logger \<Rightarrow> string \<Rightarrow> logger" where
  "Logger_WithName l name = l\<lparr>lgSink := sink_WithName (lgSink l) name\<rparr>"

definition NewLog :: "int \<Rightarrow> logger" where
  "NewLog level = logr_New (LogSink \<lparr>current = 0, lgLevel = level, prefixes = [], depth = 1\<rparr>)"

text \<open>Methods of the sink that \<open>logr\<close> does not know, so that a logger never reaches them.\<close>

definition log_V :: "log \<Rightarrow> int \<Rightarrow> logger" where
  "log_V l level =
     (if level < lgLevel l then logr_New Silent
      else logr_New (LogSink \<lparr>current = level, lgLevel = lgLevel l, prefixes = prefixes l, depth = depth l\<rparr>))"

definition log_WithDepth :: "log \<Rightarrow> int \<Rightarrow> logger" where
  "log_WithDepth l d = logr_New (LogSink \<lparr>current = current l, lgLevel = lgLevel l, prefixes = prefixes l, depth = d\<rparr>)"

section \<open>The formatting logger (loghelper.go)\<close>

text \<open>
  \<open>WithCallDepth\<close> changes nothing on these sinks: \<open>logr\<close> asks for a method \<open>WithCallDepth\<close>, which
  they do not have.
\<close>

definition loghelper_New :: "logger \<Rightarrow> string \<Rightarrow> logger" where
  "loghelper_New Log name = Logger_WithName Log name"

definition NewFromExisting :: "logger \<Rightarrow> string \<Rightarrow> logger" where
  "NewFromExisting log name = Logger_WithName log name"

definition NewWithoutName :: "logger \<Rightarrow> logger" where
  "NewWithoutName log = Logger_WithName log []"

definition loghelper_WithName :: "logger \<Rightarrow> string \<Rightarrow> logger" where
  "loghelper_WithName l name = Logger_WithName l name"

definition Infof :: "logger \<Rightarrow> string \<Rightarrow> log_line list" where
  "Infof l text = Logger_Info l text []"

definition Debugf :: "logger \<Rightarrow> string \<Rightarrow> log_line list" where
  "Debugf l text = Logger_Info (Logger_V l 1) text []"

definition log_Errorf :: "logger \<Rightarrow> string \<Rightarrow> log_line list" where
  "log_Errorf l text = Logger_Error l (Errorf text) [] []"

text \<open>The functions of the package, on the logger that \<open>main\<close> has set.\<close>

definition loghelper_Infof :: "logger \<Rightarrow> string \<Rightarrow> log_line list" where
  "loghelper_Infof Log text = Infof (Logger_WithName Log []) text"

definition loghelper_Errorf :: "logger \<Rightarrow> string \<Rightarrow> log_line list" where
  "loghelper_Errorf Log text = log_Errorf (Logger_WithName Log []) text"

section \<open>Loggers derived from the one that main sets\<close>

datatype derivation = ByName string | ByValues "log_value list" | ByV int

fun derive :: "derivation \<Rightarrow> logger \<Rightarrow> logger" where
  "derive (ByName name) l = Logger_WithName l name"
| "derive (ByValues kvs) l = Logger_WithValues l kvs"
| "derive (ByV level) l = Logger_V l level"

fun derived_prefix :: "derivation \<Rightarrow> string list" where
  "derived_prefix (ByName name) = (if name = [] then [] else [name])"
| "derived_prefix (ByValues kvs) = [formatKeysAndValues kvs]"
| "derived_prefix (ByV level) = []"

definition prints_as :: "string list \<Rightarrow> logger \<Rightarrow> bool" where
  "prints_as ps l \<longleftrightarrow> (\<exists>s. lgSink l = LogSink s \<and> depth s = 1 \<and> prefixes s = ps)"

lemma NewLog_prints: "prints_as [] (NewLog level)"
  by (simp add: prints_as_def NewLog_def logr_New_def)

lemma derive_prints: "prints_as ps l \<Longrightarrow> prints_as (ps @ derived_prefix d) (derive d l)"
  by (cases d) (auto simp: prints_as_def Logger_WithName_def sink_WithName_def log_WithName_def Logger_WithValues_def
      sink_WithValues_def log_WithValues_def Logger_V_def Let_def)

lemma derived_prints: "prints_as ps l \<Longrightarrow> prints_as (ps @ concat (map derived_prefix ds)) (fold derive ds l)"
proof (induction ds arbitrary: ps l)
  case Nil
  then show ?case by simp
next
  case (Cons d ds)
  from Cons.IH [OF derive_prints [OF Cons.prems, of d]] show ?case by simp
qed

text \<open>The text of a line from the prefixes, the message and the values.\<close>

definition line_text :: "string list \<Rightarrow> string \<Rightarrow> string \<Rightarrow> string" where
  "line_text ps msg values =
     (let prefix = join_with '': '' ps in
      (if prefix = [] then msg else prefix @ '': '' @ msg) @ (if values = [] then [] else '' '' @ values))"

lemma prints_lines:
  assumes "prints_as ps l"
  shows "Logger_Info l msg kvs = [(KInfo, 1, line_text ps msg (formatKeysAndValues kvs))]"
    and "Logger_Error l err msg kvs = [(KError, 1, line_text ps msg (formatKeysAndValues (LError err # kvs)))]"
  using assms
  by (auto simp: prints_as_def Logger_Info_def Logger_Enabled_def sink_Enabled_def log_Enabled_def sink_Info_def
      log_Info_def Logger_Error_def sink_Error_def log_Error_def formatMsg_def line_text_def Let_def)

lemma formatKeysAndValues_single [simp]: "formatKeysAndValues [LError (Errorf t)] = t"
  by (simp add: formatKeysAndValues_def show_value_def Errorf_def)

section \<open>Properties\<close>

text \<open>
  Every logger derived from the one that \<open>main\<close> sets, by any names, values and verbosity levels,
  prints every message once, under its names and values in the order they were given; the level that
  \<open>main\<close> chooses and the level of a debug message decide nothing, so \<open>Debugf\<close> prints what \<open>Infof\<close>
  prints, with or without \<open>DEBUG\<close>.
\<close>

theorem loggers_print_everything:
  "let l = fold derive ds (NewLog level); ps = concat (map derived_prefix ds) in
   Infof l text = [(KInfo, 1, line_text ps text [])] \<and>
   Debugf l text = Infof (fold derive ds (NewLog level')) text \<and>
   log_Errorf l text = [(KError, 1, line_text ps [] text)]"
proof -
  have p: "prints_as (concat (map derived_prefix ds)) (fold derive ds (NewLog level))" for level
    using derived_prints [OF NewLog_prints, where ds = ds] by simp
  have v: "prints_as (concat (map derived_prefix ds)) (Logger_V (fold derive ds (NewLog level)) 1)"
    using derive_prints [OF p, where d = "ByV 1"] by simp
  have none: "formatKeysAndValues [] = []" by (simp add: formatKeysAndValues_def)
  show ?thesis
    by (simp add: Let_def Infof_def Debugf_def log_Errorf_def prints_lines [OF p] prints_lines [OF v] none)
qed

end
