(* ===== verification/Api.thy ===== *)
theory Api
  imports Prelude
begin

text \<open>
  The API types of \<open>pkg/apis\<close>: conditions, policies, bundles, violations and policy reports.
  Go's string enumerations stay strings, because values outside the listed constants reach the
  code (an unknown severity, an unvalidated type). Slices are lists (a nil and an empty slice are
  not told apart unless the code asks), maps are association lists, \<open>*T\<close> is an option, and
  \<open>int32\<close> is a 32-bit word. Times are seconds; \<open>zeroTime\<close> is Go's zero time.
\<close>

section \<open>Scalars\<close>

type_synonym int32 = "32 word"
type_synonym int64 = "64 word"
type_synonym gotime = int

definition zeroTime :: gotime where
  "zeroTime = -62135596800"

definition IsZero :: "gotime \<Rightarrow> bool" where
  "IsZero t \<longleftrightarrow> t = zeroTime"

section \<open>Conditions (condition\_types.go)\<close>

abbreviation ReadyCondition :: string where "ReadyCondition \<equiv> ''Ready''"
abbreviation BundleCompiledCondition :: string where "BundleCompiledCondition \<equiv> ''BundleCompiled''"
abbreviation ControllerPolicyReady :: string where "ControllerPolicyReady \<equiv> ''ControllerReady''"
abbreviation WebhookReady :: string where "WebhookReady \<equiv> ''WebhookReady''"

abbreviation ConditionSeverityError :: string where "ConditionSeverityError \<equiv> ''Error''"
abbreviation ConditionSeverityWarning :: string where "ConditionSeverityWarning \<equiv> ''Warning''"
abbreviation ConditionSeverityInfo :: string where "ConditionSeverityInfo \<equiv> ''Info''"
abbreviation ConditionSeverityNone :: string where "ConditionSeverityNone \<equiv> ''''"

abbreviation ConditionTrue :: string where "ConditionTrue \<equiv> ''True''"
abbreviation ConditionFalse :: string where "ConditionFalse \<equiv> ''False''"
abbreviation ConditionUnknown :: string where "ConditionUnknown \<equiv> ''Unknown''"

record Condition =
  cType :: string
  cStatus :: string
  cSeverity :: string
  cLastTransitionTime :: gotime
  cReason :: string
  cMessage :: string

type_synonym Conditions = "Condition list"

section \<open>Policies (jspolicy\_types.go)\<close>

record LabelSelectorRequirement =
  lsKey :: string
  lsOperator :: string
  lsValues :: "string list"

record LabelSelector =
  matchLabels :: "(string \<times> string) list"
  matchExpressions :: "LabelSelectorRequirement list"

record JsPolicySpec =
  Operations :: "string list"
  Resources :: "string list"
  APIGroups :: "string list"
  APIVersions :: "string list"
  Scope :: "string option"
  ReinvocationPolicy :: "string option"
  FailurePolicy :: "string option"
  MatchPolicy :: "string option"
  NamespaceSelector :: "LabelSelector option"
  ObjectSelector :: "LabelSelector option"
  TimeoutSeconds :: "int32 option"
  ViolationPolicy :: "string option"
  AuditPolicy :: "string option"
  AuditLogSize :: "int32 option"
  PType :: string
  Dependencies :: "(string \<times> string) list"
  JavaScript :: string

record JsPolicyStatus =
  stPhase :: string
  stReason :: string
  stMessage :: string
  stConditions :: Conditions
  stObservedGeneration :: int
  stBundleHash :: string

text \<open>Of the object's metadata, what the code reads.\<close>

record JsPolicy =
  pName :: string
  pUID :: string
  pGeneration :: int
  pLabels :: "(string \<times> string) list"
  pAnnotations :: "(string \<times> string) list"
  pSpec :: JsPolicySpec
  pStatus :: JsPolicyStatus

abbreviation PolicyTypeValidating :: string where "PolicyTypeValidating \<equiv> ''Validating''"
abbreviation PolicyTypeMutating :: string where "PolicyTypeMutating \<equiv> ''Mutating''"
abbreviation PolicyTypeController :: string where "PolicyTypeController \<equiv> ''Controller''"

abbreviation ViolationPolicyPolicyDeny :: string where "ViolationPolicyPolicyDeny \<equiv> ''Deny''"
abbreviation ViolationPolicyPolicyWarn :: string where "ViolationPolicyPolicyWarn \<equiv> ''Warn''"
abbreviation ViolationPolicyPolicyDry :: string where "ViolationPolicyPolicyDry \<equiv> ''Dry''"
abbreviation ViolationPolicyPolicyController :: string where
  "ViolationPolicyPolicyController \<equiv> ''Controller''"

abbreviation AuditPolicyLog :: string where "AuditPolicyLog \<equiv> ''Log''"
abbreviation AuditPolicySkip :: string where "AuditPolicySkip \<equiv> ''Skip''"

abbreviation WebhookPhaseSynced :: string where "WebhookPhaseSynced \<equiv> ''Synced''"
abbreviation WebhookPhaseFailed :: string where "WebhookPhaseFailed \<equiv> ''Failed''"

text \<open>\<open>SchemeGroupVersion.String()\<close>.\<close>

abbreviation policyGroupVersion :: string where
  "policyGroupVersion \<equiv> ''policy.jspolicy.com/v1beta1''"

definition GetConditions :: "JsPolicy \<Rightarrow> Conditions" where
  "GetConditions p = stConditions (pStatus p)"

definition SetConditions :: "JsPolicy \<Rightarrow> Conditions \<Rightarrow> JsPolicy" where
  "SetConditions p cs = p\<lparr>pStatus := (pStatus p)\<lparr>stConditions := cs\<rparr>\<rparr>"

record JsPolicyBundle =
  bName :: string
  bBundle :: string

section \<open>Violations (jspolicyviolations\_types.go)\<close>

record RequestInfo =
  riName :: string
  riNamespace :: string
  riKind :: string
  riAPIVersion :: string
  riOperation :: string

record UserInfo =
  uiUsername :: string
  uiUID :: string

record PolicyViolation =
  vAction :: string
  vCode :: int32
  vReason :: string
  vMessage :: string
  vRequestInfo :: RequestInfo
  vUserInfo :: UserInfo
  vTimestamp :: gotime

record JsPolicyViolations =
  jvName :: string
  jvResourceVersion :: string
  jvViolations :: "PolicyViolation list"

section \<open>Policy reports (policyreport\_types.go, clusterpolicyreport\_types.go)\<close>

abbreviation StatusPass :: string where "StatusPass \<equiv> ''pass''"
abbreviation StatusFail :: string where "StatusFail \<equiv> ''fail''"
abbreviation StatusWarn :: string where "StatusWarn \<equiv> ''warn''"
abbreviation StatusError :: string where "StatusError \<equiv> ''error''"
abbreviation StatusSkip :: string where "StatusSkip \<equiv> ''skip''"

abbreviation SeverityHigh :: string where "SeverityHigh \<equiv> ''high''"
abbreviation SeverityMedium :: string where "SeverityMedium \<equiv> ''medium''"
abbreviation SeverityLow :: string where "SeverityLow \<equiv> ''low''"

record PolicyReportSummary =
  sumPass :: int
  sumFail :: int
  sumWarn :: int
  sumError :: int
  sumSkip :: int

record ObjectReference =
  orKind :: string
  orNamespace :: string
  orName :: string
  orAPIVersion :: string
  orUID :: string

record PolicyReportResult =
  prSource :: string
  prPolicy :: string
  prResources :: "ObjectReference list"
  prMessage :: string
  prResult :: string
  prProperties :: "(string \<times> string) list"
  prTimestamp :: gotime
  prCategory :: string
  prSeverity :: string

text \<open>
  \<open>PolicyReport\<close> and \<open>ClusterPolicyReport\<close> have the same fields; the namespace of a cluster
  report is empty.
\<close>

record PolicyReport =
  rpName :: string
  rpNamespace :: string
  rpResourceVersion :: string
  rpSummary :: PolicyReportSummary
  rpResults :: "PolicyReportResult list"

section \<open>The Setter interface\<close>

text \<open>
  What \<open>conditions.Setter\<close> promises its callers: reading back what was written, and that a
  write touches nothing but the conditions.
\<close>

locale conditions_setter =
  fixes get_conditions :: "'o \<Rightarrow> Conditions"
    and set_conditions :: "'o \<Rightarrow> Conditions \<Rightarrow> 'o"
  assumes get_set: "get_conditions (set_conditions x cs) = cs"
    and set_set: "set_conditions (set_conditions x cs) ds = set_conditions x ds"
    and set_get: "set_conditions x (get_conditions x) = x"
begin

lemma set_conditions_inject: "set_conditions x cs = set_conditions x ds \<longleftrightarrow> cs = ds"
  by (metis get_set)

lemma set_conditions_frame:
  "(\<And>y cs. f (set_conditions y cs) = f y) \<Longrightarrow>
   f (foldl (\<lambda>y g. set_conditions y (g (get_conditions y))) x gs) = f x"
  by (induction gs arbitrary: x) auto

lemma fold_set_conditions:
  "get_conditions (foldl (\<lambda>y g. set_conditions y (g (get_conditions y))) x gs)
     = foldl (\<lambda>cs g. g cs) (get_conditions x) gs"
  by (induction gs arbitrary: x) (auto simp: get_set)

end

interpretation js_policy: conditions_setter GetConditions SetConditions
  by unfold_locales (simp_all add: GetConditions_def SetConditions_def)

declare js_policy.get_set [simp]
declare js_policy.set_set [simp]

lemma pSpec_SetConditions [simp]: "pSpec (SetConditions p cs) = pSpec p"
  by (simp add: SetConditions_def)

lemma pName_SetConditions [simp]: "pName (SetConditions p cs) = pName p"
  by (simp add: SetConditions_def)

end
