(* ===== verification/Client.thy ===== *)
theory Client
  imports Api
begin

text \<open>
  The Kubernetes client as the program uses it for one kind of object: every call takes the world
  and returns it changed, so that other writers may act between two calls. Also
  \<open>pkg/util/clienthelper/helper.go\<close>.
\<close>

record ('w, 'o) store_client =
  cGet :: "string \<Rightarrow> string \<Rightarrow> 'w \<Rightarrow> (go_error + 'o) \<times> 'w" \<comment> \<open>namespace, name\<close>
  cCreate :: "'o \<Rightarrow> 'w \<Rightarrow> go_error option \<times> 'w"
  cUpdate :: "'o \<Rightarrow> 'w \<Rightarrow> go_error option \<times> 'w"

section \<open>clienthelper\<close>

text \<open>\<open>setRef\<close> is \<open>ctrl.SetControllerReference\<close>, the owner being part of it.\<close>

definition CreateWithOwner ::
    "('o \<Rightarrow> go_error + 'o) \<Rightarrow> ('w, 'o) store_client \<Rightarrow> 'o \<Rightarrow> 'w \<Rightarrow> go_error option \<times> 'w" where
  "CreateWithOwner setRef c obj w =
     (case setRef obj of Inl err \<Rightarrow> (Some err, w) | Inr obj' \<Rightarrow> cCreate c obj' w)"

definition ServiceName :: "(string \<Rightarrow> string) \<Rightarrow> string" where
  "ServiceName getenv =
     (if getenv ''JS_POLICY_SERVICE_NAME'' \<noteq> [] then getenv ''JS_POLICY_SERVICE_NAME'' else ''jspolicy'')"

definition WebhookURL :: "(string \<Rightarrow> string) \<Rightarrow> string" where
  "WebhookURL getenv =
     (if getenv ''JS_POLICY_WEBHOOK_URL'' \<noteq> [] then getenv ''JS_POLICY_WEBHOOK_URL'' else [])"

definition CurrentNamespace ::
    "(string \<Rightarrow> string) \<Rightarrow> (string \<Rightarrow> go_error + string) \<Rightarrow> go_error + string" where
  "CurrentNamespace getenv readFile =
     (if getenv ''KUBE_NAMESPACE'' \<noteq> [] then Inr (getenv ''KUBE_NAMESPACE'')
      else readFile ''/var/run/secrets/kubernetes.io/serviceaccount/namespace'')"

section \<open>An API server without other writers\<close>

text \<open>
  What the API server's documentation says of a client that is alone: \<open>Get\<close> answers with the
  stored object or a not-found error, \<open>Create\<close> of a new name and \<open>Update\<close> of the version last read
  succeed and store the object up to what the server itself fills in (\<open>same\<close>), and touch no other
  object. \<open>key\<close> is namespace and name.
\<close>

definition quiet_server ::
    "('w, 'o) store_client \<Rightarrow> ('o \<Rightarrow> string \<times> string) \<Rightarrow> ('o \<Rightarrow> 'o \<Rightarrow> bool) \<Rightarrow> ('o \<Rightarrow> string) \<Rightarrow>
     ('w \<Rightarrow> string \<times> string \<Rightarrow> 'o option) \<Rightarrow> bool" where
  "quiet_server c key same version cur \<longleftrightarrow>
     (\<forall>ns n w. case cur w (ns, n) of
        Some x \<Rightarrow> cGet c ns n w = (Inr x, w)
      | None \<Rightarrow> (\<exists>e. cGet c ns n w = (Inl e, w) \<and> IsNotFound e)) \<and>
     (\<forall>x w. cur w (key x) = None \<longrightarrow>
        (\<exists>w' x'. cCreate c x w = (None, w') \<and> cur w' = (cur w)(key x \<mapsto> x') \<and> same x' x)) \<and>
     (\<forall>x w y. cur w (key x) = Some y \<and> version y = version x \<longrightarrow>
        (\<exists>w' x'. cUpdate c x w = (None, w') \<and> cur w' = (cur w)(key x \<mapsto> x') \<and> same x' x)) \<and>
     (\<forall>w k x. cur w k = Some x \<longrightarrow> key x = k)"

lemma quiet_get:
  assumes "quiet_server c key same version cur"
  shows "case cur w (ns, n) of
     Some x \<Rightarrow> cGet c ns n w = (Inr x, w)
   | None \<Rightarrow> (\<exists>e. cGet c ns n w = (Inl e, w) \<and> IsNotFound e)"
  using assms unfolding quiet_server_def by (elim conjE allE)

lemma quiet_create:
  assumes "quiet_server c key same version cur" and "cur w (key x) = None"
  obtains w' x' where "cCreate c x w = (None, w')" "cur w' = (cur w)(key x \<mapsto> x')" "same x' x"
  using assms unfolding quiet_server_def by blast

lemma quiet_update:
  assumes "quiet_server c key same version cur" and "cur w (key x) = Some y"
    and "version y = version x"
  obtains w' x' where "cUpdate c x w = (None, w')" "cur w' = (cur w)(key x \<mapsto> x')" "same x' x"
  using assms unfolding quiet_server_def by metis

lemma quiet_key:
  "quiet_server c key same version cur \<Longrightarrow> cur w k = Some x \<Longrightarrow> key x = k"
  unfolding quiet_server_def by blast

text \<open>
  A store that satisfies it: the world is the map of the stored objects, seen through the entries
  that sit under their own keys.
\<close>

definition keyed :: "('o \<Rightarrow> string \<times> string) \<Rightarrow> (string \<times> string \<Rightarrow> 'o option) \<Rightarrow> string \<times> string \<Rightarrow> 'o option" where
  "keyed key w k = (case w k of Some x \<Rightarrow> if key x = k then Some x else None | None \<Rightarrow> None)"

definition keyed_client :: "('o \<Rightarrow> string \<times> string) \<Rightarrow> (string \<times> string \<Rightarrow> 'o option, 'o) store_client" where
  "keyed_client key =
     \<lparr>cGet = (\<lambda>ns n w. case keyed key w (ns, n) of
                None \<Rightarrow> (Inl (GoError NotFound ''not found''), w) | Some x \<Rightarrow> (Inr x, w)),
      cCreate = (\<lambda>x w. if keyed key w (key x) = None then (None, w(key x \<mapsto> x))
                       else (Some (GoError AlreadyExists ''already exists''), w)),
      cUpdate = (\<lambda>x w. (None, w(key x \<mapsto> x)))\<rparr>"

lemma keyed_upd [simp]: "keyed key (w(key x \<mapsto> x)) = (keyed key w)(key x \<mapsto> x)"
  by (auto simp: keyed_def)

lemma keyed_key: "keyed key w k = Some x \<Longrightarrow> key x = k"
  by (auto simp: keyed_def split: option.splits if_splits)

lemma keyed_client_get:
  "case keyed key w (ns, n) of
     Some x \<Rightarrow> cGet (keyed_client key) ns n w = (Inr x, w)
   | None \<Rightarrow> (\<exists>e. cGet (keyed_client key) ns n w = (Inl e, w) \<and> IsNotFound e)"
  by (simp add: keyed_client_def IsNotFound_def split: option.split)

lemma keyed_client_quiet:
  assumes "\<And>x. same x x"
  shows "quiet_server (keyed_client key) key same version (keyed key)"
  unfolding quiet_server_def
proof (intro conjI)
  show "\<forall>ns n w. case keyed key w (ns, n) of
      Some x \<Rightarrow> cGet (keyed_client key) ns n w = (Inr x, w)
    | None \<Rightarrow> (\<exists>e. cGet (keyed_client key) ns n w = (Inl e, w) \<and> IsNotFound e)"
    using keyed_client_get by blast
qed (use assms in \<open>simp_all add: keyed_client_def keyed_key, auto\<close>)

end
