(* ===== verification/Election.thy ===== *)
theory Election
  imports Client
begin

text \<open>
  Which replica runs the controllers: the configuration that \<open>pkg/leaderelection/leaderelection.go\<close>
  hands to the vendored elector of client-go (\<open>vendor/k8s.io/client-go/tools/leaderelection\<close>), and
  that elector for any number of replicas with a clock in seconds, as far as the configuration and the two
  callbacks decide what happens: \<open>tryAcquireOrRenew\<close>, the deadline of \<open>renew\<close>, and \<open>Run\<close>, which
  calls \<open>OnStoppedLeading\<close>, that is \<open>os.Exit(1)\<close>, whenever it returns.
\<close>

section \<open>The configuration\<close>

record election_config =
  elNamespace :: string
  elName :: string
  elIdentity :: string
  LeaseDuration :: nat \<comment> \<open>seconds\<close>
  RenewDeadline :: nat
  RetryPeriod :: nat

record election_env =
  leGetenv :: "string \<Rightarrow> string"
  leReadFile :: "string \<Rightarrow> go_error + string"
  leNewForConfig :: "string \<Rightarrow> go_error option" \<comment> \<open>by user agent suffix\<close>
  leHostname :: "go_error + string"

text \<open>What \<open>StartLeaderElection\<close> does before it blocks in \<open>RunOrDie\<close>.\<close>

definition StartLeaderElection :: "election_env \<Rightarrow> go_error + election_config" where
  "StartLeaderElection env =
     (case CurrentNamespace (leGetenv env) (leReadFile env) of
        Inl err \<Rightarrow> Inl (err_wrap err ''get current namespace'')
      | Inr namespace \<Rightarrow>
     (case leNewForConfig env [] of
        Some err \<Rightarrow> Inl (err_wrap err ''create kubernetes client'')
      | None \<Rightarrow>
     (case leNewForConfig env ''leader-election'' of
        Some err \<Rightarrow> Inl (err_wrap err ''create leader election client'')
      | None \<Rightarrow>
     (case leHostname env of
        Inl err \<Rightarrow> Inl err
      | Inr hostname \<Rightarrow>
          Inr \<lparr>elNamespace = namespace, elName = ''jspolicy-controller'',
               elIdentity = hostname @ ''-external-jspolicy-controller'',
               LeaseDuration = 60, RenewDeadline = 40, RetryPeriod = 15\<rparr>))))"

text \<open>The checks of \<open>NewLeaderElector\<close>; \<open>RunOrDie\<close> panics with the error. The jitter factor is 1.2.\<close>

definition NewLeaderElector :: "election_config \<Rightarrow> go_error option" where
  "NewLeaderElector lec =
     (if LeaseDuration lec \<le> RenewDeadline lec then Some (Errorf ''leaseDuration must be greater than renewDeadline'')
      else if 10 * RenewDeadline lec \<le> 12 * RetryPeriod lec
      then Some (Errorf ''renewDeadline must be greater than retryPeriod*JitterFactor'')
      else if LeaseDuration lec < 1 then Some (Errorf ''leaseDuration must be greater than zero'')
      else if RenewDeadline lec < 1 then Some (Errorf ''renewDeadline must be greater than zero'')
      else if RetryPeriod lec < 1 then Some (Errorf ''retryPeriod must be greater than zero'')
      else None)"

section \<open>One try\<close>

text \<open>The record in the lock; replicas are numbered, their identities differ.\<close>

record lease =
  HolderIdentity :: nat
  RenewTime :: nat
  AcquireTime :: nat
  LeaderTransitions :: nat

datatype standing = Campaigning | Leading nat \<comment> \<open>since the answer to the last successful try\<close> | Gone

record candidate =
  standing :: standing
  awaiting :: "(nat \<times> lease) option" \<comment> \<open>a write whose answer is on its way\<close>
  observedRecord :: "lease option"
  observedTime :: nat
  observedRawRecord :: "lease option"
  controllers :: bool

definition IsLeader :: "nat \<Rightarrow> candidate \<Rightarrow> bool" where
  "IsLeader i c = (case observedRecord c of None \<Rightarrow> False | Some r \<Rightarrow> HolderIdentity r = i)"

text \<open>The candidate with what it has read, and the record it writes, unless the lock is held.\<close>

definition observe :: "nat \<Rightarrow> lease \<Rightarrow> candidate \<Rightarrow> candidate" where
  "observe now old c =
     (if observedRawRecord c \<noteq> Some old
      then c\<lparr>observedRecord := Some old, observedTime := now, observedRawRecord := Some old\<rparr> else c)"

definition tryAcquireOrRenew :: "election_config \<Rightarrow> nat \<Rightarrow> nat \<Rightarrow> lease option \<Rightarrow> candidate \<Rightarrow> candidate \<times> lease option" where
  "tryAcquireOrRenew lec now i lock c =
     (case lock of
        None \<Rightarrow> (c, Some \<lparr>HolderIdentity = i, RenewTime = now, AcquireTime = now, LeaderTransitions = 0\<rparr>)
      | Some old \<Rightarrow>
          let c1 = observe now old c in
          if observedTime c1 + LeaseDuration lec > now \<and> \<not> IsLeader i c1 then (c1, None)
          else if IsLeader i c1
          then (c1, Some \<lparr>HolderIdentity = i, RenewTime = now, AcquireTime = AcquireTime old,
                          LeaderTransitions = LeaderTransitions old\<rparr>)
          else (c1, Some \<lparr>HolderIdentity = i, RenewTime = now, AcquireTime = now,
                          LeaderTransitions = LeaderTransitions old + 1\<rparr>))"

section \<open>The replicas\<close>

record election =
  clock :: nat
  lock :: "lease option"
  candidates :: "nat \<Rightarrow> candidate"

definition new_candidate :: candidate where
  "new_candidate = \<lparr>standing = Campaigning, awaiting = None, observedRecord = None, observedTime = 0,
                    observedRawRecord = None, controllers = False\<rparr>"

definition new_election :: election where
  "new_election = \<lparr>clock = 0, lock = None, candidates = (\<lambda>_. new_candidate)\<rparr>"

text \<open>
  \<open>renew\<close> waits \<open>RetryPeriod\<close> after a success and then tries for \<open>RenewDeadline\<close>: a leader whose
  tries fail stops leading at the latest when both have passed. An answer takes at most \<open>delay\<close>.
\<close>

definition in_time :: "election_config \<Rightarrow> nat \<Rightarrow> nat \<Rightarrow> candidate \<Rightarrow> bool" where
  "in_time lec delay now c \<longleftrightarrow>
     (\<forall>r. standing c = Leading r \<longrightarrow> now < r + RetryPeriod lec + RenewDeadline lec) \<and>
     (\<forall>t l. awaiting c = Some (t, l) \<longrightarrow> now < t + delay)"

inductive election_step :: "election_config \<Rightarrow> nat \<Rightarrow> election \<Rightarrow> election \<Rightarrow> bool" for lec delay where
  ticks: "\<forall>i. in_time lec delay (clock e) (candidates e i) \<Longrightarrow> election_step lec delay e (e\<lparr>clock := Suc (clock e)\<rparr>)"
| writes:
    "\<lbrakk>candidates e i = c; standing c \<noteq> Gone; awaiting c = None;
      tryAcquireOrRenew lec (clock e) i (lock e) c = (c1, Some l)\<rbrakk> \<Longrightarrow>
     election_step lec delay e
       (e\<lparr>lock := Some l, candidates := (candidates e)(i := c1\<lparr>awaiting := Some (clock e, l)\<rparr>)\<rparr>)"
| writes_unheard:
    "\<lbrakk>candidates e i = c; standing c \<noteq> Gone; awaiting c = None;
      tryAcquireOrRenew lec (clock e) i (lock e) c = (c1, Some l)\<rbrakk> \<Longrightarrow>
     election_step lec delay e (e\<lparr>lock := Some l, candidates := (candidates e)(i := c1)\<rparr>)"
| fails:
    "\<lbrakk>candidates e i = c; standing c \<noteq> Gone; awaiting c = None;
      tryAcquireOrRenew lec (clock e) i (lock e) c = (c1, l)\<rbrakk> \<Longrightarrow>
     election_step lec delay e (e\<lparr>candidates := (candidates e)(i := c1)\<rparr>)"
| hears:
    "\<lbrakk>candidates e i = c; awaiting c = Some (t, l)\<rbrakk> \<Longrightarrow>
     election_step lec delay e
       (e\<lparr>candidates := (candidates e)(i := c\<lparr>standing := Leading (clock e), awaiting := None,
                                             observedRecord := Some l, observedTime := clock e\<rparr>)\<rparr>)"
| runs: \<comment> \<open>\<open>OnStartedLeading\<close>\<close>
    "\<lbrakk>candidates e i = c; standing c = Leading r\<rbrakk> \<Longrightarrow>
     election_step lec delay e (e\<lparr>candidates := (candidates e)(i := c\<lparr>controllers := True\<rparr>)\<rparr>)"
| stops: \<comment> \<open>the lease is lost or the process is asked to end: \<open>OnStoppedLeading\<close>\<close>
    "candidates e i = c \<Longrightarrow>
     election_step lec delay e
       (e\<lparr>candidates := (candidates e)(i := c\<lparr>standing := Gone, awaiting := None, controllers := False\<rparr>)\<rparr>)"
| restarts:
    "\<lbrakk>candidates e i = c; standing c = Gone\<rbrakk> \<Longrightarrow>
     election_step lec delay e (e\<lparr>candidates := (candidates e)(i := new_candidate)\<rparr>)"

inductive election_reachable :: "election_config \<Rightarrow> nat \<Rightarrow> election \<Rightarrow> bool" for lec delay where
  starts: "election_reachable lec delay new_election"
| steps: "election_reachable lec delay e \<Longrightarrow> election_step lec delay e e' \<Longrightarrow> election_reachable lec delay e'"

section \<open>The invariant\<close>

text \<open>What a candidate has observed, against the record that is there.\<close>

definition observation_ok :: "nat \<Rightarrow> lease option \<Rightarrow> candidate \<Rightarrow> bool" where
  "observation_ok now lck c \<longleftrightarrow>
     observedTime c \<le> now \<and>
     (\<forall>r. observedRawRecord c = Some r \<longrightarrow>
        RenewTime r \<le> observedTime c \<and>
        (\<exists>l. lck = Some l \<and> LeaderTransitions r \<le> LeaderTransitions l \<and>
           ((\<exists>ob. observedRecord c = Some ob \<and> HolderIdentity ob = HolderIdentity r) \<or>
            LeaderTransitions r < LeaderTransitions l)))"

text \<open>Whoever leads, or is about to hear that it does, holds the record, and not for too long.\<close>

definition claim_ok :: "election_config \<Rightarrow> nat \<Rightarrow> nat \<Rightarrow> lease option \<Rightarrow> nat \<Rightarrow> candidate \<Rightarrow> bool" where
  "claim_ok lec delay now lck i c \<longleftrightarrow>
     (\<forall>r. standing c = Leading r \<longrightarrow>
        (\<exists>l. lck = Some l \<and> HolderIdentity l = i \<and> r \<le> RenewTime l + delay) \<and>
        now \<le> r + RetryPeriod lec + RenewDeadline lec) \<and>
     (\<forall>t rec. awaiting c = Some (t, rec) \<longrightarrow>
        lck = Some rec \<and> HolderIdentity rec = i \<and> RenewTime rec = t \<and> now \<le> t + delay \<and>
        (\<forall>r. observedRawRecord c = Some r \<longrightarrow> HolderIdentity r = i \<or> LeaderTransitions r < LeaderTransitions rec)) \<and>
     (controllers c \<longrightarrow> (\<exists>r. standing c = Leading r))"

definition election_inv :: "election_config \<Rightarrow> nat \<Rightarrow> election \<Rightarrow> bool" where
  "election_inv lec delay e \<longleftrightarrow>
     (\<forall>l. lock e = Some l \<longrightarrow> RenewTime l \<le> clock e) \<and>
     (\<forall>i. observation_ok (clock e) (lock e) (candidates e i) \<and> claim_ok lec delay (clock e) (lock e) i (candidates e i))"

lemma observe_ok:
  assumes "observation_ok now (Some old) c" and "RenewTime old \<le> now"
  shows "observation_ok now (Some old) (observe now old c)"
    and "observedRawRecord (observe now old c) = Some old"
    and "IsLeader i (observe now old c) \<longleftrightarrow> HolderIdentity old = i"
    and "RenewTime old \<le> observedTime (observe now old c)"
  using assms by (auto simp: observe_def observation_ok_def IsLeader_def split: option.splits)

lemma observe_same [simp]:
  "standing (observe now old c) = standing c" "awaiting (observe now old c) = awaiting c"
  "controllers (observe now old c) = controllers c"
  by (simp_all add: observe_def)

text \<open>What a try leaves in the candidate, and what it may write over the record that is there.\<close>

lemma try_result:
  assumes "tryAcquireOrRenew lec now i lck c = (c1, written)"
    and "observation_ok now lck c" and "\<forall>l. lck = Some l \<longrightarrow> RenewTime l \<le> now"
  shows "observation_ok now lck c1" and "standing c1 = standing c" and "awaiting c1 = awaiting c"
    and "controllers c1 = controllers c"
    and "\<forall>new. written = Some new \<longrightarrow> HolderIdentity new = i \<and> RenewTime new = now \<and>
      (\<forall>r. observedRawRecord c1 = Some r \<longrightarrow> HolderIdentity r = i \<or> LeaderTransitions r < LeaderTransitions new) \<and>
      (\<forall>l. lck = Some l \<longrightarrow> LeaderTransitions l \<le> LeaderTransitions new \<and>
         (HolderIdentity l = i \<or> RenewTime l + LeaseDuration lec \<le> now))"
proof -
  have all: "observation_ok now lck c1 \<and> standing c1 = standing c \<and> awaiting c1 = awaiting c \<and> controllers c1 = controllers c \<and>
    (\<forall>new. written = Some new \<longrightarrow> HolderIdentity new = i \<and> RenewTime new = now \<and>
      (\<forall>r. observedRawRecord c1 = Some r \<longrightarrow> HolderIdentity r = i \<or> LeaderTransitions r < LeaderTransitions new) \<and>
      (\<forall>l. lck = Some l \<longrightarrow> LeaderTransitions l \<le> LeaderTransitions new \<and>
         (HolderIdentity l = i \<or> RenewTime l + LeaseDuration lec \<le> now)))"
  proof (cases lck)
    case None
    then have "observedRawRecord c = None" using assms(2) by (auto simp: observation_ok_def)
    then show ?thesis using assms(1,2) None by (auto simp: tryAcquireOrRenew_def)
  next
    case (Some old)
    have ok: "observation_ok now (Some old) c" "RenewTime old \<le> now" using assms(2,3) Some by simp_all
    note o = observe_ok [OF ok]
    show ?thesis
      using assms(1) o(1,2,4) unfolding Some
      by (auto simp: tryAcquireOrRenew_def Let_def o(3) split: if_splits)
  qed
  then show "observation_ok now lck c1" "standing c1 = standing c" "awaiting c1 = awaiting c" "controllers c1 = controllers c"
    "\<forall>new. written = Some new \<longrightarrow> HolderIdentity new = i \<and> RenewTime new = now \<and>
      (\<forall>r. observedRawRecord c1 = Some r \<longrightarrow> HolderIdentity r = i \<or> LeaderTransitions r < LeaderTransitions new) \<and>
      (\<forall>l. lck = Some l \<longrightarrow> LeaderTransitions l \<le> LeaderTransitions new \<and>
         (HolderIdentity l = i \<or> RenewTime l + LeaseDuration lec \<le> now))"
    by blast+
qed

lemma claim_ok_cong:
  "standing c1 = standing c \<Longrightarrow> awaiting c1 = awaiting c \<Longrightarrow> controllers c1 = controllers c \<Longrightarrow> awaiting c = None \<Longrightarrow>
   claim_ok lec delay now lck i c1 \<longleftrightarrow> claim_ok lec delay now lck i c"
  by (simp add: claim_ok_def)

text \<open>A write leaves the observations true, and nobody else can have a claim then.\<close>

lemma observation_after_write:
  assumes "observation_ok now lck c" and "\<forall>l. lck = Some l \<longrightarrow> LeaderTransitions l \<le> LeaderTransitions new"
  shows "observation_ok now (Some new) c"
proof -
  have "RenewTime r \<le> observedTime c \<and> LeaderTransitions r \<le> LeaderTransitions new \<and>
      ((\<exists>ob. observedRecord c = Some ob \<and> HolderIdentity ob = HolderIdentity r) \<or> LeaderTransitions r < LeaderTransitions new)"
    if r: "observedRawRecord c = Some r" for r
  proof -
    obtain l where "RenewTime r \<le> observedTime c" "lck = Some l" "LeaderTransitions r \<le> LeaderTransitions l"
    "(\<exists>ob. observedRecord c = Some ob \<and> HolderIdentity ob = HolderIdentity r) \<or> LeaderTransitions r < LeaderTransitions l"
      using assms(1) r by (auto simp: observation_ok_def)
    moreover have "LeaderTransitions l \<le> LeaderTransitions new" using assms(2) calculation(2) by blast
    ultimately show ?thesis by auto
  qed
  then show ?thesis using assms(1) by (simp add: observation_ok_def)
qed

lemma others_after_write:
  assumes "claim_ok lec delay now lck j c" and "j \<noteq> i"
    and "\<forall>l. lck = Some l \<longrightarrow> HolderIdentity l = i \<or> RenewTime l + LeaseDuration lec \<le> now"
    and "delay + RetryPeriod lec + RenewDeadline lec < LeaseDuration lec"
  shows "claim_ok lec delay now (Some new) j c"
proof -
  have "standing c \<noteq> Leading r" for r
  proof
    assume "standing c = Leading r"
    then obtain l where "lck = Some l" "HolderIdentity l = j" "r \<le> RenewTime l + delay"
      "now \<le> r + RetryPeriod lec + RenewDeadline lec"
      using assms(1) by (auto simp: claim_ok_def)
    then show False using assms(2-4) by auto
  qed
  moreover have "awaiting c = None"
  proof (rule ccontr)
    assume "awaiting c \<noteq> None"
    then obtain t rec where "lck = Some rec" "HolderIdentity rec = j" "RenewTime rec = t" "now \<le> t + delay"
      using assms(1) by (auto simp: claim_ok_def)
    then show False using assms(2-4) by auto
  qed
  ultimately show ?thesis using assms(1) by (auto simp: claim_ok_def)
qed

lemma write_inv:
  assumes inv: "election_inv lec delay e"
    and long: "delay + RetryPeriod lec + RenewDeadline lec < LeaseDuration lec"
    and c: "awaiting (candidates e i) = None"
    and t: "tryAcquireOrRenew lec (clock e) i (lock e) (candidates e i) = (c1, Some l)"
    and a: "a = None \<or> a = Some (clock e, l)"
  shows "election_inv lec delay (e\<lparr>lock := Some l, candidates := (candidates e)(i := c1\<lparr>awaiting := a\<rparr>)\<rparr>)"
proof -
  have lck: "\<forall>l. lock e = Some l \<longrightarrow> RenewTime l \<le> clock e"
    and ok: "\<And>j. observation_ok (clock e) (lock e) (candidates e j)"
    and claim: "\<And>j. claim_ok lec delay (clock e) (lock e) j (candidates e j)"
    using inv by (simp_all add: election_inv_def)
  note r = try_result [OF t ok lck]
  have new: "HolderIdentity l = i" "RenewTime l = clock e"
    "\<forall>r. observedRawRecord c1 = Some r \<longrightarrow> HolderIdentity r = i \<or> LeaderTransitions r < LeaderTransitions l"
    "\<forall>k. lock e = Some k \<longrightarrow> LeaderTransitions k \<le> LeaderTransitions l"
    "\<forall>k. lock e = Some k \<longrightarrow> HolderIdentity k = i \<or> RenewTime k + LeaseDuration lec \<le> clock e"
    using r(5) by auto
  have "observation_ok (clock e) (Some l) c1" by (rule observation_after_write [OF r(1) new(4)])
  then have self: "observation_ok (clock e) (Some l) (c1\<lparr>awaiting := a\<rparr>)" by (simp add: observation_ok_def)
  have lead: "clock e \<le> q + RetryPeriod lec + RenewDeadline lec \<and> q \<le> clock e + delay" if "standing c1 = Leading q" for q
    using claim [of i] lck that r(2) by (fastforce simp: claim_ok_def)
  have run: "controllers c1 \<longrightarrow> (\<exists>q. standing c1 = Leading q)"
    using claim [of i] r(2,4) by (auto simp: claim_ok_def)
  have "claim_ok lec delay (clock e) (Some l) i (c1\<lparr>awaiting := a\<rparr>)"
    using a new(1-3) lead run by (auto simp: claim_ok_def)
  moreover have "claim_ok lec delay (clock e) (Some l) j (candidates e j)" if "j \<noteq> i" for j
    by (rule others_after_write [OF claim that new(5) long])
  moreover have "observation_ok (clock e) (Some l) (candidates e j)" for j
    by (rule observation_after_write [OF ok new(4)])
  ultimately show ?thesis using self new(2) by (simp add: election_inv_def)
qed

lemma change_inv:
  assumes "election_inv lec delay e" and "observation_ok (clock e) (lock e) c" and "claim_ok lec delay (clock e) (lock e) i c"
  shows "election_inv lec delay (e\<lparr>candidates := (candidates e)(i := c)\<rparr>)"
  using assms by (simp add: election_inv_def)

lemma election_invD:
  assumes "election_inv lec delay e"
  shows "observation_ok (clock e) (lock e) (candidates e i)"
    and "claim_ok lec delay (clock e) (lock e) i (candidates e i)"
    and "\<forall>l. lock e = Some l \<longrightarrow> RenewTime l \<le> clock e"
  using assms by (simp_all add: election_inv_def)

lemma tick_inv:
  assumes "election_inv lec delay e" and "\<forall>i. in_time lec delay (clock e) (candidates e i)"
  shows "election_inv lec delay (e\<lparr>clock := Suc (clock e)\<rparr>)"
proof -
  have "observation_ok (Suc (clock e)) (lock e) (candidates e i)" for i
    using election_invD(1) [OF assms(1), of i] by (auto simp: observation_ok_def)
  moreover have "claim_ok lec delay (Suc (clock e)) (lock e) i (candidates e i)" for i
    using election_invD(2) [OF assms(1), of i] assms(2) [rule_format, of i] by (auto simp: claim_ok_def in_time_def)
  moreover have "\<forall>l. lock e = Some l \<longrightarrow> RenewTime l \<le> Suc (clock e)"
    using election_invD(3) [OF assms(1)] by fastforce
  ultimately show ?thesis by (simp add: election_inv_def)
qed

lemma hear_inv:
  assumes inv: "election_inv lec delay e" and a: "awaiting (candidates e i) = Some (t, l)"
  shows "election_inv lec delay (e\<lparr>candidates := (candidates e)(i := (candidates e i)\<lparr>standing := Leading (clock e),
    awaiting := None, observedRecord := Some l, observedTime := clock e\<rparr>)\<rparr>)"
proof (rule change_inv [OF inv])
  have claim: "lock e = Some l" "HolderIdentity l = i" "RenewTime l = t" "clock e \<le> t + delay"
    "\<forall>r. observedRawRecord (candidates e i) = Some r \<longrightarrow> HolderIdentity r = i \<or> LeaderTransitions r < LeaderTransitions l"
    using election_invD(2) [OF inv, of i] a by (auto simp: claim_ok_def)
  show "observation_ok (clock e) (lock e) ((candidates e i)\<lparr>standing := Leading (clock e), awaiting := None,
      observedRecord := Some l, observedTime := clock e\<rparr>)"
    using election_invD(1) [OF inv, of i] claim by (fastforce simp: observation_ok_def)
  show "claim_ok lec delay (clock e) (lock e) i ((candidates e i)\<lparr>standing := Leading (clock e), awaiting := None,
      observedRecord := Some l, observedTime := clock e\<rparr>)"
    using election_invD(2) [OF inv, of i] claim by (auto simp: claim_ok_def)
qed

lemma election_step_inv:
  assumes "election_step lec delay e e'" and inv: "election_inv lec delay e"
    and long: "delay + RetryPeriod lec + RenewDeadline lec < LeaseDuration lec"
  shows "election_inv lec delay e'"
  using assms(1)
proof cases
  case ticks
  then show ?thesis using tick_inv [OF inv] by simp
next
  case (writes i c c1 l)
  then show ?thesis using write_inv [OF inv long, of i c1 l "Some (clock e, l)"] by simp
next
  case (writes_unheard i c c1 l)
  have "awaiting c1 = None"
    using try_result(3) [OF writes_unheard(5) _ election_invD(3) [OF inv]] election_invD(1) [OF inv, of i] writes_unheard by simp
  then have "c1\<lparr>awaiting := None\<rparr> = c1" by (cases c1) simp
  then show ?thesis using write_inv [OF inv long, of i c1 l None] writes_unheard by simp
next
  case (fails i c c1 l)
  have ok: "observation_ok (clock e) (lock e) c" "claim_ok lec delay (clock e) (lock e) i c"
    using election_invD(1,2) [OF inv, of i] fails(2) by simp_all
  note r = try_result [OF fails(5) ok(1) election_invD(3) [OF inv]]
  have "claim_ok lec delay (clock e) (lock e) i c1" using claim_ok_cong [OF r(2-4) fails(4)] ok(2) by simp
  then show ?thesis unfolding fails(1) by (rule change_inv [OF inv r(1)])
next
  case (hears i c t l)
  then show ?thesis using hear_inv [OF inv, of i t l] by simp
next
  case (runs i c r)
  then show ?thesis unfolding runs(1)
    using election_invD(1,2) [OF inv, of i] by (intro change_inv [OF inv]) (auto simp: observation_ok_def claim_ok_def)
next
  case (stops i c)
  then show ?thesis unfolding stops(1)
    using election_invD(1,2) [OF inv, of i] by (intro change_inv [OF inv]) (auto simp: observation_ok_def claim_ok_def)
next
  case (restarts i c)
  then show ?thesis unfolding restarts(1)
    by (intro change_inv [OF inv]) (auto simp: observation_ok_def claim_ok_def new_candidate_def)
qed

lemma new_election_inv: "election_inv lec delay new_election"
  by (simp add: election_inv_def new_election_def observation_ok_def claim_ok_def new_candidate_def)

lemma election_reachable_inv:
  "election_reachable lec delay e \<Longrightarrow> delay + RetryPeriod lec + RenewDeadline lec < LeaseDuration lec \<Longrightarrow> election_inv lec delay e"
  by (induction rule: election_reachable.induct) (auto intro: new_election_inv election_step_inv)

section \<open>Properties\<close>

text \<open>
  C26: with the configuration of jspolicy the elector starts, and at any time at most one replica leads
  and at most one runs the controllers, the one that holds the lock, whatever tries fail or are lost and
  whichever replicas stop and start again, as long as an answer of the API server takes at most four
  seconds: a lease of 60 seconds outlasts the 15 and 40 in which a leader gives up.
\<close>

theorem one_replica_leads:
  assumes "StartLeaderElection env = Inr lec" and "delay \<le> 4" and "election_reachable lec delay e"
  shows "NewLeaderElector lec = None \<and>
    (controllers (candidates e i) \<longrightarrow> (\<exists>r. standing (candidates e i) = Leading r)) \<and>
    (standing (candidates e i) = Leading r \<longrightarrow> (\<exists>l. lock e = Some l \<and> HolderIdentity l = i)) \<and>
    (standing (candidates e i) = Leading r \<and> standing (candidates e j) = Leading q \<longrightarrow> i = j)"
proof -
  have lec: "LeaseDuration lec = 60" "RenewDeadline lec = 40" "RetryPeriod lec = 15"
    using assms(1) by (auto simp: StartLeaderElection_def split: sum.splits option.splits)
  have inv: "election_inv lec delay e" by (rule election_reachable_inv [OF assms(3)]) (use assms(2) lec in simp)
  have lead: "\<exists>l. lock e = Some l \<and> HolderIdentity l = k" if "standing (candidates e k) = Leading s" for k s
    using election_invD(2) [OF inv, of k] that by (auto simp: claim_ok_def)
  have "NewLeaderElector lec = None" by (simp add: NewLeaderElector_def lec)
  moreover have "controllers (candidates e i) \<longrightarrow> (\<exists>r. standing (candidates e i) = Leading r)"
    using election_invD(2) [OF inv, of i] by (auto simp: claim_ok_def)
  moreover have "i = j" if "standing (candidates e i) = Leading r" "standing (candidates e j) = Leading q"
    using lead [OF that(1)] lead [OF that(2)] by auto
  ultimately show ?thesis using lead by blast
qed

definition example_election_env :: election_env where
  "example_election_env =
     \<lparr>leGetenv = (\<lambda>n. if n = ''KUBE_NAMESPACE'' then ''jspolicy'' else []), leReadFile = (\<lambda>f. Inr []),
      leNewForConfig = (\<lambda>agent. None), leHostname = Inr ''jspolicy-0''\<rparr>"

definition first_lease :: lease where
  "first_lease = \<lparr>HolderIdentity = 0, RenewTime = 0, AcquireTime = 0, LeaderTransitions = 0\<rparr>"

definition first_leader :: candidate where
  "first_leader = new_candidate\<lparr>standing := Leading 0, observedRecord := Some first_lease, controllers := True\<rparr>"

lemma first_leader_reachable:
  "election_reachable lec delay (new_election\<lparr>lock := Some first_lease, candidates := (\<lambda>_. new_candidate)(0 := first_leader)\<rparr>)"
proof -
  let ?c0 = "new_candidate\<lparr>awaiting := Some (0, first_lease)\<rparr>"
  let ?c1 = "new_candidate\<lparr>standing := Leading 0, observedRecord := Some first_lease\<rparr>"
  let ?e = "\<lambda>c. new_election\<lparr>lock := Some first_lease, candidates := (\<lambda>_. new_candidate)(0 := c)\<rparr>"
  have t: "tryAcquireOrRenew lec 0 0 None new_candidate = (new_candidate, Some first_lease)"
    by (simp add: tryAcquireOrRenew_def first_lease_def)
  have "election_step lec delay new_election (?e ?c0)"
    using election_step.writes [of new_election 0 new_candidate lec new_candidate first_lease delay] t
    by (simp add: new_election_def new_candidate_def)
  moreover have "election_step lec delay (?e ?c0) (?e ?c1)"
    using election_step.hears [of "?e ?c0" 0 ?c0 0 first_lease lec delay] by (simp add: new_election_def new_candidate_def)
  moreover have "election_step lec delay (?e ?c1) (?e first_leader)"
    using election_step.runs [of "?e ?c1" 0 ?c1 0 lec delay] by (simp add: first_leader_def)
  ultimately show ?thesis by (blast intro: election_reachable.intros)
qed

theorem one_replica_leads_witness:
  "\<exists>lec e. StartLeaderElection example_election_env = Inr lec \<and> election_reachable lec 4 e \<and>
     controllers (candidates e 0) \<and> \<not> (\<exists>r. standing (candidates e 1) = Leading r)"
proof -
  obtain lec where lec: "StartLeaderElection example_election_env = Inr lec"
    by (simp add: StartLeaderElection_def example_election_env_def CurrentNamespace_def)
  let ?e = "new_election\<lparr>lock := Some first_lease, candidates := (\<lambda>_. new_candidate)(0 := first_leader)\<rparr>"
  have c: "controllers (candidates ?e 0)" "standing (candidates ?e 0) = Leading 0" by (simp_all add: first_leader_def)
  have "\<not> (\<exists>r. standing (candidates ?e 1) = Leading r)"
    using one_replica_leads [OF lec order.refl first_leader_reachable, of 0 0 1] c(2) by auto
  then show ?thesis using lec first_leader_reachable [of lec 4] c(1) by blast
qed

end
