(* ===== verification/Admission.thy ===== *)
theory Admission
  imports Api
begin

text \<open>
  Admission requests and responses (\<open>k8s.io/api/admission/v1\<close>, \<open>controller-runtime\<close>'s
  \<open>webhook/admission\<close>), as the program reads and builds them, and the JSON codec's place in
  the model: JSON documents are their text, and a decoder is a parameter from text to values.
\<close>

type_synonym json = string

record GroupVersionKind =
  gvkGroup :: string
  gvkVersion :: string
  gvkKind :: string

definition GroupVersion_String :: "string \<Rightarrow> string \<Rightarrow> string" where
  "GroupVersion_String grp version = (if length grp > 0 then grp @ ''/'' @ version else version)"

text \<open>\<open>schema.GroupVersionKind.String\<close>.\<close>

definition gvk_String :: "GroupVersionKind \<Rightarrow> string" where
  "gvk_String gvk = gvkGroup gvk @ ''/'' @ gvkVersion gvk @ '', Kind='' @ gvkKind gvk"

record AdmRequest =
  rqUID :: string
  rqKind :: GroupVersionKind
  rqName :: string
  rqNamespace :: string
  rqOperation :: string
  rqUserInfo :: UserInfo
  rqObject :: json
  rqOldObject :: json

record Status =
  sMessage :: string
  sReason :: string
  sCode :: int32

record AdmResponse =
  aUID :: string
  aAllowed :: bool
  aResult :: "Status option"
  aPatches :: "json list"
  aPatch :: "json option"
  aPatchType :: "string option"
  aWarnings :: "string list"

definition emptyResponse :: AdmResponse where
  "emptyResponse = \<lparr>aUID = [], aAllowed = False, aResult = None, aPatches = [], aPatch = None,
     aPatchType = None, aWarnings = []\<rparr>"

definition ValidationResponse :: "bool \<Rightarrow> string \<Rightarrow> AdmResponse" where
  "ValidationResponse allowed reason =
     emptyResponse\<lparr>aAllowed := allowed,
       aResult := Some \<lparr>sMessage = [], sReason = reason, sCode = (if allowed then 200 else 403)\<rparr>\<rparr>"

definition Allowed :: "string \<Rightarrow> AdmResponse" where
  "Allowed reason = ValidationResponse True reason"

definition Denied :: "string \<Rightarrow> AdmResponse" where
  "Denied reason = ValidationResponse False reason"

definition Errored :: "int32 \<Rightarrow> go_error \<Rightarrow> AdmResponse" where
  "Errored code err =
     emptyResponse\<lparr>aResult := Some \<lparr>sMessage = err_text err, sReason = [], sCode = code\<rparr>\<rparr>"

text \<open>\<open>createPatch\<close> is \<open>jsonpatch.CreatePatch\<close>.\<close>

definition PatchResponseFromRaw ::
    "(json \<Rightarrow> json \<Rightarrow> go_error + json list) \<Rightarrow> json \<Rightarrow> json \<Rightarrow> AdmResponse" where
  "PatchResponseFromRaw createPatch original current =
     (case createPatch original current of
        Inl err \<Rightarrow> Errored 500 err
      | Inr patches \<Rightarrow>
          emptyResponse\<lparr>aPatches := patches, aAllowed := True,
            aPatchType := (if length patches = 0 then None else Some ''JSONPatch'')\<rparr>)"

text \<open>\<open>marshal\<close> is \<open>json.Marshal\<close> of the patch list.\<close>

definition Complete ::
    "(json list \<Rightarrow> go_error + json) \<Rightarrow> AdmRequest \<Rightarrow> AdmResponse \<Rightarrow> go_error + AdmResponse" where
  "Complete marshal req r =
     (let st = (case aResult r of None \<Rightarrow> \<lparr>sMessage = [], sReason = [], sCode = 0\<rparr> | Some s \<Rightarrow> s);
          st' = (if sCode st = 0 then st\<lparr>sCode := 200\<rparr> else st);
          r' = r\<lparr>aUID := rqUID req, aResult := Some st'\<rparr>
      in if length (aPatches r) = 0 then Inr r'
         else (case marshal (aPatches r) of
                 Inl err \<Rightarrow> Inl err
               | Inr p \<Rightarrow> Inr (r'\<lparr>aPatch := Some p, aPatchType := Some ''JSONPatch''\<rparr>)))"

lemmas response_defs = Allowed_def Denied_def ValidationResponse_def Errored_def emptyResponse_def

lemma aAllowed_simps [simp]:
  "aAllowed (Allowed m)" "\<not> aAllowed (Denied m)" "\<not> aAllowed (Errored c e)"
  by (simp_all add: response_defs)

lemma aPatches_simps [simp]:
  "aPatches (Allowed m) = []" "aPatches (Denied m) = []" "aPatches (Errored c e) = []"
  by (simp_all add: response_defs)

lemma aWarnings_simps [simp]:
  "aWarnings (Allowed m) = []" "aWarnings (Denied m) = []" "aWarnings (Errored c e) = []"
  by (simp_all add: response_defs)

lemma Complete_frame:
  "Complete marshal req r = Inr r' \<Longrightarrow>
     aAllowed r' = aAllowed r \<and> aUID r' = rqUID req \<and> aWarnings r' = aWarnings r \<and>
     aPatches r' = aPatches r"
  by (auto simp: Complete_def Let_def split: sum.splits if_splits)

end
