(* ===== verification/Vm.thy ===== *)
theory Vm
  imports Admission
begin

text \<open>
  \<open>pkg/vm/vm.go\<close>: what a policy script sees. V8 is not modelled: a script's own statements are
  out of reach, but the host functions that Go gives it and the JavaScript prelude that
  \<open>NewContext\<close> runs are. A host function gets JavaScript values and answers with a Go struct that
  \<open>jsonResponse\<close> turns into a JavaScript value. The JSON codec, \<open>v8go.JSONStringify\<close> and the
  Kubernetes clients are parameters.
\<close>

section \<open>The response object of a policy\<close>

record Response =
  Deny :: bool
  Reason :: string
  Message :: string
  Code :: int64
  Patched :: "json option"
  Warnings :: "string list"
  Reschedule :: bool

definition noResponse :: Response where
  "noResponse = \<lparr>Deny = False, Reason = [], Message = [], Code = 0, Patched = None, Warnings = [],
     Reschedule = False\<rparr>"

text \<open>
  The prelude's functions that write \<open>__response\<close>. All but \<open>warn\<close> end the script through
  \<open>exit\<close>, whose host function terminates the isolate's execution.
\<close>

datatype api_call =
    JsWarn string
  | JsDeny string string int64 \<comment> \<open>message, reason, code\<close>
  | JsAllow
  | JsMutate json
  | JsRequeue string

fun call_effect :: "api_call \<Rightarrow> Response \<Rightarrow> Response" where
  "call_effect (JsWarn message) r = r\<lparr>Warnings := Warnings r @ [message]\<rparr>"
| "call_effect (JsDeny message reason code) r =
     r\<lparr>Deny := True, Message := message, Reason := reason, Code := code\<rparr>"
| "call_effect JsAllow r = r"
| "call_effect (JsMutate obj) r = r\<lparr>Patched := Some obj\<rparr>"
| "call_effect (JsRequeue message) r = r\<lparr>Reschedule := True, Message := message\<rparr>"

fun exits :: "api_call \<Rightarrow> bool" where
  "exits (JsWarn message) = False"
| "exits _ = True"

text \<open>The calls a script would make in order, cut at the first one that exits.\<close>

fun run_calls :: "api_call list \<Rightarrow> Response \<Rightarrow> Response" where
  "run_calls [] r = r"
| "run_calls (c # cs) r = (if exits c then call_effect c r else run_calls cs (call_effect c r))"

section \<open>JavaScript values and host replies\<close>

datatype js_value = JsUndefined | JsString string | JsNumber int | JsObject json

fun IsString :: "js_value \<Rightarrow> bool" where
  "IsString (JsString s) = True"
| "IsString _ = False"

fun value_String :: "js_value \<Rightarrow> string" where
  "value_String (JsString s) = s"
| "value_String JsUndefined = ''undefined''"
| "value_String (JsNumber n) = itoa n"
| "value_String (JsObject j) = ''[object Object]''"

record GetResponse =
  getThrow :: bool
  getReason :: string
  getMessage :: string
  getObject :: "json option"

record ListResponse =
  listThrow :: bool
  listReason :: string
  listMessage :: string
  listList :: "json list"

record ResourceResponse =
  resThrow :: bool
  resObject :: "json option"
  resOk :: bool
  resReason :: string
  resMessage :: string

definition getThrows :: "string \<Rightarrow> string \<Rightarrow> GetResponse" where
  "getThrows reason message =
     \<lparr>getThrow = True, getReason = reason, getMessage = message, getObject = None\<rparr>"

definition listThrows :: "string \<Rightarrow> string \<Rightarrow> ListResponse" where
  "listThrows reason message =
     \<lparr>listThrow = True, listReason = reason, listMessage = message, listList = []\<rparr>"

text \<open>\<open>marshal\<close> is \<open>json.Marshal\<close>, \<open>parse\<close> is \<open>v8go.JSONParse\<close>; a nil value is \<open>None\<close>.\<close>

definition jsonResponse ::
    "('r \<Rightarrow> go_error + json) \<Rightarrow> (json \<Rightarrow> go_error + js_value) \<Rightarrow> 'r \<Rightarrow> js_value option" where
  "jsonResponse marshal parse value =
     (case marshal value of
        Inl err \<Rightarrow> None
      | Inr strVal \<Rightarrow> (case parse strVal of Inl err \<Rightarrow> None | Inr response \<Rightarrow> Some response))"

section \<open>get and list\<close>

text \<open>
  The options argument, absent or undefined, or else read through its JSON text. \<open>GetOptions\<close>
  has one field, the optional \<open>Cache\<close>.
\<close>

definition read_options ::
    "(js_value \<Rightarrow> go_error + string) \<Rightarrow> (string \<Rightarrow> go_error + 'o) \<Rightarrow> js_value option \<Rightarrow>
     (string \<times> string) + 'o option" where
  "read_options stringify unmarshal arg =
     (case arg of
        None \<Rightarrow> Inr None
      | Some v \<Rightarrow>
          if v = JsUndefined then Inr None
          else (case stringify v of
                  Inl err \<Rightarrow> Inl (''StringifyOptions'', err_text err)
                | Inr jsonString \<Rightarrow>
                    (case unmarshal jsonString of
                       Inl err \<Rightarrow> Inl (''UnmarshalOptions'', err_text err)
                     | Inr opts \<Rightarrow> Inr (Some opts))))"

text \<open>\<open>"namespace/name"\<close> has exactly one slash; any other name is used as it is.\<close>

definition split_name :: "string \<Rightarrow> string \<times> string" where
  "split_name name =
     (case split_on (CHR ''/'') name of [ns, n] \<Rightarrow> (ns, n) | _ \<Rightarrow> ([], name))"

type_synonym object_reader = "string \<Rightarrow> string \<Rightarrow> string \<Rightarrow> string \<Rightarrow> go_error + json"
  \<comment> \<open>kind, API version, namespace, name\<close>

definition getFn ::
    "(js_value \<Rightarrow> go_error + string) \<Rightarrow> (string \<Rightarrow> go_error + bool option) \<Rightarrow>
     object_reader \<Rightarrow> object_reader \<Rightarrow> js_value list \<Rightarrow> GetResponse" where
  "getFn stringify unmarshal cachedClient uncachedClient args =
     (if length args \<noteq> 3 \<and> length args \<noteq> 4
      then getThrows ''WrongArguments'' ''three arguments expected. Example get(\"Pod\", \"v1\", \"test\")''
      else if \<not> IsString (args ! 0) \<or> \<not> IsString (args ! 1) \<or> \<not> IsString (args ! 2)
      then getThrows ''WrongArguments'' ''kind, group version and name need to be string values''
      else
        (case read_options stringify unmarshal (if length args = 4 then Some (args ! 3) else None) of
           Inl (reason, message) \<Rightarrow> getThrows reason message
         | Inr getOptions \<Rightarrow>
             let (ns, name) = split_name (value_String (args ! 2));
                 client = (if getOptions = Some (Some False) then uncachedClient else cachedClient)
             in (case client (value_String (args ! 0)) (value_String (args ! 1)) ns name of
                   Inl err \<Rightarrow>
                     if IsNotFound err
                     then \<lparr>getThrow = False, getReason = [], getMessage = [], getObject = None\<rparr>
                     else getThrows ''RetrieveObject'' (err_text err)
                 | Inr obj \<Rightarrow>
                     \<lparr>getThrow = False, getReason = [], getMessage = [], getObject = Some obj\<rparr>)))"

record ListOptions =
  LabelSelectorOpt :: string
  NamespaceOpt :: string
  CacheOpt :: "bool option"

text \<open>A lister takes the list kind, the API version and the options \<open>InNamespace\<close> and \<open>MatchingLabels\<close>.\<close>

type_synonym 'l object_lister =
  "string \<Rightarrow> string \<Rightarrow> string option \<Rightarrow> (string \<times> string) list option \<Rightarrow> go_error + 'l"

text \<open>
  \<open>parseSelector\<close> is \<open>metav1.ParseToLabelSelector\<close>, of which the code uses the nil-able
  \<open>MatchLabels\<close> only; \<open>extract\<close> is \<open>meta.ExtractList\<close>.
\<close>

definition listFn ::
    "(js_value \<Rightarrow> go_error + string) \<Rightarrow> (string \<Rightarrow> go_error + ListOptions) \<Rightarrow>
     (string \<Rightarrow> go_error + (string \<times> string) list option) \<Rightarrow> ('l \<Rightarrow> go_error + json list) \<Rightarrow>
     'l object_lister \<Rightarrow> 'l object_lister \<Rightarrow> js_value list \<Rightarrow> ListResponse" where
  "listFn stringify unmarshal parseSelector extract cachedClient uncachedClient args =
     (if length args \<noteq> 3 \<and> length args \<noteq> 2
      then listThrows ''WrongArguments'' ''three arguments expected. Example list(\"Pod\", \"v1\")''
      else if \<not> IsString (args ! 0) \<or> \<not> IsString (args ! 1)
      then listThrows ''WrongArguments'' ''kind and group version need to be string values''
      else
        let kind = value_String (args ! 0);
            kindList = (if \<not> has_suffix kind ''List'' then kind @ ''List'' else kind)
        in (case read_options stringify unmarshal (if length args = 3 then Some (args ! 2) else None) of
              Inl (reason, message) \<Rightarrow> listThrows reason message
            | Inr listOptions \<Rightarrow>
                let inNamespace = (case listOptions of
                                     Some o1 \<Rightarrow> if NamespaceOpt o1 \<noteq> [] then Some (NamespaceOpt o1) else None
                                   | None \<Rightarrow> None);
                    selector = (case listOptions of
                                  Some o1 \<Rightarrow> if LabelSelectorOpt o1 \<noteq> [] then parseSelector (LabelSelectorOpt o1)
                                            else Inr None
                                | None \<Rightarrow> Inr None);
                    client = (if (\<exists>o1. listOptions = Some o1 \<and> CacheOpt o1 = Some False)
                              then uncachedClient else cachedClient)
                in (case selector of
                      Inl err \<Rightarrow> listThrows ''ParseLabelSelector'' (err_text err)
                    | Inr matchingLabels \<Rightarrow>
                        (case client kindList (value_String (args ! 1)) inNamespace matchingLabels of
                           Inl err \<Rightarrow> listThrows ''ErrorListing'' (err_text err)
                         | Inr unstructuredList \<Rightarrow>
                             (case extract unstructuredList of
                                Inl err \<Rightarrow> listThrows ''ExtractList'' (err_text err)
                              | Inr lst \<Rightarrow>
                                  \<lparr>listThrow = False, listReason = [], listMessage = [], listList = lst\<rparr>)))))"

section \<open>create, update and remove\<close>

text \<open>
  The three write functions differ in the client call and in one thing more: \<open>removeFn\<close> reports a
  bad argument without \<open>Throw\<close>. \<open>call\<close> is the client's operation on the object, which may fill in
  fields; \<open>reasonFor\<close> is \<open>kerrors.ReasonForError\<close>.
\<close>

type_synonym 'w object_writer = "json \<Rightarrow> 'w \<Rightarrow> go_error option \<times> json \<times> 'w"

definition resourceFailure :: "bool \<Rightarrow> string \<Rightarrow> string \<Rightarrow> ResourceResponse" where
  "resourceFailure throws reason message =
     \<lparr>resThrow = throws, resObject = None, resOk = False, resReason = reason, resMessage = message\<rparr>"

definition resourceFn ::
    "bool \<Rightarrow> (js_value \<Rightarrow> go_error + string) \<Rightarrow> (string \<Rightarrow> go_error + json) \<Rightarrow>
     (go_error \<Rightarrow> string) \<Rightarrow> 'w object_writer \<Rightarrow> js_value list \<Rightarrow> 'w \<Rightarrow> ResourceResponse \<times> 'w" where
  "resourceFn throws stringify unmarshal reasonFor call args w =
     (if length args \<noteq> 1
      then (resourceFailure throws ''WrongArguments'' ''single argument expected'', w)
      else
        (case stringify (args ! 0) of
           Inl err \<Rightarrow> (resourceFailure throws ''StringifyObject'' (err_text err), w)
         | Inr str \<Rightarrow>
             (case unmarshal str of
                Inl err \<Rightarrow> (resourceFailure throws ''UnmarshalObject'' (err_text err), w)
              | Inr objParsed \<Rightarrow>
                  (case call objParsed w of
                     (Some err, obj, w') \<Rightarrow> (resourceFailure False (reasonFor err) (err_text err), w')
                   | (None, obj, w') \<Rightarrow>
                       (\<lparr>resThrow = False, resObject = Some obj, resOk = True, resReason = [],
                         resMessage = []\<rparr>, w')))))"

definition createFn ::
    "(js_value \<Rightarrow> go_error + string) \<Rightarrow> (string \<Rightarrow> go_error + json) \<Rightarrow>
     (go_error \<Rightarrow> string) \<Rightarrow> 'w object_writer \<Rightarrow> js_value list \<Rightarrow> 'w \<Rightarrow> ResourceResponse \<times> 'w" where
  "createFn = resourceFn True"

definition updateFn ::
    "(js_value \<Rightarrow> go_error + string) \<Rightarrow> (string \<Rightarrow> go_error + json) \<Rightarrow>
     (go_error \<Rightarrow> string) \<Rightarrow> 'w object_writer \<Rightarrow> js_value list \<Rightarrow> 'w \<Rightarrow> ResourceResponse \<times> 'w" where
  "updateFn = resourceFn True"

definition removeFn ::
    "(js_value \<Rightarrow> go_error + string) \<Rightarrow> (string \<Rightarrow> go_error + json) \<Rightarrow>
     (go_error \<Rightarrow> string) \<Rightarrow> 'w object_writer \<Rightarrow> js_value list \<Rightarrow> 'w \<Rightarrow> ResourceResponse \<times> 'w" where
  "removeFn = resourceFn False"

section \<open>fetchSync\<close>

record FetchOptions =
  fMethod :: string
  fOptHeaders :: "(string \<times> string) list"
  fInsecure :: bool
  fOptBody :: string

definition noFetchOptions :: FetchOptions where
  "noFetchOptions = \<lparr>fMethod = [], fOptHeaders = [], fInsecure = False, fOptBody = []\<rparr>"

record FetchResponse =
  fThrow :: string
  fBody :: string
  fHeaders :: "(string \<times> string) list"
  fStatus :: int
  fStatusText :: string

record HttpRequest =
  hMethod :: string
  hURL :: string
  hBody :: "string option"
  hHeaders :: "(string \<times> string) list"

record HttpResponse =
  hsStatusCode :: int
  hsStatus :: string
  hsHeader :: "(string \<times> string) list" \<comment> \<open>first value of each header\<close>
  hsBody :: "go_error + string"

text \<open>\<open>strings.ToUpper\<close> on ASCII.\<close>

definition to_upper :: "char \<Rightarrow> char" where
  "to_upper c = (let n = (of_char c :: nat) in if 97 \<le> n \<and> n \<le> 122 then char_of (n - 32) else c)"

definition returnFetchError :: "go_error \<Rightarrow> FetchResponse" where
  "returnFetchError fetchErr =
     \<lparr>fThrow = ''fetchSync: '' @ err_text fetchErr, fBody = [], fHeaders = [], fStatus = 0,
      fStatusText = []\<rparr>"

text \<open>
  \<open>newRequest\<close> is the check of \<open>http.NewRequest\<close>, \<open>do_http insecure\<close> the default client or the one
  that skips TLS verification.
\<close>

definition fetchFn ::
    "(js_value \<Rightarrow> go_error + string) \<Rightarrow> (string \<Rightarrow> go_error + FetchOptions) \<Rightarrow>
     (string \<Rightarrow> string \<Rightarrow> string option \<Rightarrow> go_error option) \<Rightarrow>
     (bool \<Rightarrow> HttpRequest \<Rightarrow> go_error + HttpResponse) \<Rightarrow> js_value list \<Rightarrow> FetchResponse" where
  "fetchFn stringify unmarshal newRequest do_http args =
     (case args of
        [] \<Rightarrow> returnFetchError (Errorf ''no arguments provided'')
      | url # rest \<Rightarrow>
          if \<not> IsString url then returnFetchError (Errorf ''url is not a string'')
          else
            (case (if rest \<noteq> [] \<and> hd rest \<noteq> JsUndefined then
                     (case stringify (hd rest) of
                        Inl err \<Rightarrow> Inl (Errorf (''error stringify options: '' @ err_text err))
                      | Inr out \<Rightarrow>
                          (case unmarshal out of
                             Inl err \<Rightarrow> Inl (Errorf (''error unmarshalling options: '' @ err_text err))
                           | Inr o1 \<Rightarrow> Inr o1))
                   else Inr noFetchOptions) of
               Inl err \<Rightarrow> returnFetchError err
             | Inr options \<Rightarrow>
                 let method = (if fMethod options \<noteq> [] then map to_upper (fMethod options) else ''GET'');
                     body = (if fOptBody options \<noteq> [] then Some (fOptBody options) else None)
                 in (case newRequest method (value_String url) body of
                       Some err \<Rightarrow> returnFetchError (Errorf (''create request: '' @ err_text err))
                     | None \<Rightarrow>
                         (case do_http (fInsecure options)
                                 \<lparr>hMethod = method, hURL = value_String url, hBody = body,
                                  hHeaders = fOptHeaders options\<rparr> of
                            Inl err \<Rightarrow> returnFetchError err
                          | Inr res \<Rightarrow>
                              (case hsBody res of
                                 Inl err \<Rightarrow> returnFetchError (err_wrap err ''read body'')
                               | Inr b \<Rightarrow>
                                   \<lparr>fThrow = [], fBody = b, fHeaders = hsHeader res,
                                    fStatus = hsStatusCode res, fStatusText = hsStatus res\<rparr>)))))"

text \<open>The prelude's \<open>fetchSync\<close>: a non-empty \<open>__throw\<close> is thrown; \<open>ok\<close> is a status in the 200s.\<close>

definition js_fetchSync :: "FetchResponse \<Rightarrow> string + (FetchResponse \<times> bool)" where
  "js_fetchSync res =
     (if fThrow res \<noteq> [] then Inl (fThrow res)
      else Inr (res, fStatus res \<ge> 200 \<and> fStatus res < 300))"

section \<open>The prelude's get\<close>

text \<open>\<open>__throw\<close>: a reply with \<open>__throw\<close> set becomes an exception with its reason and message.\<close>

definition js_throw :: "GetResponse \<Rightarrow> (string \<times> string) + GetResponse" where
  "js_throw result = (if getThrow result then Inl (getReason result, getMessage result) else Inr result)"

datatype get_options = NoOptions | SmartCache | Options js_value

definition cacheFalse :: js_value where
  "cacheFalse = JsObject ''{\"cache\":false}''"

definition js_get ::
    "(js_value list \<Rightarrow> GetResponse) \<Rightarrow> js_value \<Rightarrow> js_value \<Rightarrow> js_value \<Rightarrow> get_options \<Rightarrow>
     (string \<times> string) + json option" where
  "js_get host kind groupVersion name options =
     (case options of
        SmartCache \<Rightarrow>
          (case js_throw (host [kind, groupVersion, name]) of
             Inl e \<Rightarrow> Inl e
           | Inr r \<Rightarrow>
               (case getObject r of
                  Some obj \<Rightarrow> Inr (Some obj)
                | None \<Rightarrow> map_sum id getObject (js_throw (host [kind, groupVersion, name, cacheFalse]))))
      | NoOptions \<Rightarrow>
          map_sum id getObject (js_throw (host [kind, groupVersion, name, JsUndefined]))
      | Options v \<Rightarrow> map_sum id getObject (js_throw (host [kind, groupVersion, name, v])))"

section \<open>print, sleep, env and readFileSync\<close>

text \<open>\<open>origin\<close> is the global \<open>__policy\<close>, or the error of reading it; the result is the log line.\<close>

definition printFn ::
    "(js_value \<Rightarrow> go_error + string) \<Rightarrow> go_error + js_value \<Rightarrow> js_value list \<Rightarrow> string option" where
  "printFn stringify origin args =
     (case origin of
        Inl err \<Rightarrow> None
      | Inr p \<Rightarrow>
          let out = concat (map (\<lambda>a. if IsString a then [value_String a]
                                     else (case stringify a of Inl err \<Rightarrow> [] | Inr s \<Rightarrow> [s])) args)
          in Some (''['' @ value_String p @ ''] '' @ join_with '' '' out))"

text \<open>The milliseconds slept (the fraction of a number below 1000 is dropped by the conversion).\<close>

definition sleepFn :: "js_value list \<Rightarrow> int option" where
  "sleepFn args =
     (case args of [JsNumber number] \<Rightarrow> Some (if number > 1000 then 1000 else number) | _ \<Rightarrow> None)"

definition envFn :: "(string \<Rightarrow> string) \<Rightarrow> (string \<Rightarrow> go_error + js_value) \<Rightarrow> js_value list \<Rightarrow> js_value option" where
  "envFn getenv newValue args =
     (case args of
        [JsString envName] \<Rightarrow> (case newValue (getenv envName) of Inl err \<Rightarrow> None | Inr v \<Rightarrow> Some v)
      | _ \<Rightarrow> None)"

definition readFileFn ::
    "(string \<Rightarrow> go_error + string) \<Rightarrow> (string \<Rightarrow> go_error + js_value) \<Rightarrow> js_value list \<Rightarrow> js_value option" where
  "readFileFn readFile newValue args =
     (case args of
        [JsString fileName] \<Rightarrow>
          (case readFile fileName of
             Inl err \<Rightarrow> None
           | Inr out \<Rightarrow> (case newValue out of Inl err \<Rightarrow> None | Inr v \<Rightarrow> Some v))
      | _ \<Rightarrow> None)"

section \<open>atob and btoa\<close>

text \<open>\<open>base64.StdEncoding\<close>: padded, the decoder skipping carriage returns and newlines.\<close>

definition b64_alphabet :: string where
  "b64_alphabet = ''ABCDEFGHIJKLMNOPQRSTUVWXYZabcdefghijklmnopqrstuvwxyz0123456789+/''"

definition b64_char :: "nat \<Rightarrow> char" where
  "b64_char n = b64_alphabet ! n"

fun index_of :: "char \<Rightarrow> string \<Rightarrow> nat option" where
  "index_of c [] = None"
| "index_of c (x # xs) = (if x = c then Some 0 else map_option Suc (index_of c xs))"

definition b64_val :: "char \<Rightarrow> nat option" where
  "b64_val c = index_of c b64_alphabet"

fun encode_bytes :: "nat list \<Rightarrow> string" where
  "encode_bytes [] = []"
| "encode_bytes [a] = [b64_char (a div 4), b64_char (a mod 4 * 16), CHR ''='', CHR ''='']"
| "encode_bytes [a, b] =
     [b64_char (a div 4), b64_char (a mod 4 * 16 + b div 16), b64_char (b mod 16 * 4), CHR ''='']"
| "encode_bytes (a # b # c # r) =
     [b64_char (a div 4), b64_char (a mod 4 * 16 + b div 16), b64_char (b mod 16 * 4 + c div 64),
      b64_char (c mod 64)] @ encode_bytes r"

fun decode_bytes :: "string \<Rightarrow> nat list option" where
  "decode_bytes [] = Some []"
| "decode_bytes (w # x # y # z # r) =
     (case (b64_val w, b64_val x) of
        (Some v0, Some v1) \<Rightarrow>
          if y = CHR ''='' then
            (if z = CHR ''='' \<and> r = [] then Some [v0 * 4 + v1 div 16] else None)
          else
            (case b64_val y of
               None \<Rightarrow> None
             | Some v2 \<Rightarrow>
                 if z = CHR ''='' then
                   (if r = [] then Some [v0 * 4 + v1 div 16, v1 mod 16 * 16 + v2 div 4] else None)
                 else
                   (case (b64_val z, decode_bytes r) of
                      (Some v3, Some bs) \<Rightarrow>
                        Some ([v0 * 4 + v1 div 16, v1 mod 16 * 16 + v2 div 4, v2 mod 4 * 64 + v3] @ bs)
                    | _ \<Rightarrow> None))
      | _ \<Rightarrow> None)"
| "decode_bytes _ = None"

definition EncodeToString :: "string \<Rightarrow> string" where
  "EncodeToString s = encode_bytes (map of_char s)"

definition DecodeString :: "string \<Rightarrow> string option" where
  "DecodeString s =
     map_option (map char_of) (decode_bytes (filter (\<lambda>c. c \<noteq> CHR 0x0A \<and> c \<noteq> CHR 0x0D) s))"

definition btoaFn :: "(string \<Rightarrow> go_error + js_value) \<Rightarrow> js_value list \<Rightarrow> js_value option" where
  "btoaFn newValue args =
     (case args of
        [JsString s] \<Rightarrow> (case newValue (EncodeToString s) of Inl err \<Rightarrow> None | Inr v \<Rightarrow> Some v)
      | _ \<Rightarrow> None)"

definition atobFn :: "(string \<Rightarrow> go_error + js_value) \<Rightarrow> js_value list \<Rightarrow> js_value option" where
  "atobFn newValue args =
     (case args of
        [JsString s] \<Rightarrow>
          (case DecodeString s of
             None \<Rightarrow> None
           | Some decoded \<Rightarrow> (case newValue decoded of Inl err \<Rightarrow> None | Inr v \<Rightarrow> Some v))
      | _ \<Rightarrow> None)"

section \<open>Running scripts\<close>

text \<open>
  What \<open>context.RunScript\<close> returns: a value, a \<open>*v8go.JSError\<close> with message and stack trace, or
  another error. \<open>v8\<close> runs a script of a given origin in a context of type \<open>'c\<close> and says whether it
  came back before the timeout; the context changes in either case.
\<close>

datatype script_result = ScriptValue | ScriptJSError string string | ScriptError go_error

type_synonym 'c engine = "'c \<Rightarrow> string \<Rightarrow> string \<Rightarrow> int \<Rightarrow> bool \<times> script_result \<times> 'c"
  \<comment> \<open>context, script, origin, timeout in seconds; the flag is "in time"\<close>

definition runScript_error :: "script_result \<Rightarrow> go_error option" where
  "runScript_error res =
     (case res of
        ScriptValue \<Rightarrow> None
      | ScriptJSError message stack \<Rightarrow>
          if message = ''ExecutionTerminated: script execution has been terminated'' then None
          else if stack \<noteq> [] then Some (Errorf (''Uncaught '' @ stack))
          else Some (GoError Unclassified message)
      | ScriptError err \<Rightarrow> Some err)"

definition RunScriptWithTimeout ::
    "'c engine \<Rightarrow> 'c \<Rightarrow> string \<Rightarrow> string \<Rightarrow> int \<Rightarrow> go_error option \<times> 'c" where
  "RunScriptWithTimeout v8 ctx script origin timeout =
     (case v8 ctx script origin timeout of
        (inTime, res, ctx') \<Rightarrow>
          if inTime then (runScript_error res, ctx')
          else (Some (Errorf (''script '' @ origin @ '' timed out'')), ctx'))"

text \<open>\<open>blank\<close> is what \<open>v8go.NewContext\<close> gives, \<open>prelude\<close> the script text with \<open>GLOBAL_CONTEXT\<close> appended.\<close>

definition NewContext :: "'c engine \<Rightarrow> 'c \<Rightarrow> string \<Rightarrow> go_error + 'c" where
  "NewContext v8 blank prelude =
     (case RunScriptWithTimeout v8 blank prelude ''prepare-context.js'' 10 of
        (Some err, ctx) \<Rightarrow> Inl (err_wrap err ''prepare context'')
      | (None, ctx) \<Rightarrow> Inr ctx)"

record 'c vm =
  vmIsolate :: nat
  vmContext :: 'c

definition globalFunctions :: "string list" where
  "globalFunctions = [''print'', ''sleep'', ''__get'', ''atob'', ''btoa'', ''__exit'', ''__list'',
     ''__fetchSync'', ''env'', ''readFileSync'', ''__create'', ''__update'', ''__remove'']"

text \<open>\<open>setGlobal\<close> is \<open>global.Set\<close>, which may refuse a name.\<close>

fun set_all :: "(string \<Rightarrow> go_error option) \<Rightarrow> string list \<Rightarrow> go_error option" where
  "set_all setGlobal [] = None"
| "set_all setGlobal (n # ns) =
     (case setGlobal n of Some err \<Rightarrow> Some err | None \<Rightarrow> set_all setGlobal ns)"

definition NewVM ::
    "(string \<Rightarrow> go_error option) \<Rightarrow> 'c engine \<Rightarrow> 'c \<Rightarrow> string \<Rightarrow> nat \<Rightarrow> go_error + 'c vm" where
  "NewVM setGlobal v8 blank prelude isolate =
     (case set_all setGlobal globalFunctions of
        Some err \<Rightarrow> Inl err
      | None \<Rightarrow>
          (case NewContext v8 blank prelude of
             Inl err \<Rightarrow> Inl err
           | Inr ctx \<Rightarrow> Inr \<lparr>vmIsolate = isolate, vmContext = ctx\<rparr>))"

definition RecreateContext :: "'c engine \<Rightarrow> 'c \<Rightarrow> string \<Rightarrow> 'c vm \<Rightarrow> go_error + 'c vm" where
  "RecreateContext v8 blank prelude v =
     (case NewContext v8 blank prelude of
        Inl err \<Rightarrow> Inl err
      | Inr newCtx \<Rightarrow> Inr (v\<lparr>vmContext := newCtx\<rparr>))"

section \<open>Base64\<close>

lemma b64_alphabet_ok:
  "list_all (\<lambda>n. b64_val (b64_char n) = Some n \<and> b64_char n \<noteq> CHR ''='' \<and>
     b64_char n \<noteq> CHR 0x0A \<and> b64_char n \<noteq> CHR 0x0D) [0..<64]"
  by code_simp

lemma b64_char_ok:
  assumes "n < 64"
  shows "b64_val (b64_char n) = Some n" "b64_char n \<noteq> CHR ''=''"
    "b64_char n \<noteq> CHR 0x0A" "b64_char n \<noteq> CHR 0x0D"
  using b64_alphabet_ok assms by (auto simp: list_all_iff)

text \<open>The bounds and digit identities of one group of three bytes.\<close>

lemma digit_div_mod:
  "y < m \<Longrightarrow> (x * m + y) div m = (x :: nat)" "y < m \<Longrightarrow> (x * m + y) mod m = (y :: nat)"
  by simp_all

lemma b64_bounds:
  assumes "a < 256" "b < 256" "c < (256::nat)"
  shows "a div 4 < 64 \<and> a mod 4 * 16 < 64 \<and> a mod 4 * 16 + b div 16 < 64 \<and> b mod 16 * 4 < 64 \<and>
    b mod 16 * 4 + c div 64 < 64 \<and> c mod 64 < 64"
proof -
  have "a mod 4 < 4" "b mod 16 < 16" "b div 16 < 16" "c div 64 < 4" "a div 4 < 64"
    using assms by simp_all
  then show ?thesis by (intro conjI) (linarith | simp)+
qed

lemma b64_digits:
  fixes a b c :: nat
  assumes "b < 256" "c < 256"
  shows "a div 4 * 4 + (a mod 4 * 16 + b div 16) div 16 = a \<and>
    (a mod 4 * 16 + b div 16) mod 16 * 16 + (b mod 16 * 4 + c div 64) div 4 = b \<and>
    (b mod 16 * 4 + c div 64) mod 4 * 64 + c mod 64 = c \<and>
    a div 4 * 4 + (a mod 4 * 16) div 16 = a \<and>
    (a mod 4 * 16 + b div 16) mod 16 * 16 + (b mod 16 * 4) div 4 = b"
proof -
  have b: "b div 16 < 16" and c: "c div 64 < 4" using assms by simp_all
  show ?thesis
    unfolding digit_div_mod [OF b] digit_div_mod [OF c]
    by (simp only: div_mult_mod_eq nonzero_mult_div_cancel_right zero_neq_numeral not_False_eq_True)
qed

lemma decode_encode_bytes:
  "list_all (\<lambda>n. n < 256) bs \<Longrightarrow> decode_bytes (encode_bytes bs) = Some bs"
proof (induction bs rule: encode_bytes.induct)
  case 1
  then show ?case by simp
next
  case (2 a)
  then show ?case
    using b64_bounds [of a 0 0] b64_digits [of 0 0 a] by (simp add: b64_char_ok)
next
  case (3 a b)
  then show ?case
    using b64_bounds [of a b 0] b64_digits [of b 0 a] by (simp add: b64_char_ok)
next
  case (4 a b c r)
  then show ?case
    using b64_bounds [of a b c] b64_digits [of b c a] by (simp add: b64_char_ok)
qed

lemma encode_bytes_no_newline:
  "list_all (\<lambda>n. n < 256) bs \<Longrightarrow>
     filter (\<lambda>c. c \<noteq> CHR 0x0A \<and> c \<noteq> CHR 0x0D) (encode_bytes bs) = encode_bytes bs"
proof (induction bs rule: encode_bytes.induct)
  case (2 a)
  then show ?case using b64_bounds [of a 0 0] by (simp add: b64_char_ok)
next
  case (3 a b)
  then show ?case using b64_bounds [of a b 0] by (simp add: b64_char_ok)
next
  case (4 a b c r)
  then show ?case using b64_bounds [of a b c] by (simp add: b64_char_ok)
qed simp

section \<open>Properties\<close>

text \<open>
  \<open>atob\<close> undoes \<open>btoa\<close>: the padded base64 text of any byte string decodes to that string,
  with no character lost at the padding or the newline filter.
\<close>

theorem base64_roundtrip: "DecodeString (EncodeToString s) = Some s"
proof -
  have "list_all (\<lambda>n. n < 256) (map of_char s :: nat list)"
    by (auto simp: list_all_iff)
  then show ?thesis
    by (simp add: DecodeString_def EncodeToString_def decode_encode_bytes encode_bytes_no_newline
        del: filter.simps)
qed

text \<open>
  A policy's response is decided by the first of its calls that ends the script: all warnings
  given before it are kept in order, and nothing after it counts; a policy that never ends itself
  has its warnings and neither denies, mutates nor requeues.
\<close>

theorem run_calls_first_exit:
  "run_calls cs noResponse =
     (let warned = noResponse\<lparr>Warnings := concat (map (\<lambda>c. case c of JsWarn m \<Rightarrow> [m] | _ \<Rightarrow> [])
                                   (takeWhile (\<lambda>c. \<not> exits c) cs))\<rparr>
      in case dropWhile (\<lambda>c. \<not> exits c) cs of [] \<Rightarrow> warned | c # _ \<Rightarrow> call_effect c warned)"
proof -
  have "run_calls cs r =
     (let warned = r\<lparr>Warnings := Warnings r @ concat (map (\<lambda>c. case c of JsWarn m \<Rightarrow> [m] | _ \<Rightarrow> [])
                                   (takeWhile (\<lambda>c. \<not> exits c) cs))\<rparr>
      in case dropWhile (\<lambda>c. \<not> exits c) cs of [] \<Rightarrow> warned | c # _ \<Rightarrow> call_effect c warned)" for r
  proof (induction cs r rule: run_calls.induct)
    case (2 c cs r)
    then show ?case by (cases c) (auto simp: Let_def split: list.splits)
  qed simp
  then show ?thesis by (simp add: noResponse_def)
qed

text \<open>
  \<open>get\<close> with \<open>cache: 'smart'\<close>, when the options \<open>{cache: false}\<close> survive their JSON round
  trip: the object of the cache if it has one, else what the API server answers (no object if it
  has none there either); it throws exactly when the cache fails with another error than not
  found, or has no object and the API server fails so.
\<close>

theorem js_get_smart:
  assumes "stringify cacheFalse = Inr o1" and "unmarshal o1 = Inr (Some False)"
    and "split_name n = (ns, nm)"
  shows "js_get (getFn stringify unmarshal cached uncached) (JsString k) (JsString gv) (JsString n) SmartCache =
    (case cached k gv ns nm of
       Inr obj \<Rightarrow> Inr (Some obj)
     | Inl e \<Rightarrow>
         if \<not> IsNotFound e then Inl (''RetrieveObject'', err_text e)
         else (case uncached k gv ns nm of
                 Inr obj \<Rightarrow> Inr (Some obj)
               | Inl e' \<Rightarrow> if IsNotFound e' then Inr None else Inl (''RetrieveObject'', err_text e')))"
  using assms
  by (auto simp: js_get_def getFn_def read_options_def js_throw_def getThrows_def cacheFalse_def
      split: sum.splits)

theorem js_get_smart_witness:
  "js_get (getFn (\<lambda>_. Inr []) (\<lambda>_. Inr (Some False)) (\<lambda>k gv ns n. Inl (GoError NotFound ''gone''))
       (\<lambda>k gv ns n. if ns = ''a'' \<and> n = ''b'' then Inr ''{}'' else Inl (Errorf ''boom'')))
     (JsString ''Pod'') (JsString ''v1'') (JsString ''a/b'') SmartCache = Inr (Some ''{}'')"
proof -
  have "split_name ''a/b'' = (''a'', ''b'')" by (simp add: split_name_def)
  from js_get_smart [where stringify = "\<lambda>_. Inr []" and unmarshal = "\<lambda>_. Inr (Some False)"
      and k = "''Pod''" and gv = "''v1''" and cached = "\<lambda>k gv ns n. Inl (GoError NotFound ''gone'')"
      and uncached = "\<lambda>k gv ns n. if ns = ''a'' \<and> n = ''b'' then Inr ''{}'' else Inl (Errorf ''boom'')",
      OF _ _ this]
  show ?thesis by (simp add: err_defs)
qed

text \<open>
  \<open>create\<close> and \<open>update\<close> throw on every argument they cannot turn into an object, \<open>remove\<close>
  never throws; apart from that flag the three answer alike, and none calls the API server for such
  an argument.
\<close>

theorem write_functions_argument_errors:
  assumes "case args of [a] \<Rightarrow> (case stringify a of Inl e \<Rightarrow> True | Inr s \<Rightarrow> (\<exists>e. unmarshal s = Inl e)) | _ \<Rightarrow> True"
  shows "let c = createFn stringify unmarshal reasonFor call args w;
             u = updateFn stringify unmarshal reasonFor call args w;
             r = removeFn stringify unmarshal reasonFor call args w
    in snd c = w \<and> snd r = w \<and> u = c \<and> resThrow (fst c) \<and> \<not> resThrow (fst r) \<and> \<not> resOk (fst r) \<and>
       fst r = (fst c)\<lparr>resThrow := False\<rparr>"
  using assms
  by (auto simp: createFn_def updateFn_def removeFn_def resourceFn_def resourceFailure_def Let_def
      length_Suc_conv split: list.splits sum.splits)

theorem write_functions_argument_errors_witness:
  "\<not> resThrow (fst (removeFn (\<lambda>_. Inr []) Inr err_text (\<lambda>o1 w. (None, o1, w)) [] (0::nat)))"
  using write_functions_argument_errors [where args = "[]" and stringify = "\<lambda>_. Inr []"
      and unmarshal = Inr and reasonFor = err_text and call = "\<lambda>o1 w. (None, o1, w)" and w = "0::nat"]
  by (simp add: Let_def)

end
