(* ===== verification/VMPool.thy ===== *)
theory VMPool
  imports Vm
begin

text \<open>
  \<open>pkg/vm/vmpool/vmpool.go\<close>: a stack of virtual machines behind a weighted semaphore. The
  operations come twice. \<open>Get\<close> and \<open>Put\<close> as functions on the pool describe a call that runs
  alone. The step relation \<open>pool_step\<close> splits them at each atomic action (\<open>Acquire\<close>, \<open>Pop\<close>,
  \<open>RecreateContext\<close>, \<open>Push\<close>, \<open>Release\<close>), so that any number of callers interleave, as the
  webhook's goroutines do.
\<close>

section \<open>The stack\<close>

definition Push :: "'a \<Rightarrow> 'a list \<Rightarrow> 'a list" where
  "Push v xs = xs @ [v]"

definition Pop :: "'a list \<Rightarrow> 'a option \<times> 'a list" where
  "Pop xs = (if length xs = 0 then (None, xs) else (Some (xs ! (length xs - 1)), take (length xs - 1) xs))"

lemma Pop_Push [simp]: "Pop (Push v xs) = (Some v, xs)"
  by (simp add: Pop_def Push_def)

lemma Pop_cases: "Pop xs = (None, xs) \<and> xs = [] \<or> (\<exists>v ys. Pop xs = (Some v, ys) \<and> xs = ys @ [v])"
proof (cases xs rule: rev_cases)
  case (snoc ys y)
  then show ?thesis by (simp add: Pop_def nth_append)
qed (simp add: Pop_def)

section \<open>The pool\<close>

record 'c vmpool =
  stack_data :: "'c vm list"
  permits :: nat \<comment> \<open>free weight of the semaphore\<close>

text \<open>\<open>newVM i\<close> is the result of the i-th call of the constructor.\<close>

fun new_stack :: "(nat \<Rightarrow> go_error + 'c vm) \<Rightarrow> nat \<Rightarrow> nat \<Rightarrow> 'c vm list \<Rightarrow> go_error + 'c vm list" where
  "new_stack newVM i 0 st = Inr st"
| "new_stack newVM i (Suc n) st =
     (case newVM i of Inl err \<Rightarrow> Inl err | Inr machine \<Rightarrow> new_stack newVM (Suc i) n (Push machine st))"

definition NewVMPool :: "nat \<Rightarrow> (nat \<Rightarrow> go_error + 'c vm) \<Rightarrow> go_error + 'c vmpool" where
  "NewVMPool n newVM =
     (case new_stack newVM 0 n [] of
        Inl err \<Rightarrow> Inl err
      | Inr st \<Rightarrow> Inr \<lparr>stack_data = st, permits = n\<rparr>)"

text \<open>
  \<open>Get\<close> with a free permit pops (and panics on an empty stack); without one it waits, and returns
  nil if the context ends first.
\<close>

datatype 'v got = GotNil | Got 'v | GotPanic

definition VMPool_Get :: "'c vmpool \<Rightarrow> 'c vm got \<times> 'c vmpool" where
  "VMPool_Get p =
     (if permits p = 0 then (GotNil, p)
      else case Pop (stack_data p) of
        (None, st) \<Rightarrow> (GotPanic, p\<lparr>permits := permits p - 1\<rparr>)
      | (Some v, st) \<Rightarrow> (Got v, p\<lparr>stack_data := st, permits := permits p - 1\<rparr>))"

definition VMPool_Put ::
    "('c vm \<Rightarrow> go_error + 'c vm) \<Rightarrow> 'c vm option \<Rightarrow> 'c vmpool \<Rightarrow> go_error option \<times> 'c vmpool" where
  "VMPool_Put recreate v p =
     (case v of
        None \<Rightarrow> (None, p)
      | Some x \<Rightarrow>
          (case recreate x of
             Inl err \<Rightarrow> (Some err, p)
           | Inr x' \<Rightarrow>
               (None, p\<lparr>stack_data := Push x' (stack_data p), permits := permits p + 1\<rparr>)))"

section \<open>Interleaved callers\<close>

text \<open>
  Besides the pool: how many callers are between \<open>Acquire\<close> and \<open>Pop\<close>, the machines handed out,
  those with a new context not yet pushed, how many callers are between \<open>Push\<close> and \<open>Release\<close>,
  and whether the process panicked in \<open>Get\<close> or was ended by \<open>klog.Fatalf\<close> after a failed \<open>Put\<close>.
\<close>

record 'c pool_state =
  pool :: "'c vmpool"
  acquired :: nat
  held :: "'c vm list"
  recreated :: "'c vm list"
  pushed :: nat
  panicked :: bool
  exited :: bool

inductive pool_step ::
    "'c engine \<Rightarrow> 'c \<Rightarrow> string \<Rightarrow> 'c pool_state \<Rightarrow> 'c pool_state \<Rightarrow> bool"
  for v8 blank prelude where
  acquire:
    "permits (pool s) > 0 \<Longrightarrow> \<not> exited s \<Longrightarrow>
     pool_step v8 blank prelude s
       (s\<lparr>pool := (pool s)\<lparr>permits := permits (pool s) - 1\<rparr>, acquired := acquired s + 1\<rparr>)"
| pop:
    "acquired s > 0 \<Longrightarrow> \<not> exited s \<Longrightarrow> Pop (stack_data (pool s)) = (Some v, st) \<Longrightarrow>
     pool_step v8 blank prelude s
       (s\<lparr>pool := (pool s)\<lparr>stack_data := st\<rparr>, acquired := acquired s - 1, held := v # held s\<rparr>)"
| pop_nil:
    "acquired s > 0 \<Longrightarrow> \<not> exited s \<Longrightarrow> Pop (stack_data (pool s)) = (None, st) \<Longrightarrow>
     pool_step v8 blank prelude s (s\<lparr>acquired := acquired s - 1, panicked := True\<rparr>)"
| run:
    "held s = xs @ v # ys \<Longrightarrow> \<not> exited s \<Longrightarrow>
     pool_step v8 blank prelude s
       (s\<lparr>held := xs @ v\<lparr>vmContext := snd (RunScriptWithTimeout v8 (vmContext v) script origin timeout)\<rparr> # ys\<rparr>)"
| recreate_ok:
    "held s = xs @ v # ys \<Longrightarrow> \<not> exited s \<Longrightarrow> RecreateContext v8 blank prelude v = Inr v' \<Longrightarrow>
     pool_step v8 blank prelude s (s\<lparr>held := xs @ ys, recreated := v' # recreated s\<rparr>)"
| recreate_fails:
    "held s = xs @ v # ys \<Longrightarrow> \<not> exited s \<Longrightarrow> RecreateContext v8 blank prelude v = Inl err \<Longrightarrow>
     pool_step v8 blank prelude s (s\<lparr>exited := True\<rparr>)"
| push:
    "recreated s = xs @ v # ys \<Longrightarrow> \<not> exited s \<Longrightarrow>
     pool_step v8 blank prelude s
       (s\<lparr>pool := (pool s)\<lparr>stack_data := Push v (stack_data (pool s))\<rparr>, recreated := xs @ ys,
          pushed := pushed s + 1\<rparr>)"
| release:
    "pushed s > 0 \<Longrightarrow> \<not> exited s \<Longrightarrow>
     pool_step v8 blank prelude s
       (s\<lparr>pool := (pool s)\<lparr>permits := permits (pool s) + 1\<rparr>, pushed := pushed s - 1\<rparr>)"

inductive pool_reaches ::
    "'c engine \<Rightarrow> 'c \<Rightarrow> string \<Rightarrow> 'c pool_state \<Rightarrow> 'c pool_state \<Rightarrow> bool"
  for v8 blank prelude s where
  start: "pool_reaches v8 blank prelude s s"
| more: "pool_reaches v8 blank prelude s t \<Longrightarrow> pool_step v8 blank prelude t u \<Longrightarrow>
         pool_reaches v8 blank prelude s u"

definition pool_start :: "'c vmpool \<Rightarrow> 'c pool_state" where
  "pool_start p = \<lparr>pool = p, acquired = 0, held = [], recreated = [], pushed = 0,
     panicked = False, exited = False\<rparr>"

section \<open>The invariant\<close>

text \<open>A context straight from the prelude.\<close>

definition fresh :: "'c engine \<Rightarrow> 'c \<Rightarrow> string \<Rightarrow> 'c vm \<Rightarrow> bool" where
  "fresh v8 blank prelude v \<longleftrightarrow> NewContext v8 blank prelude = Inr (vmContext v)"

definition isolates :: "'c pool_state \<Rightarrow> nat list" where
  "isolates s = map vmIsolate (stack_data (pool s) @ held s @ recreated s)"

definition pool_inv :: "'c engine \<Rightarrow> 'c \<Rightarrow> string \<Rightarrow> nat \<Rightarrow> 'c pool_state \<Rightarrow> bool" where
  "pool_inv v8 blank prelude n s \<longleftrightarrow>
     \<not> panicked s \<and>
     length (stack_data (pool s)) = permits (pool s) + acquired s + pushed s \<and>
     mset (isolates s) = mset [0..<n] \<and>
     (\<forall>v \<in> set (stack_data (pool s)) \<union> set (recreated s). fresh v8 blank prelude v)"

lemma fresh_recreate: "RecreateContext v8 blank prelude v = Inr v' \<Longrightarrow>
    fresh v8 blank prelude v' \<and> vmIsolate v' = vmIsolate v"
  by (auto simp: RecreateContext_def fresh_def split: sum.splits)

lemma Pop_SomeD: "Pop xs = (Some v, st) \<Longrightarrow> xs = st @ [v]"
  using Pop_cases [of xs] by auto

lemma Pop_NoneD: "Pop xs = (None, st) \<Longrightarrow> xs = []"
  using Pop_cases [of xs] by auto

lemma pool_step_isolates:
  "pool_step v8 blank prelude s t \<Longrightarrow> mset (isolates t) = mset (isolates s)"
proof (induction rule: pool_step.induct)
  case (pop s v st)
  then show ?case by (auto simp: isolates_def dest!: Pop_SomeD)
next
  case (recreate_ok s xs v ys v')
  then show ?case using fresh_recreate [OF recreate_ok(3)] by (simp add: isolates_def)
qed (simp_all add: isolates_def Push_def)

lemma pool_step_counts:
  assumes "pool_step v8 blank prelude s t"
    and "length (stack_data (pool s)) = permits (pool s) + acquired s + pushed s" and "\<not> panicked s"
  shows "length (stack_data (pool t)) = permits (pool t) + acquired t + pushed t \<and> \<not> panicked t"
  using assms
proof (induction rule: pool_step.induct)
  case (pop s v st)
  then show ?case by (auto dest!: Pop_SomeD)
next
  case (pop_nil s st)
  then show ?case by (auto dest!: Pop_NoneD)
qed (simp_all add: Push_def)

lemma pool_step_fresh:
  assumes "pool_step v8 blank prelude s t"
    and "\<forall>v \<in> set (stack_data (pool s)) \<union> set (recreated s). fresh v8 blank prelude v"
  shows "\<forall>v \<in> set (stack_data (pool t)) \<union> set (recreated t). fresh v8 blank prelude v"
  using assms
proof (induction rule: pool_step.induct)
  case (pop s v st)
  then show ?case by (auto dest!: Pop_SomeD)
next
  case (recreate_ok s xs v ys v')
  then show ?case using fresh_recreate [OF recreate_ok(3)] by simp
qed (auto simp: Push_def)

lemma pool_step_inv [inv_intros]:
  "pool_step v8 blank prelude s t \<Longrightarrow> pool_inv v8 blank prelude n s \<Longrightarrow> pool_inv v8 blank prelude n t"
  unfolding pool_inv_def using pool_step_isolates pool_step_counts pool_step_fresh by metis

lemma pool_inv_distinct:
  assumes "pool_inv v8 blank prelude n s"
  shows "distinct (isolates s) \<and> length (held s) \<le> n"
proof -
  have m: "mset (isolates s) = mset [0..<n]" using assms by (simp add: pool_inv_def)
  have "length (isolates s) = n" using mset_eq_length [OF m] by simp
  then show ?thesis using mset_eq_imp_distinct_iff [OF m] by (simp add: isolates_def)
qed

lemma pool_reaches_inv:
  "pool_reaches v8 blank prelude s t \<Longrightarrow> pool_inv v8 blank prelude n s \<Longrightarrow>
   pool_inv v8 blank prelude n t"
  by (induction rule: pool_reaches.induct) (auto intro: pool_step_inv)

lemma new_stack_shape:
  "new_stack newVM i n st = Inr st' \<Longrightarrow>
     \<exists>vs. st' = st @ vs \<and> length vs = n \<and> (\<forall>k < n. newVM (i + k) = Inr (vs ! k))"
proof (induction newVM i n st rule: new_stack.induct)
  case (2 newVM i n st)
  then obtain machine where machine: "newVM i = Inr machine" "new_stack newVM (Suc i) n (Push machine st) = Inr st'"
    by (auto split: sum.splits)
  with "2.IH" obtain vs where "st' = Push machine st @ vs" "length vs = n"
    "\<forall>k < n. newVM (Suc i + k) = Inr (vs ! k)" by blast
  then show ?case
    using machine(1) by (intro exI [of _ "machine # vs"]) (auto simp: Push_def less_Suc_eq_0_disj)
qed auto

text \<open>The pool that the process starts with: one machine per isolate.\<close>

definition start_pool ::
    "(string \<Rightarrow> go_error option) \<Rightarrow> 'c engine \<Rightarrow> 'c \<Rightarrow> string \<Rightarrow> nat \<Rightarrow> go_error + 'c vmpool" where
  "start_pool setGlobal v8 blank prelude n = NewVMPool n (NewVM setGlobal v8 blank prelude)"

lemma NewVM_fresh:
  "NewVM setGlobal v8 blank prelude i = Inr v \<Longrightarrow> fresh v8 blank prelude v \<and> vmIsolate v = i"
  by (auto simp: NewVM_def fresh_def split: option.splits sum.splits)

lemma start_pool_shape:
  assumes "start_pool setGlobal v8 blank prelude n = Inr p"
  shows "length (stack_data p) = n \<and> permits p = n \<and> map vmIsolate (stack_data p) = [0..<n] \<and>
    (\<forall>v \<in> set (stack_data p). fresh v8 blank prelude v)"
proof -
  obtain vs where st: "new_stack (NewVM setGlobal v8 blank prelude) 0 n [] = Inr vs"
    and p: "p = \<lparr>stack_data = vs, permits = n\<rparr>"
    using assms by (auto simp only: start_pool_def NewVMPool_def split: sum.splits)
  have vs: "length vs = n" "\<forall>k < n. NewVM setGlobal v8 blank prelude k = Inr (vs ! k)"
    using new_stack_shape [OF st] by simp_all
  have "fresh v8 blank prelude (vs ! k) \<and> vmIsolate (vs ! k) = k" if "k < n" for k
    by (rule NewVM_fresh [of setGlobal]) (simp add: vs(2) that)
  then have "map vmIsolate vs = [0..<n]" "list_all (fresh v8 blank prelude) vs"
    using vs(1) by (simp_all add: list_eq_iff_nth_eq list_all_length)
  then show ?thesis
    using vs(1) by (simp add: p list_all_iff)
qed

lemma pool_start_inv:
  "start_pool setGlobal v8 blank prelude n = Inr p \<Longrightarrow>
   pool_inv v8 blank prelude n (pool_start p)"
  using start_pool_shape [of setGlobal v8 blank prelude n p]
  by (auto simp: pool_inv_def pool_start_def isolates_def)

section \<open>The pool's contract\<close>

text \<open>
  What a caller that runs alone relies on: it gets a fresh machine, and after giving it back the
  pool is as good as before.
\<close>

locale vm_source =
  fixes get :: "'p \<Rightarrow> 'v got \<times> 'p"
    and put :: "'v option \<Rightarrow> 'p \<Rightarrow> go_error option \<times> 'p"
    and run :: "'v \<Rightarrow> 'i \<Rightarrow> 'o \<times> 'v"
    and ready :: "'p \<Rightarrow> bool"
    and is_fresh :: "'v \<Rightarrow> bool"
  assumes get_ready: "ready p \<Longrightarrow> \<exists>v p'. get p = (Got v, p') \<and> is_fresh v"
    and put_back: "ready p \<Longrightarrow> get p = (Got v, p') \<Longrightarrow>
        \<exists>p''. put (Some (snd (run v x))) p' = (None, p'') \<and> ready p''"
    and run_fresh: "is_fresh v \<Longrightarrow> is_fresh u \<Longrightarrow> fst (run v x) = fst (run u x)"
begin

text \<open>Serving requests one after the other; an error of \<open>put\<close> ends the process.\<close>

fun serve_all :: "'p \<Rightarrow> 'i list \<Rightarrow> 'o list option" where
  "serve_all p [] = Some []"
| "serve_all p (x # xs) =
     (case get p of
        (Got v, p') \<Rightarrow>
          (case put (Some (snd (run v x))) p' of
             (None, p'') \<Rightarrow> map_option ((#) (fst (run v x))) (serve_all p'' xs)
           | (Some err, p'') \<Rightarrow> None)
      | _ \<Rightarrow> None)"

lemma serve_all_isolated:
  "ready p \<Longrightarrow> is_fresh v \<Longrightarrow> serve_all p xs = Some (map (\<lambda>x. fst (run v x)) xs)"
proof (induction xs arbitrary: p)
  case Nil
  then show ?case by simp
next
  case (Cons x xs)
  obtain u p' where g: "get p = (Got u, p')" "is_fresh u"
    using get_ready [OF Cons.prems(1)] by blast
  obtain p'' where pb: "put (Some (snd (run u x))) p' = (None, p'')" "ready p''"
    using put_back [OF Cons.prems(1) g(1), of x] by blast
  show ?case
    using Cons.IH [OF pb(2) Cons.prems(2)] run_fresh [OF g(2) Cons.prems(2), of x]
    by (simp add: g pb(1))
qed

end

definition pool_ready :: "'c engine \<Rightarrow> 'c \<Rightarrow> string \<Rightarrow> 'c vmpool \<Rightarrow> bool" where
  "pool_ready v8 blank prelude p \<longleftrightarrow>
     permits p > 0 \<and> length (stack_data p) = permits p \<and>
     (\<forall>v \<in> set (stack_data p). fresh v8 blank prelude v)"

lemma pool_ready_get:
  assumes "pool_ready v8 blank prelude p"
  shows "\<exists>v p'. VMPool_Get p = (Got v, p') \<and> fresh v8 blank prelude v"
proof -
  from assms obtain ys v where "stack_data p = ys @ [v]"
    by (cases "stack_data p" rule: rev_cases) (auto simp: pool_ready_def)
  then show ?thesis
    using assms by (auto simp: VMPool_Get_def pool_ready_def Pop_def nth_append)
qed

lemma pool_ready_put:
  assumes ready: "pool_ready v8 blank prelude p" and get: "VMPool_Get p = (Got v, p')"
  shows "\<exists>p''. VMPool_Put (RecreateContext v8 blank prelude) (Some (v\<lparr>vmContext := c\<rparr>)) p' = (None, p'') \<and>
    pool_ready v8 blank prelude p''"
proof -
  from ready obtain ys u where st: "stack_data p = ys @ [u]"
    by (cases "stack_data p" rule: rev_cases) (auto simp: pool_ready_def)
  then have v: "v = u" "p' = p\<lparr>stack_data := ys, permits := permits p - 1\<rparr>"
    using get ready by (auto simp: VMPool_Get_def pool_ready_def Pop_def nth_append split: if_splits)
  have "fresh v8 blank prelude u" using ready st by (simp add: pool_ready_def)
  then obtain v' where v': "RecreateContext v8 blank prelude (u\<lparr>vmContext := c\<rparr>) = Inr v'"
    by (auto simp: RecreateContext_def fresh_def)
  then show ?thesis
    using ready st fresh_recreate [OF v']
    by (auto simp: VMPool_Put_def v pool_ready_def Push_def)
qed

section \<open>Properties\<close>

text \<open>
  C3: however the callers of the pool interleave, \<open>Get\<close> never finds the stack empty (its panic is
  unreachable), at most as many machines as the pool's size are out, no machine is in two hands,
  and the machines on the stack, which the next \<open>Get\<close> hands out, carry a context in which nothing
  but the prelude has run, whatever scripts ran before.
\<close>

theorem pool_safe:
  assumes "start_pool setGlobal v8 blank prelude n = Inr p"
    and "pool_reaches v8 blank prelude (pool_start p) s"
  shows "\<not> panicked s \<and> length (held s) \<le> n \<and> distinct (isolates s) \<and>
    (acquired s > 0 \<longrightarrow> (\<exists>v st. Pop (stack_data (pool s)) = (Some v, st))) \<and>
    (\<forall>v \<in> set (stack_data (pool s)). NewContext v8 blank prelude = Inr (vmContext v))"
proof -
  have inv: "pool_inv v8 blank prelude n s"
    using pool_reaches_inv [OF assms(2) pool_start_inv [OF assms(1)]] .
  then have "acquired s > 0 \<Longrightarrow> stack_data (pool s) \<noteq> []"
    by (auto simp: pool_inv_def)
  then show ?thesis
    using inv pool_inv_distinct [OF inv] Pop_cases [of "stack_data (pool s)"]
    by (auto simp: pool_inv_def fresh_def)
qed

definition counting_engine :: "nat engine" where
  "counting_engine c script origin timeout = (True, ScriptValue, c + 1)"

theorem pool_safe_witness:
  "\<exists>p s. start_pool (\<lambda>_. None) counting_engine 0 ''prelude'' 1 = Inr p \<and>
     pool_reaches counting_engine 0 ''prelude'' (pool_start p) s \<and> acquired s = 1 \<and> \<not> panicked s"
proof -
  let ?p = "\<lparr>stack_data = [\<lparr>vmIsolate = 0, vmContext = 1 :: nat\<rparr>], permits = 1\<rparr>"
  let ?s = "(pool_start ?p)\<lparr>pool := ?p\<lparr>permits := 0\<rparr>, acquired := 1\<rparr>"
  have p: "start_pool (\<lambda>_. None) counting_engine 0 ''prelude'' 1 = Inr ?p"
    by (simp add: start_pool_def NewVMPool_def NewVM_def globalFunctions_def NewContext_def
        RunScriptWithTimeout_def runScript_error_def counting_engine_def Push_def)
  have "pool_step counting_engine 0 ''prelude'' (pool_start ?p) ?s"
    using pool_step.acquire [of "pool_start ?p" counting_engine 0 "''prelude''"]
    by (simp add: pool_start_def)
  then have "pool_reaches counting_engine 0 ''prelude'' (pool_start ?p) ?s"
    by (rule pool_reaches.more [OF pool_reaches.start])
  moreover have "acquired ?s = 1" by simp
  ultimately show ?thesis using p pool_safe [OF p] by blast
qed

end
