(* ===== verification/Conditions.thy ===== *)
theory Conditions
  imports Api
begin

text \<open>
  \<open>pkg/util/conditions/getter.go\<close> and \<open>setter.go\<close>: reading, setting and deleting the
  conditions of an object. The functions work on the object's condition slice; the object enters
  through the \<open>Setter\<close> interface (locale \<open>conditions_setter\<close>). \<open>Set\<close> writes the
  transition time into the condition it is handed, so the model returns that condition too.
\<close>

section \<open>Getter\<close>

fun Get :: "Conditions \<Rightarrow> string \<Rightarrow> Condition option" where
  "Get [] t = None"
| "Get (c # cs) t = (if cType c = t then Some c else Get cs t)"

definition Has :: "Conditions \<Rightarrow> string \<Rightarrow> bool" where
  "Has cs t \<longleftrightarrow> Get cs t \<noteq> None"

definition IsTrue :: "Conditions \<Rightarrow> string \<Rightarrow> bool" where
  "IsTrue cs t = (case Get cs t of Some c \<Rightarrow> cStatus c = ConditionTrue | None \<Rightarrow> False)"

definition IsFalse :: "Conditions \<Rightarrow> string \<Rightarrow> bool" where
  "IsFalse cs t = (case Get cs t of Some c \<Rightarrow> cStatus c = ConditionFalse | None \<Rightarrow> False)"

definition IsUnknown :: "Conditions \<Rightarrow> string \<Rightarrow> bool" where
  "IsUnknown cs t = (case Get cs t of Some c \<Rightarrow> cStatus c = ConditionUnknown | None \<Rightarrow> True)"

definition GetReason :: "Conditions \<Rightarrow> string \<Rightarrow> string" where
  "GetReason cs t = (case Get cs t of Some c \<Rightarrow> cReason c | None \<Rightarrow> [])"

definition GetMessage :: "Conditions \<Rightarrow> string \<Rightarrow> string" where
  "GetMessage cs t = (case Get cs t of Some c \<Rightarrow> cMessage c | None \<Rightarrow> [])"

definition GetSeverity :: "Conditions \<Rightarrow> string \<Rightarrow> string option" where
  "GetSeverity cs t = map_option cSeverity (Get cs t)"

definition GetLastTransitionTime :: "Conditions \<Rightarrow> string \<Rightarrow> gotime option" where
  "GetLastTransitionTime cs t = map_option cLastTransitionTime (Get cs t)"

section \<open>Setter\<close>

definition hasSameState :: "Condition \<Rightarrow> Condition \<Rightarrow> bool" where
  "hasSameState i j \<longleftrightarrow>
     cType i = cType j \<and> cStatus i = cStatus j \<and> cReason i = cReason j \<and>
     cSeverity i = cSeverity j \<and> cMessage i = cMessage j"

definition lexicographicLess :: "Condition \<Rightarrow> Condition \<Rightarrow> bool" where
  "lexicographicLess i j \<longleftrightarrow>
     (cType i = ReadyCondition \<or> cType i < cType j) \<and> cType j \<noteq> ReadyCondition"

text \<open>
  The loop of \<open>Set\<close> over the existing conditions: at the first condition of the type, replace
  it (with a new transition time) if its state differs, else take over its transition time. The
  result is the slice, the condition handed in, and whether the type was found.
\<close>

fun set_loop :: "gotime \<Rightarrow> Conditions \<Rightarrow> Condition \<Rightarrow> Conditions \<times> Condition \<times> bool" where
  "set_loop now [] condition = ([], condition, False)"
| "set_loop now (e # cs) condition =
     (if cType e = cType condition then
        (if \<not> hasSameState e condition then
           let condition' = condition\<lparr>cLastTransitionTime := now\<rparr>
           in (condition' # cs, condition', True)
         else (e # cs, condition\<lparr>cLastTransitionTime := cLastTransitionTime e\<rparr>, True))
      else
        (case set_loop now cs condition of (cs', condition', ex) \<Rightarrow> (e # cs', condition', ex)))"

definition SetCondition :: "gotime \<Rightarrow> Conditions \<Rightarrow> Condition \<Rightarrow> Conditions \<times> Condition" where
  "SetCondition now cs condition =
     (case set_loop now cs condition of (cs', condition', ex) \<Rightarrow>
        if ex then (sort_slice lexicographicLess cs', condition')
        else
          let condition'' = (if IsZero (cLastTransitionTime condition')
                             then condition'\<lparr>cLastTransitionTime := now\<rparr> else condition')
          in (sort_slice lexicographicLess (cs' @ [condition'']), condition''))"

text \<open>\<open>Set\<close> with its nil check: a nil condition changes nothing.\<close>

definition SetCond :: "gotime \<Rightarrow> Conditions \<Rightarrow> Condition option \<Rightarrow> Conditions" where
  "SetCond now cs condition =
     (case condition of None \<Rightarrow> cs | Some c \<Rightarrow> fst (SetCondition now cs c))"

definition TrueCondition :: "string \<Rightarrow> Condition" where
  "TrueCondition t =
     \<lparr>cType = t, cStatus = ConditionTrue, cSeverity = [], cLastTransitionTime = zeroTime,
      cReason = [], cMessage = []\<rparr>"

text \<open>The message is the formatted one, \<open>fmt.Sprintf(messageFormat, messageArgs...)\<close>.\<close>

definition FalseCondition :: "string \<Rightarrow> string \<Rightarrow> string \<Rightarrow> string \<Rightarrow> Condition" where
  "FalseCondition t reason severity message =
     \<lparr>cType = t, cStatus = ConditionFalse, cSeverity = severity, cLastTransitionTime = zeroTime,
      cReason = reason, cMessage = message\<rparr>"

definition UnknownCondition :: "string \<Rightarrow> string \<Rightarrow> string \<Rightarrow> Condition" where
  "UnknownCondition t reason message =
     \<lparr>cType = t, cStatus = ConditionUnknown, cSeverity = [], cLastTransitionTime = zeroTime,
      cReason = reason, cMessage = message\<rparr>"

definition MarkTrue :: "gotime \<Rightarrow> Conditions \<Rightarrow> string \<Rightarrow> Conditions" where
  "MarkTrue now cs t = SetCond now cs (Some (TrueCondition t))"

definition MarkUnknown :: "gotime \<Rightarrow> Conditions \<Rightarrow> string \<Rightarrow> string \<Rightarrow> string \<Rightarrow> Conditions" where
  "MarkUnknown now cs t reason message = SetCond now cs (Some (UnknownCondition t reason message))"

definition MarkFalse ::
    "gotime \<Rightarrow> Conditions \<Rightarrow> string \<Rightarrow> string \<Rightarrow> string \<Rightarrow> string \<Rightarrow> Conditions" where
  "MarkFalse now cs t reason severity message =
     SetCond now cs (Some (FalseCondition t reason severity message))"

definition Delete :: "Conditions \<Rightarrow> string \<Rightarrow> Conditions" where
  "Delete cs t = filter (\<lambda>c. cType c \<noteq> t) cs"

section \<open>Well-formed condition slices\<close>

text \<open>One condition per type, Ready first, then by type: what \<open>Set\<close> establishes and keeps.\<close>

definition wf_conditions :: "Conditions \<Rightarrow> bool" where
  "wf_conditions cs \<longleftrightarrow>
     distinct (map cType cs) \<and> sorted_wrt (\<lambda>a b. \<not> lexicographicLess b a) cs"

subsection \<open>The order\<close>

lemma hasSameState_refl [simp]: "hasSameState c c"
  by (simp add: hasSameState_def)

lemma hasSameState_time [simp]:
  "hasSameState (c\<lparr>cLastTransitionTime := x\<rparr>) d \<longleftrightarrow> hasSameState c d"
  "hasSameState c (d\<lparr>cLastTransitionTime := x\<rparr>) \<longleftrightarrow> hasSameState c d"
  by (simp_all add: hasSameState_def)

lemma hasSameState_sym: "hasSameState c d \<Longrightarrow> hasSameState d c"
  by (simp add: hasSameState_def)

lemma hasSameState_trans: "hasSameState c d \<Longrightarrow> hasSameState d e \<Longrightarrow> hasSameState c e"
  by (simp add: hasSameState_def)

interpretation cond_order: weak_order lexicographicLess
  by unfold_locales (auto simp: lexicographicLess_def)

lemma lexicographicLess_total:
  "cType a \<noteq> cType b \<Longrightarrow> \<not> lexicographicLess a b \<Longrightarrow> lexicographicLess b a"
  by (auto simp: lexicographicLess_def)

subsection \<open>Lookup\<close>

lemma Get_type: "Get cs t = Some c \<Longrightarrow> cType c = t"
  by (induction cs) (auto split: if_splits)

lemma Get_in: "Get cs t = Some c \<Longrightarrow> c \<in> set cs"
  by (induction cs) (auto split: if_splits)

lemma Get_None_iff: "Get cs t = None \<longleftrightarrow> t \<notin> cType ` set cs"
  by (induction cs) auto

lemma Get_Some_iff:
  "distinct (map cType cs) \<Longrightarrow> Get cs t = Some c \<longleftrightarrow> c \<in> set cs \<and> cType c = t"
  by (induction cs) (auto simp: rev_image_eqI)

lemma Get_of_member: "distinct (map cType cs) \<Longrightarrow> c \<in> set cs \<Longrightarrow> Get cs (cType c) = Some c"
  by (simp add: Get_Some_iff)

lemma Get_mset_cong:
  assumes "mset cs = mset ds" and "distinct (map cType cs)"
  shows "Get cs t = Get ds t"
proof -
  have "mset (map cType cs) = mset (map cType ds)"
    using assms(1) by simp
  then have d: "distinct (map cType ds)"
    using assms(2) mset_eq_imp_distinct_iff by blast
  have "Get cs t = Some c \<longleftrightarrow> Get ds t = Some c" for c
    using mset_eq_setD [OF assms(1)] by (simp add: Get_Some_iff [OF assms(2)] Get_Some_iff [OF d])
  then show ?thesis by (metis not_None_eq)
qed

lemma Get_sort: "distinct (map cType cs) \<Longrightarrow> Get (sort_slice lexicographicLess cs) t = Get cs t"
  by (rule Get_mset_cong) (simp_all add: cond_order.distinct_sort)

lemma Get_append: "Get (xs @ ys) t = (case Get xs t of None \<Rightarrow> Get ys t | Some c \<Rightarrow> Some c)"
  by (induction xs) auto

lemma Get_Delete: "Get (Delete cs t) t' = (if t' = t then None else Get cs t')"
  by (induction cs) (auto simp: Delete_def)

subsection \<open>The loop of Set\<close>

lemma set_loop_type: "set_loop now cs c = (cs', c', ex) \<Longrightarrow> cType c' = cType c"
  by (induction cs arbitrary: cs' c' ex) (auto simp: Let_def split: if_splits prod.splits)

lemma set_loop_same: "set_loop now cs c = (cs', c', ex) \<Longrightarrow> hasSameState c' c"
  by (induction cs arbitrary: cs' c' ex) (auto simp: Let_def split: if_splits prod.splits)

lemma set_loop_types: "set_loop now cs c = (cs', c', ex) \<Longrightarrow> map cType cs' = map cType cs"
  by (induction cs arbitrary: cs' c' ex) (auto simp: Let_def split: if_splits prod.splits)

lemma set_loop_found: "set_loop now cs c = (cs', c', ex) \<Longrightarrow> ex \<longleftrightarrow> cType c \<in> cType ` set cs"
  by (induction cs arbitrary: cs' c' ex) (auto simp: Let_def split: if_splits prod.splits)

lemma set_loop_other:
  "set_loop now cs c = (cs', c', ex) \<Longrightarrow> t \<noteq> cType c \<Longrightarrow> Get cs' t = Get cs t"
  by (induction cs arbitrary: cs' c' ex) (auto simp: Let_def split: if_splits prod.splits)

lemma set_loop_absent:
  "cType c \<notin> cType ` set cs \<Longrightarrow> set_loop now cs c = (cs, c, False)"
  by (induction cs) auto

lemma set_loop_get:
  "set_loop now cs c = (cs', c', True) \<Longrightarrow> Get cs (cType c) = Some e \<Longrightarrow>
   Get cs' (cType c) =
     Some (if hasSameState e c then e else c\<lparr>cLastTransitionTime := now\<rparr>)"
  by (induction cs arbitrary: cs' c') (auto simp: Let_def split: if_splits prod.splits)

subsection \<open>Laws of Set\<close>

text \<open>The condition that the slice holds after \<open>Set now cs c\<close>.\<close>

definition stored :: "gotime \<Rightarrow> Conditions \<Rightarrow> Condition \<Rightarrow> Condition" where
  "stored now cs c =
     (case Get cs (cType c) of
        Some e \<Rightarrow> if hasSameState e c then e else c\<lparr>cLastTransitionTime := now\<rparr>
      | None \<Rightarrow> if IsZero (cLastTransitionTime c) then c\<lparr>cLastTransitionTime := now\<rparr> else c)"

lemma stored_type [simp]: "cType (stored now cs c) = cType c"
  by (auto simp: stored_def hasSameState_def split: option.splits)

lemma stored_same: "hasSameState (stored now cs c) c"
  by (auto simp: stored_def hasSameState_def split: option.splits)

lemma SetCondition_distinct:
  assumes "distinct (map cType cs)"
  shows "distinct (map cType (fst (SetCondition now cs c)))"
proof -
  obtain cs' c' ex where l: "set_loop now cs c = (cs', c', ex)"
    by (metis prod_cases3)
  show ?thesis
    using assms set_loop_types [OF l] set_loop_found [OF l] set_loop_type [OF l]
    by (auto simp: SetCondition_def l Let_def cond_order.distinct_sort simp flip: set_map)
qed

lemma SetCondition_sorted:
  "sorted_wrt (\<lambda>a b. \<not> lexicographicLess b a) (fst (SetCondition now cs c))"
  by (auto simp: SetCondition_def Let_def cond_order.sort_slice_sorted split: prod.splits)

lemma SetCondition_wf [inv_intros]:
  "distinct (map cType cs) \<Longrightarrow> wf_conditions (fst (SetCondition now cs c))"
  by (simp add: wf_conditions_def SetCondition_distinct SetCondition_sorted)

lemma Get_SetCondition:
  assumes d: "distinct (map cType cs)"
  shows "Get (fst (SetCondition now cs c)) t =
           (if t = cType c then Some (stored now cs c) else Get cs t)"
proof -
  obtain cs' c' ex where l: "set_loop now cs c = (cs', c', ex)"
    by (metis prod_cases3)
  have d': "distinct (map cType cs')"
    using d set_loop_types [OF l] by simp
  show ?thesis
  proof (cases "cType c \<in> cType ` set cs")
    case True
    then have ex using set_loop_found [OF l] by simp
    moreover obtain e where "Get cs (cType c) = Some e"
      using True by (meson Get_None_iff not_None_eq)
    ultimately show ?thesis
      using l set_loop_get [of now cs c cs' c' e] set_loop_other [OF l]
      by (auto simp: SetCondition_def Get_sort [OF d'] stored_def)
  next
    case False
    then have ex: "cs' = cs" "c' = c" "\<not> ex" using l set_loop_absent [of c cs now] by auto
    define c'' where "c'' = (if IsZero (cLastTransitionTime c)
      then c\<lparr>cLastTransitionTime := now\<rparr> else c)"
    have ty: "cType c'' = cType c" by (simp add: c''_def)
    have "distinct (map cType (cs @ [c'']))" using d False ty by (simp flip: set_map)
    then have "Get (sort_slice lexicographicLess (cs @ [c''])) t = Get (cs @ [c'']) t"
      by (rule Get_sort)
    moreover have "fst (SetCondition now cs c) = sort_slice lexicographicLess (cs @ [c''])"
      by (simp add: SetCondition_def l ex c''_def Let_def)
    moreover have "Get cs (cType c) = None" using False by (simp add: Get_None_iff)
    ultimately show ?thesis
      using ty by (auto simp: Get_append stored_def c''_def split: option.splits)
  qed
qed

lemma Delete_distinct: "distinct (map cType cs) \<Longrightarrow> distinct (map cType (Delete cs t))"
  by (simp add: Delete_def distinct_map_filter)

lemma Delete_wf [inv_intros]: "wf_conditions cs \<Longrightarrow> wf_conditions (Delete cs t)"
  by (auto simp: wf_conditions_def Delete_distinct) (simp add: Delete_def sorted_wrt_filter)

subsection \<open>The store contract\<close>

text \<open>
  Condition slices with one condition per type are a keyed store: \<open>Set\<close> is its \<open>put\<close>,
  \<open>Delete\<close> its \<open>del\<close>, and an entry's observable state is everything but its transition time.
\<close>

lemma wf_distinct: "wf_conditions cs \<Longrightarrow> distinct (map cType cs)"
  by (simp add: wf_conditions_def)

interpretation cond_store: key_store Get "\<lambda>cs c. fst (SetCondition now cs c)" Delete cType hasSameState
    wf_conditions for now
proof unfold_locales
  fix cs :: Conditions and c :: Condition
  assume "wf_conditions cs"
  then have "Get (fst (SetCondition now cs c)) (cType c) = Some (stored now cs c)"
    by (simp add: Get_SetCondition wf_distinct)
  then show "\<exists>v'. Get (fst (SetCondition now cs c)) (cType c) = Some v' \<and> hasSameState v' c"
    using stored_same by blast
qed (auto intro: SetCondition_wf Delete_wf wf_distinct simp: Get_SetCondition wf_distinct Get_Delete)

text \<open>A well-formed slice is determined by its lookups.\<close>

lemma sorted_distinct_unique:
  assumes "sorted_wrt (\<lambda>a b. \<not> lexicographicLess b a) cs"
    and "sorted_wrt (\<lambda>a b. \<not> lexicographicLess b a) ds"
    and "distinct (map cType cs)" and "distinct (map cType ds)" and "set cs = set ds"
  shows "cs = ds"
  using assms
proof (induction cs arbitrary: ds)
  case Nil
  then show ?case by simp
next
  case (Cons c cs)
  then obtain d ds' where ds: "ds = d # ds'" by (cases ds) auto
  have "c = d"
  proof (rule ccontr)
    assume ne: "c \<noteq> d"
    with Cons.prems(5) ds have "c \<in> set ds'" and "d \<in> set cs" by auto
    with Cons.prems(1,2) ds have "\<not> lexicographicLess d c" "\<not> lexicographicLess c d" by auto
    moreover have "cType c \<noteq> cType d"
      using Cons.prems(4) ds \<open>c \<in> set ds'\<close> by (auto simp: rev_image_eqI)
    ultimately show False using lexicographicLess_total by blast
  qed
  moreover have "c \<notin> set cs" "d \<notin> set ds'"
    using Cons.prems(3,4) ds by (auto simp: rev_image_eqI)
  ultimately have "set cs = set ds'"
    using Cons.prems(5) ds by auto
  with Cons.IH [of ds'] Cons.prems ds \<open>c = d\<close> show ?case by auto
qed

lemma wf_conditions_ext:
  assumes "wf_conditions cs" and "wf_conditions ds" and "\<And>t. Get cs t = Get ds t"
  shows "cs = ds"
proof -
  have "c \<in> set cs \<longleftrightarrow> c \<in> set ds" for c
    using assms(3) [of "cType c"] Get_Some_iff [OF wf_distinct [OF assms(1)], of "cType c" c]
      Get_Some_iff [OF wf_distinct [OF assms(2)], of "cType c" c] by auto
  then have "set cs = set ds" by auto
  with assms(1,2) show ?thesis
    by (auto simp: wf_conditions_def intro: sorted_distinct_unique)
qed

lemma IsFalse_iff: "IsFalse cs t \<longleftrightarrow> (\<exists>c. Get cs t = Some c \<and> cStatus c = ConditionFalse)"
  by (auto simp: IsFalse_def split: option.splits)

section \<open>Properties\<close>

text \<open>
  C7: setting a condition on a policy whose conditions have distinct types leaves a well-formed
  slice (one condition per type, Ready first) and the rest of the policy alone; the condition of
  that type is then the old one when only the transition time differs, else the new one stamped
  with the current time (an absent one keeps a transition time of its own), and every other
  condition is unchanged.
\<close>

theorem set_condition_correct:
  assumes "distinct (map cType (GetConditions p))"
  shows "let p' = SetConditions p (SetCond now (GetConditions p) (Some c)) in
    wf_conditions (GetConditions p') \<and> pSpec p' = pSpec p \<and>
    (\<forall>t. Get (GetConditions p') t =
       (if t \<noteq> cType c then Get (GetConditions p) t
        else case Get (GetConditions p) t of
          None \<Rightarrow> Some (if IsZero (cLastTransitionTime c) then c\<lparr>cLastTransitionTime := now\<rparr> else c)
        | Some e \<Rightarrow> Some (if hasSameState e c then e else c\<lparr>cLastTransitionTime := now\<rparr>)))"
  using assms
  by (auto simp: SetCond_def SetCondition_wf Get_SetCondition stored_def split: option.splits)

definition example_policy :: JsPolicy where
  "example_policy =
     \<lparr>pName = ''p.example.com'', pUID = ''u1'', pGeneration = 1, pLabels = [], pAnnotations = [],
      pSpec = \<lparr>Operations = [''CREATE''], Resources = [''pods''], APIGroups = [], APIVersions = [],
        Scope = None, ReinvocationPolicy = None, FailurePolicy = None, MatchPolicy = None,
        NamespaceSelector = None, ObjectSelector = None, TimeoutSeconds = None,
        ViolationPolicy = None, AuditPolicy = None, AuditLogSize = None, PType = [],
        Dependencies = [], JavaScript = ''allow()''\<rparr>,
      pStatus = \<lparr>stPhase = [], stReason = [], stMessage = [], stConditions = [],
        stObservedGeneration = 0, stBundleHash = []\<rparr>\<rparr>"

theorem set_condition_correct_witness:
  "Get (GetConditions (SetConditions example_policy
      (SetCond 7 (GetConditions example_policy) (Some (TrueCondition BundleCompiledCondition)))))
     BundleCompiledCondition
   = Some ((TrueCondition BundleCompiledCondition)\<lparr>cLastTransitionTime := 7\<rparr>)"
  using set_condition_correct [of example_policy 7 "TrueCondition BundleCompiledCondition"]
  by (simp add: example_policy_def GetConditions_def TrueCondition_def IsZero_def Let_def)

end
