(* ===== verification/Handler.thy ===== *)
theory Handler
  imports VMPool Conditions
begin

text \<open>
  \<open>pkg/webhook/handler.go\<close>: one admission request through one policy. The bundle comes from the
  API server, the script runs on a machine of the pool, and the response object it leaves behind
  becomes the admission response. What the handler calls outside the repository is collected in
  \<open>handler_env\<close>.
\<close>

record 'c handler_env =
  getBundleObject :: "string \<Rightarrow> go_error + string" \<comment> \<open>\<open>client.Get\<close>, then \<open>.Spec.Bundle\<close>\<close>
  Decompress :: "string \<Rightarrow> go_error + string"
  marshalRequest :: "AdmRequest \<Rightarrow> go_error + json"
  engine_of :: "'c engine"
  globalGet :: "'c \<Rightarrow> string \<Rightarrow> go_error + js_value"
  stringifyValue :: "'c \<Rightarrow> js_value \<Rightarrow> go_error + json"
  unmarshalResponse :: "json \<Rightarrow> go_error + Response"
  marshalPatched :: "json \<Rightarrow> go_error + json"
  marshalObject :: "json \<Rightarrow> go_error + json"
  createPatch :: "json \<Rightarrow> json \<Rightarrow> go_error + json list"
  contextError :: go_error \<comment> \<open>\<open>ctx.Err()\<close> after the context ended\<close>

definition getBundle :: "'c handler_env \<Rightarrow> string \<Rightarrow> go_error + string" where
  "getBundle env policyName =
     (case getBundleObject env policyName of
        Inl err \<Rightarrow> Inl (Errorf (''couldn't find javascript bundle for js policy '' @ policyName))
      | Inr bundle \<Rightarrow>
          (case Decompress env bundle of
             Inl err \<Rightarrow> Inl (Errorf (''error decompressing javascript bundle for js policy '' @ policyName))
           | Inr script \<Rightarrow> Inr script))"

text \<open>
  \<open>runScript\<close> on the machine that \<open>Get\<close> returned (\<open>None\<close> when the context ended first): the
  response's JSON or an error, and the machine as the script left it, which \<open>Put\<close> gets.
\<close>

definition injected :: "string \<Rightarrow> json \<Rightarrow> string \<Rightarrow> string" where
  "injected origin out script =
     ''var __policy = '' @ [CHR 0x27] @ origin @ [CHR 0x27] @ ''; var request = '' @ out @ ''; '' @ script"

definition runScript ::
    "'c handler_env \<Rightarrow> AdmRequest \<Rightarrow> string \<Rightarrow> string \<Rightarrow> int \<Rightarrow> 'c vm option \<Rightarrow>
     (go_error + json) \<times> 'c vm option" where
  "runScript env req script origin timeout machine =
     (case machine of
        None \<Rightarrow> (Inl (contextError env), None)
      | Some v \<Rightarrow>
          (case marshalRequest env req of
             Inl err \<Rightarrow> (Inl (err_wrap err ''marshal request object''), Some v)
           | Inr out \<Rightarrow>
               (case RunScriptWithTimeout (engine_of env) (vmContext v) (injected origin out script) origin timeout of
                  (Some err, ctx) \<Rightarrow> (Inl err, Some (v\<lparr>vmContext := ctx\<rparr>))
                | (None, ctx) \<Rightarrow>
                    (case globalGet env ctx ''__response'' of
                       Inl err \<Rightarrow> Inl err
                     | Inr response \<Rightarrow> stringifyValue env ctx response,
                     Some (v\<lparr>vmContext := ctx\<rparr>)))))"

definition respond :: "'c handler_env \<Rightarrow> AdmRequest \<Rightarrow> JsPolicy \<Rightarrow> Response \<Rightarrow> AdmResponse" where
  "respond env req jsPolicy r =
     (if Deny r then
        let reason = (if Reason r \<noteq> [] then Reason r else ''Forbidden'');
            response = Denied reason;
            result = the (aResult response);
            result1 = result\<lparr>sMessage := Message r\<rparr>;
            result2 = (if 0 <s Code r then result1\<lparr>sCode := ucast (Code r)\<rparr> else result1)
        in response\<lparr>aResult := Some result2, aWarnings := Warnings r\<rparr>
      else
        (case Patched r of
           Some p \<Rightarrow>
             if PType (pSpec jsPolicy) = PolicyTypeMutating then
               (case marshalPatched env p of
                  Inl err \<Rightarrow> Errored 500 err
                | Inr patched \<Rightarrow>
                    (case marshalObject env (rqObject req) of
                       Inl err \<Rightarrow> Errored 500 err
                     | Inr original \<Rightarrow>
                         (PatchResponseFromRaw (createPatch env) original patched)\<lparr>aWarnings := Warnings r\<rparr>))
             else (Allowed [])\<lparr>aWarnings := Warnings r\<rparr>
         | None \<Rightarrow> (Allowed [])\<lparr>aWarnings := Warnings r\<rparr>))"

definition internalHandle ::
    "'c handler_env \<Rightarrow> AdmRequest \<Rightarrow> JsPolicy \<Rightarrow> 'c vm option \<Rightarrow>
     (AdmResponse \<times> Response option) \<times> 'c vm option" where
  "internalHandle env req jsPolicy machine =
     (let timeout = (case TimeoutSeconds (pSpec jsPolicy) of None \<Rightarrow> 10 | Some t \<Rightarrow> sint t)
      in case getBundle env (pName jsPolicy) of
           Inl err \<Rightarrow> ((Errored 500 err, None), machine)
         | Inr decompressed \<Rightarrow>
             (case runScript env req decompressed (pName jsPolicy) timeout machine of
                (Inl err, v) \<Rightarrow> ((Errored 500 err, None), v)
              | (Inr responseJson, v) \<Rightarrow>
                  (case unmarshalResponse env responseJson of
                     Inl err \<Rightarrow> ((Errored 500 err, None), v)
                   | Inr r \<Rightarrow> ((respond env req jsPolicy r, Some r), v))))"

text \<open>\<open>Handle\<close> adds a metric: policy type, policy name and status code.\<close>

definition metric_labels :: "JsPolicy \<Rightarrow> AdmResponse \<Rightarrow> string \<times> string \<times> string" where
  "metric_labels jsPolicy response =
     (let statusCode = (case aResult response of
                          Some st \<Rightarrow> if sCode st \<noteq> 0 then sint (sCode st) else 200
                        | None \<Rightarrow> 200);
          policyType = (if PType (pSpec jsPolicy) \<noteq> [] then PType (pSpec jsPolicy) else PolicyTypeValidating)
      in (policyType, pName jsPolicy, itoa statusCode))"

definition Handle ::
    "'c handler_env \<Rightarrow> AdmRequest \<Rightarrow> JsPolicy \<Rightarrow> 'c vm option \<Rightarrow>
     (AdmResponse \<times> Response option) \<times> (string \<times> string \<times> string) \<times> 'c vm option" where
  "Handle env req jsPolicy machine =
     (case internalHandle env req jsPolicy machine of
        ((response, raw), v) \<Rightarrow> ((response, raw), metric_labels jsPolicy response, v))"

section \<open>What the handler answers\<close>

text \<open>The response object that the policy's script leaves behind, if it gets that far.\<close>

definition policy_outcome :: "'c handler_env \<Rightarrow> AdmRequest \<Rightarrow> JsPolicy \<Rightarrow> 'c vm option \<Rightarrow> Response option" where
  "policy_outcome env req p machine = snd (fst (internalHandle env req p machine))"

lemma internalHandle_outcome:
  "fst (internalHandle env req p machine) =
     (case policy_outcome env req p machine of
        None \<Rightarrow> (fst (fst (internalHandle env req p machine)), None)
      | Some r \<Rightarrow> (respond env req p r, Some r))"
  by (auto simp: policy_outcome_def internalHandle_def Let_def split: sum.splits prod.splits option.splits)

lemma internalHandle_no_outcome:
  "policy_outcome env req p machine = None \<Longrightarrow>
   \<exists>err. fst (fst (internalHandle env req p machine)) = Errored 500 err"
  by (auto simp: policy_outcome_def internalHandle_def Let_def split: sum.splits prod.splits)

text \<open>The object that a mutating policy set can be turned into a patch of the request's object.\<close>

definition patchable :: "'c handler_env \<Rightarrow> AdmRequest \<Rightarrow> json \<Rightarrow> bool" where
  "patchable env req o1 \<longleftrightarrow>
     (\<exists>a b ps. marshalPatched env o1 = Inr a \<and> marshalObject env (rqObject req) = Inr b \<and>
        createPatch env b a = Inr ps)"

lemma respond_allowed:
  "aAllowed (respond env req p r) \<longleftrightarrow> \<not> Deny r \<and>
     (case Patched r of
        Some o1 \<Rightarrow> if PType (pSpec p) = PolicyTypeMutating then patchable env req o1 else True
      | None \<Rightarrow> True)"
  by (auto simp: respond_def Let_def PatchResponseFromRaw_def response_defs patchable_def
      split: option.splits sum.splits)

lemma respond_patches:
  "aPatches (respond env req p r) = [] \<or>
     aAllowed (respond env req p r) \<and> PType (pSpec p) = PolicyTypeMutating"
  by (auto simp: respond_def Let_def PatchResponseFromRaw_def response_defs
      split: option.splits sum.splits if_splits)

lemma internalHandle_keeps_isolate:
  "map_option vmIsolate (snd (internalHandle env req p machine)) = map_option vmIsolate machine"
  by (auto simp: internalHandle_def runScript_def Let_def split: sum.splits option.splits prod.splits)

lemma internalHandle_context:
  "fst (internalHandle env req p (Some (v\<lparr>vmIsolate := i\<rparr>))) = fst (internalHandle env req p (Some v))"
proof -
  have "fst (runScript env req script origin t (Some (v\<lparr>vmIsolate := i\<rparr>)))
      = fst (runScript env req script origin t (Some v))" for script origin t
    by (auto simp: runScript_def split: sum.splits prod.splits option.splits)
  then show ?thesis
    by (auto simp: internalHandle_def Let_def split: sum.splits prod.splits)
      (metis fst_conv Inl_inject Inr_inject sum.distinct(1))+
qed

lemma internalHandle_machine:
  "\<exists>c. snd (internalHandle env req p (Some v)) = Some (v\<lparr>vmContext := c\<rparr>)"
proof -
  have same: "v = v\<lparr>vmContext := vmContext v\<rparr>" by simp
  show ?thesis
    using same
    by (auto simp: internalHandle_def runScript_def Let_def split: sum.splits option.splits prod.splits
        intro: exI [of _ "vmContext v"])
qed

section \<open>The handler as a client of the pool\<close>

definition handle_on ::
    "'c handler_env \<Rightarrow> 'c vm \<Rightarrow> AdmRequest \<times> JsPolicy \<Rightarrow> AdmResponse \<times> 'c vm" where
  "handle_on env v x =
     (case internalHandle env (fst x) (snd x) (Some v) of
        ((response, raw), v') \<Rightarrow> (response, the v'))"

lemma handle_on_machine: "\<exists>c. snd (handle_on env v x) = v\<lparr>vmContext := c\<rparr>"
  using internalHandle_machine [of env "fst x" "snd x" v]
  by (auto simp: handle_on_def split: prod.splits)

lemma handle_on_fresh:
  assumes "vmContext v = vmContext u"
  shows "fst (handle_on env v x) = fst (handle_on env u x)"
proof -
  have "v\<lparr>vmIsolate := vmIsolate u\<rparr> = u" using assms by (cases v; cases u) simp
  then have "fst (internalHandle env (fst x) (snd x) (Some v)) = fst (internalHandle env (fst x) (snd x) (Some u))"
    using internalHandle_context [where env = env and req = "fst x" and p = "snd x" and v = v
        and i = "vmIsolate u"] by simp
  then show ?thesis by (auto simp: handle_on_def split: prod.splits)
qed

interpretation pool_source: vm_source VMPool_Get "VMPool_Put (RecreateContext (engine_of env) blank prelude)"
    "handle_on env" "pool_ready (engine_of env) blank prelude" "fresh (engine_of env) blank prelude"
    for env blank prelude
proof unfold_locales
  fix p v p' x
  assume "pool_ready (engine_of env) blank prelude p"
  then show "\<exists>v p'. VMPool_Get p = (Got v, p') \<and> fresh (engine_of env) blank prelude v"
    by (rule pool_ready_get)
next
  fix p v p' x
  assume "pool_ready (engine_of env) blank prelude p" "VMPool_Get p = (Got v, p')"
  then show "\<exists>p''. VMPool_Put (RecreateContext (engine_of env) blank prelude)
      (Some (snd (handle_on env v x))) p' = (None, p'') \<and> pool_ready (engine_of env) blank prelude p''"
    using handle_on_machine [of env v x] pool_ready_put by metis
next
  fix v u x
  assume "fresh (engine_of env) blank prelude v" "fresh (engine_of env) blank prelude u"
  then show "fst (handle_on env v x) = fst (handle_on env u x)"
    by (intro handle_on_fresh) (simp add: fresh_def)
qed

section \<open>Properties\<close>

text \<open>
  C1: a request passes a policy only when everything went well: the bundle was found and
  decompressed, the script ran to its end in time, its response could be read and does not deny,
  and a mutating policy's object, if it set one, could be turned into a patch. Every failure on the
  way denies, and only mutating policies patch.
\<close>

theorem Handle_allows_iff:
  "let resp = fst (fst (Handle env req p machine));
       timeout = (case TimeoutSeconds (pSpec p) of None \<Rightarrow> 10 | Some t \<Rightarrow> sint t)
   in (aAllowed resp \<longleftrightarrow>
        (\<exists>script out r. getBundle env (pName p) = Inr script \<and>
           fst (runScript env req script (pName p) timeout machine) = Inr out \<and>
           unmarshalResponse env out = Inr r \<and> \<not> Deny r \<and>
           (case Patched r of
              Some o1 \<Rightarrow> if PType (pSpec p) = PolicyTypeMutating then patchable env req o1 else True
            | None \<Rightarrow> True))) \<and>
      (aPatches resp = [] \<or> aAllowed resp \<and> PType (pSpec p) = PolicyTypeMutating)"
proof -
  let ?t = "case TimeoutSeconds (pSpec p) of None \<Rightarrow> 10 | Some t \<Rightarrow> sint t"
  show ?thesis
  proof (cases "policy_outcome env req p machine")
    case None
    then obtain err where e: "fst (fst (internalHandle env req p machine)) = Errored 500 err"
      using internalHandle_no_outcome by blast
    have "\<not> (\<exists>script out r. getBundle env (pName p) = Inr script \<and>
        fst (runScript env req script (pName p) ?t machine) = Inr out \<and> unmarshalResponse env out = Inr r)"
      using None by (auto simp: policy_outcome_def internalHandle_def Let_def split: sum.splits prod.splits)
    then show ?thesis
      using e by (auto simp: Handle_def Let_def split: prod.splits)
  next
    case (Some r)
    then have resp: "fst (fst (Handle env req p machine)) = respond env req p r"
      using internalHandle_outcome [of env req p machine] by (auto simp: Handle_def split: prod.splits)
    have "\<exists>script out. getBundle env (pName p) = Inr script \<and>
        fst (runScript env req script (pName p) ?t machine) = Inr out \<and> unmarshalResponse env out = Inr r"
      using Some by (auto simp: policy_outcome_def internalHandle_def Let_def split: sum.splits prod.splits)
    then have out: "(\<exists>script out r'. getBundle env (pName p) = Inr script \<and>
        fst (runScript env req script (pName p) ?t machine) = Inr out \<and>
        unmarshalResponse env out = Inr r' \<and> Q r') \<longleftrightarrow> Q r" for Q
      by auto
    show ?thesis
      unfolding Let_def resp out using respond_patches [of env req p r] by (simp add: respond_allowed)
  qed
qed

text \<open>
  A denying policy's response carries its warnings, its message, its reason (Forbidden when it
  gave none) and its status code, 403 when the code is not positive; the code is cut to its low 32
  bits, so every code of the 32-bit range survives and a larger one does not.
\<close>

theorem respond_deny:
  assumes "Deny r"
  shows "\<exists>st. aResult (respond env req p r) = Some st \<and> \<not> aAllowed (respond env req p r) \<and>
    aWarnings (respond env req p r) = Warnings r \<and> sMessage st = Message r \<and>
    sReason st = (if Reason r = [] then ''Forbidden'' else Reason r) \<and>
    (sint (Code r) \<le> 0 \<and> sCode st = 403 \<or>
     0 < sint (Code r) \<and> uint (sCode st) = sint (Code r) mod 2 ^ 32)"
proof -
  have "uint (ucast (Code r) :: int32) = sint (Code r) mod 2 ^ 32" if "0 < sint (Code r)"
    using take_bit_signed_take_bit [of 32 63 "uint (Code r)"]
    by (simp add: unsigned_ucast_eq sint_uint take_bit_eq_mod)
  then show ?thesis
    using assms by (auto simp: respond_def Let_def response_defs word_sless_alt)
qed

text \<open>An environment whose scripts all leave the response object \<open>r\<close> behind.\<close>

definition example_env :: "Response \<Rightarrow> nat handler_env" where
  "example_env r =
     \<lparr>getBundleObject = (\<lambda>_. Inr ''bundle''), Decompress = Inr, marshalRequest = (\<lambda>_. Inr ''{}''),
      engine_of = counting_engine, globalGet = (\<lambda>_ _. Inr JsUndefined),
      stringifyValue = (\<lambda>_ _. Inr ''{}''), unmarshalResponse = (\<lambda>_. Inr r), marshalPatched = Inr,
      marshalObject = Inr, createPatch = (\<lambda>_ _. Inr []), contextError = Errorf ''canceled''\<rparr>"

definition example_request :: AdmRequest where
  "example_request =
     \<lparr>rqUID = ''r1'', rqKind = \<lparr>gvkGroup = ''apps'', gvkVersion = ''v1'', gvkKind = ''Deployment''\<rparr>,
      rqName = ''web'', rqNamespace = ''default'', rqOperation = ''CREATE'',
      rqUserInfo = \<lparr>uiUsername = ''alice'', uiUID = []\<rparr>, rqObject = ''{}'', rqOldObject = []\<rparr>"

theorem respond_deny_witness:
  "let r = noResponse\<lparr>Deny := True, Code := 4294967496\<rparr> in
     \<exists>st. aResult (respond (example_env r) example_request example_policy r) = Some st \<and>
       uint (sCode st) = 200"
proof -
  define r where "r = noResponse\<lparr>Deny := True, Code := 4294967496\<rparr>"
  have "Deny r" by (simp add: r_def)
  from respond_deny [OF this, of "example_env r" example_request example_policy] show ?thesis
    by (auto simp: r_def [symmetric]) (auto simp: r_def)
qed

text \<open>
  C4: a pool of machines that serves requests one after the other answers each of them as a machine
  would on which nothing but the prelude has run: no policy run sees what an earlier one left
  behind, and the pool never runs dry.
\<close>

theorem requests_isolated:
  assumes "start_pool setGlobal (engine_of env) blank prelude n = Inr p" and "0 < n"
    and "v \<in> set (stack_data p)"
  shows "pool_source.serve_all env blank prelude p xs = Some (map (\<lambda>x. fst (handle_on env v x)) xs)"
proof -
  note shape = start_pool_shape [OF assms(1)]
  have "pool_ready (engine_of env) blank prelude p"
    using shape assms(2) by (simp add: pool_ready_def)
  moreover have "fresh (engine_of env) blank prelude v" using shape assms(3) by simp
  ultimately show ?thesis by (rule pool_source.serve_all_isolated)
qed

theorem requests_isolated_witness:
  "\<exists>p. start_pool (\<lambda>_. None) counting_engine 0 ''prelude'' 1 = Inr p \<and>
     length (the (pool_source.serve_all (example_env noResponse) 0 ''prelude'' p
        [(example_request, example_policy), (example_request, example_policy)])) = 2"
proof -
  let ?v = "\<lparr>vmIsolate = 0, vmContext = 1 :: nat\<rparr>"
  let ?p = "\<lparr>stack_data = [?v], permits = 1\<rparr>"
  have p: "start_pool (\<lambda>_. None) counting_engine 0 ''prelude'' 1 = Inr ?p"
    by (simp add: start_pool_def NewVMPool_def NewVM_def globalFunctions_def NewContext_def
        RunScriptWithTimeout_def runScript_error_def counting_engine_def Push_def)
  have p': "start_pool (\<lambda>_. None) (engine_of (example_env noResponse)) 0 ''prelude'' 1 = Inr ?p"
    using p by (simp add: example_env_def)
  have "pool_source.serve_all (example_env noResponse) 0 ''prelude'' ?p
      [(example_request, example_policy), (example_request, example_policy)]
    = Some (map (\<lambda>x. fst (handle_on (example_env noResponse) ?v x))
        [(example_request, example_policy), (example_request, example_policy)])"
    by (rule requests_isolated [OF p']) simp_all
  then show ?thesis using p by (intro exI [of _ ?p]) (simp only: option.sel length_map, simp)
qed

end
