(* ===== verification/AuditLog.thy ===== *)
theory AuditLog
  imports Admission Client Conditions
begin

text \<open>
  \<open>pkg/webhook/audit.go\<close>: logging a denied request in the policy's violations object. The
  recursion of \<open>LogRequest\<close> need not end, so the function is partial: \<open>None\<close> means that it runs
  forever, \<open>Some w\<close> that it returns in world \<open>w\<close>.
\<close>

definition DefaultAuditLogSize :: int where
  "DefaultAuditLogSize = 20"

definition buildViolation :: "gotime \<Rightarrow> AdmRequest \<Rightarrow> AdmResponse \<Rightarrow> string \<Rightarrow> PolicyViolation" where
  "buildViolation now request response action =
     (let (message, reason, code) =
        (case aResult response of
           Some st \<Rightarrow> (truncate_message (sMessage st), sReason st, sCode st)
         | None \<Rightarrow> ([], [], 0))
      in \<lparr>vAction = action, vCode = code, vReason = reason, vMessage = message,
          vRequestInfo = \<lparr>riName = rqName request, riNamespace = rqNamespace request,
            riKind = gvkKind (rqKind request),
            riAPIVersion = GroupVersion_String (gvkGroup (rqKind request)) (gvkVersion (rqKind request)),
            riOperation = rqOperation request\<rparr>,
          vUserInfo = rqUserInfo request, vTimestamp = now\<rparr>)"

definition violation_action :: "JsPolicy \<Rightarrow> string" where
  "violation_action jsPolicy =
     (if PType (pSpec jsPolicy) = PolicyTypeController then ViolationPolicyPolicyController
      else case ViolationPolicy (pSpec jsPolicy) of Some v \<Rightarrow> v | None \<Rightarrow> ViolationPolicyPolicyDeny)"

definition audit_log_size :: "JsPolicy \<Rightarrow> int" where
  "audit_log_size jsPolicy =
     (case AuditLogSize (pSpec jsPolicy) of
        Some n \<Rightarrow> if 0 \<le> sint n \<and> sint n < 40 then sint n else DefaultAuditLogSize
      | None \<Rightarrow> DefaultAuditLogSize)"

text \<open>Append, then keep the last \<open>logSize\<close> entries.\<close>

definition log_violation :: "int \<Rightarrow> PolicyViolation \<Rightarrow> JsPolicyViolations \<Rightarrow> JsPolicyViolations" where
  "log_violation logSize v o1 =
     (let vs = jvViolations o1 @ [v]
      in o1\<lparr>jvViolations :=
           (if int (length vs) > logSize then drop (nat (int (length vs) - logSize)) vs else vs)\<rparr>)"

definition audit_skipped :: "AdmResponse \<Rightarrow> JsPolicy \<Rightarrow> bool" where
  "audit_skipped response jsPolicy \<longleftrightarrow>
     aAllowed response \<or> AuditPolicy (pSpec jsPolicy) = Some AuditPolicySkip"

type_synonym 'w violations_client = "('w, JsPolicyViolations) store_client"

partial_function (option) LogRequest ::
    "'w violations_client \<Rightarrow> (JsPolicyViolations \<Rightarrow> go_error + JsPolicyViolations) \<Rightarrow> gotime \<Rightarrow>
     AdmRequest \<Rightarrow> AdmResponse \<Rightarrow> JsPolicy \<Rightarrow> int \<Rightarrow> 'w \<Rightarrow> 'w option" where
  "LogRequest c setRef now request response jsPolicy retryCounter w =
     (if audit_skipped response jsPolicy then Some w
      else if retryCounter = 0 then Some w
      else
        (case cGet c [] (pName jsPolicy) w of
           (Inl err, w1) \<Rightarrow>
             if \<not> IsNotFound err then Some w1
             else
               (case CreateWithOwner setRef c
                       \<lparr>jvName = pName jsPolicy, jvResourceVersion = [], jvViolations = []\<rparr> w1 of
                  (Some err', w2) \<Rightarrow>
                    if \<not> IsAlreadyExists err' then Some w2
                    else LogRequest c setRef now request response jsPolicy retryCounter w2
                | (None, w2) \<Rightarrow> LogRequest c setRef now request response jsPolicy retryCounter w2)
         | (Inr violations, w1) \<Rightarrow>
             (case cUpdate c (log_violation (audit_log_size jsPolicy)
                       (buildViolation now request response (violation_action jsPolicy)) violations) w1 of
                (None, w2) \<Rightarrow> Some w2
              | (Some err, w2) \<Rightarrow>
                  if IsNotFound err then Some w2
                  else if IsConflict err
                  then LogRequest c setRef now request response jsPolicy retryCounter w2
                  else Some w2)))"

section \<open>The log\<close>

definition last_n :: "nat \<Rightarrow> 'a list \<Rightarrow> 'a list" where
  "last_n n xs = drop (length xs - n) xs"

lemma audit_log_size_bounds: "0 \<le> audit_log_size p \<and> audit_log_size p < 40"
  by (auto simp: audit_log_size_def DefaultAuditLogSize_def split: option.splits)

lemma log_violation_last_n:
  "0 \<le> n \<Longrightarrow> log_violation n v o1 = o1\<lparr>jvViolations := last_n (nat n) (jvViolations o1 @ [v])\<rparr>"
proof -
  assume n: "0 \<le> n"
  define vs where "vs = jvViolations o1 @ [v]"
  have "nat (int (length vs) - n) = length vs - nat n" using n by arith
  moreover have "drop (length vs - nat n) vs = vs" if "\<not> int (length vs) > n"
    using that n by (simp add: nat_le_iff)
  ultimately show ?thesis
    unfolding log_violation_def last_n_def Let_def vs_def [symmetric] by simp
qed

lemma length_last_n: "length (last_n n xs) = min n (length xs)"
  by (simp add: last_n_def)

lemma last_n_absorb: "last_n n (last_n n xs @ ys) = last_n n (xs @ ys)"
proof (cases "length xs \<le> n")
  case True
  then show ?thesis by (simp add: last_n_def)
next
  case False
  then show ?thesis by (simp add: last_n_def add.commute)
qed

lemma log_violation_simps [simp]:
  "jvName (log_violation n v o1) = jvName o1"
  "jvResourceVersion (log_violation n v o1) = jvResourceVersion o1"
  by (simp_all add: log_violation_def Let_def)

lemma LogRequest_skip:
  "audit_skipped response p \<Longrightarrow> LogRequest c setRef now request response p retry w = Some w"
  by (simp add: LogRequest.simps)

section \<open>On a quiet server\<close>

definition violations_key :: "JsPolicyViolations \<Rightarrow> string \<times> string" where
  "violations_key o1 = ([], jvName o1)"

definition same_violations :: "JsPolicyViolations \<Rightarrow> JsPolicyViolations \<Rightarrow> bool" where
  "same_violations a b \<longleftrightarrow> jvViolations a = jvViolations b"

abbreviation quiet_violations ::
    "'w violations_client \<Rightarrow> ('w \<Rightarrow> string \<times> string \<Rightarrow> JsPolicyViolations option) \<Rightarrow> bool" where
  "quiet_violations c \<equiv> quiet_server c violations_key same_violations jvResourceVersion"

definition logged :: "('w \<Rightarrow> string \<times> string \<Rightarrow> JsPolicyViolations option) \<Rightarrow> 'w \<Rightarrow> string \<Rightarrow> PolicyViolation list" where
  "logged cur w name = (case cur w ([], name) of None \<Rightarrow> [] | Some o1 \<Rightarrow> jvViolations o1)"

lemma LogRequest_found:
  assumes q: "quiet_violations c cur" and s: "\<not> audit_skipped response p" and r: "retry \<noteq> 0"
    and f: "cur w ([], pName p) = Some o1"
  shows "\<exists>w' o2. LogRequest c setRef now request response p retry w = Some w' \<and>
    cur w' = (cur w)(([], pName p) \<mapsto> o2) \<and>
    jvViolations o2 = last_n (nat (audit_log_size p))
      (jvViolations o1 @ [buildViolation now request response (violation_action p)])"
proof -
  let ?new = "log_violation (audit_log_size p)
    (buildViolation now request response (violation_action p)) o1"
  have g: "cGet c [] (pName p) w = (Inr o1, w)"
    using quiet_get [where w = w and ns = "[]" and n = "pName p", OF q] f by simp
  have k: "violations_key ?new = ([], pName p)"
    using quiet_key [OF q f] by (simp add: violations_key_def)
  obtain w' o2 where u: "cUpdate c ?new w = (None, w')" "cur w' = (cur w)(violations_key ?new \<mapsto> o2)"
    "same_violations o2 ?new"
    by (rule quiet_update [OF q, of w ?new o1]) (simp_all add: k f)
  have "LogRequest c setRef now request response p retry w = Some w'"
    by (subst LogRequest.simps) (simp add: s r g u(1))
  moreover have "jvViolations o2 = last_n (nat (audit_log_size p))
      (jvViolations o1 @ [buildViolation now request response (violation_action p)])"
    using u(3) audit_log_size_bounds [of p] by (simp add: same_violations_def log_violation_last_n)
  ultimately show ?thesis using u(2) k by auto
qed

lemma LogRequest_absent:
  assumes q: "quiet_violations c cur" and s: "\<not> audit_skipped response p" and r: "retry \<noteq> 0"
    and f: "cur w ([], pName p) = None"
    and ref: "\<And>o1. \<exists>o2. setRef o1 = Inr o2 \<and> violations_key o2 = violations_key o1 \<and>
                jvViolations o2 = jvViolations o1"
  shows "\<exists>w1 o1. LogRequest c setRef now request response p retry w =
      LogRequest c setRef now request response p retry w1 \<and>
    cur w1 = (cur w)(([], pName p) \<mapsto> o1) \<and> jvViolations o1 = []"
proof -
  let ?new = "\<lparr>jvName = pName p, jvResourceVersion = [], jvViolations = []\<rparr>"
  obtain e where g: "cGet c [] (pName p) w = (Inl e, w)" "IsNotFound e"
    using quiet_get [where w = w and ns = "[]" and n = "pName p", OF q] f by auto
  obtain o2 where o2: "setRef ?new = Inr o2" "violations_key o2 = ([], pName p)" "jvViolations o2 = []"
    using ref [of ?new] by (auto simp: violations_key_def)
  obtain w1 o1 where c: "cCreate c o2 w = (None, w1)" "cur w1 = (cur w)(violations_key o2 \<mapsto> o1)"
    "same_violations o1 o2"
    by (rule quiet_create [OF q, of w o2]) (simp_all add: o2 f)
  have "LogRequest c setRef now request response p retry w =
      LogRequest c setRef now request response p retry w1"
    by (subst LogRequest.simps) (simp add: s r g CreateWithOwner_def o2(1) c(1))
  then show ?thesis using c(2,3) o2 by (auto simp: same_violations_def)
qed

section \<open>Properties\<close>

text \<open>
  C11: on an API server without other writers, logging a denied request returns and leaves in the
  policy's violations object, created if it was missing, the last entries of the old log followed by
  the new one, as many as the policy's log size; no other violations object changes. An allowed
  request, and one of a policy that skips auditing, leaves the world as it was.
\<close>

theorem LogRequest_logs:
  assumes "quiet_violations c cur" and "retry \<noteq> 0"
    and "\<And>o1. \<exists>o2. setRef o1 = Inr o2 \<and> violations_key o2 = violations_key o1 \<and>
           jvViolations o2 = jvViolations o1"
  shows "\<exists>w'. LogRequest c setRef now request response p retry w = Some w' \<and>
    (if audit_skipped response p then w' = w
     else (\<forall>name. logged cur w' name =
       (if name = pName p
        then last_n (nat (audit_log_size p))
               (logged cur w name @ [buildViolation now request response (violation_action p)])
        else logged cur w name)))"
proof (cases "audit_skipped response p")
  case True
  then show ?thesis by (simp add: LogRequest_skip)
next
  case False
  show ?thesis
  proof (cases "cur w ([], pName p)")
    case (Some o1)
    from LogRequest_found [OF assms(1) False assms(2) Some, of setRef now request] show ?thesis
      using False Some by (auto simp: logged_def split: option.splits)
  next
    case None
    obtain w1 o1 where w1: "LogRequest c setRef now request response p retry w =
        LogRequest c setRef now request response p retry w1"
      "cur w1 = (cur w)(([], pName p) \<mapsto> o1)" "jvViolations o1 = []"
      using LogRequest_absent [OF assms(1) False assms(2) None assms(3)] by blast
    have "cur w1 ([], pName p) = Some o1" by (simp add: w1(2))
    from LogRequest_found [OF assms(1) False assms(2) this, of setRef now request] show ?thesis
      using False None w1 by (auto simp: logged_def split: option.splits)
  qed
qed

definition example_denied :: AdmResponse where
  "example_denied = (Denied ''Forbidden'')\<lparr>aResult := Some \<lparr>sMessage = ''no'', sReason = [], sCode = 403\<rparr>\<rparr>"

definition example_audit_request :: AdmRequest where
  "example_audit_request =
     \<lparr>rqUID = ''r1'', rqKind = \<lparr>gvkGroup = [], gvkVersion = ''v1'', gvkKind = ''Pod''\<rparr>, rqName = ''web'',
      rqNamespace = ''default'', rqOperation = ''CREATE'',
      rqUserInfo = \<lparr>uiUsername = ''alice'', uiUID = []\<rparr>, rqObject = ''{}'', rqOldObject = []\<rparr>"

lemma keyed_violations_quiet: "quiet_violations (keyed_client violations_key) (keyed violations_key)"
  by (rule keyed_client_quiet) (simp add: same_violations_def)

theorem LogRequest_logs_witness:
  "\<exists>w'. LogRequest (keyed_client violations_key) Inr 7 example_audit_request example_denied
       example_policy 5 (\<lambda>_. None) = Some w' \<and>
     length (logged (keyed violations_key) w' (pName example_policy)) = 1"
proof -
  have "\<not> audit_skipped example_denied example_policy"
    by (simp add: audit_skipped_def example_denied_def example_policy_def)
  moreover have "audit_log_size example_policy = 20"
    by (simp add: audit_log_size_def example_policy_def DefaultAuditLogSize_def)
  ultimately show ?thesis
    using LogRequest_logs [OF keyed_violations_quiet, of 5 Inr 7 example_audit_request example_denied
        example_policy "\<lambda>_. None"]
    by (auto simp: logged_def keyed_def last_n_def)
qed

text \<open>
  C12: the retry counter does not bound the retries: on a server that answers every update of an
  existing violations object with a conflict, logging a denied request never returns, whatever the
  counter was (the recursive call passes it on unchanged).
\<close>

theorem LogRequest_conflict_diverges:
  assumes "\<And>w. \<exists>o1 w'. cGet c [] (pName p) w = (Inr o1, w')"
    and "\<And>o1 w. \<exists>e w'. cUpdate c o1 w = (Some e, w') \<and> IsConflict e"
    and "\<not> audit_skipped response p" and "retry \<noteq> 0"
  shows "LogRequest c setRef now request response p retry w = None"
proof -
  have False if "LogRequest c setRef now request response p retry w = Some r" for r
  proof -
    have "c = c \<longrightarrow> response = response \<longrightarrow> p = p \<longrightarrow> retry = retry \<longrightarrow> False"
    proof (rule LogRequest.raw_induct [where P = "\<lambda>c' s n q response' p' retry' w r.
          c' = c \<longrightarrow> response' = response \<longrightarrow> p' = p \<longrightarrow> retry' = retry \<longrightarrow> False", OF _ that],
        intro impI)
      fix f :: "'a violations_client \<Rightarrow> (JsPolicyViolations \<Rightarrow> go_error + JsPolicyViolations) \<Rightarrow> gotime \<Rightarrow>
          AdmRequest \<Rightarrow> AdmResponse \<Rightarrow> JsPolicy \<Rightarrow> int \<Rightarrow> 'a \<Rightarrow> 'a option"
      fix c' s n q response' p' retry' w y
      assume ih: "\<And>c' s n q response' p' retry' w y. f c' s n q response' p' retry' w = Some y \<Longrightarrow>
          c' = c \<longrightarrow> response' = response \<longrightarrow> p' = p \<longrightarrow> retry' = retry \<longrightarrow> False"
      assume eq: "c' = c" "response' = response" "p' = p" "retry' = retry"
      obtain o1 w1 where g: "cGet c [] (pName p) w = (Inr o1, w1)" using assms(1) by blast
      obtain e w2 where u: "cUpdate c (log_violation (audit_log_size p)
          (buildViolation n q response (violation_action p)) o1) w1 = (Some e, w2)" "IsConflict e"
        using assms(2) by blast
      have nf: "\<not> IsNotFound e" using u(2) by (auto simp: err_defs)
      assume "(if audit_skipped response' p' then Some w
        else if retry' = 0 then Some w
        else case cGet c' [] (pName p') w of
            (Inl err, w1) \<Rightarrow>
              if \<not> IsNotFound err then Some w1
              else (case CreateWithOwner s c'
                       \<lparr>jvName = pName p', jvResourceVersion = [], jvViolations = []\<rparr> w1 of
                    (None, w2) \<Rightarrow> f c' s n q response' p' retry' w2
                  | (Some err', w2) \<Rightarrow>
                      if \<not> IsAlreadyExists err' then Some w2 else f c' s n q response' p' retry' w2)
          | (Inr violations, w1) \<Rightarrow>
              (case cUpdate c' (log_violation (audit_log_size p')
                       (buildViolation n q response' (violation_action p')) violations) w1 of
                 (None, w2) \<Rightarrow> Some w2
               | (Some err, w2) \<Rightarrow>
                   if IsNotFound err then Some w2
                   else if IsConflict err then f c' s n q response' p' retry' w2 else Some w2)) = Some y"
      then have "f c s n q response p retry w2 = Some y"
        using assms(3,4) by (simp add: eq g u nf)
      then show False using ih by blast
    qed
    then show False by simp
  qed
  then show ?thesis by (meson not_None_eq)
qed

definition conflict_client :: "JsPolicyViolations \<Rightarrow> unit violations_client" where
  "conflict_client o1 =
     \<lparr>cGet = (\<lambda>ns n w. (Inr o1, w)), cCreate = (\<lambda>x w. (Some (GoError AlreadyExists ''exists''), w)),
      cUpdate = (\<lambda>x w. (Some (GoError Conflict ''conflict''), w))\<rparr>"

theorem LogRequest_conflict_diverges_witness:
  "LogRequest (conflict_client \<lparr>jvName = ''p.example.com'', jvResourceVersion = ''1'', jvViolations = []\<rparr>)
     Inr 7 example_audit_request example_denied example_policy 5 () = None"
  by (rule LogRequest_conflict_diverges)
    (simp_all add: conflict_client_def err_defs audit_skipped_def example_denied_def example_policy_def)

end
