(* ===== verification/Report.thy ===== *)
theory Report
  imports AuditLog
begin

text \<open>
  \<open>pkg/webhook/report.go\<close>: reporting a denied request in a policy report, the namespace's or the
  cluster's. The two handlers of the source differ in the report's name and namespace and in the
  client call, and call back \<open>ReportRequest\<close>, which enters them as the parameter \<open>again\<close>. As in
  theory AuditLog, \<open>None\<close> means that the call does not return.
\<close>

abbreviation Source :: string where "Source \<equiv> ''JsPolicy''"
abbreviation PolicyReportPrefix :: string where "PolicyReportPrefix \<equiv> ''js-policy-report-ns-''"
abbreviation ClusterPolicyReportName :: string where
  "ClusterPolicyReportName \<equiv> ''js-cluster-policy-report''"
abbreviation CategoryAnnotation :: string where "CategoryAnnotation \<equiv> ''policy.jspolicy.com/category''"
abbreviation SeverityAnnotation :: string where "SeverityAnnotation \<equiv> ''policy.jspolicy.com/severity''"

section \<open>The entry\<close>

definition resolveAction :: "JsPolicy \<Rightarrow> string" where
  "resolveAction jsPolicy =
     (let action = (case ViolationPolicy (pSpec jsPolicy) of
                      Some v \<Rightarrow> v | None \<Rightarrow> ViolationPolicyPolicyDeny)
      in if PType (pSpec jsPolicy) = PolicyTypeController then ViolationPolicyPolicyController else action)"

definition mapStatus :: "string \<Rightarrow> string" where
  "mapStatus result =
     (if result = ViolationPolicyPolicyDeny then StatusFail
      else if result = ViolationPolicyPolicyWarn then StatusWarn
      else if result = ViolationPolicyPolicyController then StatusPass
      else StatusSkip)"

definition mapSeverity :: "string \<Rightarrow> string" where
  "mapSeverity severity =
     (if severity = SeverityLow then SeverityLow
      else if severity = SeverityMedium then SeverityMedium
      else SeverityHigh)"

definition buildResult ::
    "gotime \<Rightarrow> AdmRequest \<Rightarrow> AdmResponse \<Rightarrow> JsPolicy \<Rightarrow> string \<Rightarrow> PolicyReportResult" where
  "buildResult now request response jsPolicy result =
     (let base = \<lparr>prSource = Source, prPolicy = pName jsPolicy,
            prResources = [\<lparr>orKind = gvkKind (rqKind request), orNamespace = rqNamespace request,
                            orName = rqName request, orAPIVersion = gvkVersion (rqKind request),
                            orUID = rqUID request\<rparr>],
            prMessage = [], prResult = mapStatus result, prProperties = [], prTimestamp = now,
            prCategory = (case map_of (pAnnotations jsPolicy) CategoryAnnotation of
                            Some category \<Rightarrow> category | None \<Rightarrow> []),
            prSeverity = (case map_of (pAnnotations jsPolicy) SeverityAnnotation of
                            Some severity \<Rightarrow> mapSeverity severity | None \<Rightarrow> [])\<rparr>
      in case aResult response of
           None \<Rightarrow> base
         | Some st \<Rightarrow>
             base\<lparr>prMessage := truncate_message (sMessage st),
                  prProperties :=
                    [(''operation'', rqOperation request), (''reason'', sReason st),
                     (''code'', itoa (sint (sCode st))),
                     (''userinfo.username'', uiUsername (rqUserInfo request))] @
                    (if uiUID (rqUserInfo request) \<noteq> []
                     then [(''userinfo.uuid'', uiUID (rqUserInfo request))] else [])\<rparr>)"

section \<open>The report\<close>

definition bump :: "int \<Rightarrow> string \<Rightarrow> PolicyReportSummary \<Rightarrow> PolicyReportSummary" where
  "bump d status s =
     (if status = StatusFail then s\<lparr>sumFail := sumFail s + d\<rparr>
      else if status = StatusError then s\<lparr>sumError := sumError s + d\<rparr>
      else if status = StatusWarn then s\<lparr>sumWarn := sumWarn s + d\<rparr>
      else if status = StatusPass then s\<lparr>sumPass := sumPass s + d\<rparr>
      else if status = StatusSkip then s\<lparr>sumSkip := sumSkip s + d\<rparr>
      else s)"

text \<open>Append the entry; over the limit, drop the oldest and take it out of the summary; count the new.\<close>

definition add_result :: "int \<Rightarrow> PolicyReportResult \<Rightarrow> PolicyReport \<Rightarrow> PolicyReport" where
  "add_result maxEvents policyresult report =
     (let results = rpResults report @ [policyresult];
          report1 = (if int (length results) > maxEvents
                     then report\<lparr>rpResults := tl results,
                                 rpSummary := bump (- 1) (prResult (hd results)) (rpSummary report)\<rparr>
                     else report\<lparr>rpResults := results\<rparr>)
      in report1\<lparr>rpSummary := bump 1 (prResult policyresult) (rpSummary report1)\<rparr>)"

definition newReport :: "string \<Rightarrow> string \<Rightarrow> PolicyReport" where
  "newReport namespace name =
     \<lparr>rpName = name, rpNamespace = namespace, rpResourceVersion = [],
      rpSummary = \<lparr>sumPass = 0, sumFail = 0, sumWarn = 0, sumError = 0, sumSkip = 0\<rparr>, rpResults = []\<rparr>"

type_synonym 'w report_client = "('w, PolicyReport) store_client"

definition updateOrRetry ::
    "'w report_client \<Rightarrow> (int \<Rightarrow> 'w \<Rightarrow> 'w option) \<Rightarrow> PolicyReport \<Rightarrow> int \<Rightarrow> 'w \<Rightarrow> 'w option" where
  "updateOrRetry c again object retryCounter w =
     (case cUpdate c object w of
        (None, w') \<Rightarrow> Some w'
      | (Some err, w') \<Rightarrow>
          if IsNotFound err then Some w'
          else if IsConflict err then again (retryCounter - 1) w'
          else Some w')"

text \<open>The body that the two handlers share, for the report of the given namespace and name.\<close>

definition handle_report ::
    "'w report_client \<Rightarrow> (PolicyReport \<Rightarrow> go_error + PolicyReport) \<Rightarrow> gotime \<Rightarrow> int \<Rightarrow> AdmRequest \<Rightarrow>
     AdmResponse \<Rightarrow> JsPolicy \<Rightarrow> (int \<Rightarrow> 'w \<Rightarrow> 'w option) \<Rightarrow> string \<Rightarrow> string \<Rightarrow> int \<Rightarrow> 'w \<Rightarrow> 'w option" where
  "handle_report c setRef now maxEvents request response jsPolicy again namespace name retryCounter w =
     (case cGet c namespace name w of
        (Inl err, w1) \<Rightarrow>
          if \<not> IsNotFound err then Some w1
          else
            (case CreateWithOwner setRef c (newReport namespace name) w1 of
               (Some err', w2) \<Rightarrow>
                 if \<not> IsAlreadyExists err' then Some w2 else again retryCounter w2
             | (None, w2) \<Rightarrow> again retryCounter w2)
      | (Inr policyReport, w1) \<Rightarrow>
          updateOrRetry c again
            (add_result maxEvents
               (buildResult now request response jsPolicy (resolveAction jsPolicy)) policyReport)
            retryCounter w1)"

definition handlePolicyReport ::
    "'w report_client \<Rightarrow> (PolicyReport \<Rightarrow> go_error + PolicyReport) \<Rightarrow> gotime \<Rightarrow> int \<Rightarrow> AdmRequest \<Rightarrow>
     AdmResponse \<Rightarrow> JsPolicy \<Rightarrow> (int \<Rightarrow> 'w \<Rightarrow> 'w option) \<Rightarrow> int \<Rightarrow> 'w \<Rightarrow> 'w option" where
  "handlePolicyReport c setRef now maxEvents request response jsPolicy again retryCounter w =
     handle_report c setRef now maxEvents request response jsPolicy again
       (rqNamespace request) (PolicyReportPrefix @ rqNamespace request) retryCounter w"

definition handClusterPolicyReport ::
    "'w report_client \<Rightarrow> (PolicyReport \<Rightarrow> go_error + PolicyReport) \<Rightarrow> gotime \<Rightarrow> int \<Rightarrow> AdmRequest \<Rightarrow>
     AdmResponse \<Rightarrow> JsPolicy \<Rightarrow> (int \<Rightarrow> 'w \<Rightarrow> 'w option) \<Rightarrow> int \<Rightarrow> 'w \<Rightarrow> 'w option" where
  "handClusterPolicyReport c setRef now maxEvents request response jsPolicy again retryCounter w =
     handle_report c setRef now maxEvents request response jsPolicy again
       [] ClusterPolicyReportName retryCounter w"

definition namespaced_report :: "AdmRequest \<Rightarrow> bool" where
  "namespaced_report request \<longleftrightarrow> rqNamespace request \<noteq> [] \<and> gvkKind (rqKind request) \<noteq> ''Namespace''"

lemma handle_report_mono [partial_function_mono]:
  assumes "\<And>n v. mono_option (\<lambda>f. again f n v)"
  shows "mono_option (\<lambda>f. handle_report c setRef now m q a p (again f) ns name n w)"
proof -
  obtain res w1 where g: "cGet c ns name w = (res, w1)" by fastforce
  obtain e w2 where cr: "CreateWithOwner setRef c (newReport ns name) w1 = (e, w2)" by fastforce
  show ?thesis
  proof (cases res)
    case (Inl err)
    then show ?thesis
      using assms [of n w2] option.const_mono [where c = "Some w1"] option.const_mono [where c = "Some w2"]
      by (cases "IsNotFound err"; cases e; cases "IsAlreadyExists (the e)"; simp add: handle_report_def g cr)
  next
    case (Inr r)
    obtain e' w3 where u: "cUpdate c (add_result m (buildResult now q a p (resolveAction p)) r) w1 = (e', w3)"
      by fastforce
    then show ?thesis
      using assms [of "n - 1" w3] option.const_mono [where c = "Some w3"]
      by (cases e'; cases "IsNotFound (the e')"; cases "IsConflict (the e')";
          simp add: handle_report_def updateOrRetry_def g Inr)
  qed
qed

lemma handlePolicyReport_mono [partial_function_mono]:
  assumes "\<And>n v. mono_option (\<lambda>f. again f n v)"
  shows "mono_option (\<lambda>f. handlePolicyReport c setRef now m q a p (again f) n w)"
  unfolding handlePolicyReport_def by (intro handle_report_mono assms)

lemma handClusterPolicyReport_mono [partial_function_mono]:
  assumes "\<And>n v. mono_option (\<lambda>f. again f n v)"
  shows "mono_option (\<lambda>f. handClusterPolicyReport c setRef now m q a p (again f) n w)"
  unfolding handClusterPolicyReport_def by (intro handle_report_mono assms)

partial_function (option) ReportRequest ::
    "'w report_client \<Rightarrow> 'w report_client \<Rightarrow> (PolicyReport \<Rightarrow> go_error + PolicyReport) \<Rightarrow> gotime \<Rightarrow> int \<Rightarrow>
     AdmRequest \<Rightarrow> AdmResponse \<Rightarrow> JsPolicy \<Rightarrow> int \<Rightarrow> 'w \<Rightarrow> 'w option" where
  "ReportRequest c cc setRef now maxEvents request response jsPolicy retryCounter w =
     (if audit_skipped response jsPolicy then Some w
      else if retryCounter = 0 then Some w
      else if namespaced_report request
      then handlePolicyReport c setRef now maxEvents request response jsPolicy
             (\<lambda>n v. ReportRequest c cc setRef now maxEvents request response jsPolicy n v) retryCounter w
      else handClusterPolicyReport cc setRef now maxEvents request response jsPolicy
             (\<lambda>n v. ReportRequest c cc setRef now maxEvents request response jsPolicy n v) retryCounter w)"

section \<open>The summary counts the entries\<close>

definition count_status :: "string \<Rightarrow> PolicyReportResult list \<Rightarrow> int" where
  "count_status status rs = int (length (filter (\<lambda>r. prResult r = status) rs))"

definition summary_of :: "PolicyReportResult list \<Rightarrow> PolicyReportSummary" where
  "summary_of rs =
     \<lparr>sumPass = count_status StatusPass rs, sumFail = count_status StatusFail rs,
      sumWarn = count_status StatusWarn rs, sumError = count_status StatusError rs,
      sumSkip = count_status StatusSkip rs\<rparr>"

lemma count_status_simps [simp]:
  "count_status s [] = 0"
  "count_status s (r # rs) = (if prResult r = s then 1 else 0) + count_status s rs"
  "count_status s (rs @ qs) = count_status s rs + count_status s qs"
  by (simp_all add: count_status_def)

lemma bump_summary_add: "bump 1 (prResult r) (summary_of rs) = summary_of (rs @ [r])"
  by (simp add: bump_def summary_of_def)

lemma bump_summary_del: "bump (- 1) (prResult r) (summary_of (r # rs)) = summary_of rs"
  by (simp add: bump_def summary_of_def)

lemma add_result_frame [simp]:
  "rpName (add_result m r report) = rpName report"
  "rpNamespace (add_result m r report) = rpNamespace report"
  "rpResourceVersion (add_result m r report) = rpResourceVersion report"
  by (simp_all add: add_result_def Let_def)

text \<open>The bounded queue: the new entry at the end, the oldest out when the report was full.\<close>

definition enqueue :: "int \<Rightarrow> 'a \<Rightarrow> 'a list \<Rightarrow> 'a list" where
  "enqueue m r rs = (if int (length rs) < m then rs @ [r] else tl (rs @ [r]))"

lemma add_result_results: "rpResults (add_result m r report) = enqueue m r (rpResults report)"
  by (auto simp: add_result_def enqueue_def Let_def)

lemma add_result_summary:
  assumes "rpSummary report = summary_of (rpResults report)"
  shows "rpSummary (add_result m r report) = summary_of (rpResults (add_result m r report))"
proof (cases "rpResults report")
  case Nil
  then show ?thesis
    using assms by (auto simp: add_result_def Let_def bump_def summary_of_def)
next
  case (Cons q rs)
  have "bump (- 1) (prResult q) (summary_of (q # rs @ [r])) = summary_of (rs @ [r])"
    by (rule bump_summary_del)
  moreover have "bump 1 (prResult r) (bump (- 1) (prResult q) (summary_of (q # rs)))
      = bump (- 1) (prResult q) (bump 1 (prResult r) (summary_of (q # rs)))"
    by (simp add: bump_def)
  ultimately show ?thesis
    using assms bump_summary_add [of r "q # rs"] by (auto simp: add_result_def Let_def Cons)
qed

lemma length_enqueue:
  "0 \<le> m \<Longrightarrow> int (length (enqueue m r rs)) = (if int (length rs) < m then int (length rs) + 1 else int (length rs))"
  by (simp add: enqueue_def)

section \<open>On a quiet server\<close>

definition report_key :: "PolicyReport \<Rightarrow> string \<times> string" where
  "report_key r = (rpNamespace r, rpName r)"

definition same_report :: "PolicyReport \<Rightarrow> PolicyReport \<Rightarrow> bool" where
  "same_report a b \<longleftrightarrow> rpResults a = rpResults b \<and> rpSummary a = rpSummary b"

definition report_place :: "AdmRequest \<Rightarrow> string \<times> string" where
  "report_place request =
     (if namespaced_report request
      then (rqNamespace request, PolicyReportPrefix @ rqNamespace request)
      else ([], ClusterPolicyReportName))"

definition reported :: "('w \<Rightarrow> string \<times> string \<Rightarrow> PolicyReport option) \<Rightarrow> 'w \<Rightarrow> string \<times> string \<Rightarrow>
    PolicyReportResult list" where
  "reported cur w k = (case cur w k of None \<Rightarrow> [] | Some r \<Rightarrow> rpResults r)"

definition consistent :: "('w \<Rightarrow> string \<times> string \<Rightarrow> PolicyReport option) \<Rightarrow> 'w \<Rightarrow> string \<times> string \<Rightarrow> bool" where
  "consistent cur w k \<longleftrightarrow> (case cur w k of None \<Rightarrow> True | Some r \<Rightarrow> rpSummary r = summary_of (rpResults r))"

text \<open>\<open>ReportRequest\<close> in the terms of its common handler.\<close>

lemma ReportRequest_handle:
  assumes "\<not> audit_skipped response p" and "retry \<noteq> 0"
  shows "ReportRequest c cc setRef now m request response p retry w =
    handle_report (if namespaced_report request then c else cc) setRef now m request response p
      (\<lambda>n v. ReportRequest c cc setRef now m request response p n v)
      (fst (report_place request)) (snd (report_place request)) retry w"
  by (subst ReportRequest.simps)
    (simp add: assms report_place_def handlePolicyReport_def handClusterPolicyReport_def)

lemma ReportRequest_found:
  assumes q: "quiet_server (if namespaced_report request then c else cc) report_key same_report rpResourceVersion cur"
    and s: "\<not> audit_skipped response p" and r: "retry \<noteq> 0"
    and f: "cur w (report_place request) = Some o1"
  shows "\<exists>w' o2. ReportRequest c cc setRef now m request response p retry w = Some w' \<and>
    cur w' = (cur w)(report_place request \<mapsto> o2) \<and>
    same_report o2 (add_result m (buildResult now request response p (resolveAction p)) o1)"
proof -
  let ?c = "if namespaced_report request then c else cc"
  let ?new = "add_result m (buildResult now request response p (resolveAction p)) o1"
  obtain ns nm where pl: "report_place request = (ns, nm)" by fastforce
  have g: "cGet ?c ns nm w = (Inr o1, w)"
    using quiet_get [where w = w and ns = ns and n = nm, OF q] f pl by simp
  have k: "report_key ?new = report_place request"
    using quiet_key [OF q f] by (simp add: report_key_def)
  obtain w' o2 where u: "cUpdate ?c ?new w = (None, w')" "cur w' = (cur w)(report_key ?new \<mapsto> o2)"
    "same_report o2 ?new"
    by (rule quiet_update [OF q, of w ?new o1]) (simp_all add: k f)
  have "ReportRequest c cc setRef now m request response p retry w = Some w'"
    using g u(1) by (simp add: ReportRequest_handle [OF s r] handle_report_def updateOrRetry_def pl)
  then show ?thesis using u(2,3) k by auto
qed

lemma ReportRequest_absent:
  assumes q: "quiet_server (if namespaced_report request then c else cc) report_key same_report rpResourceVersion cur"
    and s: "\<not> audit_skipped response p" and r: "retry \<noteq> 0"
    and f: "cur w (report_place request) = None"
    and ref: "\<And>o1. \<exists>o2. setRef o1 = Inr o2 \<and> report_key o2 = report_key o1 \<and> same_report o2 o1"
  shows "\<exists>w1 o1. ReportRequest c cc setRef now m request response p retry w =
      ReportRequest c cc setRef now m request response p retry w1 \<and>
    cur w1 = (cur w)(report_place request \<mapsto> o1) \<and> same_report o1 (newReport [] [])"
proof -
  let ?c = "if namespaced_report request then c else cc"
  obtain ns nm where pl: "report_place request = (ns, nm)" by fastforce
  obtain e where g: "cGet ?c ns nm w = (Inl e, w)" "IsNotFound e"
    using quiet_get [where w = w and ns = ns and n = nm, OF q] f pl by auto
  obtain o2 where o2: "setRef (newReport ns nm) = Inr o2" "report_key o2 = (ns, nm)"
    "same_report o2 (newReport ns nm)"
    using ref [of "newReport ns nm"] by (auto simp: report_key_def newReport_def)
  obtain w1 o1 where c: "cCreate ?c o2 w = (None, w1)" "cur w1 = (cur w)(report_key o2 \<mapsto> o1)"
    "same_report o1 o2"
    by (rule quiet_create [OF q, of w o2]) (use o2 f pl in simp_all)
  have cr: "CreateWithOwner setRef ?c (newReport ns nm) w = (None, w1)"
    using c(1) o2(1) by (simp add: CreateWithOwner_def)
  have "ReportRequest c cc setRef now m request response p retry w =
      ReportRequest c cc setRef now m request response p retry w1"
    unfolding ReportRequest_handle [OF s r, of c cc setRef now m request w]
    by (simp only: handle_report_def pl fst_conv snd_conv g(1) prod.case sum.case g(2) not_True_eq_False
        if_False cr option.case)
  then show ?thesis using c(2,3) o2 pl by (auto simp: same_report_def newReport_def)
qed

section \<open>Properties\<close>

text \<open>
  C13: on an API server without other writers, reporting a denied request returns and appends its
  entry to the report of the request's namespace, or to the cluster's for a request without one or
  for a Namespace, created if missing; a report at its limit loses its oldest entry. The summary
  of the report counts its entries by result afterwards if it did before. No other report changes.
\<close>

theorem ReportRequest_reports:
  assumes "quiet_server (if namespaced_report request then c else cc) report_key same_report rpResourceVersion cur"
    and "\<not> audit_skipped response p" and "retry \<noteq> 0"
    and "\<And>o1. \<exists>o2. setRef o1 = Inr o2 \<and> report_key o2 = report_key o1 \<and> same_report o2 o1"
  shows "\<exists>w'. ReportRequest c cc setRef now m request response p retry w = Some w' \<and>
    (\<forall>k. reported cur w' k =
       (if k = report_place request
        then enqueue m (buildResult now request response p (resolveAction p)) (reported cur w k)
        else reported cur w k) \<and>
       (consistent cur w k \<longrightarrow> consistent cur w' k))"
proof -
  have main: "\<exists>w'. ReportRequest c cc setRef now m request response p retry v = Some w' \<and>
    (\<forall>k. reported cur w' k =
       (if k = report_place request
        then enqueue m (buildResult now request response p (resolveAction p)) (reported cur v k)
        else reported cur v k) \<and>
       (consistent cur v k \<longrightarrow> consistent cur w' k))"
    if "cur v (report_place request) = Some o1" for v o1
  proof -
    from ReportRequest_found [OF assms(1-3) that, of setRef now m] obtain w' o2
      where w': "ReportRequest c cc setRef now m request response p retry v = Some w'"
        "cur w' = (cur v)(report_place request \<mapsto> o2)"
        "same_report o2 (add_result m (buildResult now request response p (resolveAction p)) o1)"
      by blast
    then show ?thesis
      using that add_result_summary [of o1 m "buildResult now request response p (resolveAction p)"]
      by (auto simp: reported_def consistent_def same_report_def add_result_results)
  qed
  show ?thesis
  proof (cases "cur w (report_place request)")
    case (Some o1)
    from main [OF this] show ?thesis .
  next
    case None
    obtain w1 o1 where w1: "ReportRequest c cc setRef now m request response p retry w =
        ReportRequest c cc setRef now m request response p retry w1"
      "cur w1 = (cur w)(report_place request \<mapsto> o1)" "same_report o1 (newReport [] [])"
      using ReportRequest_absent [OF assms(1-3) None assms(4)] by blast
    have o1: "cur w1 (report_place request) = Some o1" by (simp add: w1(2))
    have same: "reported cur w1 k = reported cur w k" "consistent cur w k \<Longrightarrow> consistent cur w1 k" for k
      using None w1(2,3)
      by (auto simp: reported_def consistent_def same_report_def newReport_def summary_of_def)
    from main [OF o1] show ?thesis unfolding w1(1) same(1) using same(2) by blast
  qed
qed

lemma keyed_reports_quiet:
  "quiet_server (keyed_client report_key) report_key same_report rpResourceVersion (keyed report_key)"
  by (rule keyed_client_quiet) (simp add: same_report_def)

lemma example_denied_reported: "\<not> audit_skipped example_denied example_policy"
  by (simp add: audit_skipped_def example_denied_def example_policy_def)

theorem ReportRequest_reports_witness:
  "\<exists>w'. ReportRequest (keyed_client report_key) (keyed_client report_key) Inr 7 100 example_audit_request
      example_denied example_policy 5 (\<lambda>_. None) = Some w' \<and>
    length (reported (keyed report_key) w' (''default'', ''js-policy-report-ns-default'')) = 1"
proof -
  have "report_place example_audit_request = (''default'', ''js-policy-report-ns-default'')"
    by (simp add: report_place_def namespaced_report_def example_audit_request_def)
  moreover have "quiet_server (if namespaced_report example_audit_request then keyed_client report_key
      else keyed_client report_key) report_key same_report rpResourceVersion (keyed report_key)"
    using keyed_reports_quiet by simp
  note rep = ReportRequest_reports [OF this example_denied_reported, where retry = 5 and setRef = Inr
      and now = 7 and m = 100 and w = "\<lambda>_. None"]
  have "\<And>o1 :: PolicyReport. \<exists>o2. (Inr o1 :: go_error + PolicyReport) = Inr o2 \<and>
      report_key o2 = report_key o1 \<and> same_report o2 o1"
    by (simp add: same_report_def)
  from rep [OF _ this] obtain w' where "ReportRequest (keyed_client report_key) (keyed_client report_key) Inr 7 100
      example_audit_request example_denied example_policy 5 (\<lambda>_. None) = Some w'"
    "reported (keyed report_key) w' (report_place example_audit_request) =
       enqueue 100 (buildResult 7 example_audit_request example_denied example_policy
         (resolveAction example_policy))
        (reported (keyed report_key) (\<lambda>_. None) (report_place example_audit_request))"
    by (metis zero_neq_numeral)
  moreover have "reported (keyed report_key) (\<lambda>_. None) (report_place example_audit_request) = []"
    by (simp add: reported_def keyed_def)
  ultimately show ?thesis by (simp add: enqueue_def)
qed

text \<open>
  C14: against a server on which the report is never missing, reporting a request returns whatever
  the server answers to the updates, since every conflict uses up a retry: the conflicts that keep
  \<open>LogRequest\<close> running forever end \<open>ReportRequest\<close>.
\<close>

theorem ReportRequest_returns:
  assumes "\<And>ns n w e w'. cGet c ns n w = (Inl e, w') \<Longrightarrow> \<not> IsNotFound e"
    and "\<And>ns n w e w'. cGet cc ns n w = (Inl e, w') \<Longrightarrow> \<not> IsNotFound e"
    and "0 \<le> retry"
  shows "\<exists>w'. ReportRequest c cc setRef now m request response p retry w = Some w'"
proof (cases "audit_skipped response p")
  case True
  then show ?thesis by (simp add: ReportRequest.simps)
next
  case skip: False
  let ?c = "if namespaced_report request then c else cc"
  have nf: "cGet ?c ns n w = (Inl e, w') \<Longrightarrow> \<not> IsNotFound e" for ns n w e w'
    using assms(1,2) by metis
  have "\<exists>w'. ReportRequest c cc setRef now m request response p (int k) w = Some w'" for k
  proof (induction k arbitrary: w)
    case 0
    then show ?case by (subst ReportRequest.simps) simp
  next
    case (Suc k)
    obtain ns nm where pl: "report_place request = (ns, nm)" by fastforce
    obtain res w1 where g: "cGet ?c ns nm w = (res, w1)" by fastforce
    have nz: "int (Suc k) \<noteq> 0" by simp
    have r: "ReportRequest c cc setRef now m request response p (int (Suc k)) w =
        handle_report ?c setRef now m request response p
          (\<lambda>n v. ReportRequest c cc setRef now m request response p n v) ns nm (int (Suc k)) w"
      by (simp only: ReportRequest_handle [OF skip nz] pl fst_conv snd_conv)
    show ?case
    proof (cases res)
      case (Inl e)
      then show ?thesis using nf [of ns nm w e w1] g unfolding r by (simp add: handle_report_def)
    next
      case (Inr o1)
      let ?o = "add_result m (buildResult now request response p (resolveAction p)) o1"
      obtain e w2 where u: "cUpdate ?c ?o w1 = (e, w2)" by fastforce
      have "ReportRequest c cc setRef now m request response p (int (Suc k)) w =
          updateOrRetry ?c (\<lambda>n v. ReportRequest c cc setRef now m request response p n v) ?o (int (Suc k)) w1"
        unfolding r using g Inr by (simp add: handle_report_def)
      then show ?thesis
        using Suc.IH [of w2] u by (cases e) (auto simp: updateOrRetry_def)
    qed
  qed
  from this [of "nat retry"] show ?thesis using assms(3) by simp
qed

theorem ReportRequest_returns_witness:
  "\<exists>w'. ReportRequest \<lparr>cGet = (\<lambda>ns n w. (Inr (newReport ns n), w)),
       cCreate = (\<lambda>x w. (None, w)), cUpdate = (\<lambda>x w. (Some (GoError Conflict ''conflict''), w + 1))\<rparr>
     \<lparr>cGet = (\<lambda>ns n w. (Inr (newReport ns n), w)),
       cCreate = (\<lambda>x w. (None, w)), cUpdate = (\<lambda>x w. (Some (GoError Conflict ''conflict''), w + 1))\<rparr>
     Inr 7 100 example_audit_request example_denied example_policy 5 (0 :: nat) = Some w'"
  by (rule ReportRequest_returns) simp_all

end
