(* ===== verification/Validation.thy ===== *)
theory Validation
  imports Api
begin

text \<open>
  \<open>pkg/webhook/validation/generic.go\<close>: the checks that a policy passes before it is stored.
  A check returns the list of field errors it appends, in the order it appends them. The
  validators of \<open>k8s.io/apimachinery\<close> for names and label values are the parameters collected in
  \<open>name_checks\<close>: they map a string to the complaints about it. \<open>validation.go\<close>, the webhook
  around these checks, is modelled in theory Webhook.
\<close>

section \<open>Field errors (package field)\<close>

text \<open>A path is the list of its elements, an index being an element of its own.\<close>

type_synonym field_path = "string list"

datatype bad_value = StrV string | StrsV "string list" | IntV int32

datatype field_error =
    RequiredE field_path string
  | InvalidE field_path bad_value string
  | NotSupportedE field_path bad_value "string list"
  | ForbiddenE field_path string

abbreviation sq :: string where "sq \<equiv> [CHR 0x27]"

definition Child :: "field_path \<Rightarrow> string \<Rightarrow> field_path" where
  "Child p s = p @ [s]"

definition Index :: "field_path \<Rightarrow> nat \<Rightarrow> field_path" where
  "Index p i = p @ [''['' @ itoa (int i) @ '']'']"

record name_checks =
  IsFullyQualifiedName :: "field_path \<Rightarrow> string \<Rightarrow> field_error list"
  IsQualifiedName :: "string \<Rightarrow> string list"
  IsValidLabelValue :: "string \<Rightarrow> string list"

text \<open>\<open>for i, x := range xs { errs = append(errs, f(i, x)...) }\<close>\<close>

fun each_from :: "nat \<Rightarrow> (nat \<Rightarrow> 'a \<Rightarrow> field_error list) \<Rightarrow> 'a list \<Rightarrow> field_error list" where
  "each_from i f [] = []"
| "each_from i f (x # xs) = f i x @ each_from (Suc i) f xs"

lemma each_from_Nil_iff:
  "(\<And>i x. f i x = [] \<longleftrightarrow> P x) \<Longrightarrow> each_from i f xs = [] \<longleftrightarrow> (\<forall>x \<in> set xs. P x)"
  by (induction xs arbitrary: i) auto

section \<open>Rules\<close>

definition hasWildcard :: "string list \<Rightarrow> bool" where
  "hasWildcard xs \<longleftrightarrow> (\<exists>s \<in> set xs. s = ''*'')"

text \<open>The variables of the loop in \<open>validateResources\<close>.\<close>

record res_state =
  rsErrors :: "field_error list"
  resourcesWithWildcardSubresoures :: "string list"
  subResourcesWithWildcardResource :: "string list"
  hasDoubleWildcard :: bool
  hasSingleWildcard :: bool
  hasResourceWithoutSubresource :: bool

definition resource_step :: "field_path \<Rightarrow> nat \<Rightarrow> string \<Rightarrow> res_state \<Rightarrow> res_state" where
  "resource_step fldPath i resSub st =
     (if resSub = [] then st\<lparr>rsErrors := rsErrors st @ [RequiredE (Index fldPath i) []]\<rparr>
      else
        let st1 = (if resSub = ''*/*'' then st\<lparr>hasDoubleWildcard := True\<rparr> else st);
            st2 = (if resSub = ''*'' then st1\<lparr>hasSingleWildcard := True\<rparr> else st1)
        in case split_first (CHR ''/'') resSub of
          [res, sub] \<Rightarrow>
            let e1 = (if res \<in> set (resourcesWithWildcardSubresoures st2)
                      then [InvalidE (Index fldPath i) (StrV resSub)
                        (''if '' @ sq @ res @ ''/*'' @ sq @ '' is present, must not specify '' @ resSub)] else []);
                e2 = (if sub \<in> set (subResourcesWithWildcardResource st2)
                      then [InvalidE (Index fldPath i) (StrV resSub)
                        (''if '' @ sq @ ''*/'' @ sub @ sq @ '' is present, must not specify '' @ resSub)] else [])
            in st2\<lparr>rsErrors := rsErrors st2 @ e1 @ e2,
                   resourcesWithWildcardSubresoures :=
                     (if sub = ''*'' then res # resourcesWithWildcardSubresoures st2
                      else resourcesWithWildcardSubresoures st2),
                   subResourcesWithWildcardResource :=
                     (if res = ''*'' then sub # subResourcesWithWildcardResource st2
                      else subResourcesWithWildcardResource st2)\<rparr>
        | _ \<Rightarrow> st2\<lparr>hasResourceWithoutSubresource := resSub \<noteq> ''*''\<rparr>)"

fun resources_loop :: "field_path \<Rightarrow> nat \<Rightarrow> string list \<Rightarrow> res_state \<Rightarrow> res_state" where
  "resources_loop fldPath i [] st = st"
| "resources_loop fldPath i (r # rs) st = resources_loop fldPath (Suc i) rs (resource_step fldPath i r st)"

definition validateResources :: "string list \<Rightarrow> field_path \<Rightarrow> field_error list" where
  "validateResources resources fldPath =
     (let e0 = (if length resources = 0 then [RequiredE fldPath []] else []);
          st = resources_loop fldPath 0 resources
            \<lparr>rsErrors = e0, resourcesWithWildcardSubresoures = [], subResourcesWithWildcardResource = [],
             hasDoubleWildcard = False, hasSingleWildcard = False,
             hasResourceWithoutSubresource = False\<rparr>
      in rsErrors st @
         (if length resources > 1 \<and> hasDoubleWildcard st
          then [InvalidE fldPath (StrsV resources)
            (''if '' @ sq @ ''*/*'' @ sq @ '' is present, must not specify other resources'')] else []) @
         (if hasSingleWildcard st \<and> hasResourceWithoutSubresource st
          then [InvalidE fldPath (StrsV resources)
            (''if '' @ sq @ ''*'' @ sq @ '' is present, must not specify other resources without subresources'')]
          else []))"

definition validateResourcesNoSubResources :: "string list \<Rightarrow> field_path \<Rightarrow> field_error list" where
  "validateResourcesNoSubResources resources fldPath =
     (if length resources = 0 then [RequiredE fldPath []] else []) @
     each_from 0 (\<lambda>i resource.
        (if resource = [] then [RequiredE (Index fldPath i) []] else []) @
        (if CHR ''/'' \<in> set resource
         then [InvalidE (Index fldPath i) (StrV resource) ''must not specify subresources''] else []))
       resources @
     (if length resources > 1 \<and> hasWildcard resources
      then [InvalidE fldPath (StrsV resources)
        (''if '' @ sq @ ''*'' @ sq @ '' is present, must not specify other resources'')] else [])"

definition validScopes :: "string list" where
  "validScopes = [''*'', ''Cluster'', ''Namespaced'']"

definition validateRule :: "JsPolicySpec \<Rightarrow> field_path \<Rightarrow> bool \<Rightarrow> field_error list" where
  "validateRule rule fldPath allowSubResource =
     (if length (APIGroups rule) > 1 \<and> hasWildcard (APIGroups rule)
      then [InvalidE (Child fldPath ''apiGroups'') (StrsV (APIGroups rule))
        (''if '' @ sq @ ''*'' @ sq @ '' is present, must not specify other API groups'')] else []) @
     (if length (APIVersions rule) > 1 \<and> hasWildcard (APIVersions rule)
      then [InvalidE (Child fldPath ''apiVersions'') (StrsV (APIVersions rule))
        (''if '' @ sq @ ''*'' @ sq @ '' is present, must not specify other API versions'')] else []) @
     each_from 0 (\<lambda>i version.
        if version = [] then [RequiredE (Index (Child fldPath ''apiVersions'') i) []] else [])
       (APIVersions rule) @
     (if allowSubResource then validateResources (Resources rule) (Child fldPath ''resources'')
      else validateResourcesNoSubResources (Resources rule) (Child fldPath ''resources'')) @
     (case Scope rule of
        Some s \<Rightarrow> if s \<notin> set validScopes
                  then [NotSupportedE (Child fldPath ''scope'') (StrV s) validScopes] else []
      | None \<Rightarrow> [])"

definition supportedOperations :: "string list" where
  "supportedOperations = [''*'', ''CONNECT'', ''CREATE'', ''DELETE'', ''UPDATE'']"

definition hasWildcardOperation :: "string list \<Rightarrow> bool" where
  "hasWildcardOperation operations \<longleftrightarrow> (\<exists>o1 \<in> set operations. o1 = ''*'')"

definition validateRuleWithOperations :: "JsPolicySpec \<Rightarrow> field_path \<Rightarrow> field_error list" where
  "validateRuleWithOperations r fldPath =
     (if length (Operations r) = 0 then [RequiredE (Child fldPath ''operations'') []] else []) @
     (if length (Operations r) > 1 \<and> hasWildcardOperation (Operations r)
      then [InvalidE (Child fldPath ''operations'') (StrsV (Operations r))
        (''if '' @ sq @ ''*'' @ sq @ '' is present, must not specify other operations'')] else []) @
     each_from 0 (\<lambda>i operation.
        (if operation \<notin> set supportedOperations
         then [NotSupportedE (Index (Child fldPath ''operations'') i) (StrV operation) supportedOperations]
         else []) @
        (if PType r = PolicyTypeController \<and> (operation = ''UPDATE'' \<or> operation = ''CONNECT'')
         then [NotSupportedE (Index (Child fldPath ''operations'') i) (StrV operation)
           [''*'', ''CREATE'', ''DELETE'']] else []))
       (Operations r) @
     validateRule r fldPath True"

section \<open>Enumerations and label selectors\<close>

definition supportedFailurePolicies :: "string list" where
  "supportedFailurePolicies = [''Fail'', ''Ignore'']"

definition supportedPolicyTypes :: "string list" where
  "supportedPolicyTypes = [[], ''Controller'', ''Mutating'', ''Validating'']"

definition supportedMatchPolicies :: "string list" where
  "supportedMatchPolicies = [''Equivalent'', ''Exact'']"

definition supportedReinvocationPolicies :: "string list" where
  "supportedReinvocationPolicies = [''IfNeeded'', ''Never'']"

definition validateAuditLogSize :: "int32 option \<Rightarrow> field_path \<Rightarrow> field_error list" where
  "validateAuditLogSize sz path =
     (case sz of None \<Rightarrow> []
      | Some n \<Rightarrow> if n \<le>s 0 \<or> 40 <s n
                  then [InvalidE path (IntV n) ''The audit log size needs to be between 1 and 40''] else [])"

definition validateAuditPolicy :: "string option \<Rightarrow> field_path \<Rightarrow> field_error list" where
  "validateAuditPolicy policy path =
     (case policy of None \<Rightarrow> []
      | Some a \<Rightarrow> if a \<noteq> AuditPolicyLog \<and> a \<noteq> AuditPolicySkip
                  then [InvalidE path (StrV a) ''needs to be one of [Log Skip]''] else [])"

definition validateViolationPolicy :: "string option \<Rightarrow> field_path \<Rightarrow> field_error list" where
  "validateViolationPolicy policy path =
     (case policy of None \<Rightarrow> []
      | Some v \<Rightarrow> if v \<noteq> ViolationPolicyPolicyDeny \<and> v \<noteq> ViolationPolicyPolicyWarn \<and>
                     v \<noteq> ViolationPolicyPolicyDry
                  then [InvalidE path (StrV v) ''needs to be one of [Deny Warn Dry]''] else [])"

definition ValidateLabelName :: "name_checks \<Rightarrow> string \<Rightarrow> field_path \<Rightarrow> field_error list" where
  "ValidateLabelName nc labelName fldPath =
     map (\<lambda>msg. InvalidE fldPath (StrV labelName) msg) (IsQualifiedName nc labelName)"

text \<open>The labels in the order in which \<open>range\<close> visits them.\<close>

definition ValidateLabels ::
    "name_checks \<Rightarrow> (string \<times> string) list \<Rightarrow> field_path \<Rightarrow> field_error list" where
  "ValidateLabels nc labels fldPath =
     concat (map (\<lambda>(k, v). ValidateLabelName nc k fldPath @
                    map (\<lambda>msg. InvalidE fldPath (StrV v) msg) (IsValidLabelValue nc v)) labels)"

definition ValidateLabelSelectorRequirement ::
    "name_checks \<Rightarrow> LabelSelectorRequirement \<Rightarrow> field_path \<Rightarrow> field_error list" where
  "ValidateLabelSelectorRequirement nc sr fldPath =
     (if lsOperator sr = ''In'' \<or> lsOperator sr = ''NotIn'' then
        (if length (lsValues sr) = 0
         then [RequiredE (Child fldPath ''values'')
           (''must be specified when `operator` is 'In' or 'NotIn'' @ sq)] else [])
      else if lsOperator sr = ''Exists'' \<or> lsOperator sr = ''DoesNotExist'' then
        (if length (lsValues sr) > 0
         then [ForbiddenE (Child fldPath ''values'')
           (''may not be specified when `operator` is 'Exists' or 'DoesNotExist'' @ sq)]
         else [])
      else [InvalidE (Child fldPath ''operator'') (StrV (lsOperator sr)) ''not a valid selector operator'']) @
     ValidateLabelName nc (lsKey sr) (Child fldPath ''key'')"

definition ValidateLabelSelector ::
    "name_checks \<Rightarrow> LabelSelector option \<Rightarrow> field_path \<Rightarrow> field_error list" where
  "ValidateLabelSelector nc ps fldPath =
     (case ps of None \<Rightarrow> []
      | Some s \<Rightarrow>
          ValidateLabels nc (matchLabels s) (Child fldPath ''matchLabels'') @
          each_from 0 (\<lambda>i expr. ValidateLabelSelectorRequirement nc expr
                                  (Index (Child fldPath ''matchExpressions'') i))
            (matchExpressions s))"

definition unsupported :: "field_path \<Rightarrow> string option \<Rightarrow> string list \<Rightarrow> field_error list" where
  "unsupported path v allowed =
     (case v of None \<Rightarrow> []
      | Some x \<Rightarrow> if x \<notin> set allowed then [NotSupportedE path (StrV x) allowed] else [])"

section \<open>Policies\<close>

definition validateValidatingWebhook ::
    "name_checks \<Rightarrow> string \<Rightarrow> JsPolicySpec \<Rightarrow> JsPolicySpec option \<Rightarrow> field_path \<Rightarrow> field_error list" where
  "validateValidatingWebhook nc name hook oldHook fldPath =
     IsFullyQualifiedName nc [''metadata'', ''name''] name @
     validateRuleWithOperations hook (Child fldPath ''rules'') @
     (case oldHook of
        Some old \<Rightarrow> if PType hook \<noteq> PType old
                    then [InvalidE (Child fldPath ''type'') (StrV (PType hook)) ''type is immutable''] else []
      | None \<Rightarrow> []) @
     unsupported (Child fldPath ''failurePolicy'') (FailurePolicy hook) supportedFailurePolicies @
     unsupported (Child fldPath ''reinvocationPolicy'') (ReinvocationPolicy hook)
       supportedReinvocationPolicies @
     unsupported (Child fldPath ''matchPolicy'') (MatchPolicy hook) supportedMatchPolicies @
     (if PType hook \<noteq> [] \<and> PType hook \<notin> set supportedPolicyTypes
      then [NotSupportedE (Child fldPath ''type'') (StrV (PType hook)) supportedPolicyTypes] else []) @
     (case TimeoutSeconds hook of
        Some t \<Rightarrow> if 30 <s t \<or> t <s 1
                  then [InvalidE (Child fldPath ''timeoutSeconds'') (IntV t)
                    ''the timeout value must be between 1 and 30 seconds''] else []
      | None \<Rightarrow> []) @
     ValidateLabelSelector nc (NamespaceSelector hook) (Child fldPath ''namespaceSelector'') @
     ValidateLabelSelector nc (ObjectSelector hook) (Child fldPath ''objectSelector'') @
     validateAuditPolicy (AuditPolicy hook) (Child fldPath ''auditPolicy'') @
     validateViolationPolicy (ViolationPolicy hook) (Child fldPath ''violationPolicy'') @
     validateAuditLogSize (AuditLogSize hook) (Child fldPath ''auditLogSize'')"

definition ValidateJsPolicy :: "name_checks \<Rightarrow> JsPolicy \<Rightarrow> field_error list" where
  "ValidateJsPolicy nc e = validateValidatingWebhook nc (pName e) (pSpec e) None [''spec'']"

definition ValidateJsPolicyUpdate :: "name_checks \<Rightarrow> JsPolicy \<Rightarrow> JsPolicy \<Rightarrow> field_error list" where
  "ValidateJsPolicyUpdate nc newC oldC =
     validateValidatingWebhook nc (pName newC) (pSpec newC) (Some (pSpec oldC)) [''spec'']"

section \<open>What the resource check accepts\<close>

text \<open>Two resources with subresources overlap when the first one's wildcard covers the second.\<close>

definition plain :: "string \<Rightarrow> bool" where
  "plain r \<longleftrightarrow> CHR ''/'' \<notin> set r"

definition res_of :: "string \<Rightarrow> string" where
  "res_of r = takeWhile (\<lambda>x. x \<noteq> CHR ''/'') r"

definition sub_of :: "string \<Rightarrow> string" where
  "sub_of r = tl (dropWhile (\<lambda>x. x \<noteq> CHR ''/'') r)"

definition covers :: "string \<Rightarrow> string \<Rightarrow> bool" where
  "covers a b \<longleftrightarrow> \<not> plain a \<and> \<not> plain b \<and>
     (sub_of a = ''*'' \<and> res_of b = res_of a \<or> res_of a = ''*'' \<and> sub_of b = sub_of a)"

definition admissible_resources :: "string list \<Rightarrow> bool" where
  "admissible_resources rs \<longleftrightarrow>
     rs \<noteq> [] \<and> [] \<notin> set rs \<and> sorted_wrt (\<lambda>a b. \<not> covers a b) rs \<and>
     (length rs > 1 \<longrightarrow> ''*/*'' \<notin> set rs) \<and>
     (''*'' \<in> set rs \<longrightarrow> last (filter plain rs) = ''*'')"

lemma split_first_plain: "plain r \<Longrightarrow> split_first (CHR ''/'') r = [r]"
  by (simp add: split_first_def plain_def)

lemma split_first_sub: "\<not> plain r \<Longrightarrow> split_first (CHR ''/'') r = [res_of r, sub_of r]"
  by (simp add: split_first_def plain_def res_of_def sub_of_def)

lemma plain_wildcards [simp]: "plain ''*''" "\<not> plain ''*/*''"
  by (simp_all add: plain_def)

lemma plain_Nil [simp]: "plain []"
  by (simp add: plain_def)

lemmas resource_step_simps = resource_step_def Let_def split_first_plain split_first_sub

lemma step_errors:
  "rsErrors (resource_step p i r st) = [] \<longleftrightarrow> rsErrors st = [] \<and> r \<noteq> [] \<and>
     (\<not> plain r \<longrightarrow> res_of r \<notin> set (resourcesWithWildcardSubresoures st) \<and>
                     sub_of r \<notin> set (subResourcesWithWildcardResource st))"
  by (cases "plain r"; cases "r = []"; simp add: resource_step_simps)

lemma step_sets:
  "set (resourcesWithWildcardSubresoures (resource_step p i r st)) =
     set (resourcesWithWildcardSubresoures st) \<union>
     (if \<not> plain r \<and> sub_of r = ''*'' then {res_of r} else {})"
  "set (subResourcesWithWildcardResource (resource_step p i r st)) =
     set (subResourcesWithWildcardResource st) \<union>
     (if \<not> plain r \<and> res_of r = ''*'' then {sub_of r} else {})"
  by (cases "plain r"; cases "r = []"; simp add: resource_step_simps)+

lemma step_flags:
  "hasDoubleWildcard (resource_step p i r st) \<longleftrightarrow> hasDoubleWildcard st \<or> r = ''*/*''"
  "hasSingleWildcard (resource_step p i r st) \<longleftrightarrow> hasSingleWildcard st \<or> r = ''*''"
  "hasResourceWithoutSubresource (resource_step p i r st) \<longleftrightarrow>
     (if r = [] \<or> \<not> plain r then hasResourceWithoutSubresource st else r \<noteq> ''*'')"
  by (cases "plain r"; cases "r = []"; simp add: resource_step_simps)+

lemma covers_iff:
  "\<not> plain b \<Longrightarrow> covers a b \<longleftrightarrow>
     res_of b \<in> (if \<not> plain a \<and> sub_of a = ''*'' then {res_of a} else {}) \<or>
     sub_of b \<in> (if \<not> plain a \<and> res_of a = ''*'' then {sub_of a} else {})"
  by (auto simp: covers_def)

lemma loop_errors_iff:
  "rsErrors (resources_loop p i rs st) = [] \<longleftrightarrow>
     rsErrors st = [] \<and> [] \<notin> set rs \<and> sorted_wrt (\<lambda>a b. \<not> covers a b) rs \<and>
     (\<forall>r \<in> set rs. \<not> plain r \<longrightarrow> res_of r \<notin> set (resourcesWithWildcardSubresoures st) \<and>
                                sub_of r \<notin> set (subResourcesWithWildcardResource st))"
proof (induction rs arbitrary: i st)
  case Nil
  then show ?case by simp
next
  case (Cons r rs)
  have "(\<forall>b \<in> set rs. \<not> covers r b) \<longleftrightarrow> (\<forall>b \<in> set rs. \<not> plain b \<longrightarrow> \<not> covers r b)"
    by (auto simp: covers_def)
  then show ?case
    unfolding resources_loop.simps Cons.IH step_errors step_sets sorted_wrt.simps list.set
    using covers_iff [of _ r] by blast
qed

lemma loop_hasDouble:
  "hasDoubleWildcard (resources_loop p i rs st) \<longleftrightarrow> hasDoubleWildcard st \<or> ''*/*'' \<in> set rs"
  by (induction rs arbitrary: i st) (auto simp only: resources_loop.simps step_flags list.set)

lemma loop_hasSingle:
  "hasSingleWildcard (resources_loop p i rs st) \<longleftrightarrow> hasSingleWildcard st \<or> ''*'' \<in> set rs"
  by (induction rs arbitrary: i st) (auto simp only: resources_loop.simps step_flags list.set)

lemma loop_hasPlain:
  "[] \<notin> set rs \<Longrightarrow> hasResourceWithoutSubresource (resources_loop p i rs st) \<longleftrightarrow>
     (if filter plain rs = [] then hasResourceWithoutSubresource st
      else last (filter plain rs) \<noteq> ''*'')"
proof (induction rs arbitrary: i st)
  case Nil
  then show ?case by simp
next
  case (Cons r rs)
  then show ?case
    by (cases "plain r"; cases "r = []"; simp add: step_flags)
qed

lemma validateResources_iff: "validateResources rs p = [] \<longleftrightarrow> admissible_resources rs"
proof (cases "rs = [] \<or> [] \<in> set rs")
  case True
  then show ?thesis
    by (auto simp: validateResources_def Let_def loop_errors_iff admissible_resources_def)
next
  case False
  have "''*'' \<in> set rs \<Longrightarrow> filter plain rs \<noteq> []"
    by (auto simp: filter_empty_conv intro!: bexI [of _ "''*''"])
  with False show ?thesis
    by (auto simp: validateResources_def Let_def loop_errors_iff loop_hasDouble loop_hasSingle
        loop_hasPlain admissible_resources_def)
qed

section \<open>What the validation accepts\<close>

definition admissible_selector :: "name_checks \<Rightarrow> LabelSelector option \<Rightarrow> bool" where
  "admissible_selector nc ps \<longleftrightarrow>
     (case ps of None \<Rightarrow> True
      | Some s \<Rightarrow>
          (\<forall>(k, v) \<in> set (matchLabels s). IsQualifiedName nc k = [] \<and> IsValidLabelValue nc v = []) \<and>
          (\<forall>e \<in> set (matchExpressions s). IsQualifiedName nc (lsKey e) = [] \<and>
             (lsOperator e \<in> {''In'', ''NotIn''} \<and> lsValues e \<noteq> [] \<or>
              lsOperator e \<in> {''Exists'', ''DoesNotExist''} \<and> lsValues e = [])))"

definition alone :: "string list \<Rightarrow> bool" where
  "alone xs \<longleftrightarrow> (''*'' \<in> set xs \<longrightarrow> length xs \<le> 1)"

definition admissible_spec :: "name_checks \<Rightarrow> JsPolicySpec \<Rightarrow> bool" where
  "admissible_spec nc s \<longleftrightarrow>
     Operations s \<noteq> [] \<and> alone (Operations s) \<and>
     set (Operations s) \<subseteq> (if PType s = PolicyTypeController then {''*'', ''CREATE'', ''DELETE''}
                           else {''*'', ''CREATE'', ''UPDATE'', ''DELETE'', ''CONNECT''}) \<and>
     alone (APIGroups s) \<and> alone (APIVersions s) \<and> [] \<notin> set (APIVersions s) \<and>
     admissible_resources (Resources s) \<and>
     Scope s \<in> {None, Some ''*'', Some ''Cluster'', Some ''Namespaced''} \<and>
     FailurePolicy s \<in> {None, Some ''Fail'', Some ''Ignore''} \<and>
     ReinvocationPolicy s \<in> {None, Some ''IfNeeded'', Some ''Never''} \<and>
     MatchPolicy s \<in> {None, Some ''Equivalent'', Some ''Exact''} \<and>
     PType s \<in> {[], PolicyTypeValidating, PolicyTypeMutating, PolicyTypeController} \<and>
     (\<forall>t. TimeoutSeconds s = Some t \<longrightarrow> sint t \<in> {1..30}) \<and>
     admissible_selector nc (NamespaceSelector s) \<and> admissible_selector nc (ObjectSelector s) \<and>
     AuditPolicy s \<in> {None, Some AuditPolicyLog, Some AuditPolicySkip} \<and>
     ViolationPolicy s \<in> {None, Some ViolationPolicyPolicyDeny, Some ViolationPolicyPolicyWarn,
                          Some ViolationPolicyPolicyDry} \<and>
     (\<forall>n. AuditLogSize s = Some n \<longrightarrow> sint n \<in> {1..40})"

lemma sless_numeral: "(a :: int32) <s b \<longleftrightarrow> sint a < sint b"
  by (simp add: word_sless_alt)

lemma sle_numeral: "(a :: int32) \<le>s b \<longleftrightarrow> sint a \<le> sint b"
  by (simp add: word_sle_eq)

lemma validateAuditLogSize_iff:
  "validateAuditLogSize sz p = [] \<longleftrightarrow> (\<forall>n. sz = Some n \<longrightarrow> sint n \<in> {1..40})"
  by (auto simp: validateAuditLogSize_def sless_numeral sle_numeral split: option.splits if_splits)

lemma validateAuditPolicy_iff:
  "validateAuditPolicy a p = [] \<longleftrightarrow> a \<in> {None, Some AuditPolicyLog, Some AuditPolicySkip}"
  by (auto simp: validateAuditPolicy_def split: option.splits)

lemma validateViolationPolicy_iff:
  "validateViolationPolicy v p = [] \<longleftrightarrow>
     v \<in> {None, Some ViolationPolicyPolicyDeny, Some ViolationPolicyPolicyWarn,
          Some ViolationPolicyPolicyDry}"
  by (auto simp: validateViolationPolicy_def split: option.splits)

lemma unsupported_iff: "unsupported p v allowed = [] \<longleftrightarrow> v = None \<or> (\<exists>x \<in> set allowed. v = Some x)"
  by (auto simp: unsupported_def split: option.splits)

lemma requirement_iff:
  "ValidateLabelSelectorRequirement nc e p = [] \<longleftrightarrow> IsQualifiedName nc (lsKey e) = [] \<and>
     (lsOperator e \<in> {''In'', ''NotIn''} \<and> lsValues e \<noteq> [] \<or>
      lsOperator e \<in> {''Exists'', ''DoesNotExist''} \<and> lsValues e = [])"
  by (auto simp: ValidateLabelSelectorRequirement_def ValidateLabelName_def)

lemma ValidateLabelSelector_iff: "ValidateLabelSelector nc ps p = [] \<longleftrightarrow> admissible_selector nc ps"
  by (auto simp: ValidateLabelSelector_def admissible_selector_def ValidateLabels_def
      ValidateLabelName_def each_from_Nil_iff [OF requirement_iff] split: option.splits)

lemma alone_iff: "\<not> (length xs > 1 \<and> hasWildcard xs) \<longleftrightarrow> alone xs"
  by (auto simp: alone_def hasWildcard_def)

lemma validateRule_iff:
  "validateRule r p True = [] \<longleftrightarrow>
     alone (APIGroups r) \<and> alone (APIVersions r) \<and> [] \<notin> set (APIVersions r) \<and>
     admissible_resources (Resources r) \<and>
     Scope r \<in> {None, Some ''*'', Some ''Cluster'', Some ''Namespaced''}"
proof -
  have v: "each_from 0 (\<lambda>i version. if version = [] then [RequiredE (Index (Child p ''apiVersions'') i) []]
        else []) (APIVersions r) = [] \<longleftrightarrow> (\<forall>x \<in> set (APIVersions r). x \<noteq> [])"
    by (rule each_from_Nil_iff) simp
  have s: "(case Scope r of Some s \<Rightarrow> if s \<notin> set validScopes
        then [NotSupportedE (Child p ''scope'') (StrV s) validScopes] else [] | None \<Rightarrow> []) = [] \<longleftrightarrow>
      Scope r \<in> {None, Some ''*'', Some ''Cluster'', Some ''Namespaced''}"
    by (auto simp: validScopes_def split: option.splits)
  show ?thesis
    unfolding validateRule_def append_is_Nil_conv v s
    by (auto simp: validateResources_iff alone_iff [symmetric])
qed

lemma validateRuleWithOperations_iff:
  "validateRuleWithOperations r p = [] \<longleftrightarrow>
     Operations r \<noteq> [] \<and> alone (Operations r) \<and>
     set (Operations r) \<subseteq> (if PType r = PolicyTypeController then {''*'', ''CREATE'', ''DELETE''}
                           else {''*'', ''CREATE'', ''UPDATE'', ''DELETE'', ''CONNECT''}) \<and>
     validateRule r p True = []"
proof -
  have "each_from 0 (\<lambda>i operation.
        (if operation \<notin> set supportedOperations
         then [NotSupportedE (Index (Child p ''operations'') i) (StrV operation) supportedOperations]
         else []) @
        (if PType r = PolicyTypeController \<and> (operation = ''UPDATE'' \<or> operation = ''CONNECT'')
         then [NotSupportedE (Index (Child p ''operations'') i) (StrV operation)
           [''*'', ''CREATE'', ''DELETE'']] else []))
       (Operations r) = [] \<longleftrightarrow>
     (\<forall>x \<in> set (Operations r). x \<in> set supportedOperations \<and>
        \<not> (PType r = PolicyTypeController \<and> (x = ''UPDATE'' \<or> x = ''CONNECT'')))"
    by (rule each_from_Nil_iff) auto
  moreover have "(\<forall>x \<in> set (Operations r). x \<in> set supportedOperations \<and>
        \<not> (PType r = PolicyTypeController \<and> (x = ''UPDATE'' \<or> x = ''CONNECT''))) \<longleftrightarrow>
      set (Operations r) \<subseteq> (if PType r = PolicyTypeController then {''*'', ''CREATE'', ''DELETE''}
                           else {''*'', ''CREATE'', ''UPDATE'', ''DELETE'', ''CONNECT''})"
    by (cases "PType r = PolicyTypeController") (auto simp: supportedOperations_def)
  moreover have "(if length (Operations r) > 1 \<and> hasWildcardOperation (Operations r)
      then [InvalidE (Child p ''operations'') (StrsV (Operations r))
        (''if '' @ sq @ ''*'' @ sq @ '' is present, must not specify other operations'')] else []) = []
      \<longleftrightarrow> alone (Operations r)"
    by (simp add: hasWildcardOperation_def hasWildcard_def flip: alone_iff)
  ultimately show ?thesis
    unfolding validateRuleWithOperations_def append_is_Nil_conv by simp
qed

lemma webhook_iff:
  "validateValidatingWebhook nc name hook old p = [] \<longleftrightarrow>
     IsFullyQualifiedName nc [''metadata'', ''name''] name = [] \<and> admissible_spec nc hook \<and>
     (\<forall>o1. old = Some o1 \<longrightarrow> PType hook = PType o1)"
proof -
  have imm: "(case old of Some o1 \<Rightarrow> if PType hook \<noteq> PType o1
       then [InvalidE (Child p ''type'') (StrV (PType hook)) ''type is immutable''] else [] | None \<Rightarrow> []) = []
     \<longleftrightarrow> (\<forall>o1. old = Some o1 \<longrightarrow> PType hook = PType o1)"
    by (auto split: option.splits)
  have tm: "(case TimeoutSeconds hook of Some t \<Rightarrow> if 30 <s t \<or> t <s 1
       then [InvalidE (Child p ''timeoutSeconds'') (IntV t)
          ''the timeout value must be between 1 and 30 seconds''] else [] | None \<Rightarrow> []) = []
     \<longleftrightarrow> (\<forall>t. TimeoutSeconds hook = Some t \<longrightarrow> sint t \<in> {1..30})"
    by (auto simp: sless_numeral split: option.splits if_splits)
  have ty: "(if PType hook \<noteq> [] \<and> PType hook \<notin> set supportedPolicyTypes
       then [NotSupportedE (Child p ''type'') (StrV (PType hook)) supportedPolicyTypes] else []) = []
     \<longleftrightarrow> PType hook \<in> {[], PolicyTypeValidating, PolicyTypeMutating, PolicyTypeController}"
    by (auto simp: supportedPolicyTypes_def)
  have en: "FailurePolicy hook \<in> {None, Some ''Fail'', Some ''Ignore''} \<longleftrightarrow>
       unsupported (Child p ''failurePolicy'') (FailurePolicy hook) supportedFailurePolicies = []"
    "ReinvocationPolicy hook \<in> {None, Some ''IfNeeded'', Some ''Never''} \<longleftrightarrow>
       unsupported (Child p ''reinvocationPolicy'') (ReinvocationPolicy hook) supportedReinvocationPolicies = []"
    "MatchPolicy hook \<in> {None, Some ''Equivalent'', Some ''Exact''} \<longleftrightarrow>
       unsupported (Child p ''matchPolicy'') (MatchPolicy hook) supportedMatchPolicies = []"
    by (auto simp: unsupported_iff supportedFailurePolicies_def supportedReinvocationPolicies_def
        supportedMatchPolicies_def)
  show ?thesis
    unfolding validateValidatingWebhook_def append_is_Nil_conv imm tm ty
      ValidateLabelSelector_iff validateAuditPolicy_iff validateViolationPolicy_iff
      validateAuditLogSize_iff validateRuleWithOperations_iff validateRule_iff admissible_spec_def en
    by blast
qed

section \<open>Properties\<close>

text \<open>
  C5: \<open>ValidateJsPolicy\<close> reports no error exactly for a fully qualified name and an admissible
  spec: at least one operation, all of them supported (no UPDATE or CONNECT for controller
  policies), a wildcard standing alone among operations, API groups and versions, no two resources
  of which the earlier covers the later, enumerations within their values, a timeout of 1 to 30
  seconds and an audit log of 1 to 40 entries. An update is accepted under the same conditions and
  the type of the policy cannot change.
\<close>

theorem ValidateJsPolicy_iff:
  "(ValidateJsPolicy nc p = [] \<longleftrightarrow>
      IsFullyQualifiedName nc [''metadata'', ''name''] (pName p) = [] \<and> admissible_spec nc (pSpec p)) \<and>
   (ValidateJsPolicyUpdate nc p old = [] \<longleftrightarrow>
      ValidateJsPolicy nc p = [] \<and> PType (pSpec p) = PType (pSpec old))"
  unfolding ValidateJsPolicy_def ValidateJsPolicyUpdate_def webhook_iff by blast

text \<open>
  The resource check depends on the order of the rules: a resource without subresource is
  tolerated before the wildcard \<open>*\<close> and refused after it, because the loop overwrites its flag
  \<open>hasResourceWithoutSubresource\<close> with each such resource instead of collecting it.
\<close>

theorem validateResources_order:
  assumes "plain r" and "r \<noteq> []" and "r \<noteq> ''*''"
  shows "validateResources [r, ''*''] p = [] \<and> validateResources [''*'', r] p \<noteq> []"
  using assms
  by (auto simp: validateResources_iff admissible_resources_def covers_def plain_def)

theorem validateResources_order_witness:
  "validateResources [''pods'', ''*''] [] = [] \<and> validateResources [''*'', ''pods''] [] \<noteq> []"
  using validateResources_order [of "''pods''" "[]"] by (simp add: plain_def)

end
