(* ===== verification/Webhook.thy ===== *)
theory Webhook
  imports Handler Report Validation
begin

text \<open>
  The two HTTP endpoints of \<open>pkg/webhook/register.go\<close>: \<open>/policy/\<close>, served by \<open>Webhook.ServeHTTP\<close>
  (\<open>pkg/webhook/webhook.go\<close>), and \<open>/crds\<close>, the validation of policy objects
  (\<open>pkg/webhook/validation/validation.go\<close> with \<open>pkg/util/encoding/decoder.go\<close>). Logging runs in
  goroutines of its own, so \<open>ServeHTTP\<close> returns the calls it starts as a list of tasks.
\<close>

section \<open>Writing a review\<close>

definition v1_AdmissionReview :: GroupVersionKind where
  "v1_AdmissionReview =
     \<lparr>gvkGroup = ''admission.k8s.io'', gvkVersion = ''v1'', gvkKind = ''AdmissionReview''\<rparr>"

text \<open>An \<open>AdmissionReview\<close>: the response and the kind it is written as, if set.\<close>

type_synonym review = "AdmResponse \<times> GroupVersionKind option"

text \<open>
  \<open>encode\<close> is \<open>json.NewEncoder(w).Encode\<close> on a connection in a given state. After an error the
  source writes the error as a response, through the same function.
\<close>

partial_function (option) writeAdmissionResponse ::
    "(review \<Rightarrow> 'w \<Rightarrow> go_error option \<times> 'w) \<Rightarrow> review \<Rightarrow> 'w \<Rightarrow> 'w option" where
  "writeAdmissionResponse encode ar w =
     (case encode ar w of
        (None, w') \<Rightarrow> Some w'
      | (Some err, w') \<Rightarrow> writeAdmissionResponse encode (Errored 500 err, None) w')"

definition writeResponse :: "(review \<Rightarrow> 'w \<Rightarrow> go_error option \<times> 'w) \<Rightarrow> AdmResponse \<Rightarrow> 'w \<Rightarrow> 'w option" where
  "writeResponse encode response w = writeAdmissionResponse encode (response, None) w"

definition writeResponseTyped ::
    "(review \<Rightarrow> 'w \<Rightarrow> go_error option \<times> 'w) \<Rightarrow> AdmResponse \<Rightarrow> GroupVersionKind option \<Rightarrow> 'w \<Rightarrow> 'w option"
  where
  "writeResponseTyped encode response admRevGVK w =
     writeAdmissionResponse encode
       (response,
        Some (case admRevGVK of
                None \<Rightarrow> v1_AdmissionReview
              | Some g \<Rightarrow> if g = \<lparr>gvkGroup = [], gvkVersion = [], gvkKind = []\<rparr> then v1_AdmissionReview
                          else g)) w"

section \<open>ServeHTTP\<close>

record HttpAdmission =
  htBody :: "(go_error + string) option" \<comment> \<open>\<open>r.Body\<close>, nil-able, and the result of reading it\<close>
  htContentType :: string
  htPath :: string

datatype task =
    LogTask AdmRequest AdmResponse JsPolicy int
  | ReportTask AdmRequest AdmResponse JsPolicy int int \<comment> \<open>max events, retries\<close>

record webhook_env =
  decodeReview :: "string \<Rightarrow> go_error + (AdmRequest \<times> GroupVersionKind option)"
  getPolicy :: "string \<Rightarrow> go_error + JsPolicy"
  handlePolicy :: "AdmRequest \<Rightarrow> JsPolicy \<Rightarrow> AdmResponse" \<comment> \<open>\<open>Handler.Handle\<close>\<close>
  marshalPatches :: "json list \<Rightarrow> go_error + json"
  enablePolicyReports :: bool
  policyReportMaxEvents :: int

definition prefixWarnings :: "string \<Rightarrow> AdmResponse \<Rightarrow> AdmResponse" where
  "prefixWarnings name r = r\<lparr>aWarnings := map (\<lambda>w. ''['' @ name @ '']: '' @ w) (aWarnings r)\<rparr>"

text \<open>The goroutine that logs a denied response, if the policy audits.\<close>

definition auditTasks :: "webhook_env \<Rightarrow> AdmRequest \<Rightarrow> JsPolicy \<Rightarrow> AdmResponse \<Rightarrow> task list" where
  "auditTasks env req jsPolicy r =
     (if \<not> aAllowed r \<and> AuditPolicy (pSpec jsPolicy) \<noteq> Some AuditPolicySkip then
        (if \<not> enablePolicyReports env then [LogTask req r jsPolicy 5]
         else [ReportTask req r jsPolicy (policyReportMaxEvents env) 5])
      else [])"

text \<open>The violation policy applied to the handler's response.\<close>

definition enforce :: "JsPolicy \<Rightarrow> AdmResponse \<Rightarrow> AdmResponse" where
  "enforce jsPolicy r =
     (if \<not> aAllowed r then
        (case ViolationPolicy (pSpec jsPolicy) of
           None \<Rightarrow> r
         | Some v \<Rightarrow>
             if v = ViolationPolicyPolicyDry then (Allowed [])\<lparr>aWarnings := aWarnings r\<rparr>
             else if v = ViolationPolicyPolicyWarn then
               (Allowed [])\<lparr>aWarnings := aWarnings r @
                  (case aResult r of
                     Some st \<Rightarrow> [''['' @ pName jsPolicy @ '']: '' @ sMessage st]
                   | None \<Rightarrow> [])\<rparr>
             else r)
      else if ViolationPolicy (pSpec jsPolicy) = Some ViolationPolicyPolicyDry
      then (Allowed [])\<lparr>aWarnings := aWarnings r\<rparr>
      else r)"

text \<open>
  What is written and which goroutines are started. A response that could not be completed, and
  every early error, is written without a kind.
\<close>

definition serve :: "webhook_env \<Rightarrow> HttpAdmission \<Rightarrow> review \<times> task list" where
  "serve env r =
     (case htBody r of
        None \<Rightarrow> ((Errored 400 (Errorf ''request body is empty''), None), [])
      | Some (Inl err) \<Rightarrow> ((Errored 400 err, None), [])
      | Some (Inr body) \<Rightarrow>
          if htContentType r \<noteq> ''application/json''
          then ((Errored 400 (Errorf (''contentType='' @ htContentType r @ '', expected application/json'')),
                 None), [])
          else
            (case decodeReview env body of
               Inl err \<Rightarrow> ((Errored 400 err, None), [])
             | Inr (req, gvk) \<Rightarrow>
                 (case split_on (CHR ''/'') (htPath r) of
                    [a, b, jsPolicyName] \<Rightarrow>
                      if b \<noteq> ''policy''
                      then ((Errored 400 (Errorf (''wrong request path: '' @ htPath r)), None), [])
                      else
                        (case getPolicy env jsPolicyName of
                           Inl err \<Rightarrow> ((Errored 400 err, None), [])
                         | Inr jsPolicy \<Rightarrow>
                             let response = prefixWarnings (pName jsPolicy) (handlePolicy env req jsPolicy);
                                 tasks = auditTasks env req jsPolicy response
                             in (case Complete (marshalPatches env) req (enforce jsPolicy response) of
                                   Inl err \<Rightarrow> ((Errored 500 err, None), tasks)
                                 | Inr response' \<Rightarrow> ((response', Some (case gvk of Some g \<Rightarrow> g | None \<Rightarrow>
                                       \<lparr>gvkGroup = [], gvkVersion = [], gvkKind = []\<rparr>)), tasks)))
                  | _ \<Rightarrow> ((Errored 400 (Errorf (''wrong request path: '' @ htPath r)), None), []))))"

definition ServeHTTP ::
    "webhook_env \<Rightarrow> (review \<Rightarrow> 'w \<Rightarrow> go_error option \<times> 'w) \<Rightarrow> HttpAdmission \<Rightarrow> 'w \<Rightarrow> 'w option \<times> task list" where
  "ServeHTTP env encode r w =
     (case serve env r of
        ((response, None), tasks) \<Rightarrow> (writeResponse encode response w, tasks)
      | ((response, Some gvk), tasks) \<Rightarrow> (writeResponseTyped encode response (Some gvk) w, tasks))"

section \<open>The validating endpoint for policies\<close>

datatype decoded = DecodedPolicy JsPolicy | DecodedOther

text \<open>
  \<open>decoder.Decode\<close>: \<open>codec\<close> is the scheme's deserializer; an object of an unregistered kind is read
  as unstructured YAML (\<open>yaml\<close>).
\<close>

definition Decode ::
    "(string \<Rightarrow> go_error + decoded) \<Rightarrow> (string \<Rightarrow> go_error option) \<Rightarrow> string \<Rightarrow> go_error + decoded" where
  "Decode codec yaml bytes =
     (case codec bytes of
        Inl err \<Rightarrow>
          if IsNotRegisteredError err
          then (case yaml bytes of Some err' \<Rightarrow> Inl err' | None \<Rightarrow> Inr DecodedOther)
          else Inl err
      | Inr obj \<Rightarrow> Inr obj)"

record validator =
  StrictDecode :: "string \<Rightarrow> go_error + decoded"
  NormalDecode :: "string \<Rightarrow> go_error + decoded"
  nameChecks :: name_checks
  aggregateText :: "field_error list \<Rightarrow> string" \<comment> \<open>\<open>errs.ToAggregate().Error()\<close>\<close>

definition denied_with :: "string \<Rightarrow> string \<Rightarrow> AdmResponse" where
  "denied_with reason message =
     (Denied reason)\<lparr>aResult := map_option (\<lambda>st. st\<lparr>sMessage := message\<rparr>) (aResult (Denied reason))\<rparr>"

text \<open>\<open>None\<close> is the panic of the type assertion \<open>obj.(*JsPolicy)\<close>.\<close>

definition validateDecoded ::
    "validator \<Rightarrow> AdmRequest \<Rightarrow> decoded \<Rightarrow> decoded option \<Rightarrow> AdmResponse option" where
  "validateDecoded v req obj oldObj =
     (if GroupVersion_String (gvkGroup (rqKind req)) (gvkVersion (rqKind req)) \<noteq> policyGroupVersion
      then Some (Allowed [])
      else
        (let errs = (if gvkKind (rqKind req) \<noteq> ''JsPolicy'' then Some []
                     else (case (obj, oldObj) of
                             (DecodedPolicy p, None) \<Rightarrow> Some (ValidateJsPolicy (nameChecks v) p)
                           | (DecodedPolicy p, Some (DecodedPolicy q)) \<Rightarrow>
                               Some (ValidateJsPolicyUpdate (nameChecks v) p q)
                           | _ \<Rightarrow> None))
         in case errs of
              None \<Rightarrow> None
            | Some es \<Rightarrow>
                if length es > 0 then Some (denied_with ''Forbidden'' (aggregateText v es))
                else Some (Allowed [])))"

definition Validator_Handle :: "validator \<Rightarrow> AdmRequest \<Rightarrow> AdmResponse option" where
  "Validator_Handle v req =
     (if rqOperation req = ''CREATE'' then
        (case StrictDecode v (rqObject req) of
           Inl err \<Rightarrow> Some (denied_with ''BadRequest'' (err_text err))
         | Inr obj \<Rightarrow> validateDecoded v req obj None)
      else if rqOperation req = ''UPDATE'' then
        (case StrictDecode v (rqObject req) of
           Inl err \<Rightarrow> Some (denied_with ''BadRequest'' (err_text err))
         | Inr obj \<Rightarrow>
             (case NormalDecode v (rqOldObject req) of
                Inl err \<Rightarrow> Some (Errored 1 err)
              | Inr oldObj \<Rightarrow> validateDecoded v req obj (Some oldObj)))
      else Some (Errored 1 (Errorf (''operation '' @ rqOperation req @ '' not supported''))))"

section \<open>What the endpoints answer\<close>

lemma prefixWarnings_simps [simp]:
  "aAllowed (prefixWarnings n r) = aAllowed r" "aPatches (prefixWarnings n r) = aPatches r"
  "aResult (prefixWarnings n r) = aResult r"
  by (simp_all add: prefixWarnings_def)

lemma denied_with_simps [simp]: "\<not> aAllowed (denied_with a b)"
  by (simp add: denied_with_def)

lemma enforce_allowed:
  "aAllowed (enforce p r) \<longleftrightarrow> aAllowed r \<or>
     ViolationPolicy (pSpec p) \<in> {Some ViolationPolicyPolicyDry, Some ViolationPolicyPolicyWarn}"
  by (auto simp: enforce_def response_defs split: option.splits)

lemma enforce_patches:
  "aPatches (enforce p r) =
     (if ViolationPolicy (pSpec p) = Some ViolationPolicyPolicyDry \<or>
         (\<not> aAllowed r \<and> ViolationPolicy (pSpec p) = Some ViolationPolicyPolicyWarn)
      then [] else aPatches r)"
  by (auto simp: enforce_def response_defs split: option.splits)

text \<open>A request that reaches the policy's handler, with the admission request and the policy.\<close>

definition reaches :: "webhook_env \<Rightarrow> HttpAdmission \<Rightarrow> AdmRequest \<Rightarrow> JsPolicy \<Rightarrow> bool" where
  "reaches env r req p \<longleftrightarrow>
     (\<exists>body gvk a name. htBody r = Some (Inr body) \<and> htContentType r = ''application/json'' \<and>
        decodeReview env body = Inr (req, gvk) \<and>
        split_on (CHR ''/'') (htPath r) = [a, ''policy'', name] \<and> getPolicy env name = Inr p)"

lemma serve_reaches:
  assumes "reaches env r req p"
  shows "snd (serve env r) = auditTasks env req p (prefixWarnings (pName p) (handlePolicy env req p)) \<and>
    (case Complete (marshalPatches env) req (enforce p (prefixWarnings (pName p) (handlePolicy env req p))) of
       Inl err \<Rightarrow> fst (fst (serve env r)) = Errored 500 err
     | Inr response \<Rightarrow> fst (fst (serve env r)) = response)"
  using assms by (auto simp: reaches_def serve_def Let_def split: sum.splits)

lemma serve_not_reaches:
  assumes "\<And>req p. \<not> reaches env r req p"
  shows "\<exists>err. serve env r = ((Errored 400 err, None), [])"
proof (cases "htBody r")
  case (Some b)
  show ?thesis
  proof (cases b)
    case (Inr body)
    show ?thesis
    proof (cases "decodeReview env body")
      case d: (Inr q)
      obtain req gvk where q: "q = (req, gvk)" by fastforce
      have "\<forall>req p. \<not> reaches env r req p" using assms by blast
      then show ?thesis
        using Some Inr d by (auto simp: serve_def reaches_def q split: list.splits sum.splits)
    qed (auto simp: serve_def Some Inr)
  qed (auto simp: serve_def Some)
qed (auto simp: serve_def)

lemma Complete_error_patches: "Complete m req r = Inl e \<Longrightarrow> aPatches r \<noteq> []"
  by (auto simp: Complete_def Let_def split: if_splits)

section \<open>Properties\<close>


definition example_webhook :: webhook_env where
  "example_webhook =
     \<lparr>decodeReview = (\<lambda>_. Inr (example_request, None)), getPolicy = (\<lambda>_. Inr example_policy),
      handlePolicy = (\<lambda>_ _. Denied ''Forbidden''), marshalPatches = (\<lambda>_. Inr ''[]''),
      enablePolicyReports = False, policyReportMaxEvents = 0\<rparr>"


text \<open>
  Once the connection refuses every write, writing the answer never returns: the error path
  writes the error as a response through the function that failed.
\<close>

theorem writeAdmissionResponse_diverges:
  assumes "\<And>ar w. \<exists>err w'. encode ar w = (Some err, w')"
  shows "writeAdmissionResponse encode ar w = None"
proof -
  have False if "writeAdmissionResponse encode ar w = Some r" for r
  proof -
    have "encode = encode \<longrightarrow> False"
    proof (rule writeAdmissionResponse.raw_induct
        [where P = "\<lambda>encode' ar w r. encode' = encode \<longrightarrow> False", OF _ that], intro impI)
      fix f :: "(review \<Rightarrow> 'a \<Rightarrow> go_error option \<times> 'a) \<Rightarrow> review \<Rightarrow> 'a \<Rightarrow> 'a option" and encode' ar w y
      assume ih: "\<And>encode' ar w y. f encode' ar w = Some y \<Longrightarrow> encode' = encode \<longrightarrow> False"
        and eq: "encode' = encode"
      assume "(case encode' ar w of (None, w') \<Rightarrow> Some w'
          | (Some err, w') \<Rightarrow> f encode' (Errored 500 err, None) w') = Some y"
      moreover obtain err w' where "encode ar w = (Some err, w')" using assms by blast
      ultimately show False using ih [of encode "(Errored 500 err, None)" w' y] by (simp add: eq)
    qed
    then show False by simp
  qed
  then show ?thesis by (meson not_None_eq)
qed

theorem writeAdmissionResponse_diverges_witness:
  "writeAdmissionResponse (\<lambda>ar w. (Some (Errorf ''broken pipe''), w)) (Allowed [], None) () = None"
  by (rule writeAdmissionResponse_diverges) simp

text \<open>
  C15: the validating endpoint admits an object of the policy API group exactly when the request
  creates or updates it, the new object decodes strictly (and the old one at all), and, for a
  policy, the validation finds no error; objects of other API groups need to decode only. It
  panics only if a request of kind JsPolicy carries another object.
\<close>

theorem Validator_admits_iff:
  assumes "gvkKind (rqKind req) = ''JsPolicy'' \<Longrightarrow>
      (\<forall>o1. StrictDecode v (rqObject req) = Inr o1 \<longrightarrow> (\<exists>p. o1 = DecodedPolicy p)) \<and>
      (\<forall>o1. NormalDecode v (rqOldObject req) = Inr o1 \<longrightarrow> (\<exists>p. o1 = DecodedPolicy p))"
  shows "\<exists>resp. Validator_Handle v req = Some resp \<and>
    (aAllowed resp \<longleftrightarrow>
       (\<exists>obj. StrictDecode v (rqObject req) = Inr obj \<and>
          (rqOperation req = ''CREATE'' \<or>
           rqOperation req = ''UPDATE'' \<and> (\<exists>old. NormalDecode v (rqOldObject req) = Inr old)) \<and>
          (GroupVersion_String (gvkGroup (rqKind req)) (gvkVersion (rqKind req)) \<noteq> policyGroupVersion \<or>
           gvkKind (rqKind req) \<noteq> ''JsPolicy'' \<or>
           (\<exists>p. obj = DecodedPolicy p \<and> ValidateJsPolicy (nameChecks v) p = [] \<and>
              (rqOperation req = ''UPDATE'' \<longrightarrow>
                 (\<exists>q. NormalDecode v (rqOldObject req) = Inr (DecodedPolicy q) \<and>
                    PType (pSpec p) = PType (pSpec q)))))))"
proof -
  have upd: "ValidateJsPolicyUpdate nc p q = [] \<longleftrightarrow>
      ValidateJsPolicy nc p = [] \<and> PType (pSpec p) = PType (pSpec q)" for nc p q
    unfolding ValidateJsPolicy_def ValidateJsPolicyUpdate_def webhook_iff by blast
  have dec: "\<exists>resp. validateDecoded v req obj old = Some resp \<and>
      (aAllowed resp \<longleftrightarrow>
        GroupVersion_String (gvkGroup (rqKind req)) (gvkVersion (rqKind req)) \<noteq> policyGroupVersion \<or>
        gvkKind (rqKind req) \<noteq> ''JsPolicy'' \<or>
        (\<exists>p. obj = DecodedPolicy p \<and> ValidateJsPolicy (nameChecks v) p = [] \<and>
           (\<forall>q. old = Some (DecodedPolicy q) \<longrightarrow> PType (pSpec p) = PType (pSpec q))))"
    if "gvkKind (rqKind req) = ''JsPolicy'' \<Longrightarrow>
      (\<exists>p. obj = DecodedPolicy p) \<and> (\<forall>o1. old = Some o1 \<longrightarrow> (\<exists>q. o1 = DecodedPolicy q))" for obj old
    using that by (cases obj; cases old) (auto simp: validateDecoded_def Let_def upd split: decoded.splits)
  show ?thesis
  proof (cases "rqOperation req = ''CREATE''")
    case True
    then show ?thesis
    proof (cases "StrictDecode v (rqObject req)")
      case (Inr obj)
      from dec [of obj None] assms show ?thesis using True Inr by (auto simp: Validator_Handle_def)
    qed (simp add: Validator_Handle_def)
  next
    case create: False
    show ?thesis
    proof (cases "rqOperation req = ''UPDATE''")
      case True
      show ?thesis
      proof (cases "StrictDecode v (rqObject req)")
        case obj: (Inr obj)
        show ?thesis
        proof (cases "NormalDecode v (rqOldObject req)")
          case (Inr old)
          from dec [of obj "Some old"] assms show ?thesis
            using True obj Inr by (cases old) (auto simp: Validator_Handle_def)
        qed (simp add: Validator_Handle_def True obj)
      qed (simp add: Validator_Handle_def True)
    qed (simp add: Validator_Handle_def create)
  qed
qed

definition example_validator :: validator where
  "example_validator =
     \<lparr>StrictDecode = (\<lambda>_. Inr (DecodedPolicy example_policy)),
      NormalDecode = (\<lambda>_. Inr (DecodedPolicy example_policy)),
      nameChecks = \<lparr>IsFullyQualifiedName = (\<lambda>_ _. []), IsQualifiedName = (\<lambda>_. []), IsValidLabelValue = (\<lambda>_. [])\<rparr>,
      aggregateText = (\<lambda>_. ''invalid'')\<rparr>"

theorem Validator_admits_iff_witness:
  "\<exists>resp. Validator_Handle example_validator
     (example_request\<lparr>rqKind := \<lparr>gvkGroup = ''policy.jspolicy.com'', gvkVersion = ''v1beta1'', gvkKind = ''JsPolicy''\<rparr>,
        rqOperation := ''DELETE''\<rparr>) = Some resp \<and> \<not> aAllowed resp"
  using Validator_admits_iff [of "example_request\<lparr>rqKind := \<lparr>gvkGroup = ''policy.jspolicy.com'',
      gvkVersion = ''v1beta1'', gvkKind = ''JsPolicy''\<rparr>, rqOperation := ''DELETE''\<rparr>" example_validator]
  by (auto simp: example_validator_def)

end
