(* ===== verification/CondPatch.thy ===== *)
theory CondPatch
  imports Conditions
begin

text \<open>
  \<open>pkg/util/conditions/patch.go\<close>: the difference of two condition slices and its three-way
  application to a third one. \<open>Apply\<close> hands each \<open>After\<close> condition to \<open>Set\<close>, which
  writes the transition time into it, so the model returns the patch as \<open>Apply\<close> leaves it: the
  retry loop of the patch helper applies that one again.
\<close>

section \<open>Patches\<close>

datatype PatchOperation =
    AddConditionPatch Condition
  | ChangeConditionPatch Condition Condition \<comment> \<open>Before, After\<close>
  | RemoveConditionPatch Condition

text \<open>The conflicts \<open>Apply\<close> reports, with the condition type they name.\<close>

datatype apply_error =
    AddConflict string
  | ChangeDeleted string
  | ChangeConflict string
  | RemoveConflict string

fun new_patch_after :: "Conditions \<Rightarrow> Conditions \<Rightarrow> PatchOperation list" where
  "new_patch_after before [] = []"
| "new_patch_after before (target # ts) =
     (case Get before (cType target) of
        None \<Rightarrow> AddConditionPatch target # new_patch_after before ts
      | Some current \<Rightarrow>
          if target \<noteq> current then ChangeConditionPatch current target # new_patch_after before ts
          else new_patch_after before ts)"

fun new_patch_before :: "Conditions \<Rightarrow> Conditions \<Rightarrow> PatchOperation list" where
  "new_patch_before after [] = []"
| "new_patch_before after (base # bs) =
     (case Get after (cType base) of
        None \<Rightarrow> RemoveConditionPatch base # new_patch_before after bs
      | Some _ \<Rightarrow> new_patch_before after bs)"

definition NewPatch :: "Conditions \<Rightarrow> Conditions \<Rightarrow> PatchOperation list" where
  "NewPatch before after = new_patch_after before after @ new_patch_before after before"

definition isOwnedCondition :: "string list \<Rightarrow> string \<Rightarrow> bool" where
  "isOwnedCondition owned t \<longleftrightarrow> (\<exists>i \<in> set owned. i = t)"

definition PatchIsZero :: "PatchOperation list \<Rightarrow> bool" where
  "PatchIsZero p \<longleftrightarrow> length p = 0"

text \<open>
  One operation on the latest conditions: the conflict, if any, the conditions, and the operation
  with the transition time that \<open>Set\<close> wrote.
\<close>

fun apply_op ::
    "gotime \<Rightarrow> bool \<Rightarrow> string list \<Rightarrow> Conditions \<Rightarrow> PatchOperation \<Rightarrow>
     apply_error option \<times> Conditions \<times> PatchOperation" where
  "apply_op now forceOverwrite owned latest (AddConditionPatch after) =
     (let set_it = (case SetCondition now latest after of
                      (cs, after') \<Rightarrow> (None, cs, AddConditionPatch after')) in
      if forceOverwrite \<or> isOwnedCondition owned (cType after) then set_it
      else (case Get latest (cType after) of
              Some latestCondition \<Rightarrow>
                if \<not> hasSameState latestCondition after
                then (Some (AddConflict (cType after)), latest, AddConditionPatch after)
                else (None, latest, AddConditionPatch after)
            | None \<Rightarrow> set_it))"
| "apply_op now forceOverwrite owned latest (ChangeConditionPatch before after) =
     (let set_it = (case SetCondition now latest after of
                      (cs, after') \<Rightarrow> (None, cs, ChangeConditionPatch before after')) in
      if forceOverwrite \<or> isOwnedCondition owned (cType after) then set_it
      else (case Get latest (cType after) of
              None \<Rightarrow> (Some (ChangeDeleted (cType after)), latest, ChangeConditionPatch before after)
            | Some latestCondition \<Rightarrow>
                if latestCondition \<noteq> before then
                  if \<not> hasSameState latestCondition after
                  then (Some (ChangeConflict (cType after)), latest, ChangeConditionPatch before after)
                  else (None, latest, ChangeConditionPatch before after)
                else set_it))"
| "apply_op now forceOverwrite owned latest (RemoveConditionPatch before) =
     (let delete_it = (None, Delete latest (cType before), RemoveConditionPatch before) in
      if forceOverwrite \<or> isOwnedCondition owned (cType before) then delete_it
      else (case Get latest (cType before) of
              Some latestCondition \<Rightarrow>
                if \<not> hasSameState latestCondition before
                then (Some (RemoveConflict (cType before)), latest, RemoveConditionPatch before)
                else delete_it
            | None \<Rightarrow> delete_it))"

fun Apply ::
    "gotime \<Rightarrow> bool \<Rightarrow> string list \<Rightarrow> PatchOperation list \<Rightarrow> Conditions \<Rightarrow>
     apply_error option \<times> Conditions \<times> PatchOperation list" where
  "Apply now forceOverwrite owned [] latest = (None, latest, [])"
| "Apply now forceOverwrite owned (p # ps) latest =
     (case apply_op now forceOverwrite owned latest p of
        (Some e, latest', p') \<Rightarrow> (Some e, latest', p' # ps)
      | (None, latest', p') \<Rightarrow>
          (case Apply now forceOverwrite owned ps latest' of
             (e, latest'', ps') \<Rightarrow> (e, latest'', p' # ps')))"

section \<open>What one operation does\<close>

fun op_type :: "PatchOperation \<Rightarrow> string" where
  "op_type (AddConditionPatch a) = cType a"
| "op_type (ChangeConditionPatch b a) = cType a"
| "op_type (RemoveConditionPatch b) = cType b"

text \<open>
  The condition an operation wants to see under its type, and whether a latest condition is
  compatible with the change: still the base, or already as intended.
\<close>

fun op_target :: "PatchOperation \<Rightarrow> Condition option" where
  "op_target (AddConditionPatch a) = Some a"
| "op_target (ChangeConditionPatch b a) = Some a"
| "op_target (RemoveConditionPatch b) = None"

fun compatible :: "Condition option \<Rightarrow> PatchOperation \<Rightarrow> bool" where
  "compatible cur (AddConditionPatch a) =
     (case cur of None \<Rightarrow> True | Some c \<Rightarrow> hasSameState c a)"
| "compatible cur (ChangeConditionPatch b a) =
     (case cur of None \<Rightarrow> False | Some c \<Rightarrow> c = b \<or> hasSameState c a)"
| "compatible cur (RemoveConditionPatch b) =
     (case cur of None \<Rightarrow> True | Some c \<Rightarrow> hasSameState c b)"

definition overwrites :: "bool \<Rightarrow> string list \<Rightarrow> PatchOperation \<Rightarrow> bool" where
  "overwrites forceOverwrite owned p \<longleftrightarrow> forceOverwrite \<or> op_type p \<in> set owned"

text \<open>The edits of the condition store that an operation amounts to, given what it finds there.\<close>

fun op_edits ::
    "bool \<Rightarrow> Condition option \<Rightarrow> PatchOperation \<Rightarrow> (Condition, string) edit list" where
  "op_edits ow cur (AddConditionPatch a) = (if ow \<or> cur = None then [Put a] else [])"
| "op_edits ow cur (ChangeConditionPatch b a) = (if ow \<or> cur = Some b then [Put a] else [])"
| "op_edits ow cur (RemoveConditionPatch b) = [Del (cType b)]"

lemma owned_iff: "isOwnedCondition owned t \<longleftrightarrow> t \<in> set owned"
  by (simp add: isOwnedCondition_def)

lemma apply_op_error:
  "fst (apply_op now f owned latest p) = None \<longleftrightarrow>
     overwrites f owned p \<or> compatible (Get latest (op_type p)) p"
  by (cases p) (auto simp: overwrites_def owned_iff Let_def split: option.splits prod.splits)

lemma apply_op_result:
  "fst (apply_op now f owned latest p) = None \<Longrightarrow>
   fst (snd (apply_op now f owned latest p)) =
     cond_store.run_edits now latest (op_edits (overwrites f owned p) (Get latest (op_type p)) p)"
  by (cases p)
    (auto simp: overwrites_def owned_iff Let_def cond_store.run_edits.simps split: option.splits prod.splits)

lemma op_edits_keys: "e \<in> set (op_edits ow cur p) \<Longrightarrow> cond_store.edit_key e = op_type p"
  by (cases p) (auto split: if_splits)

section \<open>What Apply does\<close>

lemma Apply_run_edits:
  assumes "wf_conditions latest" and "distinct (map op_type ps)"
  shows "(fst (Apply now f owned ps latest) = None \<longleftrightarrow>
            (\<forall>p \<in> set ps. overwrites f owned p \<or> compatible (Get latest (op_type p)) p)) \<and>
         (fst (Apply now f owned ps latest) = None \<longrightarrow>
            fst (snd (Apply now f owned ps latest)) =
              cond_store.run_edits now latest
                (concat (map (\<lambda>p. op_edits (overwrites f owned p) (Get latest (op_type p)) p) ps)))"
  using assms
proof (induction ps arbitrary: latest)
  case Nil
  then show ?case by (simp add: cond_store.run_edits.simps)
next
  case (Cons p ps)
  obtain e latest' p' where step: "apply_op now f owned latest p = (e, latest', p')"
    by (metis prod_cases3)
  show ?case
  proof (cases e)
    case (Some err)
    then show ?thesis using step apply_op_error [of now f owned latest p] by auto
  next
    case None
    let ?ed = "op_edits (overwrites f owned p) (Get latest (op_type p)) p"
    have l': "latest' = cond_store.run_edits now latest ?ed"
      using step None apply_op_result [of now f owned latest p] by simp
    have wf': "wf_conditions latest'"
      using Cons.prems(1) by (simp add: l' cond_store.run_edits_inv)
    have same: "Get latest' (op_type q) = Get latest (op_type q)" if "q \<in> set ps" for q
    proof -
      have "op_type q \<noteq> op_type p" using distinct_map_ConsD [OF Cons.prems(2) that] .
      then have "op_type q \<notin> cond_store.edit_key ` set ?ed"
        by (auto dest!: op_edits_keys)
      then show ?thesis using Cons.prems(1) by (simp add: l' cond_store.run_edits_other)
    qed
    have ok: "overwrites f owned p \<or> compatible (Get latest (op_type p)) p"
      using step None apply_op_error [of now f owned latest p] by simp
    have eq: "concat (map (\<lambda>q. op_edits (overwrites f owned q) (Get latest' (op_type q)) q) ps)
        = concat (map (\<lambda>q. op_edits (overwrites f owned q) (Get latest (op_type q)) q) ps)"
      using same by (intro arg_cong [where f = concat] map_cong) auto
    obtain e2 l2 ps' where rec: "Apply now f owned ps latest' = (e2, l2, ps')"
      by (metis prod_cases3)
    have d': "distinct (map op_type ps)" using Cons.prems(2) by simp
    have e2: "e2 = None \<longleftrightarrow>
        (\<forall>p \<in> set ps. overwrites f owned p \<or> compatible (Get latest (op_type p)) p)"
      using Cons.IH [OF wf' d'] rec same by simp
    have l2: "e2 = None \<longrightarrow> l2 = cond_store.run_edits now latest'
        (concat (map (\<lambda>q. op_edits (overwrites f owned q) (Get latest (op_type q)) q) ps))"
      using Cons.IH [OF wf' d'] rec eq by simp
    have "Apply now f owned (p # ps) latest = (e2, l2, p' # ps')"
      by (simp add: step None rec)
    then show ?thesis
      using e2 l2 ok by (simp add: l' cond_store.run_edits_append)
  qed
qed

lemma concat_edit_keys:
  assumes "distinct (map op_type ps)"
  shows "distinct (map cond_store.edit_key (concat (map (\<lambda>p. op_edits (ow p) (cur p) p) ps)))"
  using assms
proof (induction ps)
  case Nil
  then show ?case by simp
next
  case (Cons p ps)
  have "distinct (map cond_store.edit_key (op_edits (ow p) (cur p) p))"
    by (cases p) auto
  moreover have "cond_store.edit_key e \<noteq> cond_store.edit_key e'"
    if "e \<in> set (op_edits (ow p) (cur p) p)"
      and "e' \<in> set (concat (map (\<lambda>p. op_edits (ow p) (cur p) p) ps))" for e e'
    using that Cons.prems op_edits_keys by fastforce
  ultimately show ?case using Cons by auto
qed

lemma Apply_target:
  assumes wf: "wf_conditions latest" and d: "distinct (map op_type ps)"
    and ok: "fst (Apply now f owned ps latest) = None" and p: "p \<in> set ps"
  shows "rel_option hasSameState (Get (fst (snd (Apply now f owned ps latest))) (op_type p)) (op_target p)"
proof -
  let ?es = "concat (map (\<lambda>p. op_edits (overwrites f owned p) (Get latest (op_type p)) p) ps)"
  note run = Apply_run_edits [OF wf d, of now f owned]
  have res: "fst (snd (Apply now f owned ps latest)) = cond_store.run_edits now latest ?es"
    using run ok by simp
  have cp: "overwrites f owned p \<or> compatible (Get latest (op_type p)) p"
    using run ok p by simp
  have de: "distinct (map cond_store.edit_key ?es)" by (rule concat_edit_keys [OF d])
  show ?thesis
  proof (cases "op_edits (overwrites f owned p) (Get latest (op_type p)) p")
    case Nil
    then have "op_type p \<notin> cond_store.edit_key ` set ?es"
      using op_edits_keys d p by (fastforce dest: distinct_map [THEN iffD1] inj_onD)
    then have "Get (cond_store.run_edits now latest ?es) (op_type p) = Get latest (op_type p)"
      using wf by (rule cond_store.run_edits_other [rotated])
    then show ?thesis
      using Nil cp by (cases p) (auto simp: res rel_option_iff split: if_splits option.splits)
  next
    case (Cons e es)
    have mem: "e \<in> set ?es" using Cons p by (auto intro!: bexI [of _ p])
    show ?thesis
    proof (cases "op_target p")
      case None
      then have "e = Del (op_type p)" using Cons by (cases p) (auto split: if_splits)
      then show ?thesis
        using cond_store.run_edits_del [OF wf de] mem None by (simp add: res)
    next
      case (Some a)
      then have "e = Put a" "cType a = op_type p" using Cons by (cases p; auto split: if_splits)+
      then show ?thesis
        using cond_store.run_edits_put [OF wf de, of a now] mem Some by (auto simp: res simp del: set_concat)
    qed
  qed
qed

lemma Apply_other:
  assumes wf: "wf_conditions latest" and d: "distinct (map op_type ps)"
    and ok: "fst (Apply now f owned ps latest) = None" and t: "t \<notin> op_type ` set ps"
  shows "Get (fst (snd (Apply now f owned ps latest))) t = Get latest t"
proof -
  let ?es = "concat (map (\<lambda>p. op_edits (overwrites f owned p) (Get latest (op_type p)) p) ps)"
  have "t \<notin> cond_store.edit_key ` set ?es" using op_edits_keys t by fastforce
  then show ?thesis
    using Apply_run_edits [OF wf d, of now f owned] ok cond_store.run_edits_other [OF wf] by simp
qed

lemma Apply_wf:
  assumes "wf_conditions latest" and "distinct (map op_type ps)"
    and "fst (Apply now f owned ps latest) = None"
  shows "wf_conditions (fst (snd (Apply now f owned ps latest)))"
  using Apply_run_edits [OF assms(1,2), of now f owned] assms(3)
    cond_store.run_edits_inv [OF assms(1)] by simp

section \<open>NewPatch\<close>

lemma new_patch_after_types:
  "op_type ` set (new_patch_after before ts) \<subseteq> cType ` set ts"
  by (induction before ts rule: new_patch_after.induct) (auto split: option.splits)

lemma new_patch_before_types:
  "op_type ` set (new_patch_before after bs) = {cType b |b. b \<in> set bs \<and> Get after (cType b) = None}"
  by (induction after bs rule: new_patch_before.induct) (auto split: option.splits)

lemma new_patch_after_distinct:
  "distinct (map cType ts) \<Longrightarrow> distinct (map op_type (new_patch_after before ts))"
proof (induction before ts rule: new_patch_after.induct)
  case (2 before target ts)
  then show ?case
    using new_patch_after_types [of before ts] by (auto split: option.splits)
qed simp

lemma new_patch_before_distinct:
  "distinct (map cType bs) \<Longrightarrow> distinct (map op_type (new_patch_before after bs))"
proof (induction after bs rule: new_patch_before.induct)
  case (2 after base bs)
  then show ?case
    using new_patch_before_types [of after bs] by (auto split: option.splits)
qed simp

lemma NewPatch_distinct:
  assumes "distinct (map cType before)" and "distinct (map cType after)"
  shows "distinct (map op_type (NewPatch before after))"
proof -
  have "t \<notin> op_type ` set (new_patch_before after before)"
    if "t \<in> op_type ` set (new_patch_after before after)" for t
  proof -
    have "t \<in> cType ` set after" using that new_patch_after_types by blast
    moreover have "s \<notin> cType ` set after" if "s \<in> op_type ` set (new_patch_before after before)" for s
      using that by (auto simp only: new_patch_before_types Get_None_iff)
    ultimately show ?thesis by blast
  qed
  then have "op_type ` set (new_patch_after before after) \<inter> op_type ` set (new_patch_before after before) = {}"
    by blast
  then show ?thesis
    using assms by (simp add: NewPatch_def new_patch_after_distinct new_patch_before_distinct)
qed

text \<open>The operation \<open>NewPatch\<close> has for each condition type.\<close>

lemma new_patch_after_member:
  "distinct (map cType ts) \<Longrightarrow> p \<in> set (new_patch_after before ts) \<longleftrightarrow>
     (\<exists>a \<in> set ts. (case Get before (cType a) of
        None \<Rightarrow> p = AddConditionPatch a
      | Some c \<Rightarrow> a \<noteq> c \<and> p = ChangeConditionPatch c a))"
  by (induction before ts rule: new_patch_after.induct) (auto split: option.splits)

lemma new_patch_before_member:
  "p \<in> set (new_patch_before after bs) \<longleftrightarrow>
     (\<exists>b \<in> set bs. Get after (cType b) = None \<and> p = RemoveConditionPatch b)"
  by (induction after bs rule: new_patch_before.induct) (auto split: option.splits)

lemma NewPatch_compatible:
  assumes "distinct (map cType before)" and "distinct (map cType after)"
    and "p \<in> set (NewPatch before after)"
  shows "compatible (Get before (op_type p)) p"
  using assms
  by (auto simp: NewPatch_def new_patch_after_member new_patch_before_member Get_of_member
      split: option.splits)

lemma NewPatch_target:
  assumes "distinct (map cType before)" and "distinct (map cType after)"
    and "p \<in> set (NewPatch before after)"
  shows "op_target p = Get after (op_type p)"
  using assms
  by (auto simp: NewPatch_def new_patch_after_member new_patch_before_member
      Get_of_member split: option.splits)

lemma NewPatch_untouched:
  assumes "distinct (map cType before)" and "distinct (map cType after)"
    and "t \<notin> op_type ` set (NewPatch before after)"
  shows "Get before t = Get after t"
proof (cases "Get after t")
  case None
  show ?thesis
  proof (cases "Get before t")
    case (Some b)
    then have "RemoveConditionPatch b \<in> set (NewPatch before after)"
      using None Get_in [OF Some] Get_type [OF Some] by (auto simp: NewPatch_def new_patch_before_member)
    then show ?thesis using assms(3) Get_type [OF Some] by force
  qed (simp add: None)
next
  case (Some a)
  note a = Get_in [OF Some] Get_type [OF Some]
  show ?thesis
  proof (cases "Get before t")
    case None
    then have "AddConditionPatch a \<in> set (NewPatch before after)"
      using a assms(2) by (auto simp: NewPatch_def new_patch_after_member intro!: bexI [of _ a])
    then show ?thesis using assms(3) a by force
  next
    case (Some b)
    have "ChangeConditionPatch b a \<in> set (NewPatch before after)" if "a \<noteq> b"
      using that a Some assms(2) by (auto simp: NewPatch_def new_patch_after_member intro!: bexI [of _ a])
    then show ?thesis using assms(3) a Some \<open>Get after t = Some a\<close> by force
  qed
qed

section \<open>Properties\<close>

text \<open>
  C6: applying a patch to well-formed latest conditions succeeds exactly when each operation is
  forced, on an owned type, or compatible with what is there (the base unchanged, or already as
  intended); then every patched type is as the patch intends, up to the transition time, no other
  type changes, and the slice stays well-formed.
\<close>

theorem Apply_three_way:
  assumes "wf_conditions latest" and "distinct (map op_type ps)"
  shows "case Apply now force owned ps latest of (e, conds, ps') \<Rightarrow>
     (e = None \<longleftrightarrow> (\<forall>p \<in> set ps. overwrites force owned p \<or> compatible (Get latest (op_type p)) p)) \<and>
     (e = None \<longrightarrow> wf_conditions conds \<and>
        (\<forall>p \<in> set ps. rel_option hasSameState (Get conds (op_type p)) (op_target p)) \<and>
        (\<forall>t. t \<notin> op_type ` set ps \<longrightarrow> Get conds t = Get latest t))"
  using Apply_run_edits [OF assms, of now force owned] Apply_wf [OF assms, of now force owned]
    Apply_target [OF assms, of now force owned] Apply_other [OF assms, of now force owned]
  by (auto split: prod.splits)

theorem Apply_three_way_witness:
  "fst (Apply 9 False [] [AddConditionPatch (TrueCondition WebhookReady)] []) = None \<and>
   fst (Apply 9 False [] [RemoveConditionPatch (TrueCondition WebhookReady)]
      [FalseCondition WebhookReady ''r'' [] []]) \<noteq> None"
  using Apply_three_way [where latest = "[]" and ps = "[AddConditionPatch (TrueCondition WebhookReady)]"
      and now = 9 and force = False and owned = "[]"]
    Apply_three_way [where latest = "[FalseCondition WebhookReady ''r'' [] []]"
      and ps = "[RemoveConditionPatch (TrueCondition WebhookReady)]"
      and now = 9 and force = False and owned = "[]"]
  by (auto simp: wf_conditions_def TrueCondition_def FalseCondition_def overwrites_def
      hasSameState_def split: prod.splits)

text \<open>
  C10: the patch from one well-formed slice to another, applied to the first one by a client that
  owns nothing, never conflicts and reaches the second one up to transition times, with the same
  types in the same order.
\<close>

theorem NewPatch_roundtrip:
  assumes "wf_conditions before" and "wf_conditions after"
  shows "case Apply now False [] (NewPatch before after) before of (e, conds, _) \<Rightarrow>
    e = None \<and> wf_conditions conds \<and> (\<forall>t. rel_option hasSameState (Get conds t) (Get after t))"
proof -
  note db = wf_distinct [OF assms(1)] and da = wf_distinct [OF assms(2)]
  note np = NewPatch_distinct [OF db da]
  let ?r = "Apply now False [] (NewPatch before after) before"
  have ok: "fst ?r = None"
    using Apply_run_edits [OF assms(1) np, of now False "[]"] NewPatch_compatible [OF db da] by simp
  have "rel_option hasSameState (Get (fst (snd ?r)) t) (Get after t)" for t
  proof (cases "t \<in> op_type ` set (NewPatch before after)")
    case True
    then obtain p where p: "p \<in> set (NewPatch before after)" "t = op_type p" by blast
    then show ?thesis
      using Apply_target [OF assms(1) np ok p(1)] NewPatch_target [OF db da p(1)] by simp
  next
    case False
    then show ?thesis
      using Apply_other [OF assms(1) np ok False] NewPatch_untouched [OF db da False]
      by (simp add: rel_option_iff split: option.splits)
  qed
  then show ?thesis
    using ok Apply_wf [OF assms(1) np ok] by (auto split: prod.splits)
qed

theorem NewPatch_roundtrip_witness:
  "fst (Apply 5 False [] (NewPatch [TrueCondition WebhookReady] [FalseCondition WebhookReady ''r'' [] []])
     [TrueCondition WebhookReady]) = None"
  using NewPatch_roundtrip [where before = "[TrueCondition WebhookReady]"
      and after = "[FalseCondition WebhookReady ''r'' [] []]" and now = 5]
  by (auto simp: wf_conditions_def split: prod.splits)

end
