(* ===== verification/Merge.thy ===== *)
theory Merge
  imports Conditions
begin

text \<open>
  \<open>pkg/util/conditions/merge.go\<close>, \<open>merge_strategies.go\<close> and the \<open>summary\<close>,
  \<open>mirror\<close>, \<open>aggregate\<close> functions of \<open>getter.go\<close>: several conditions merged into one.
  \<open>fmt.Sprintf\<close> called with a format and no operands, which \<open>merge\<close> and \<open>mirror\<close> do with a
  message as the format, is the parameter \<open>fmt0\<close>.
\<close>

section \<open>Options\<close>

record getter =
  gKind :: string
  gName :: string

text \<open>A \<open>localizedCondition\<close>: a condition pointer, nil-able, and the object it comes from.\<close>

type_synonym localizedCondition = "Condition option \<times> getter"

record mergeOptions =
  conditionTypes :: "string list option"
  addSourceRef :: bool
  addStepCounter :: bool
  addStepCounterIfOnlyConditionTypes :: "string list option"
  stepCounter :: int

type_synonym MergeOption = "mergeOptions \<Rightarrow> mergeOptions"

text \<open>A variadic parameter with no argument is a nil slice.\<close>

definition variadic :: "'a list \<Rightarrow> 'a list option" where
  "variadic xs = (if xs = [] then None else Some xs)"

definition WithConditions :: "string list \<Rightarrow> MergeOption" where
  "WithConditions ts c = c\<lparr>conditionTypes := variadic ts\<rparr>"

definition WithStepCounter :: "MergeOption" where
  "WithStepCounter c = c\<lparr>addStepCounter := True\<rparr>"

definition WithStepCounterIf :: "bool \<Rightarrow> MergeOption" where
  "WithStepCounterIf v c = c\<lparr>addStepCounter := v\<rparr>"

definition WithStepCounterIfOnly :: "string list \<Rightarrow> MergeOption" where
  "WithStepCounterIfOnly ts c = c\<lparr>addStepCounterIfOnlyConditionTypes := variadic ts\<rparr>"

definition AddSourceRef :: "MergeOption" where
  "AddSourceRef c = c\<lparr>addSourceRef := True\<rparr>"

definition apply_options :: "MergeOption list \<Rightarrow> mergeOptions \<Rightarrow> mergeOptions" where
  "apply_options opts o0 = foldl (\<lambda>acc f. f acc) o0 opts"

definition noMergeOptions :: mergeOptions where
  "noMergeOptions = \<lparr>conditionTypes = None, addSourceRef = False, addStepCounter = False,
     addStepCounterIfOnlyConditionTypes = None, stepCounter = 0\<rparr>"

section \<open>Groups\<close>

record conditionGroup =
  grStatus :: string
  grSeverity :: string
  grConditions :: "(Condition \<times> getter) list"

definition mergePriority :: "string \<Rightarrow> string \<Rightarrow> int" where
  "mergePriority status severity =
     (if status = ConditionFalse \<and> severity = ConditionSeverityError then 0
      else if status = ConditionFalse \<and> severity = ConditionSeverityWarning then 1
      else if status = ConditionFalse \<and> severity = ConditionSeverityInfo then 2
      else if status = ConditionTrue then 3
      else if status = ConditionUnknown then 4
      else 99)"

definition groups_Less :: "conditionGroup \<Rightarrow> conditionGroup \<Rightarrow> bool" where
  "groups_Less g h \<longleftrightarrow>
     mergePriority (grStatus g) (grSeverity g) < mergePriority (grStatus h) (grSeverity h)"

fun add_to_groups :: "Condition \<times> getter \<Rightarrow> conditionGroup list \<Rightarrow> conditionGroup list" where
  "add_to_groups c [] =
     [\<lparr>grStatus = cStatus (fst c), grSeverity = cSeverity (fst c), grConditions = [c]\<rparr>]"
| "add_to_groups c (g # gs) =
     (if grStatus g = cStatus (fst c) \<and> grSeverity g = cSeverity (fst c)
      then g\<lparr>grConditions := grConditions g @ [c]\<rparr> # gs
      else g # add_to_groups c gs)"

fun build_groups :: "localizedCondition list \<Rightarrow> conditionGroup list \<Rightarrow> conditionGroup list" where
  "build_groups [] groups = groups"
| "build_groups ((None, from) # cs) groups = build_groups cs groups"
| "build_groups ((Some c, from) # cs) groups = build_groups cs (add_to_groups (c, from) groups)"

definition localized_Less :: "Condition \<times> getter \<Rightarrow> Condition \<times> getter \<Rightarrow> bool" where
  "localized_Less a b =
     (if cType (fst a) \<noteq> cType (fst b) then lexicographicLess (fst a) (fst b)
      else gName (snd a) < gName (snd b))"

definition getConditionGroups :: "localizedCondition list \<Rightarrow> conditionGroup list" where
  "getConditionGroups conditions =
     (case sort_slice groups_Less (build_groups conditions []) of
        [] \<Rightarrow> []
      | g # gs \<Rightarrow> g\<lparr>grConditions := sort_slice localized_Less (grConditions g)\<rparr> # gs)"

definition TopGroup :: "conditionGroup list \<Rightarrow> conditionGroup option" where
  "TopGroup g = (case g of [] \<Rightarrow> None | x # _ \<Rightarrow> Some x)"

fun getByStatusAndSeverity :: "conditionGroup list \<Rightarrow> string \<Rightarrow> string \<Rightarrow> conditionGroup option" where
  "getByStatusAndSeverity [] status severity = None"
| "getByStatusAndSeverity (g # gs) status severity =
     (if grStatus g = status \<and> grSeverity g = severity then Some g
      else getByStatusAndSeverity gs status severity)"

definition TrueGroup :: "conditionGroup list \<Rightarrow> conditionGroup option" where
  "TrueGroup g = getByStatusAndSeverity g ConditionTrue ConditionSeverityNone"

definition ErrorGroup :: "conditionGroup list \<Rightarrow> conditionGroup option" where
  "ErrorGroup g = getByStatusAndSeverity g ConditionFalse ConditionSeverityError"

definition WarningGroup :: "conditionGroup list \<Rightarrow> conditionGroup option" where
  "WarningGroup g = getByStatusAndSeverity g ConditionFalse ConditionSeverityWarning"

section \<open>Strategies\<close>

fun first_of_type :: "(Condition \<times> getter) list \<Rightarrow> string list \<Rightarrow> (Condition \<times> getter) option" where
  "first_of_type cs [] = None"
| "first_of_type cs (p # ps) =
     (case find (\<lambda>c. cType (fst c) = p) cs of Some c \<Rightarrow> Some c | None \<Rightarrow> first_of_type cs ps)"

definition getFirstCondition ::
    "conditionGroup list \<Rightarrow> string list option \<Rightarrow> (Condition \<times> getter) option" where
  "getFirstCondition g priority =
     (case TopGroup g of
        None \<Rightarrow> None
      | Some tg \<Rightarrow>
          (case grConditions tg of
             [] \<Rightarrow> None
           | [c] \<Rightarrow> Some c
           | c # _ \<Rightarrow>
               (case first_of_type (grConditions tg) (case priority of None \<Rightarrow> [] | Some ps \<Rightarrow> ps) of
                  Some c' \<Rightarrow> Some c'
                | None \<Rightarrow> Some c)))"

definition localizeReason :: "string \<Rightarrow> getter \<Rightarrow> string" where
  "localizeReason reason from =
     (if CHR ''@'' \<in> set reason then reason
      else reason @ '' @ '' @ gKind from @ ''/'' @ gName from)"

definition getFirstReason :: "conditionGroup list \<Rightarrow> string list option \<Rightarrow> bool \<Rightarrow> string" where
  "getFirstReason g order srcRef =
     (case getFirstCondition g order of
        Some c \<Rightarrow> if srcRef then localizeReason (cReason (fst c)) (snd c) else cReason (fst c)
      | None \<Rightarrow> [])"

definition getReason :: "conditionGroup list \<Rightarrow> mergeOptions \<Rightarrow> string" where
  "getReason groups options = getFirstReason groups (conditionTypes options) (addSourceRef options)"

definition getStepCounterMessage :: "conditionGroup list \<Rightarrow> int \<Rightarrow> string" where
  "getStepCounterMessage groups to =
     (let ct = (case TrueGroup groups of Some g \<Rightarrow> int (length (grConditions g)) | None \<Rightarrow> 0)
      in itoa ct @ '' of '' @ itoa to @ '' completed'')"

definition getFirstMessage :: "conditionGroup list \<Rightarrow> string list option \<Rightarrow> string" where
  "getFirstMessage groups order =
     (case getFirstCondition groups order of Some c \<Rightarrow> cMessage (fst c) | None \<Rightarrow> [])"

definition getMessage :: "conditionGroup list \<Rightarrow> mergeOptions \<Rightarrow> string" where
  "getMessage groups options =
     (if addStepCounter options then getStepCounterMessage groups (stepCounter options)
      else getFirstMessage groups (conditionTypes options))"

section \<open>Merge, summary, mirror, aggregate\<close>

definition merge ::
    "(string \<Rightarrow> string) \<Rightarrow> localizedCondition list \<Rightarrow> string \<Rightarrow> mergeOptions \<Rightarrow> Condition option" where
  "merge fmt0 conditions targetCondition options =
     (let g = getConditionGroups conditions in
      case TopGroup g of
        None \<Rightarrow> None
      | Some tg \<Rightarrow>
          if grStatus tg = ConditionTrue then Some (TrueCondition targetCondition)
          else
            let targetReason = getReason g options;
                targetMessage = getMessage g options
            in if grStatus tg = ConditionFalse
               then Some (FalseCondition targetCondition targetReason (grSeverity tg)
                            (fmt0 targetMessage))
               else Some (UnknownCondition targetCondition targetReason (fmt0 targetMessage)))"

definition in_scope :: "mergeOptions \<Rightarrow> Condition \<Rightarrow> bool" where
  "in_scope options c \<longleftrightarrow> cType c \<noteq> ReadyCondition \<and>
     (case conditionTypes options of None \<Rightarrow> True | Some ts \<Rightarrow> cType c \<in> set ts)"

definition summary ::
    "(string \<Rightarrow> string) \<Rightarrow> Conditions \<Rightarrow> getter \<Rightarrow> MergeOption list \<Rightarrow> Condition option" where
  "summary fmt0 conditions from options =
     (let o1 = apply_options options noMergeOptions;
          conditionsInScope = map (\<lambda>c. (Some c, from)) (filter (in_scope o1) conditions);
          o2 = (case addStepCounterIfOnlyConditionTypes o1 of
                  None \<Rightarrow> o1
                | Some ts \<Rightarrow>
                    if \<exists>c \<in> set (filter (in_scope o1) conditions). cType c \<notin> set ts
                    then o1\<lparr>addStepCounter := False\<rparr> else o1);
          o3 = (if addStepCounter o2 then
                  o2\<lparr>stepCounter :=
                    (case addStepCounterIfOnlyConditionTypes o2 of
                       Some ts \<Rightarrow> int (length ts)
                     | None \<Rightarrow> (case conditionTypes o2 of
                                  Some ts \<Rightarrow> int (length ts)
                                | None \<Rightarrow> int (length conditionsInScope)))\<rparr>
                else o2)
      in merge fmt0 conditionsInScope ReadyCondition o3)"

record mirrorOptions =
  fallbackTo :: "bool option"
  fallbackReason :: string
  fallbackSeverity :: string
  fallbackMessage :: string

definition WithFallbackValue :: "bool \<Rightarrow> string \<Rightarrow> string \<Rightarrow> string \<Rightarrow> mirrorOptions \<Rightarrow> mirrorOptions" where
  "WithFallbackValue v reason severity message c =
     c\<lparr>fallbackTo := Some v, fallbackReason := reason, fallbackSeverity := severity,
       fallbackMessage := message\<rparr>"

definition mirror ::
    "(string \<Rightarrow> string) \<Rightarrow> Conditions \<Rightarrow> string \<Rightarrow> (mirrorOptions \<Rightarrow> mirrorOptions) list \<Rightarrow> Condition option"
  where
  "mirror fmt0 from targetCondition options =
     (let mo = foldl (\<lambda>acc f. f acc)
                 \<lparr>fallbackTo = None, fallbackReason = [], fallbackSeverity = [], fallbackMessage = []\<rparr>
                 options;
          condition = (case (fallbackTo mo, Get from ReadyCondition) of
                         (Some True, None) \<Rightarrow> Some (TrueCondition targetCondition)
                       | (Some False, None) \<Rightarrow>
                           Some (FalseCondition targetCondition (fallbackReason mo)
                                   (fallbackSeverity mo) (fmt0 (fallbackMessage mo)))
                       | (_, c) \<Rightarrow> c)
      in map_option (\<lambda>c. c\<lparr>cType := targetCondition\<rparr>) condition)"

definition aggregate ::
    "(string \<Rightarrow> string) \<Rightarrow> (Conditions \<times> getter) list \<Rightarrow> string \<Rightarrow> MergeOption list \<Rightarrow> Condition option"
  where
  "aggregate fmt0 from targetCondition options =
     merge fmt0 (map (\<lambda>(cs, g). (Get cs ReadyCondition, g)) from) targetCondition
       (apply_options options
          (noMergeOptions\<lparr>addStepCounter := True, stepCounter := int (length from)\<rparr>))"

text \<open>The setters built on them (setter.go).\<close>

definition SetSummary ::
    "(string \<Rightarrow> string) \<Rightarrow> gotime \<Rightarrow> Conditions \<Rightarrow> getter \<Rightarrow> MergeOption list \<Rightarrow> Conditions" where
  "SetSummary fmt0 now to self options = SetCond now to (summary fmt0 to self options)"

definition SetMirror ::
    "(string \<Rightarrow> string) \<Rightarrow> gotime \<Rightarrow> Conditions \<Rightarrow> string \<Rightarrow> Conditions \<Rightarrow>
     (mirrorOptions \<Rightarrow> mirrorOptions) list \<Rightarrow> Conditions" where
  "SetMirror fmt0 now to targetCondition from options =
     SetCond now to (mirror fmt0 from targetCondition options)"

definition SetAggregate ::
    "(string \<Rightarrow> string) \<Rightarrow> gotime \<Rightarrow> Conditions \<Rightarrow> string \<Rightarrow> (Conditions \<times> getter) list \<Rightarrow>
     MergeOption list \<Rightarrow> Conditions" where
  "SetAggregate fmt0 now to targetCondition from options =
     SetCond now to (aggregate fmt0 from targetCondition options)"

section \<open>Groups partition the conditions\<close>

interpretation group_order: weak_order groups_Less
  by unfold_locales (auto simp: groups_Less_def)

interpretation localized_order: weak_order localized_Less
  by unfold_locales (auto simp: localized_Less_def lexicographicLess_def split: if_splits)

text \<open>The conditions present in a list of localized conditions, with their objects.\<close>

definition present :: "localizedCondition list \<Rightarrow> (Condition \<times> getter) list" where
  "present cs = concat (map (\<lambda>(c, f). case c of None \<Rightarrow> [] | Some x \<Rightarrow> [(x, f)]) cs)"

definition group_ok :: "conditionGroup \<Rightarrow> bool" where
  "group_ok g \<longleftrightarrow> grConditions g \<noteq> [] \<and>
     (\<forall>c \<in> set (grConditions g). cStatus (fst c) = grStatus g \<and> cSeverity (fst c) = grSeverity g)"

lemma group_ok_append:
  "group_ok g \<Longrightarrow> grStatus g = cStatus (fst c) \<Longrightarrow> grSeverity g = cSeverity (fst c) \<Longrightarrow>
   group_ok (g\<lparr>grConditions := grConditions g @ [c]\<rparr>)"
  by (simp add: group_ok_def)

lemma group_ok_single:
  "group_ok \<lparr>grStatus = cStatus (fst c), grSeverity = cSeverity (fst c), grConditions = [c]\<rparr>"
  by (simp add: group_ok_def)

lemma add_to_groups_ok: "list_all group_ok gs \<Longrightarrow> list_all group_ok (add_to_groups c gs)"
  by (induction gs) (simp_all add: group_ok_append group_ok_single)

lemma present_simps [simp]:
  "present [] = []" "present ((None, f) # cs) = present cs"
  "present ((Some c, f) # cs) = (c, f) # present cs"
  by (simp_all add: present_def)

definition members :: "conditionGroup list \<Rightarrow> (Condition \<times> getter) set" where
  "members gs = set (concat (map grConditions gs))"

lemma members_simps [simp]:
  "members [] = {}" "members (g # gs) = set (grConditions g) \<union> members gs"
  by (simp_all add: members_def)

lemma members_iff: "c \<in> members gs \<longleftrightarrow> (\<exists>g \<in> set gs. c \<in> set (grConditions g))"
  by (induction gs) auto

lemma add_to_groups_members [simp]: "members (add_to_groups c gs) = insert c (members gs)"
  by (induction gs) auto

lemma build_groups_ok: "list_all group_ok gs \<Longrightarrow> list_all group_ok (build_groups cs gs)"
  by (induction cs gs rule: build_groups.induct) (auto intro: add_to_groups_ok)

lemma build_groups_members: "members (build_groups cs gs) = set (present cs) \<union> members gs"
  by (induction cs gs rule: build_groups.induct) auto

text \<open>The top group holds present conditions of the least priority.\<close>

lemma top_group:
  assumes "TopGroup (getConditionGroups cs) = Some tg"
  shows "grConditions tg \<noteq> []"
    and "\<And>c. c \<in> set (grConditions tg) \<Longrightarrow>
           c \<in> set (present cs) \<and> cStatus (fst c) = grStatus tg \<and> cSeverity (fst c) = grSeverity tg"
    and "\<And>d. d \<in> set (present cs) \<Longrightarrow>
           mergePriority (grStatus tg) (grSeverity tg) \<le> mergePriority (cStatus (fst d)) (cSeverity (fst d))"
proof -
  define gs where "gs = build_groups cs []"
  have mem: "members gs = set (present cs)"
    by (simp add: gs_def build_groups_members)
  have ok: "\<forall>g \<in> set gs. group_ok g"
    using build_groups_ok [of "[]" cs] by (simp add: gs_def list_all_iff)
  from assms obtain g rest where s: "sort_slice groups_Less gs = g # rest"
    and tg: "tg = g\<lparr>grConditions := sort_slice localized_Less (grConditions g)\<rparr>"
    by (auto simp: getConditionGroups_def gs_def TopGroup_def split: list.splits)
  have g: "g \<in> set gs" using group_order.set_sort [of gs] s by auto
  have least: "\<not> groups_Less h g" if "h \<in> set gs" for h
  proof -
    have "gs \<noteq> []" using g by auto
    then show ?thesis
      using group_order.hd_sort_min [of gs h] that s by (cases "h = g") (auto simp: groups_Less_def)
  qed
  show "grConditions tg \<noteq> []"
    using ok g unfolding group_ok_def by (simp add: tg localized_order.sort_Nil_iff)
  show "c \<in> set (present cs) \<and> cStatus (fst c) = grStatus tg \<and> cSeverity (fst c) = grSeverity tg"
    if "c \<in> set (grConditions tg)" for c
  proof -
    have "c \<in> set (grConditions g)" using that by (simp add: tg localized_order.set_sort)
    then have "c \<in> members gs" using g by (auto simp: members_iff)
    moreover have "cStatus (fst c) = grStatus g \<and> cSeverity (fst c) = grSeverity g"
      using ok g \<open>c \<in> set (grConditions g)\<close> unfolding group_ok_def by blast
    ultimately show ?thesis using mem by (simp add: tg)
  qed
  show "mergePriority (grStatus tg) (grSeverity tg) \<le> mergePriority (cStatus (fst d)) (cSeverity (fst d))"
    if "d \<in> set (present cs)" for d
  proof -
    have "d \<in> members gs" using that mem by simp
    then obtain h where h: "h \<in> set gs" "d \<in> set (grConditions h)"
      unfolding members_iff by blast
    with ok have "cStatus (fst d) = grStatus h" "cSeverity (fst d) = grSeverity h"
      unfolding group_ok_def by blast+
    then show ?thesis using least [OF h(1)] by (simp add: groups_Less_def tg not_less)
  qed
qed

lemma sort_groups_Nil: "sort_slice groups_Less gs = [] \<longleftrightarrow> gs = []"
  by (rule group_order.sort_Nil_iff)

lemma add_to_groups_Nil [simp]: "add_to_groups c gs \<noteq> []"
  by (cases gs) auto

lemma build_groups_Nil: "build_groups cs gs = [] \<longleftrightarrow> present cs = [] \<and> gs = []"
  by (induction cs gs rule: build_groups.induct) auto

lemma TopGroup_None: "TopGroup (getConditionGroups cs) = None \<longleftrightarrow> present cs = []"
proof -
  have "TopGroup (getConditionGroups cs) = None \<longleftrightarrow> sort_slice groups_Less (build_groups cs []) = []"
    by (simp add: TopGroup_def getConditionGroups_def split: list.splits)
  then show ?thesis by (simp add: sort_groups_Nil build_groups_Nil)
qed

lemma getFirstCondition_in_top:
  assumes "TopGroup g = Some tg" and "grConditions tg \<noteq> []"
  shows "\<exists>c \<in> set (grConditions tg). getFirstCondition g pr = Some c"
proof -
  have f: "first_of_type cs ps = Some c \<Longrightarrow> c \<in> set cs" for cs ps c
    by (induction cs ps rule: first_of_type.induct) (auto simp: find_Some_iff split: option.splits)
  obtain c cs where c: "grConditions tg = c # cs" using assms(2) by (cases "grConditions tg") auto
  show ?thesis
    using assms(1) by (auto simp: getFirstCondition_def c split: list.splits option.splits dest: f)
qed

section \<open>What merge reports\<close>

lemma merge_None_iff: "merge fmt0 cs t o0 = None \<longleftrightarrow> present cs = []"
  by (auto simp: merge_def Let_def TopGroup_None [symmetric] split: option.splits)

text \<open>
  The merged condition carries the status, severity and reason of one present condition, the
  witness \<open>c\<close>, and no present condition has a more urgent priority than that one.
\<close>

lemma merge_picks_least:
  assumes "merge fmt0 cs t o0 = Some m" and "\<not> addSourceRef o0"
  shows "\<exists>c \<in> set (present cs).
           (\<forall>d \<in> set (present cs). mergePriority (cStatus (fst c)) (cSeverity (fst c))
                                  \<le> mergePriority (cStatus (fst d)) (cSeverity (fst d))) \<and>
           cType m = t \<and>
           (if cStatus (fst c) = ConditionTrue then m = TrueCondition t
            else cReason m = cReason (fst c) \<and>
              (if cStatus (fst c) = ConditionFalse
               then cStatus m = ConditionFalse \<and> cSeverity m = cSeverity (fst c)
               else cStatus m = ConditionUnknown))"
proof -
  let ?g = "getConditionGroups cs"
  obtain tg where tg: "TopGroup ?g = Some tg"
    using assms(1) by (auto simp: merge_def Let_def split: option.splits)
  obtain c where c: "c \<in> set (grConditions tg)" "getFirstCondition ?g (conditionTypes o0) = Some c"
    using getFirstCondition_in_top [OF tg top_group(1) [OF tg]] by blast
  have st: "c \<in> set (present cs)" "cStatus (fst c) = grStatus tg" "cSeverity (fst c) = grSeverity tg"
    using top_group(2) [OF tg c(1)] by auto
  have r: "getReason ?g o0 = cReason (fst c)"
    using assms(2) c(2) by (simp add: getReason_def getFirstReason_def)
  have "cType m = t \<and>
      (if cStatus (fst c) = ConditionTrue then m = TrueCondition t
       else cReason m = cReason (fst c) \<and>
         (if cStatus (fst c) = ConditionFalse
          then cStatus m = ConditionFalse \<and> cSeverity m = cSeverity (fst c)
          else cStatus m = ConditionUnknown))"
    using assms(1) by (auto simp: merge_def Let_def tg st r TrueCondition_def FalseCondition_def
        UnknownCondition_def split: if_splits)
  then show ?thesis using st top_group(3) [OF tg] by (intro bexI [of _ c]) auto
qed

section \<open>Properties\<close>

lemma present_map_Some: "present (map (\<lambda>c. (Some c, f)) cs) = map (\<lambda>c. (c, f)) cs"
  by (induction cs) auto

lemma in_scope_WithConditions:
  "in_scope (apply_options [WithConditions ts] noMergeOptions) =
     (\<lambda>c. cType c \<noteq> ReadyCondition \<and> (ts = [] \<or> cType c \<in> set ts))"
  by (rule ext)
    (simp add: in_scope_def apply_options_def WithConditions_def noMergeOptions_def variadic_def)

lemma summary_WithConditions:
  "summary fmt0 cs f [WithConditions ts] =
     merge fmt0 (map (\<lambda>c. (Some c, f))
        (filter (\<lambda>c. cType c \<noteq> ReadyCondition \<and> (ts = [] \<or> cType c \<in> set ts)) cs))
       ReadyCondition (apply_options [WithConditions ts] noMergeOptions)"
  unfolding summary_def Let_def in_scope_WithConditions
  by (simp add: apply_options_def WithConditions_def noMergeOptions_def)

text \<open>
  C9: the Ready summary over a list of condition types is absent exactly when none of them is on
  the object; otherwise it follows one of them that no other outranks (False with severity Error
  before Warning before Info before True before Unknown): Ready is True only if the most urgent
  condition is, and else takes its status, its severity and its reason.
\<close>

theorem summary_most_urgent:
  assumes "ts \<noteq> []"
  shows "case summary fmt0 cs f [WithConditions ts] of
     None \<Rightarrow> (\<forall>c \<in> set cs. cType c \<in> set ts \<longrightarrow> cType c = ReadyCondition)
   | Some m \<Rightarrow> \<exists>c \<in> set cs. cType c \<in> set ts \<and> cType c \<noteq> ReadyCondition \<and> cType m = ReadyCondition \<and>
       (\<forall>d \<in> set cs. cType d \<in> set ts \<and> cType d \<noteq> ReadyCondition \<longrightarrow>
          mergePriority (cStatus c) (cSeverity c) \<le> mergePriority (cStatus d) (cSeverity d)) \<and>
       (if cStatus c = ConditionTrue then m = TrueCondition ReadyCondition
        else cReason m = cReason c \<and>
          (if cStatus c = ConditionFalse
           then cStatus m = ConditionFalse \<and> cSeverity m = cSeverity c
           else cStatus m = ConditionUnknown))"
proof (cases "summary fmt0 cs f [WithConditions ts]")
  case None
  then have "present (map (\<lambda>c. (Some c, f))
      (filter (\<lambda>c. cType c \<noteq> ReadyCondition \<and> (ts = [] \<or> cType c \<in> set ts)) cs)) = []"
    by (simp only: summary_WithConditions merge_None_iff)
  then show ?thesis
    using assms unfolding None present_map_Some by (auto simp: filter_empty_conv)
next
  case (Some m)
  let ?o = "apply_options [WithConditions ts] noMergeOptions"
  have "\<not> addSourceRef ?o"
    by (simp add: apply_options_def WithConditions_def noMergeOptions_def)
  from merge_picks_least [OF Some [unfolded summary_WithConditions] this] assms
  show ?thesis
    unfolding Some present_map_Some by fastforce
qed

theorem summary_most_urgent_witness:
  "\<exists>m. summary id [(TrueCondition BundleCompiledCondition),
           FalseCondition WebhookReady ''SyncFailed'' ConditionSeverityError ''down'']
         \<lparr>gKind = ''JsPolicy'', gName = ''p''\<rparr> [WithConditions [WebhookReady, BundleCompiledCondition]]
       = Some m \<and> cStatus m = ConditionFalse \<and> cReason m = ''SyncFailed''"
  using summary_most_urgent [where ts = "[WebhookReady, BundleCompiledCondition]" and ?fmt0.0 = id
      and cs = "[TrueCondition BundleCompiledCondition,
        FalseCondition WebhookReady ''SyncFailed'' ConditionSeverityError ''down'']"
      and f = "\<lparr>gKind = ''JsPolicy'', gName = ''p''\<rparr>"]
  by (auto simp: TrueCondition_def FalseCondition_def mergePriority_def split: option.splits)

end
