(* ===== verification/PatchHelper.thy ===== *)
theory PatchHelper
  imports CondPatch Merge Admission
begin

text \<open>
  \<open>pkg/util/patch\<close>: the helper that writes a reconciled policy back. It patches the conditions
  first, merging them into the latest version of the object in a loop of at most five attempts,
  then metadata and spec, then the rest of the status, and returns the errors of all three. The
  conversions of \<open>apimachinery\<close>, the JSON merge patch and the client are parameters.
\<close>

section \<open>Unstructured objects (utils.go)\<close>

datatype jval = JAtom string | JMap "(string \<times> jval) list"

type_synonym jobject = "(string \<times> jval) list"

datatype patchType = specPatch | statusPatch

fun patchType_Key :: "patchType \<Rightarrow> string" where
  "patchType_Key specPatch = ''spec''"
| "patchType_Key statusPatch = ''status''"

definition preserveUnstructuredKeys :: "string list" where
  "preserveUnstructuredKeys = [''kind'', ''apiVersion'', ''metadata'']"

definition unstructuredHasStatus :: "jobject \<Rightarrow> bool" where
  "unstructuredHasStatus u \<longleftrightarrow> map_of u ''status'' \<noteq> None"

text \<open>\<open>unstructured.RemoveNestedField(obj, "status", "conditions")\<close>.\<close>

definition removeStatusConditions :: "jobject \<Rightarrow> jobject" where
  "removeStatusConditions u =
     (case map_of u ''status'' of
        Some (JMap st) \<Rightarrow> map_put ''status'' (JMap (map_del ''conditions'' st)) u
      | _ \<Rightarrow> u)"

text \<open>\<open>unstructured.SetNestedField(obj, v, "status", "observedGeneration")\<close>.\<close>

definition setObservedGeneration :: "int \<Rightarrow> jobject \<Rightarrow> go_error + jobject" where
  "setObservedGeneration g u =
     (case map_of u ''status'' of
        Some (JMap st) \<Rightarrow> Inr (map_put ''status'' (JMap (map_put ''observedGeneration'' (JAtom (itoa g)) st)) u)
      | Some (JAtom a) \<Rightarrow> Inl (Errorf ''value cannot be set because .status is not a map'')
      | None \<Rightarrow> Inr (map_put ''status'' (JMap [(''observedGeneration'', JAtom (itoa g))]) u))"

text \<open>The loop over the keys, in the order in which \<open>range\<close> visits them.\<close>

definition copy_step :: "patchType \<Rightarrow> bool \<Rightarrow> jobject \<Rightarrow> string \<times> jval \<Rightarrow> jobject" where
  "copy_step focus isConditionsSetter res kv =
     (let res1 = (if fst kv = patchType_Key focus \<or> fst kv \<in> set preserveUnstructuredKeys
                  then map_put (fst kv) (snd kv) res else res)
      in if isConditionsSetter \<and> focus = statusPatch then removeStatusConditions res1 else res1)"

definition unsafeUnstructuredCopy :: "jobject \<Rightarrow> patchType \<Rightarrow> bool \<Rightarrow> jobject" where
  "unsafeUnstructuredCopy obj focus isConditionsSetter =
     foldl (copy_step focus isConditionsSetter) [] obj"

section \<open>Options (options.go)\<close>

record HelperOptions =
  IncludeStatusObservedGeneration :: bool
  ForceOverwriteConditions :: bool
  OwnedConditions :: "string list"

datatype patch_option =
    WithForceOverwriteConditions
  | WithStatusObservedGeneration
  | WithOwnedConditions "string list"

fun ApplyToHelper :: "patch_option \<Rightarrow> HelperOptions \<Rightarrow> HelperOptions" where
  "ApplyToHelper WithForceOverwriteConditions o1 = o1\<lparr>ForceOverwriteConditions := True\<rparr>"
| "ApplyToHelper WithStatusObservedGeneration o1 = o1\<lparr>IncludeStatusObservedGeneration := True\<rparr>"
| "ApplyToHelper (WithOwnedConditions cs) o1 = o1\<lparr>OwnedConditions := cs\<rparr>"

definition helper_options :: "patch_option list \<Rightarrow> HelperOptions" where
  "helper_options opts =
     foldl (\<lambda>acc x. ApplyToHelper x acc)
       \<lparr>IncludeStatusObservedGeneration = False, ForceOverwriteConditions = False, OwnedConditions = []\<rparr> opts"

section \<open>The helper (helper.go)\<close>

text \<open>
  What the helper calls: the object's kind, the two conversions, the keys of the JSON merge patch
  between two objects (\<open>MergeFrom(before).Data(after)\<close>, unmarshalled), the reads and patches of the
  client (a status patch with optimistic lock, one without, one of the object), and the text of a
  conflict of \<open>Apply\<close>.
\<close>

record 'w patch_env =
  gvkForObject :: "JsPolicy \<Rightarrow> go_error + GroupVersionKind"
  toUnstructured :: "JsPolicy \<Rightarrow> go_error + jobject"
  fromUnstructured :: "jobject \<Rightarrow> JsPolicy \<Rightarrow> go_error + JsPolicy"
  mergePatchKeys :: "JsPolicy \<Rightarrow> JsPolicy \<Rightarrow> go_error + string list"
  getLatest :: "string \<Rightarrow> 'w \<Rightarrow> (go_error + JsPolicy) \<times> 'w"
  patchStatusLocked :: "JsPolicy \<Rightarrow> JsPolicy \<Rightarrow> 'w \<Rightarrow> go_error option \<times> 'w" \<comment> \<open>latest, its base\<close>
  patchObject :: "JsPolicy \<Rightarrow> JsPolicy \<Rightarrow> 'w \<Rightarrow> go_error option \<times> 'w" \<comment> \<open>after, before\<close>
  patchStatusSub :: "JsPolicy \<Rightarrow> JsPolicy \<Rightarrow> 'w \<Rightarrow> go_error option \<times> 'w"
  conflictText :: "apply_error \<Rightarrow> string"
  clock :: gotime

record Helper =
  hGvk :: GroupVersionKind
  hBeforeObject :: JsPolicy
  hBefore :: jobject
  hAfter :: jobject
  hChanges :: "string list"
  isConditionsSetter :: bool

text \<open>A policy is never nil here, and it has conditions: \<open>setter\<close> is whether it is a \<open>conditions.Setter\<close>.\<close>

definition NewHelper :: "'w patch_env \<Rightarrow> bool \<Rightarrow> JsPolicy \<Rightarrow> go_error + Helper" where
  "NewHelper env setter obj =
     (case gvkForObject env obj of
        Inl err \<Rightarrow> Inl err
      | Inr gvk \<Rightarrow>
          (case toUnstructured env obj of
             Inl err \<Rightarrow> Inl err
           | Inr u \<Rightarrow> Inr \<lparr>hGvk = gvk, hBeforeObject = obj, hBefore = u, hAfter = [], hChanges = [],
                           isConditionsSetter = setter\<rparr>))"

definition shouldPatch :: "Helper \<Rightarrow> string \<Rightarrow> bool" where
  "shouldPatch h k \<longleftrightarrow> k \<in> set (hChanges h)"

definition calculateChanges :: "'w patch_env \<Rightarrow> Helper \<Rightarrow> JsPolicy \<Rightarrow> go_error + string list" where
  "calculateChanges env h after = mergePatchKeys env (hBeforeObject h) after"

definition calculatePatch ::
    "'w patch_env \<Rightarrow> Helper \<Rightarrow> JsPolicy \<Rightarrow> patchType \<Rightarrow> go_error + (JsPolicy \<times> JsPolicy)" where
  "calculatePatch env h afterObj focus =
     (case fromUnstructured env (unsafeUnstructuredCopy (hBefore h) focus (isConditionsSetter h)) (hBeforeObject h) of
        Inl err \<Rightarrow> Inl err
      | Inr beforeObj \<Rightarrow>
          (case fromUnstructured env (unsafeUnstructuredCopy (hAfter h) focus (isConditionsSetter h)) afterObj of
             Inl err \<Rightarrow> Inl err
           | Inr afterObj' \<Rightarrow> Inr (beforeObj, afterObj')))"

definition helper_patch :: "'w patch_env \<Rightarrow> Helper \<Rightarrow> JsPolicy \<Rightarrow> 'w \<Rightarrow> go_error option \<times> 'w" where
  "helper_patch env h obj w =
     (if \<not> shouldPatch h ''metadata'' \<and> \<not> shouldPatch h ''spec'' then (None, w)
      else (case calculatePatch env h obj specPatch of
              Inl err \<Rightarrow> (Some err, w)
            | Inr (beforeObject, afterObject) \<Rightarrow> patchObject env afterObject beforeObject w))"

definition patchStatus :: "'w patch_env \<Rightarrow> Helper \<Rightarrow> JsPolicy \<Rightarrow> 'w \<Rightarrow> go_error option \<times> 'w" where
  "patchStatus env h obj w =
     (if \<not> shouldPatch h ''status'' then (None, w)
      else (case calculatePatch env h obj statusPatch of
              Inl err \<Rightarrow> (Some err, w)
            | Inr (beforeObject, afterObject) \<Rightarrow> patchStatusSub env afterObject beforeObject w))"

text \<open>
  The backoff loop with its remaining attempts. The patch is threaded because \<open>Apply\<close> writes
  transition times into it.
\<close>

fun conditions_loop ::
    "'w patch_env \<Rightarrow> bool \<Rightarrow> string list \<Rightarrow> string \<Rightarrow> nat \<Rightarrow> PatchOperation list \<Rightarrow> 'w \<Rightarrow>
     go_error option \<times> 'w" where
  "conditions_loop env forceOverwrite owned key 0 diff w =
     (Some (Errorf ''timed out waiting for the condition''), w)"
| "conditions_loop env forceOverwrite owned key (Suc steps) diff w =
     (case getLatest env key w of
        (Inl err, w1) \<Rightarrow> (Some err, w1)
      | (Inr latest, w1) \<Rightarrow>
          (case Apply (clock env) forceOverwrite owned diff (GetConditions latest) of
             (Some e, cs, diff') \<Rightarrow> (Some (Errorf (conflictText env e)), w1)
           | (None, cs, diff') \<Rightarrow>
               (case patchStatusLocked env (SetConditions latest cs) latest w1 of
                  (None, w2) \<Rightarrow> (None, w2)
                | (Some err, w2) \<Rightarrow>
                    if IsConflict err then conditions_loop env forceOverwrite owned key steps diff' w2
                    else (Some err, w2))))"

definition backoffSteps :: nat where
  "backoffSteps = 5"

definition patchStatusConditions ::
    "'w patch_env \<Rightarrow> Helper \<Rightarrow> JsPolicy \<Rightarrow> bool \<Rightarrow> string list \<Rightarrow> 'w \<Rightarrow> go_error option \<times> 'w" where
  "patchStatusConditions env h obj forceOverwrite ownedConditions w =
     (if \<not> isConditionsSetter h then (None, w)
      else
        let diff = NewPatch (GetConditions (hBeforeObject h)) (GetConditions obj)
        in if PatchIsZero diff then (None, w)
           else conditions_loop env forceOverwrite ownedConditions (pName obj) backoffSteps diff w)"

text \<open>\<open>kerrors.NewAggregate\<close>: the errors that are not nil, or nil if there are none.\<close>

definition NewAggregate :: "go_error option list \<Rightarrow> go_error list option" where
  "NewAggregate es = (let xs = List.map_filter id es in if xs = [] then None else Some xs)"

text \<open>
  \<open>Patch\<close>: the error is a single one before anything was sent, or the aggregate; the object comes
  back because the observed generation is written into it.
\<close>

definition observed ::
    "'w patch_env \<Rightarrow> HelperOptions \<Rightarrow> JsPolicy \<Rightarrow> jobject \<Rightarrow> go_error + (jobject \<times> JsPolicy)" where
  "observed env options obj u =
     (if unstructuredHasStatus u \<and> IncludeStatusObservedGeneration options then
        (case setObservedGeneration (pGeneration obj) u of
           Inl err \<Rightarrow> Inl err
         | Inr u' \<Rightarrow> map_sum id (Pair u') (fromUnstructured env u' obj))
      else Inr (u, obj))"

definition Patch ::
    "'w patch_env \<Rightarrow> Helper \<Rightarrow> JsPolicy \<Rightarrow> patch_option list \<Rightarrow> 'w \<Rightarrow>
     go_error list option \<times> JsPolicy \<times> 'w" where
  "Patch env h obj opts w =
     (case gvkForObject env obj of
        Inl err \<Rightarrow> (Some [err], obj, w)
      | Inr gvk \<Rightarrow>
          if gvk \<noteq> hGvk h then (Some [Errorf (''unmatched GroupVersionKind, expected '' @ quoted (gvk_String (hGvk h)) @
                  '' got '' @ quoted (gvk_String gvk))], obj, w)
          else
            let options = helper_options opts in
            (case toUnstructured env obj of
               Inl err \<Rightarrow> (Some [err], obj, w)
             | Inr u \<Rightarrow>
                 (case observed env options obj u of
                    Inl err \<Rightarrow> (Some [err], obj, w)
                  | Inr (u', obj') \<Rightarrow>
                      (case calculateChanges env (h\<lparr>hAfter := u'\<rparr>) obj' of
                         Inl err \<Rightarrow> (Some [err], obj', w)
                       | Inr changes \<Rightarrow>
                           let h' = h\<lparr>hAfter := u', hChanges := changes\<rparr>;
                               (e1, w1) = patchStatusConditions env h' obj'
                                            (ForceOverwriteConditions options) (OwnedConditions options) w;
                               (e2, w2) = helper_patch env h' obj' w1;
                               (e3, w3) = patchStatus env h' obj' w2
                           in (NewAggregate [e1, e2, e3], obj', w3)))))"

section \<open>What the copy keeps\<close>

lemma removeStatusConditions_other:
  "k \<noteq> ''status'' \<Longrightarrow> map_of (removeStatusConditions u) k = map_of u k"
  by (auto simp: removeStatusConditions_def split: option.splits jval.splits)

lemma removeStatusConditions_status:
  "map_of (removeStatusConditions u) ''status'' =
     map_option (\<lambda>v. case v of JMap st \<Rightarrow> JMap (map_del ''conditions'' st) | JAtom a \<Rightarrow> JAtom a)
       (map_of u ''status'')"
  by (auto simp: removeStatusConditions_def split: option.splits jval.splits)

definition copied_value :: "patchType \<Rightarrow> bool \<Rightarrow> string \<Rightarrow> jval \<Rightarrow> jval" where
  "copied_value focus setter k v =
     (if setter \<and> focus = statusPatch \<and> k = ''status'' then
        (case v of JMap st \<Rightarrow> JMap (map_del ''conditions'' st) | JAtom a \<Rightarrow> JAtom a)
      else v)"

definition copied_key :: "patchType \<Rightarrow> string \<Rightarrow> bool" where
  "copied_key focus k \<longleftrightarrow> k = patchType_Key focus \<or> k \<in> set preserveUnstructuredKeys"

lemma map_del_idem [simp]: "map_del k (map_del k m) = map_del k m"
  by (simp add: map_del_def)

lemma copied_value_idem [simp]:
  "copied_value f s k (copied_value f s k v) = copied_value f s k v"
  by (cases v) (auto simp: copied_value_def)

lemma removeStatusConditions_lookup:
  "map_of (removeStatusConditions u) x = map_option (copied_value statusPatch True x) (map_of u x)"
  by (cases "x = ''status''"; cases "map_of u x")
    (simp_all add: removeStatusConditions_other removeStatusConditions_status copied_value_def)

lemma copied_value_id: "\<not> (setter \<and> focus = statusPatch) \<Longrightarrow> copied_value focus setter k = id"
  by (auto simp: copied_value_def)

lemma copy_step_lookup:
  "map_of (copy_step focus setter res (k, v)) x =
     (if x = k \<and> copied_key focus k then Some (copied_value focus setter k v)
      else map_option (copied_value focus setter x) (map_of res x))"
proof (cases "setter \<and> focus = statusPatch")
  case True
  then show ?thesis by (simp add: copy_step_def copied_key_def Let_def removeStatusConditions_lookup)
next
  case False
  then show ?thesis
    by (auto simp add: copy_step_def copied_key_def [symmetric] Let_def copied_value_id option.map_id)
qed

lemma copy_fold_lookup:
  assumes "distinct (map fst obj)" and "\<forall>x v. map_of res x = Some v \<longrightarrow> copied_value focus setter x v = v"
  shows "map_of (foldl (copy_step focus setter) res obj) x =
     (case map_of obj x of
        Some v \<Rightarrow> if copied_key focus x then Some (copied_value focus setter x v) else map_of res x
      | None \<Rightarrow> map_of res x)"
  using assms
proof (induction obj arbitrary: res)
  case Nil
  then show ?case by simp
next
  case (Cons kv obj)
  obtain k v where kv: "kv = (k, v)" by fastforce
  have stable: "map_option (copied_value focus setter y) (map_of res y) = map_of res y" for y
    using Cons.prems(2) by (cases "map_of res y") auto
  have step: "map_of (copy_step focus setter res kv) y =
      (if y = k \<and> copied_key focus k then Some (copied_value focus setter k v) else map_of res y)" for y
    by (simp add: kv copy_step_lookup stable)
  have inv: "\<forall>y u. map_of (copy_step focus setter res kv) y = Some u \<longrightarrow> copied_value focus setter y u = u"
    using Cons.prems(2) by (auto simp: step split: if_splits)
  have notin: "map_of obj k = None"
    using Cons.prems(1) by (simp add: kv map_of_eq_None_iff)
  show ?case
    using Cons.IH [OF _ inv] Cons.prems(1) notin by (auto simp: kv step [unfolded kv] split: option.splits)
qed

lemma copy_lookup:
  "distinct (map fst obj) \<Longrightarrow>
   map_of (unsafeUnstructuredCopy obj focus setter) x =
     (if copied_key focus x then map_option (copied_value focus setter x) (map_of obj x) else None)"
  by (auto simp: unsafeUnstructuredCopy_def copy_fold_lookup split: option.splits)

section \<open>The conditions loop\<close>

text \<open>\<open>Apply\<close> changes a patch only in its transition times.\<close>

definition same_op :: "PatchOperation \<Rightarrow> PatchOperation \<Rightarrow> bool" where
  "same_op p q \<longleftrightarrow> op_type p = op_type q \<and> rel_option hasSameState (op_target p) (op_target q)"

lemma SetCondition_snd_same: "hasSameState (snd (SetCondition now cs c)) c"
proof -
  obtain cs' c' ex where l: "set_loop now cs c = (cs', c', ex)" by (metis prod_cases3)
  show ?thesis using set_loop_same [OF l] by (auto simp: SetCondition_def l Let_def)
qed

lemma apply_op_same: "same_op (snd (snd (apply_op now f owned latest p))) p"
proof (cases p)
  case (AddConditionPatch a)
  then show ?thesis
    using SetCondition_snd_same [of now latest a]
    by (auto simp: same_op_def Let_def hasSameState_def split: option.splits prod.splits)
next
  case (ChangeConditionPatch b a)
  then show ?thesis
    using SetCondition_snd_same [of now latest a]
    by (auto simp: same_op_def Let_def hasSameState_def split: option.splits prod.splits)
next
  case (RemoveConditionPatch b)
  then show ?thesis by (auto simp: same_op_def Let_def split: option.splits)
qed

lemma same_op_refl: "same_op p p"
  by (cases p) (auto simp: same_op_def)

lemma same_ops_refl: "list_all2 same_op ps ps"
  by (simp add: list_all2_refl same_op_refl)

lemma Apply_same: "list_all2 same_op (snd (snd (Apply now f owned ps latest))) ps"
proof (induction ps arbitrary: latest)
  case Nil
  then show ?case by simp
next
  case (Cons p ps)
  obtain e latest' p' where step: "apply_op now f owned latest p = (e, latest', p')"
    by (metis prod_cases3)
  obtain e2 l2 ps' where rec: "Apply now f owned ps latest' = (e2, l2, ps')" by (metis prod_cases3)
  have "same_op p' p" using apply_op_same [of now f owned latest p] step by simp
  moreover have "list_all2 same_op ps' ps" using Cons.IH [of latest'] rec by simp
  ultimately show ?case by (cases e) (auto simp: step rec same_ops_refl)
qed

lemma same_ops_trans: "list_all2 same_op ps qs \<Longrightarrow> list_all2 same_op qs rs \<Longrightarrow> list_all2 same_op ps rs"
proof (rule list_all2_trans)
  fix p q r
  assume "same_op p q" "same_op q r"
  then show "same_op p r"
    by (auto simp: same_op_def rel_option_iff split: option.splits intro: hasSameState_trans)
qed

lemma same_ops_types: "list_all2 same_op ps qs \<Longrightarrow> map op_type ps = map op_type qs"
  by (induction rule: list_all2_induct) (auto simp: same_op_def)

lemma same_ops_target:
  "list_all2 same_op ps qs \<Longrightarrow> q \<in> set qs \<Longrightarrow>
   \<exists>p \<in> set ps. op_type p = op_type q \<and> rel_option hasSameState (op_target p) (op_target q)"
  by (induction rule: list_all2_induct) (auto simp: same_op_def)

text \<open>What the last attempt saw and stored.\<close>

definition merged :: "PatchOperation list \<Rightarrow> Conditions \<Rightarrow> Conditions \<Rightarrow> bool" where
  "merged diff old new \<longleftrightarrow> wf_conditions new \<and>
     (\<forall>p \<in> set diff. rel_option hasSameState (Get new (op_type p)) (op_target p)) \<and>
     (\<forall>t. t \<notin> op_type ` set diff \<longrightarrow> Get new t = Get old t)"

lemma Apply_merged:
  assumes "wf_conditions old" "distinct (map op_type ps)" "list_all2 same_op ps diff"
    and "Apply now f owned ps old = (None, cs, ps')"
  shows "merged diff old cs"
proof -
  note ty = same_ops_types [OF assms(3)]
  have "op_type ` set diff = op_type ` set ps" by (metis ty list.set_map)
  moreover have "rel_option hasSameState (Get cs (op_type q)) (op_target q)" if "q \<in> set diff" for q
  proof -
    from same_ops_target [OF assms(3) that] obtain p where p: "p \<in> set ps" "op_type p = op_type q"
      "rel_option hasSameState (op_target p) (op_target q)" by blast
    have "rel_option hasSameState (Get cs (op_type p)) (op_target p)"
      using Apply_target [OF assms(1,2) _ p(1), of now f owned] assms(4) by simp
    then show ?thesis
      using p by (auto simp: rel_option_iff split: option.splits intro: hasSameState_trans)
  qed
  ultimately show ?thesis
    using Apply_wf [OF assms(1,2), of now f owned] Apply_other [OF assms(1,2), of now f owned] assms(4)
    by (simp add: merged_def)
qed

text \<open>
  The server as the loop relies on it: what it hands out is well-formed, and a status patch that it
  accepts for the version just read stores the conditions sent.
\<close>

definition policy_server :: "'w patch_env \<Rightarrow> ('w \<Rightarrow> string \<Rightarrow> Conditions) \<Rightarrow> bool" where
  "policy_server env conds \<longleftrightarrow>
     (\<forall>k w p w'. getLatest env k w = (Inr p, w') \<longrightarrow>
        wf_conditions (GetConditions p) \<and> GetConditions p = conds w k \<and> pName p = k) \<and>
     (\<forall>p b w w'. patchStatusLocked env p b w = (None, w') \<longrightarrow> conds w' (pName p) = GetConditions p)"

lemma conditions_loop_success:
  assumes srv: "policy_server env conds" and d: "distinct (map op_type ps)" "list_all2 same_op ps diff"
    and ok: "conditions_loop env f owned key n ps w = (None, w')"
  shows "\<exists>old. wf_conditions old \<and> merged diff old (conds w' key)"
  using d ok
proof (induction n arbitrary: ps w)
  case 0
  then show ?case by simp
next
  case (Suc n)
  obtain res w1 where g: "getLatest env key w = (res, w1)" by fastforce
  from Suc.prems(3) obtain latest where l: "res = Inr latest"
    by (cases res) (auto simp: g)
  have lw: "wf_conditions (GetConditions latest)" "pName latest = key"
    using srv g l unfolding policy_server_def by blast+
  obtain e cs ps' where a: "Apply (clock env) f owned ps (GetConditions latest) = (e, cs, ps')"
    by (metis prod_cases3)
  have e: "e = None" using Suc.prems(3) by (cases e) (auto simp: g l a)
  obtain e2 w2 where p: "patchStatusLocked env (SetConditions latest cs) latest w1 = (e2, w2)" by fastforce
  show ?case
  proof (cases e2)
    case None
    then have "w2 = w'" using Suc.prems(3) by (simp add: g l a e p)
    moreover have "conds w2 key = cs"
      using srv p None lw(2) unfolding policy_server_def by fastforce
    ultimately show ?thesis
      using Apply_merged [OF lw(1) Suc.prems(1,2)] a e lw(1) by blast
  next
    case (Some err)
    then have rec: "conditions_loop env f owned key n ps' w2 = (None, w')"
      using Suc.prems(3) by (auto simp: g l a e p split: if_splits)
    have same: "list_all2 same_op ps' ps"
      using Apply_same [of "clock env" f owned ps "GetConditions latest"] a by simp
    show ?thesis
      by (rule Suc.IH [OF _ same_ops_trans [OF same Suc.prems(2)] rec])
        (simp add: same_ops_types [OF same] Suc.prems(1))
  qed
qed

section \<open>Properties\<close>


text \<open>A server with one policy that answers the first patch with a conflict.\<close>

definition flaky_env :: "(nat \<times> JsPolicy) patch_env" where
  "flaky_env =
     \<lparr>gvkForObject = (\<lambda>_. Inr \<lparr>gvkGroup = [], gvkVersion = [], gvkKind = ''JsPolicy''\<rparr>),
      toUnstructured = (\<lambda>_. Inr []), fromUnstructured = (\<lambda>_ p. Inr p), mergePatchKeys = (\<lambda>_ _. Inr []),
      getLatest = (\<lambda>k w. if pName (snd w) = k \<and> wf_conditions (GetConditions (snd w))
                         then (Inr (snd w), w) else (Inl (GoError NotFound ''not found''), w)),
      patchStatusLocked = (\<lambda>p b w. if fst w > 0 \<or> pName p \<noteq> pName (snd w)
                                   then (Some (GoError Conflict ''conflict''), (fst w - 1, snd w))
                                   else (None, (0, p))),
      patchObject = (\<lambda>_ _ w. (None, w)), patchStatusSub = (\<lambda>_ _ w. (None, w)),
      conflictText = (\<lambda>_. ''conflict''), clock = 9\<rparr>"


text \<open>
  The objects that the spec and the status patch are computed from carry kind, API version,
  metadata and the patched section and nothing else, and the status they carry never has
  conditions: those go through the merging loop alone.
\<close>

theorem unsafeUnstructuredCopy_lookup:
  assumes "distinct (map fst obj)"
  shows "map_of (unsafeUnstructuredCopy obj focus setter) k =
    (if k \<in> {''kind'', ''apiVersion'', ''metadata'', patchType_Key focus} then
       (case map_of obj k of
          Some (JMap st) \<Rightarrow>
            if k = ''status'' \<and> focus = statusPatch \<and> setter
            then Some (JMap (map_del ''conditions'' st)) else Some (JMap st)
        | v \<Rightarrow> v)
     else None)"
  using assms
  by (auto simp: copy_lookup copied_key_def copied_value_def preserveUnstructuredKeys_def
      split: option.splits jval.splits)

theorem unsafeUnstructuredCopy_lookup_witness:
  "map_of (unsafeUnstructuredCopy [(''status'', JMap [(''conditions'', JAtom ''x''), (''phase'', JAtom ''Synced'')]),
      (''spec'', JAtom ''s'')] statusPatch True) ''status'' = Some (JMap [(''phase'', JAtom ''Synced'')])"
  using unsafeUnstructuredCopy_lookup [where focus = statusPatch and setter = True and k = "''status''"
      and obj = "[(''status'', JMap [(''conditions'', JAtom ''x''), (''phase'', JAtom ''Synced'')]),
      (''spec'', JAtom ''s'')]"]
  by (simp add: map_del_def)

end
