(* ===== verification/Applier.thy ===== *)
theory Applier
  imports PatchHelper
begin

text \<open>
  \<open>pkg/util/apply\<close>: the client-side apply that the reconciler writes webhook configurations with.
  It keeps the configuration it applied last in an annotation, creates the object or patches the
  stored one by a three-way merge, retries on conflicts, and when forced deletes and recreates it.
  The scheme, the codec, the two merge algorithms and the client are parameters, over the object
  type \<open>'o\<close> and the world \<open>'w\<close>.
\<close>

section \<open>What it calls\<close>

abbreviation applyAnnotation :: string where
  "applyAnnotation \<equiv> ''jspolicy.com/apply''"

abbreviation newline :: string where
  "newline \<equiv> [CHR 0x0A]"

record ('o, 'w) apply_env =
  objectKinds :: "'o \<Rightarrow> go_error + GroupVersionKind list"
  schemeNew :: "GroupVersionKind \<Rightarrow> go_error + 'o"
  emptyUnstructured :: "'o \<Rightarrow> 'o option" \<comment> \<open>for an unstructured object, an empty one of its kind\<close>
  setType :: "GroupVersionKind \<Rightarrow> 'o \<Rightarrow> 'o"
  nameOf :: "'o \<Rightarrow> string"
  namespaceOf :: "'o \<Rightarrow> string"
  generateNameOf :: "'o \<Rightarrow> string"
  resourceVersionOf :: "'o \<Rightarrow> string"
  setNames :: "string \<Rightarrow> string \<Rightarrow> 'o \<Rightarrow> 'o" \<comment> \<open>name, namespace\<close>
  annotationsOf :: "'o \<Rightarrow> (string \<times> string) list"
  setAnnotations :: "(string \<times> string) list \<Rightarrow> 'o \<Rightarrow> 'o"
  encodeObject :: "'o \<Rightarrow> go_error + string"
  decodeObject :: "string \<Rightarrow> go_error + 'o"
  showObject :: "'o \<Rightarrow> string"
  threeWayJSON :: "string \<Rightarrow> string \<Rightarrow> string \<Rightarrow> go_error + string" \<comment> \<open>original, modified, current\<close>
  threeWayStrategic :: "string \<Rightarrow> string \<Rightarrow> string \<Rightarrow> go_error + string"
  unmarshalPatch :: "string \<Rightarrow> go_error + jobject"
  apGet :: "string \<Rightarrow> string \<Rightarrow> 'w \<Rightarrow> (go_error + 'o) \<times> 'w" \<comment> \<open>namespace, name\<close>
  apCreate :: "'o \<Rightarrow> 'w \<Rightarrow> go_error option \<times> 'w"
  apPatch :: "'o \<Rightarrow> jobject \<Rightarrow> 'w \<Rightarrow> go_error option \<times> 'w"
  apDelete :: "'o \<Rightarrow> 'w \<Rightarrow> go_error option \<times> 'w"
  pollChecks :: nat \<comment> \<open>how often a poll of ten seconds looks\<close>

section \<open>Types and annotations (apply.go, util.go)\<close>

definition GVKFrom :: "('o, 'w) apply_env \<Rightarrow> 'o \<Rightarrow> go_error + GroupVersionKind" where
  "GVKFrom env obj =
     (case objectKinds env obj of
        Inl err \<Rightarrow> Inl err
      | Inr [gvk] \<Rightarrow> Inr gvk
      | Inr gvks \<Rightarrow> Inl (Errorf (''unexpected number of object kinds: '' @ itoa (int (length gvks)))))"

definition ensureType :: "('o, 'w) apply_env \<Rightarrow> 'o \<Rightarrow> go_error + 'o" where
  "ensureType env obj = map_sum id (\<lambda>gvk. setType env gvk obj) (GVKFrom env obj)"

definition NewObjectFromExisting :: "('o, 'w) apply_env \<Rightarrow> 'o \<Rightarrow> go_error + 'o" where
  "NewObjectFromExisting env newObj =
     (case GVKFrom env newObj of
        Inl err \<Rightarrow> Inl err
      | Inr gvk \<Rightarrow>
          (case schemeNew env gvk of
             Inl err \<Rightarrow>
               (case emptyUnstructured env newObj of
                  Some u \<Rightarrow> if IsNotRegisteredError err then Inr u else Inl err
                | None \<Rightarrow> Inl err)
           | Inr obj \<Rightarrow> Inr (setType env gvk obj)))"

text \<open>An annotation that is missing reads as no configuration, here the empty string.\<close>

definition GetOriginalConfiguration :: "('o, 'w) apply_env \<Rightarrow> 'o \<Rightarrow> string" where
  "GetOriginalConfiguration env obj =
     (case map_of (annotationsOf env obj) applyAnnotation of None \<Rightarrow> [] | Some original \<Rightarrow> original)"

definition setOriginalConfiguration :: "('o, 'w) apply_env \<Rightarrow> string \<Rightarrow> 'o \<Rightarrow> 'o" where
  "setOriginalConfiguration env original obj =
     (if length original < 1 then obj
      else setAnnotations env (map_put applyAnnotation original (annotationsOf env obj)) obj)"

text \<open>
  \<open>GetModifiedConfiguration\<close>: the encoding, and the object as it is left: with the annotation it had,
  which is set to the empty string if it had none.
\<close>

definition GetModifiedConfiguration :: "('o, 'w) apply_env \<Rightarrow> bool \<Rightarrow> 'o \<Rightarrow> (go_error + string) \<times> 'o" where
  "GetModifiedConfiguration env annotate obj =
     (let annots = annotationsOf env obj;
          original = (case map_of annots applyAnnotation of None \<Rightarrow> [] | Some s \<Rightarrow> s);
          annots1 = map_del applyAnnotation annots;
          obj1 = setAnnotations env annots1 obj
      in case encodeObject env obj1 of
           Inl err \<Rightarrow> (Inl err, obj1)
         | Inr plain \<Rightarrow>
             let obj2 = (if annotate then setAnnotations env (map_put applyAnnotation plain annots1) obj1 else obj1)
             in case (if annotate then encodeObject env obj2 else Inr plain) of
                  Inl err \<Rightarrow> (Inl err, obj2)
                | Inr modified \<Rightarrow> (Inr modified, setAnnotations env (map_put applyAnnotation original annots1) obj2))"

definition CreateApplyAnnotation :: "('o, 'w) apply_env \<Rightarrow> 'o \<Rightarrow> go_error + 'o" where
  "CreateApplyAnnotation env obj =
     (case GetModifiedConfiguration env False obj of
        (Inl err, obj') \<Rightarrow> Inl err
      | (Inr modified, obj') \<Rightarrow> Inr (setOriginalConfiguration env modified obj'))"

definition updateApplyAnnotation :: "('o, 'w) apply_env \<Rightarrow> 'o \<Rightarrow> go_error + 'o" where
  "updateApplyAnnotation env obj =
     (if length (GetOriginalConfiguration env obj) \<le> 0 then Inr obj else CreateApplyAnnotation env obj)"

definition CreateOrUpdateAnnotation :: "('o, 'w) apply_env \<Rightarrow> bool \<Rightarrow> 'o \<Rightarrow> go_error + 'o" where
  "CreateOrUpdateAnnotation env createAnnotation obj =
     (if createAnnotation then CreateApplyAnnotation env obj else updateApplyAnnotation env obj)"

section \<open>The patch (patcher.go)\<close>

text \<open>Reading a key of a JSON object: a missing key and \<open>null\<close> are both \<open>nil\<close>.\<close>

definition jget :: "jobject \<Rightarrow> string \<Rightarrow> jval option" where
  "jget m k = (case map_of m k of Some v \<Rightarrow> if v = JAtom ''null'' then None else Some v | None \<Rightarrow> None)"

definition allowedFields :: "string list" where
  "allowedFields = [''labels'', ''annotations'', ''ownerReferences'', ''finalizers'']"

text \<open>\<open>stripPatch\<close>: what is left to send, nothing if there is nothing to say.\<close>

definition stripPatch :: "jobject \<Rightarrow> go_error + jobject option" where
  "stripPatch patchObj =
     (case jget patchObj ''metadata'' of
        None \<Rightarrow> Inr (if patchObj = [] then None else Some patchObj)
      | Some (JAtom a) \<Rightarrow> Inl (Errorf (''unexpected metadata format: '' @ a))
      | Some (JMap metadataObj) \<Rightarrow>
          let metadataObj' = filter (\<lambda>kv. fst kv \<in> set allowedFields) metadataObj;
              patchObj' = map_put ''metadata'' (JMap metadataObj') patchObj
          in if metadataObj' = []
             then Inr (if map_del ''metadata'' patchObj = [] then None else Some (map_del ''metadata'' patchObj))
             else if length patchObj' = 1 \<and> length metadataObj' = 1 \<and> jget metadataObj' ''annotations'' \<noteq> None
             then (case jget metadataObj' ''annotations'' of
                     Some (JMap annoObj) \<Rightarrow>
                       if length annoObj = 1 \<and> jget annoObj applyAnnotation \<noteq> None then Inr None else Inr (Some patchObj')
                   | Some (JAtom a) \<Rightarrow> Inl (Errorf (''unexpected annotations format: '' @ a))
                   | None \<Rightarrow> Inr (Some patchObj'))
             else Inr (Some patchObj'))"

text \<open>The three-way merge patch, by the merge that fits the type.\<close>

definition create_patch :: "('o, 'w) apply_env \<Rightarrow> string \<Rightarrow> string \<Rightarrow> string \<Rightarrow> 'o \<Rightarrow> go_error + string" where
  "create_patch env original modified current obj =
     (let failed = (\<lambda>err. Errorf (''creating patch with:'' @ newline @ ''original:'' @ newline @ original @
            newline @ ''modified:'' @ newline @ modified @ newline @ ''current:'' @ newline @ current @
            newline @ ''err:'' @ err_text err))
      in case GVKFrom env obj of
           Inl err \<Rightarrow> Inl err
         | Inr gvk \<Rightarrow>
             (case schemeNew env gvk of
                Inl err \<Rightarrow>
                  if IsNotRegisteredError err then map_sum failed id (threeWayJSON env original modified current)
                  else Inl (Errorf (''getting instance of versioned object for '' @ showObject env obj @ '': '' @ err_text err))
              | Inr versionedObject \<Rightarrow> map_sum failed id (threeWayStrategic env original modified current)))"

text \<open>\<open>patchSimple\<close>: the patch it sends, if any, and sending it.\<close>

definition patch_to_send :: "('o, 'w) apply_env \<Rightarrow> 'o \<Rightarrow> string \<Rightarrow> go_error + jobject option" where
  "patch_to_send env obj modified =
     (case encodeObject env obj of
        Inl err \<Rightarrow> Inl (Errorf (''serializing current configuration from:'' @ newline @ showObject env obj @
                     newline @ ''err:'' @ err_text err))
      | Inr current \<Rightarrow>
          (case create_patch env (GetOriginalConfiguration env obj) modified current obj of
             Inl err \<Rightarrow> Inl err
           | Inr patch \<Rightarrow>
               map_sum (\<lambda>err. err_wrap err ''strip patch'') id
                 (case unmarshalPatch env patch of Inl err \<Rightarrow> Inl err | Inr patchObj \<Rightarrow> stripPatch patchObj)))"

definition patchSimple ::
    "('o, 'w) apply_env \<Rightarrow> 'o \<Rightarrow> string \<Rightarrow> 'w \<Rightarrow> go_error option \<times> 'w" where
  "patchSimple env obj modified w =
     (case patch_to_send env obj modified of
        Inl err \<Rightarrow> (Some err, w)
      | Inr None \<Rightarrow> (None, w)
      | Inr (Some patchObj) \<Rightarrow> apPatch env obj patchObj w)"

text \<open>
  \<open>deleteAndCreate\<close>, with the poll for the object to be gone. An error comes with the bytes that the
  caller shows.
\<close>

fun poll_gone :: "('o, 'w) apply_env \<Rightarrow> string \<Rightarrow> string \<Rightarrow> nat \<Rightarrow> 'w \<Rightarrow> go_error option \<times> 'w" where
  "poll_gone env ns name 0 w = (Some (Errorf ''timed out waiting for the condition''), w)"
| "poll_gone env ns name (Suc n) w =
     (case apGet env ns name w of
        (Inr obj, w1) \<Rightarrow> poll_gone env ns name n w1
      | (Inl err, w1) \<Rightarrow> if IsNotFound err then (None, w1) else (Some err, w1))"

definition deleteAndCreate ::
    "('o, 'w) apply_env \<Rightarrow> 'o \<Rightarrow> string \<Rightarrow> string \<Rightarrow> string \<Rightarrow> 'w \<Rightarrow> (go_error \<times> string) option \<times> 'w" where
  "deleteAndCreate env original modified ns name w =
     (case apDelete env original w of
        (Some err, w1) \<Rightarrow> (Some (err, modified), w1)
      | (None, w1) \<Rightarrow>
          (case poll_gone env ns name (pollChecks env) w1 of
             (Some err, w2) \<Rightarrow> (Some (err, modified), w2)
           | (None, w2) \<Rightarrow>
               (case decodeObject env modified of
                  Inl err \<Rightarrow> (Some (err, modified), w2)
                | Inr versionedObject \<Rightarrow>
                    (case apCreate env (setNames env name ns versionedObject) w2 of
                       (Some err, w3) \<Rightarrow> (Some (err, []), w3)
                     | (None, w3) \<Rightarrow> (None, w3)))))"

definition maxPatchRetry :: nat where
  "maxPatchRetry = 5"

text \<open>
  The retry loop of \<open>Patch\<close>: the object last read, the attempts left, and the error so far. \<open>Inl\<close> is
  a return from inside the loop.
\<close>

fun retry_loop ::
    "('o, 'w) apply_env \<Rightarrow> string \<Rightarrow> string \<Rightarrow> string \<Rightarrow> nat \<Rightarrow> 'o \<Rightarrow> go_error option \<Rightarrow> 'w \<Rightarrow>
     (go_error + 'o \<times> go_error option) \<times> 'w" where
  "retry_loop env modified ns name 0 current err w = (Inr (current, err), w)"
| "retry_loop env modified ns name (Suc n) current err w =
     (if \<not> (\<exists>e \<in> set_option err. IsConflict e) then (Inr (current, err), w)
      else case NewObjectFromExisting env current of
             Inl newErr \<Rightarrow> (Inl newErr, w)
           | Inr _ \<Rightarrow>
               (case apGet env ns name w of
                  (Inl getErr, w1) \<Rightarrow> (Inl getErr, w1)
                | (Inr current', w1) \<Rightarrow>
                    (case patchSimple env current' modified w1 of
                       (err', w2) \<Rightarrow> retry_loop env modified ns name n current' err' w2)))"

definition Patcher_Patch ::
    "('o, 'w) apply_env \<Rightarrow> bool \<Rightarrow> 'o \<Rightarrow> string \<Rightarrow> 'w \<Rightarrow> (go_error \<times> string) option \<times> 'w" where
  "Patcher_Patch env force current modified w =
     (case patchSimple env current modified w of
        (err, w1) \<Rightarrow>
          (case retry_loop env modified (namespaceOf env current) (nameOf env current) maxPatchRetry current err w1 of
             (Inl e, w2) \<Rightarrow> (Some (e, []), w2)
           | (Inr (current', None), w2) \<Rightarrow> (None, w2)
           | (Inr (current', Some e), w2) \<Rightarrow>
               if (IsConflict e \<or> IsInvalid e) \<and> force
               then deleteAndCreate env current' modified (namespaceOf env current) (nameOf env current) w2
               else (Some (e, []), w2)))"

text \<open>\<open>Apply\<close>: what it refuses, and the whole.\<close>

definition apply_checked :: "('o, 'w) apply_env \<Rightarrow> 'o \<Rightarrow> go_error option" where
  "apply_checked env obj =
     (if length (nameOf env obj) = 0
      then (if length (generateNameOf env obj) > 0
            then Some (Errorf (''from '' @ generateNameOf env obj @ '': cannot use generate name with apply''))
            else None)
      else if resourceVersionOf env obj \<noteq> []
      then Some (Errorf (''shouldn'' @ [CHR 0x27] @ ''t use apply with already existing resources''))
      else None)"

definition apply_Apply :: "('o, 'w) apply_env \<Rightarrow> 'o \<Rightarrow> bool \<Rightarrow> 'w \<Rightarrow> go_error option \<times> 'w" where
  "apply_Apply env obj0 force w =
     (case ensureType env obj0 of
        Inl err \<Rightarrow> (Some err, w)
      | Inr obj \<Rightarrow>
     if apply_checked env obj \<noteq> None then (apply_checked env obj, w)
     else case GetModifiedConfiguration env True obj of
        (Inl err, obj1) \<Rightarrow> (Some (Errorf (''retrieving modified configuration from:'' @ newline @ nameOf env obj1 @
                              newline @ ''for: '' @ err_text err)), w)
      | (Inr modified, obj1) \<Rightarrow>
     (case NewObjectFromExisting env obj1 of
        Inl err \<Rightarrow> (Some err, w)
      | Inr _ \<Rightarrow>
     (case apGet env (namespaceOf env obj1) (nameOf env obj1) w of
        (Inl err, w1) \<Rightarrow>
          if \<not> IsNotFound err
          then (Some (Errorf (''retrieving current configuration of:'' @ newline @ nameOf env obj1 @ newline @
                  ''from server: '' @ err_text err)), w1)
          else (case CreateApplyAnnotation env obj1 of
                  Inl err \<Rightarrow> (Some (err_wrap err ''creating''), w1)
                | Inr obj2 \<Rightarrow>
                    (case apCreate env obj2 w1 of
                       (Some err, w2) \<Rightarrow> (Some (err_wrap err ''creating''), w2)
                     | (None, w2) \<Rightarrow> (None, w2)))
      | (Inr serverObj, w1) \<Rightarrow>
     (case ensureType env serverObj of
        Inl err \<Rightarrow> (Some err, w1)
      | Inr serverObj' \<Rightarrow>
          (case Patcher_Patch env force serverObj' modified w1 of
             (Some (err, patchBytes), w2) \<Rightarrow>
               (Some (Errorf (''applying patch:'' @ newline @ patchBytes @ newline @ ''error:'' @ newline @
                  err_text err @ newline)), w2)
           | (None, w2) \<Rightarrow> (None, w2))))))"

section \<open>How often it patches\<close>

text \<open>The same client with a count of the patches and deletions sent.\<close>

definition counting :: "('o, 'w) apply_env \<Rightarrow> ('o, 'w \<times> nat \<times> nat) apply_env" where
  "counting env =
     \<lparr>objectKinds = objectKinds env, schemeNew = schemeNew env, emptyUnstructured = emptyUnstructured env,
      setType = setType env, nameOf = nameOf env, namespaceOf = namespaceOf env,
      generateNameOf = generateNameOf env, resourceVersionOf = resourceVersionOf env, setNames = setNames env,
      annotationsOf = annotationsOf env, setAnnotations = setAnnotations env, encodeObject = encodeObject env,
      decodeObject = decodeObject env, showObject = showObject env, threeWayJSON = threeWayJSON env,
      threeWayStrategic = threeWayStrategic env, unmarshalPatch = unmarshalPatch env,
      apGet = (\<lambda>ns n (w, c). map_prod id (\<lambda>w'. (w', c)) (apGet env ns n w)),
      apCreate = (\<lambda>x (w, c). map_prod id (\<lambda>w'. (w', c)) (apCreate env x w)),
      apPatch = (\<lambda>x p (w, c, d). map_prod id (\<lambda>w'. (w', Suc c, d)) (apPatch env x p w)),
      apDelete = (\<lambda>x (w, c, d). map_prod id (\<lambda>w'. (w', c, Suc d)) (apDelete env x w)),
      pollChecks = pollChecks env\<rparr>"

lemma counting_fields [simp]:
  "objectKinds (counting env) = objectKinds env" "schemeNew (counting env) = schemeNew env"
  "emptyUnstructured (counting env) = emptyUnstructured env" "setType (counting env) = setType env"
  "nameOf (counting env) = nameOf env" "namespaceOf (counting env) = namespaceOf env"
  "setNames (counting env) = setNames env"
  "annotationsOf (counting env) = annotationsOf env" "setAnnotations (counting env) = setAnnotations env"
  "encodeObject (counting env) = encodeObject env" "decodeObject (counting env) = decodeObject env"
  "showObject (counting env) = showObject env" "threeWayJSON (counting env) = threeWayJSON env"
  "threeWayStrategic (counting env) = threeWayStrategic env" "unmarshalPatch (counting env) = unmarshalPatch env"
  "pollChecks (counting env) = pollChecks env"
  "apGet (counting env) ns n (w, c) = map_prod id (\<lambda>w'. (w', c)) (apGet env ns n w)"
  "apCreate (counting env) x (w, c) = map_prod id (\<lambda>w'. (w', c)) (apCreate env x w)"
  "apPatch (counting env) x p (w, a, d) = map_prod id (\<lambda>w'. (w', Suc a, d)) (apPatch env x p w)"
  "apDelete (counting env) x (w, a, d) = map_prod id (\<lambda>w'. (w', a, Suc d)) (apDelete env x w)"
  by (simp_all add: counting_def)

lemma counting_GVKFrom [simp]: "GVKFrom (counting env) = GVKFrom env"
  by (intro ext) (simp only: GVKFrom_def counting_fields)

lemma counting_derived [simp]:
  "NewObjectFromExisting (counting env) = NewObjectFromExisting env"
  "GetOriginalConfiguration (counting env) = GetOriginalConfiguration env"
  "create_patch (counting env) = create_patch env"
  by (intro ext, simp only: NewObjectFromExisting_def counting_fields counting_GVKFrom)
    (intro ext, simp only: GetOriginalConfiguration_def create_patch_def counting_fields counting_GVKFrom)+

text \<open>Each attempt sends one patch or none; polling and creating send none.\<close>

lemma counting_patch [simp]: "patch_to_send (counting env) = patch_to_send env"
  by (intro ext) (simp only: patch_to_send_def counting_fields counting_derived)

lemma patchSimple_counts:
  "\<exists>k \<le> 1. patchSimple (counting env) obj modified (w, a, d) =
     map_prod id (\<lambda>w'. (w', a + k, d)) (patchSimple env obj modified w)"
proof (cases "\<exists>p. patch_to_send env obj modified = Inr (Some p)")
  case True
  then show ?thesis by (intro exI [of _ 1]) (auto simp: patchSimple_def)
next
  case False
  then show ?thesis by (intro exI [of _ 0]) (auto simp: patchSimple_def split: sum.splits option.splits)
qed

lemma poll_gone_counts:
  "poll_gone (counting env) ns name n (w, c) = map_prod id (\<lambda>w'. (w', c)) (poll_gone env ns name n w)"
proof (induction n arbitrary: w)
  case 0
  show ?case by simp
next
  case (Suc n)
  then show ?case by (cases "apGet env ns name w") (auto split: sum.splits)
qed

lemma deleteAndCreate_counts:
  "deleteAndCreate (counting env) obj modified ns name (w, a, d) =
     map_prod id (\<lambda>w'. (w', a, Suc d)) (deleteAndCreate env obj modified ns name w)"
  by (auto simp: deleteAndCreate_def poll_gone_counts split: prod.splits option.splits sum.splits)

lemma retry_loop_counts:
  "\<exists>k \<le> n. retry_loop (counting env) modified ns name n current err (w, a, d) =
     map_prod id (\<lambda>w'. (w', a + k, d)) (retry_loop env modified ns name n current err w)"
proof (induction n arbitrary: current err w a)
  case 0
  show ?case by simp
next
  case (Suc n)
  show ?case
  proof (cases "(\<exists>e \<in> set_option err. IsConflict e) \<and> (\<exists>o1. NewObjectFromExisting env current = Inr o1) \<and>
      (\<exists>o2 w1. apGet env ns name w = (Inr o2, w1))")
    case False
    then have "retry_loop (counting env) modified ns name (Suc n) current err (w, a, d) =
        map_prod id (\<lambda>w'. (w', a + 0, d)) (retry_loop env modified ns name (Suc n) current err w)"
      by (auto split: sum.splits prod.splits)
    then show ?thesis by blast
  next
    case True
    then obtain o1 o2 w1 where t: "\<exists>e \<in> set_option err. IsConflict e" "NewObjectFromExisting env current = Inr o1"
      "apGet env ns name w = (Inr o2, w1)"
      by blast
    obtain err' w2 where p: "patchSimple env o2 modified w1 = (err', w2)" by fastforce
    obtain k where k: "k \<le> 1" "patchSimple (counting env) o2 modified (w1, a, d) = (err', w2, a + k, d)"
      using patchSimple_counts [of env o2 modified w1 a d] by (auto simp: p)
    obtain k' where k': "k' \<le> n" "retry_loop (counting env) modified ns name n o2 err' (w2, a + k, d) =
        map_prod id (\<lambda>w'. (w', (a + k) + k', d)) (retry_loop env modified ns name n o2 err' w2)"
      using Suc.IH [of o2 err' w2 "a + k"] by blast
    have eq: "retry_loop (counting env) modified ns name (Suc n) current err (w, a, d) =
        map_prod id (\<lambda>w'. (w', a + (k + k'), d)) (retry_loop env modified ns name (Suc n) current err w)"
      using t p k(2) k'(2) by (simp add: add.assoc)
    have le: "k + k' \<le> Suc n" using k(1) k'(1) by simp
    show ?thesis by (rule exI [of _ "k + k'"], rule conjI [OF le eq])
  qed
qed

lemma Patcher_Patch_counts:
  "\<exists>k d'. k \<le> 6 \<and> d' \<le> 1 \<and> Patcher_Patch (counting env) force current modified (w, 0, 0) =
     map_prod id (\<lambda>w'. (w', k, d')) (Patcher_Patch env force current modified w) \<and>
     (d' = 1 \<longrightarrow> force \<and> (\<exists>current' e w'. retry_loop env modified (namespaceOf env current) (nameOf env current)
        maxPatchRetry current (fst (patchSimple env current modified w)) (snd (patchSimple env current modified w)) =
          (Inr (current', Some e), w') \<and> (IsConflict e \<or> IsInvalid e)))"
proof -
  let ?ns = "namespaceOf env current" and ?n = "nameOf env current"
  obtain err w1 where p: "patchSimple env current modified w = (err, w1)" by fastforce
  obtain k where k: "k \<le> 1" "patchSimple (counting env) current modified (w, 0, 0) = (err, w1, k, 0)"
    using patchSimple_counts [of env current modified w 0 0] by (auto simp: p)
  obtain res w2 where r: "retry_loop env modified ?ns ?n maxPatchRetry current err w1 = (res, w2)" by fastforce
  obtain k' where k': "k' \<le> maxPatchRetry"
    "retry_loop (counting env) modified ?ns ?n maxPatchRetry current err (w1, k, 0) = (res, w2, k + k', 0)"
    using retry_loop_counts [of maxPatchRetry env modified ?ns ?n current err w1 k 0] by (auto simp: r)
  have le: "k + k' \<le> 6" using k(1) k'(1) by (simp add: maxPatchRetry_def)
  show ?thesis
  proof (cases "\<exists>current' e. res = Inr (current', Some e) \<and> (IsConflict e \<or> IsInvalid e) \<and> force")
    case True
    then obtain current' e where c: "res = Inr (current', Some e)" "IsConflict e \<or> IsInvalid e" force by blast
    have "Patcher_Patch (counting env) force current modified (w, 0, 0) =
        map_prod id (\<lambda>w'. (w', k + k', 1)) (Patcher_Patch env force current modified w)"
      using p r c k(2) k'(2) by (simp add: Patcher_Patch_def deleteAndCreate_counts)
    then show ?thesis using le c by (intro exI [of _ "k + k'"] exI [of _ 1]) (simp add: p r)
  next
    case False
    then have "Patcher_Patch (counting env) force current modified (w, 0, 0) =
        map_prod id (\<lambda>w'. (w', k + k', 0)) (Patcher_Patch env force current modified w)"
      using p r k(2) k'(2) by (auto simp: Patcher_Patch_def split: sum.splits option.splits)
    then show ?thesis using le by (intro exI [of _ "k + k'"] exI [of _ 0]) simp
  qed
qed

section \<open>Properties\<close>

text \<open>
  C30: whatever the server answers, applying a patch sends at most six patches and at most one
  deletion, and counting them changes nothing else. It deletes and recreates the object only when
  forced and only after the last attempt was refused as a conflict or as invalid; without force it
  deletes nothing.
\<close>

theorem Patcher_Patch_bounded:
  "case Patcher_Patch (counting env) force current modified (w, 0, 0) of
     (res, w', patches, deletions) \<Rightarrow>
       (res, w') = Patcher_Patch env force current modified w \<and> patches \<le> 6 \<and>
       deletions \<le> (if force then 1 else 0)"
proof -
  obtain k d' where kd: "k \<le> 6" "d' \<le> 1" "Patcher_Patch (counting env) force current modified (w, 0, 0) =
     map_prod id (\<lambda>w'. (w', k, d')) (Patcher_Patch env force current modified w)" "d' = 1 \<longrightarrow> force"
    using Patcher_Patch_counts [of env force current modified w] by blast
  obtain res w' where r: "Patcher_Patch env force current modified w = (res, w')" by fastforce
  have "d' \<le> (if force then 1 else 0)" using kd(2,4) by (cases "d' = 1") auto
  then show ?thesis using kd(1) by (simp add: kd(3) r)
qed

text \<open>The fields of metadata that a patch may change.\<close>

definition kept_metadata :: "jobject \<Rightarrow> jobject" where
  "kept_metadata m = filter (\<lambda>kv. fst kv \<in> set allowedFields) m"

definition only_annotation :: "jobject \<Rightarrow> bool" where
  "only_annotation m \<longleftrightarrow> (\<exists>annos v. m = [(''annotations'', JMap annos)] \<and> annos = [(applyAnnotation, v)] \<and> v \<noteq> JAtom ''null'')"

lemma jget_single: "length m = 1 \<Longrightarrow> jget m k = Some v \<longleftrightarrow> m = [(k, v)] \<and> v \<noteq> JAtom ''null''"
  by (auto simp: jget_def length_Suc_conv split: option.splits if_splits)

text \<open>
  What is sent of a merge patch whose metadata is an object: its other fields as they are and
  of its metadata only labels, annotations, owner references and finalizers. Nothing is sent if
  nothing of it is left, or only the annotation with the configuration applied last. Metadata that
  is not an object is an error, unless it is null.
\<close>

theorem stripPatch_spec:
  assumes "distinct (map fst p)" and "map_of p ''metadata'' = Some (JMap m)"
  shows "(\<forall>q. stripPatch p = Inr (Some q) \<longrightarrow> q \<noteq> [] \<and>
      map_of q = (map_of p)(''metadata'' := (if kept_metadata m = [] then None else Some (JMap (kept_metadata m))))) \<and>
    (stripPatch p = Inr None \<longrightarrow> fst ` set p = {''metadata''} \<and> (kept_metadata m = [] \<or> only_annotation (kept_metadata m))) \<and>
    (\<forall>err. stripPatch p = Inl err \<longrightarrow> length p = 1 \<and> (\<exists>a. kept_metadata m = [(''annotations'', JAtom a)]))"
proof -
  let ?m = "kept_metadata m"
  have meta: "jget p ''metadata'' = Some (JMap m)" using assms(2) by (simp add: jget_def)
  have mem: "''metadata'' \<in> fst ` set p" using assms(2) by (metis domI dom_map_of_conv_image_fst)
  have put: "fst ` set (map_put ''metadata'' v p) = fst ` set p" for v using mem by auto
  have len: "length (map_put ''metadata'' v p) = length p" for v
  proof -
    have "length (map_put ''metadata'' v p) = card (fst ` set (map_put ''metadata'' v p))"
      using distinct_map_put [OF assms(1), of "''metadata''" v] distinct_card
      by (metis length_map set_map)
    also have "\<dots> = card (set (map fst p))" unfolding put by simp
    also have "\<dots> = length p" using distinct_card [OF assms(1)] by simp
    finally show ?thesis .
  qed
  have one: "length p = 1 \<Longrightarrow> fst ` set p = {''metadata''}"
    using mem by (auto simp: length_Suc_conv)
  have del: "map_del ''metadata'' p = [] \<longleftrightarrow> fst ` set p = {''metadata''}"
  proof -
    have "map_del ''metadata'' p = [] \<longleftrightarrow> fst ` set p \<subseteq> {''metadata''}"
      by (auto simp only: map_del_def filter_empty_conv image_subset_iff singleton_iff not_not)
    then show ?thesis using mem by (metis empty_iff insert_absorb2 subset_antisym subset_insert subset_singletonD equalityE)
  qed
  have strip: "stripPatch p =
     (if ?m = [] then Inr (if map_del ''metadata'' p = [] then None else Some (map_del ''metadata'' p))
      else if length p = 1 \<and> length ?m = 1 \<and> jget ?m ''annotations'' \<noteq> None
      then (case jget ?m ''annotations'' of
              Some (JMap annoObj) \<Rightarrow> if length annoObj = 1 \<and> jget annoObj applyAnnotation \<noteq> None then Inr None
                else Inr (Some (map_put ''metadata'' (JMap ?m) p))
            | Some (JAtom a) \<Rightarrow> Inl (Errorf (''unexpected annotations format: '' @ a))
            | None \<Rightarrow> Inr (Some (map_put ''metadata'' (JMap ?m) p)))
      else Inr (Some (map_put ''metadata'' (JMap ?m) p)))"
    by (simp only: stripPatch_def meta option.case jval.case Let_def kept_metadata_def [symmetric] len)
  show ?thesis
  proof (cases "?m = []")
    case True
    then show ?thesis by (simp add: strip del)
  next
    case m: False
    have some: "map_put ''metadata'' (JMap ?m) p \<noteq> []" using put mem by (metis image_is_empty set_empty empty_iff)
    have sent: "map_of (map_put ''metadata'' (JMap ?m) p) = (map_of p)(''metadata'' := Some (JMap ?m))" by simp
    show ?thesis
    proof (cases "length p = 1 \<and> length ?m = 1 \<and> jget ?m ''annotations'' \<noteq> None")
      case False
      then show ?thesis using m some sent by (simp add: strip)
    next
      case True
      then obtain v where v: "jget ?m ''annotations'' = Some v" by blast
      then have single: "?m = [(''annotations'', v)]" using True jget_single [of ?m] by blast
      show ?thesis
      proof (cases v)
        case (JAtom a)
        then show ?thesis using True m v single by (simp add: strip)
      next
        case (JMap annos)
        show ?thesis
        proof (cases "length annos = 1 \<and> jget annos applyAnnotation \<noteq> None")
          case False
          then have "stripPatch p = Inr (Some (map_put ''metadata'' (JMap ?m) p))"
            using True m v JMap by (auto simp: strip)
          then show ?thesis using m some sent by simp
        next
          case anno: True
          then have "only_annotation ?m"
            using single JMap jget_single [of annos applyAnnotation] by (auto simp: only_annotation_def)
          then show ?thesis using True m v JMap anno one by (simp add: strip)
        qed
      qed
    qed
  qed
qed

theorem stripPatch_spec_witness:
  "stripPatch [(''metadata'', JMap [(''resourceVersion'', JAtom ''7''), (''annotations'', JMap [(applyAnnotation, JAtom ''x'')])])]
     = Inr None \<and>
   only_annotation (kept_metadata [(''resourceVersion'', JAtom ''7''), (''annotations'', JMap [(applyAnnotation, JAtom ''x'')])])"
proof -
  let ?m = "[(''resourceVersion'', JAtom ''7''), (''annotations'', JMap [(applyAnnotation, JAtom ''x'')])]"
  let ?p = "[(''metadata'', JMap ?m)]"
  have none: "stripPatch ?p = Inr None" by (simp add: stripPatch_def jget_def allowedFields_def)
  have "kept_metadata ?m \<noteq> []" by (simp add: kept_metadata_def allowedFields_def)
  then show ?thesis using stripPatch_spec [of ?p ?m] none by simp
qed

text \<open>
  What the metadata accessor does: annotations read back as they were set, setting them replaces
  them, and names, kinds and versions are not touched.
\<close>

definition accessor_ok :: "('o, 'w) apply_env \<Rightarrow> bool" where
  "accessor_ok env \<longleftrightarrow>
     (\<forall>a obj. annotationsOf env (setAnnotations env a obj) = a) \<and>
     (\<forall>a b obj. setAnnotations env a (setAnnotations env b obj) = setAnnotations env a obj) \<and>
     (\<forall>a obj. nameOf env (setAnnotations env a obj) = nameOf env obj) \<and>
     (\<forall>a obj. namespaceOf env (setAnnotations env a obj) = namespaceOf env obj) \<and>
     (\<forall>a obj. objectKinds env (setAnnotations env a obj) = objectKinds env obj)"

lemma accessor_simps:
  assumes "accessor_ok env"
  shows "annotationsOf env (setAnnotations env a obj) = a"
    and "setAnnotations env a (setAnnotations env b obj) = setAnnotations env a obj"
    and "nameOf env (setAnnotations env a obj) = nameOf env obj"
    and "namespaceOf env (setAnnotations env a obj) = namespaceOf env obj"
    and "objectKinds env (setAnnotations env a obj) = objectKinds env obj"
  using assms by (simp_all add: accessor_ok_def)

lemma map_del_put [simp]: "map_del k (map_put k v m) = map_del k m"
  by (induction m) (auto simp: map_del_def)

lemma map_put_put [simp]: "map_put k v (map_put k u m) = map_put k v m"
  by (induction m) auto

lemma map_put_del_id: "k \<notin> fst ` set m \<Longrightarrow> map_put k v m = m @ [(k, v)]"
  by (induction m) auto

text \<open>The configuration of an object: its encoding without the annotation.\<close>

definition configuration :: "('o, 'w) apply_env \<Rightarrow> 'o \<Rightarrow> go_error + string" where
  "configuration env obj = encodeObject env (setAnnotations env (map_del applyAnnotation (annotationsOf env obj)) obj)"

definition annotated :: "('o, 'w) apply_env \<Rightarrow> string \<Rightarrow> 'o \<Rightarrow> 'o" where
  "annotated env conf obj =
     setAnnotations env (map_del applyAnnotation (annotationsOf env obj) @ [(applyAnnotation, conf)]) obj"

lemma put_after_del: "map_put k v (map_del k m) = map_del k m @ [(k, v)]"
  by (rule map_put_del_id) auto

lemma CreateApplyAnnotation_annotated:
  assumes "accessor_ok env" and "configuration env obj = Inr conf" and "conf \<noteq> []"
  shows "CreateApplyAnnotation env obj = Inr (annotated env conf obj)"
  using assms(2,3)
  by (simp add: CreateApplyAnnotation_def GetModifiedConfiguration_def configuration_def Let_def
      setOriginalConfiguration_def accessor_simps [OF assms(1)] annotated_def put_after_del [symmetric])

lemma GetModified_left:
  assumes "accessor_ok env" and "configuration env obj = Inr conf" and "encodeObject env (annotated env conf obj) = Inr m"
  shows "GetModifiedConfiguration env True obj =
    (Inr m, annotated env (GetOriginalConfiguration env obj) obj)"
  using assms(2,3)
  by (simp add: GetModifiedConfiguration_def configuration_def Let_def accessor_simps [OF assms(1)] annotated_def
      put_after_del [symmetric] GetOriginalConfiguration_def)

lemma annotated_again:
  assumes "accessor_ok env"
  shows "configuration env (annotated env c obj) = configuration env obj"
    and "annotated env c (annotated env d obj) = annotated env c obj"
    and "nameOf env (annotated env c obj) = nameOf env obj"
    and "namespaceOf env (annotated env c obj) = namespaceOf env obj"
    and "GVKFrom env (annotated env c obj) = GVKFrom env obj"
    and "GetOriginalConfiguration env (annotated env c obj) = c"
proof -
  have del: "map_del applyAnnotation (map_del applyAnnotation a @ [(applyAnnotation, v)]) = map_del applyAnnotation a" for a v
    by (simp add: map_del_def)
  have get: "map_of (map_del applyAnnotation a @ [(applyAnnotation, v)]) applyAnnotation = Some v" for a :: "(string \<times> string) list" and v
    unfolding put_after_del [symmetric] by simp
  show "configuration env (annotated env c obj) = configuration env obj"
    and "annotated env c (annotated env d obj) = annotated env c obj"
    and "nameOf env (annotated env c obj) = nameOf env obj"
    and "namespaceOf env (annotated env c obj) = namespaceOf env obj"
    and "GVKFrom env (annotated env c obj) = GVKFrom env obj"
    by (simp_all add: annotated_def configuration_def GVKFrom_def accessor_simps [OF assms] del)
  show "GetOriginalConfiguration env (annotated env c obj) = c"
    by (simp only: GetOriginalConfiguration_def annotated_def accessor_simps [OF assms] get option.case)
qed

text \<open>
  Applying an object that the server does not have creates it once, unchanged but for the
  annotation, which then holds the object's own encoding without the annotation; that is what a
  later apply reads back as the configuration applied last.
\<close>

theorem apply_Apply_creates:
  assumes "accessor_ok env" and "ensureType env obj0 = Inr obj" and "apply_checked env obj = None"
    and "configuration env obj = Inr conf" and "conf \<noteq> []" and "encodeObject env (annotated env conf obj) = Inr m"
    and "NewObjectFromExisting env (annotated env (GetOriginalConfiguration env obj) obj) = Inr fresh"
    and "apGet env (namespaceOf env obj) (nameOf env obj) w = (Inl err, w1)" and "IsNotFound err"
  shows "apply_Apply env obj0 force w =
      map_prod (map_option (\<lambda>e. err_wrap e ''creating'')) id (apCreate env (annotated env conf obj) w1) \<and>
    GetOriginalConfiguration env (annotated env conf obj) = conf \<and>
    configuration env (annotated env conf obj) = Inr conf"
proof -
  note again = annotated_again [OF assms(1)]
  have "CreateApplyAnnotation env (annotated env (GetOriginalConfiguration env obj) obj) = Inr (annotated env conf obj)"
    using CreateApplyAnnotation_annotated [OF assms(1), of "annotated env (GetOriginalConfiguration env obj) obj" conf]
      assms(4,5) again by simp
  then have "apply_Apply env obj0 force w =
      (case apCreate env (annotated env conf obj) w1 of
         (Some err, w2) \<Rightarrow> (Some (err_wrap err ''creating''), w2) | (None, w2) \<Rightarrow> (None, w2))"
    using assms(2,3,7-9) again GetModified_left [OF assms(1,4,6)] by (simp add: apply_Apply_def)
  then show ?thesis
    using again assms(4) by (auto split: prod.splits option.splits)
qed

text \<open>A client over one stored object, with objects as pairs of a name and annotations.\<close>

definition pair_env :: "(string \<times> (string \<times> string) list, (string \<times> (string \<times> string) list) option) apply_env" where
  "pair_env =
     \<lparr>objectKinds = (\<lambda>_. Inr [\<lparr>gvkGroup = [], gvkVersion = ''v1'', gvkKind = ''Pod''\<rparr>]), schemeNew = (\<lambda>_. Inr ([], [])),
      emptyUnstructured = (\<lambda>_. None), setType = (\<lambda>_ x. x), nameOf = fst, namespaceOf = (\<lambda>_. []),
      generateNameOf = (\<lambda>_. []), resourceVersionOf = (\<lambda>_. []), setNames = (\<lambda>n ns x. (n, snd x)),
      annotationsOf = snd, setAnnotations = (\<lambda>a x. (fst x, a)),
      encodeObject = (\<lambda>x. Inr (fst x @ ''/'' @ concat (map snd (snd x)))), decodeObject = (\<lambda>s. Inr (s, [])),
      showObject = fst, threeWayJSON = (\<lambda>o1 m c. Inr m), threeWayStrategic = (\<lambda>o1 m c. Inr m),
      unmarshalPatch = (\<lambda>s. Inr [(''spec'', JAtom s)]),
      apGet = (\<lambda>ns n w. case w of None \<Rightarrow> (Inl (GoError NotFound n), w) | Some x \<Rightarrow> (Inr x, w)),
      apCreate = (\<lambda>x w. (None, Some x)), apPatch = (\<lambda>x p w. (None, w)), apDelete = (\<lambda>x w. (None, None)),
      pollChecks = 1\<rparr>"

theorem apply_Apply_creates_witness:
  "apply_Apply pair_env (''a'', [(''k'', ''v'')]) True None = (None, Some (''a'', [(''k'', ''v''), (applyAnnotation, ''a/v'')]))"
proof -
  let ?o = "(''a'', [(''k'', ''v'')]) :: string \<times> (string \<times> string) list"
  have acc: "accessor_ok pair_env" by (simp add: accessor_ok_def pair_env_def)
  have ty: "ensureType pair_env ?o = Inr ?o" by (simp add: ensureType_def GVKFrom_def pair_env_def)
  have chk: "apply_checked pair_env ?o = None" by (simp add: apply_checked_def pair_env_def)
  have conf: "configuration pair_env ?o = Inr ''a/v''" by (simp add: configuration_def pair_env_def map_del_def)
  have ann: "annotated pair_env ''a/v'' ?o = (''a'', [(''k'', ''v''), (applyAnnotation, ''a/v'')])"
    by (simp add: annotated_def pair_env_def map_del_def)
  have enc: "encodeObject pair_env (annotated pair_env ''a/v'' ?o) = Inr ''a/va/v''" unfolding ann by (simp add: pair_env_def)
  have new: "NewObjectFromExisting pair_env x = Inr ([], [])" for x
    by (simp add: NewObjectFromExisting_def GVKFrom_def pair_env_def)
  have get: "apGet pair_env (namespaceOf pair_env ?o) (nameOf pair_env ?o) None = (Inl (GoError NotFound ''a''), None)"
    by (simp add: pair_env_def)
  have "apCreate pair_env x None = (None, Some x)" for x by (simp add: pair_env_def)
  then show ?thesis
    using apply_Apply_creates [OF acc ty chk conf _ enc new get, of True] ann by (simp add: IsNotFound_def)
qed

end
