(* ===== verification/PolicyController.thy ===== *)
theory PolicyController
  imports Handler AuditLog
begin

text \<open>
  \<open>pkg/controller/policy.go\<close> and \<open>pkg/controller/handler.go\<close>: running a controller policy over
  the objects of the cluster. Events and the initial listing put object keys into a work queue,
  and a worker turns each key into an admission request for the policy's handler. The clients, the
  label selectors and the work queue are parameters.
\<close>

section \<open>Keys\<close>

text \<open>What \<open>meta.TypeAccessor\<close> and \<open>meta.Accessor\<close> read off an object.\<close>

record meta_object =
  moAPIVersion :: string
  moKind :: string
  moNamespace :: string
  moName :: string
  moLabels :: "(string \<times> string) list"

text \<open>\<open>schema.ParseGroupVersion\<close>.\<close>

definition ParseGroupVersion :: "string \<Rightarrow> go_error + (string \<times> string)" where
  "ParseGroupVersion gv =
     (if gv = [] \<or> gv = ''/'' then Inr ([], [])
      else if length (filter (\<lambda>c. c = CHR ''/'') gv) = 0 then Inr ([], gv)
      else if length (filter (\<lambda>c. c = CHR ''/'') gv) = 1
      then (case split_first (CHR ''/'') gv of [g, v] \<Rightarrow> Inr (g, v) | _ \<Rightarrow> Inr ([], gv))
      else Inl (Errorf (''unexpected GroupVersion string: '' @ gv)))"

definition keyFunc :: "meta_object \<Rightarrow> go_error + string" where
  "keyFunc obj =
     (case ParseGroupVersion (moAPIVersion obj) of
        Inl err \<Rightarrow> Inl err
      | Inr (grp, version) \<Rightarrow>
          Inr (version @ ''|'' @ grp @ ''|'' @ moKind obj @ ''|'' @ moNamespace obj @ ''|'' @ moName obj))"

section \<open>Adding objects\<close>

record controller_env =
  getNamespaceLabels :: "string \<Rightarrow> go_error + (string \<times> string) list"
  selectorOf :: "LabelSelector \<Rightarrow> go_error + ((string \<times> string) list \<Rightarrow> bool)"
    \<comment> \<open>\<open>metav1.LabelSelectorAsSelector\<close> and the selector's \<open>Matches\<close>\<close>

text \<open>\<open>Add\<close>: the key to enqueue, if the object passes the policy's selectors, or an error.\<close>

definition selected :: "controller_env \<Rightarrow> LabelSelector option \<Rightarrow> (string \<times> string) list \<Rightarrow> bool" where
  "selected env sel labels =
     (case sel of
        None \<Rightarrow> True
      | Some s \<Rightarrow> (case selectorOf env s of Inl err \<Rightarrow> False | Inr matches \<Rightarrow> matches labels))"

definition controller_Add :: "controller_env \<Rightarrow> meta_object \<Rightarrow> JsPolicy \<Rightarrow> go_error + string option" where
  "controller_Add env obj jsPolicy =
     (if moNamespace obj \<noteq> [] \<and> NamespaceSelector (pSpec jsPolicy) \<noteq> None \<and>
         (case getNamespaceLabels env (moNamespace obj) of
            Inl err \<Rightarrow> True
          | Inr labels \<Rightarrow> \<not> selected env (NamespaceSelector (pSpec jsPolicy)) labels)
      then Inr None
      else if \<not> selected env (ObjectSelector (pSpec jsPolicy)) (moLabels obj) then Inr None
      else map_sum id Some (keyFunc obj))"

text \<open>
  The informer's event handler (\<open>handler.add\<close>): each policy registered there, looked up again by
  name, gets the object; errors are logged. The result is the keys, each with the policy it is
  queued for.
\<close>

definition handler_add ::
    "controller_env \<Rightarrow> (string \<Rightarrow> go_error + JsPolicy) \<Rightarrow> string list \<Rightarrow> meta_object \<Rightarrow> (string \<times> string) list" where
  "handler_add env getPol policies obj =
     concat (map (\<lambda>name. case getPol name of
                           Inl err \<Rightarrow> []
                         | Inr jsPolicy \<Rightarrow>
                             (case controller_Add env obj jsPolicy of
                                Inr (Some key) \<Rightarrow> [(name, key)]
                              | _ \<Rightarrow> [])) policies)"

text \<open>
  The events an informer sends: an update shows the new object, and the last known state of an
  object whose deletion was missed is unwrapped.
\<close>

datatype informer_event =
    OnAdd meta_object
  | OnUpdate meta_object meta_object
  | OnDelete meta_object
  | OnDeleteUnknown meta_object \<comment> \<open>\<open>cache.DeletedFinalStateUnknown\<close>\<close>

fun event_object :: "informer_event \<Rightarrow> meta_object" where
  "event_object (OnAdd obj) = obj"
| "event_object (OnUpdate oldObj newObj) = newObj"
| "event_object (OnDelete obj) = obj"
| "event_object (OnDeleteUnknown obj) = obj"

text \<open>
  \<open>RequeueAll\<close>: the objects of every kind listed and added. The listed objects get the kind and
  version they were listed for. A missing policy is no error; the first failure ends the loop.
\<close>

fun add_all :: "controller_env \<Rightarrow> JsPolicy \<Rightarrow> meta_object list \<Rightarrow> string list \<times> go_error option" where
  "add_all env jsPolicy [] = ([], None)"
| "add_all env jsPolicy (obj # objs) =
     (case controller_Add env obj jsPolicy of
        Inl err \<Rightarrow> ([], Some (err_wrap err ''adding object to queue''))
      | Inr key \<Rightarrow>
          (case add_all env jsPolicy objs of
             (keys, err) \<Rightarrow> ((case key of None \<Rightarrow> keys | Some k \<Rightarrow> k # keys), err)))"

fun requeue_gvks ::
    "controller_env \<Rightarrow> (GroupVersionKind \<Rightarrow> go_error + meta_object list) \<Rightarrow> JsPolicy \<Rightarrow>
     GroupVersionKind list \<Rightarrow> string list \<times> go_error option" where
  "requeue_gvks env lister jsPolicy [] = ([], None)"
| "requeue_gvks env lister jsPolicy (gvk # gvks) =
     (case lister gvk of
        Inl err \<Rightarrow> ([], Some (err_wrap err (''listing objects for '' @ gvk_String gvk)))
      | Inr objs \<Rightarrow>
          (case add_all env jsPolicy
                  (map (\<lambda>o1. o1\<lparr>moAPIVersion := GroupVersion_String (gvkGroup gvk) (gvkVersion gvk),
                               moKind := gvkKind gvk\<rparr>) objs) of
             (keys, Some err) \<Rightarrow> (keys, Some err)
           | (keys, None) \<Rightarrow>
               (case requeue_gvks env lister jsPolicy gvks of (keys', err) \<Rightarrow> (keys @ keys', err))))"

definition RequeueAll ::
    "controller_env \<Rightarrow> (string \<Rightarrow> go_error + JsPolicy) \<Rightarrow> (GroupVersionKind \<Rightarrow> go_error + meta_object list) \<Rightarrow>
     string \<Rightarrow> GroupVersionKind list \<Rightarrow> string list \<times> go_error option" where
  "RequeueAll env getPol lister name gvks =
     (case getPol name of
        Inl err \<Rightarrow> ([], None)
      | Inr jsPolicy \<Rightarrow> requeue_gvks env lister jsPolicy gvks)"

section \<open>Processing a key\<close>

record cached_object =
  coRaw :: json
  coDeletionTimestamp :: "gotime option"

record process_env =
  peGetPolicy :: "go_error + JsPolicy" \<comment> \<open>the controller's policy\<close>
  peGetObject :: "GroupVersionKind \<Rightarrow> string \<Rightarrow> string \<Rightarrow> go_error + cached_object"
  peHandle :: "AdmRequest \<Rightarrow> JsPolicy \<Rightarrow> AdmResponse \<times> Response option"

text \<open>
  What \<open>process\<close> does: panic (the key has too few parts), fail, skip the operation, or run the
  policy on a request; then whether it logs and reschedules.
\<close>

datatype process_result =
    ProcessPanic
  | ProcessError go_error
  | ProcessSkipped
  | Processed AdmRequest AdmResponse bool bool \<comment> \<open>log, reschedule\<close>

definition operation_of :: "go_error + cached_object \<Rightarrow> string" where
  "operation_of res =
     (case res of
        Inl err \<Rightarrow> ''DELETE''
      | Inr o1 \<Rightarrow> if coDeletionTimestamp o1 \<noteq> None then ''DELETE'' else ''CREATE'')"

definition process_request ::
    "process_env \<Rightarrow> JsPolicy \<Rightarrow> GroupVersionKind \<Rightarrow> string \<Rightarrow> string \<Rightarrow> go_error + cached_object \<Rightarrow> process_result" where
  "process_request env jsPolicy gvk namespace name res =
     (let operation = operation_of res in
      if \<not> (\<exists>op \<in> set (Operations (pSpec jsPolicy)). op = ''*'' \<or> op = operation) then ProcessSkipped
      else
        let request = \<lparr>rqUID = [], rqKind = gvk, rqName = name, rqNamespace = namespace,
              rqOperation = operation, rqUserInfo = \<lparr>uiUsername = [], uiUID = []\<rparr>,
              rqObject = (case res of Inl err \<Rightarrow> [] | Inr o1 \<Rightarrow> coRaw o1), rqOldObject = []\<rparr>;
            (response, rawResponse) = peHandle env request jsPolicy
        in Processed request response
             (\<not> aAllowed response \<and> AuditPolicy (pSpec jsPolicy) \<noteq> Some AuditPolicySkip)
             (case rawResponse of None \<Rightarrow> False | Some raw \<Rightarrow> Reschedule raw))"

text \<open>\<open>process\<close> after the split of the key, and as a whole.\<close>

definition process_object :: "process_env \<Rightarrow> GroupVersionKind \<Rightarrow> string \<Rightarrow> string \<Rightarrow> process_result" where
  "process_object env gvk namespace name =
     (case peGetPolicy env of
        Inl err \<Rightarrow> ProcessError err
      | Inr jsPolicy \<Rightarrow>
          (case peGetObject env gvk namespace name of
             Inl err \<Rightarrow>
               if \<not> IsNotFound err
               then ProcessError (Errorf (''error retrieving object '' @ namespace @ ''/'' @ name @
                      '' from cache: '' @ err_text err))
               else process_request env jsPolicy gvk namespace name (Inl err)
           | Inr o1 \<Rightarrow> process_request env jsPolicy gvk namespace name (Inr o1)))"

definition process :: "process_env \<Rightarrow> string \<Rightarrow> process_result" where
  "process env item =
     (case split_on (CHR ''|'') item of
        version # grp # kind # namespace # name # _ \<Rightarrow>
          process_object env \<lparr>gvkGroup = grp, gvkVersion = version, gvkKind = kind\<rparr> namespace name
      | _ \<Rightarrow> ProcessPanic)"

text \<open>
  The worker: after each key, what it tells the queue. \<open>Done\<close> is deferred, so it comes last, also
  when \<open>process\<close> panics.
\<close>

datatype queue_call = AddRateLimited string | Forget string | QueueDone string

definition worker_calls :: "string \<Rightarrow> process_result \<Rightarrow> queue_call list" where
  "worker_calls key r =
     (case r of
        ProcessPanic \<Rightarrow> [QueueDone key]
      | Processed request response log reschedule \<Rightarrow>
          if reschedule then [AddRateLimited key, QueueDone key] else [Forget key, QueueDone key]
      | _ \<Rightarrow> [Forget key, QueueDone key])"

section \<open>Keys come back\<close>

definition clean :: "string \<Rightarrow> bool" where
  "clean s \<longleftrightarrow> CHR ''|'' \<notin> set s"

lemma split_key:
  assumes "clean v" "clean g" "clean k" "clean ns"
  shows "split_on (CHR ''|'') (v @ ''|'' @ g @ ''|'' @ k @ ''|'' @ ns @ ''|'' @ n) =
    v # g # k # ns # split_on (CHR ''|'') n"
  using assms by (simp add: clean_def split_on_append_sep)

lemma hd_split_on: "hd (split_on c s) = takeWhile (\<lambda>x. x \<noteq> c) s"
  by (induction s) (auto split: list.splits simp: hd_def)

lemma keyFunc_split:
  assumes "ParseGroupVersion (moAPIVersion obj) = Inr (g, v)"
    and "clean v" "clean g" "clean (moKind obj)" "clean (moNamespace obj)"
  shows "\<exists>key rest. keyFunc obj = Inr key \<and>
    split_on (CHR ''|'') key = v # g # moKind obj # moNamespace obj #
      takeWhile (\<lambda>x. x \<noteq> CHR ''|'') (moName obj) # rest"
proof -
  obtain n rest where r: "split_on (CHR ''|'') (moName obj) = n # rest"
    by (cases "split_on (CHR ''|'') (moName obj)") auto
  have "n = takeWhile (\<lambda>x. x \<noteq> CHR ''|'') (moName obj)"
    using hd_split_on [of "CHR ''|''" "moName obj"] r by simp
  then show ?thesis
    using split_key [OF assms(2-5), of "moName obj"] r by (simp add: keyFunc_def assms(1))
qed

section \<open>What is queued\<close>

lemma controller_Add_iff:
  "controller_Add env obj p = Inr (Some key) \<longleftrightarrow>
     keyFunc obj = Inr key \<and> selected env (ObjectSelector (pSpec p)) (moLabels obj) \<and>
     (moNamespace obj = [] \<or> NamespaceSelector (pSpec p) = None \<or>
      (\<exists>labels. getNamespaceLabels env (moNamespace obj) = Inr labels \<and>
         selected env (NamespaceSelector (pSpec p)) labels))"
  by (cases "keyFunc obj"; cases "getNamespaceLabels env (moNamespace obj)")
    (auto simp: controller_Add_def)

lemma add_all_keys:
  "add_all env p objs = (keys, None) \<Longrightarrow>
   set keys = {k. \<exists>o1 \<in> set objs. controller_Add env o1 p = Inr (Some k)}"
proof (induction objs arbitrary: keys)
  case Nil
  then show ?case by simp
next
  case (Cons o1 objs)
  then obtain k ks where "controller_Add env o1 p = Inr k" "add_all env p objs = (ks, None)"
    "keys = (case k of None \<Rightarrow> ks | Some x \<Rightarrow> x # ks)"
    by (auto split: sum.splits prod.splits)
  then show ?case using Cons.IH by (auto split: option.splits)
qed

text \<open>An object as \<open>RequeueAll\<close> sees it, listed for a kind.\<close>

definition listed_as :: "GroupVersionKind \<Rightarrow> meta_object \<Rightarrow> meta_object" where
  "listed_as gvk o1 =
     o1\<lparr>moAPIVersion := GroupVersion_String (gvkGroup gvk) (gvkVersion gvk), moKind := gvkKind gvk\<rparr>"

lemma requeue_gvks_keys:
  "requeue_gvks env lister p gvks = (keys, None) \<Longrightarrow>
   set keys = {k. \<exists>gvk \<in> set gvks. \<exists>objs. lister gvk = Inr objs \<and>
     (\<exists>o1 \<in> set objs. controller_Add env (listed_as gvk o1) p = Inr (Some k))}"
proof (induction gvks arbitrary: keys)
  case Nil
  then show ?case by simp
next
  case (Cons gvk gvks)
  obtain objs where objs: "lister gvk = Inr objs" using Cons.prems by (auto split: sum.splits)
  let ?seen = "map (listed_as gvk) objs"
  obtain ks e where a: "add_all env p ?seen = (ks, e)" by fastforce
  obtain ks' e' where r: "requeue_gvks env lister p gvks = (ks', e')" by fastforce
  have "e = None \<and> e' = None \<and> keys = ks @ ks'"
    using Cons.prems by (cases e) (auto simp: objs a [unfolded listed_as_def] r)
  then show ?case
    using add_all_keys [of env p ?seen ks] Cons.IH [of ks'] a r objs by auto
qed

section \<open>Properties\<close>

text \<open>
  C20: the key of an object brings the worker back to that object: its group, version, kind and
  namespace, and its name up to the first vertical bar. So every name without one is found again,
  and an object whose name has one is looked up under a cut name.
\<close>

theorem process_key:
  assumes "keyFunc obj = Inr key" and "ParseGroupVersion (moAPIVersion obj) = Inr (g, v)"
    and "clean v" and "clean g" and "clean (moKind obj)" and "clean (moNamespace obj)"
  shows "process env key =
      process_object env \<lparr>gvkGroup = g, gvkVersion = v, gvkKind = moKind obj\<rparr> (moNamespace obj)
        (takeWhile (\<lambda>x. x \<noteq> CHR ''|'') (moName obj)) \<and>
    (takeWhile (\<lambda>x. x \<noteq> CHR ''|'') (moName obj) = moName obj \<longleftrightarrow> clean (moName obj))"
proof -
  have "takeWhile (\<lambda>x. x \<noteq> CHR ''|'') n = n \<longleftrightarrow> clean n" for n
    by (auto simp: clean_def takeWhile_eq_all_conv)
  then have name: "takeWhile (\<lambda>x. x \<noteq> CHR ''|'') (moName obj) = moName obj \<longleftrightarrow> clean (moName obj)" .
  obtain rest where "split_on (CHR ''|'') key = v # g # moKind obj # moNamespace obj #
      takeWhile (\<lambda>x. x \<noteq> CHR ''|'') (moName obj) # rest"
    using keyFunc_split [OF assms(2-6)] assms(1) by auto
  then show ?thesis using name by (simp only: process_def list.case simp_thms)
qed

definition example_process :: "process_env" where
  "example_process =
     \<lparr>peGetPolicy = Inr example_policy, peGetObject = (\<lambda>gvk ns n. Inl (GoError NotFound n)),
      peHandle = (\<lambda>req p. (Allowed [], None))\<rparr>"

theorem process_key_witness:
  "\<exists>key. keyFunc \<lparr>moAPIVersion = ''rbac.authorization.k8s.io/v1'', moKind = ''ClusterRole'', moNamespace = [],
       moName = ''a|b'', moLabels = []\<rparr> = Inr key \<and>
     process example_process key = process_object example_process
       \<lparr>gvkGroup = ''rbac.authorization.k8s.io'', gvkVersion = ''v1'', gvkKind = ''ClusterRole''\<rparr> [] ''a''"
proof -
  let ?o = "\<lparr>moAPIVersion = ''rbac.authorization.k8s.io/v1'', moKind = ''ClusterRole'', moNamespace = [],
       moName = ''a|b'', moLabels = []\<rparr>"
  have gv: "ParseGroupVersion (moAPIVersion ?o) = Inr (''rbac.authorization.k8s.io'', ''v1'')"
    by (simp add: ParseGroupVersion_def split_first_def)
  let ?key = "''v1|rbac.authorization.k8s.io|ClusterRole||a|b''"
  have k: "keyFunc ?o = Inr ?key" by (simp add: keyFunc_def gv [simplified])
  have "process example_process ?key = process_object example_process
       \<lparr>gvkGroup = ''rbac.authorization.k8s.io'', gvkVersion = ''v1'', gvkKind = moKind ?o\<rparr> (moNamespace ?o)
       (takeWhile (\<lambda>x. x \<noteq> CHR ''|'') (moName ?o))"
    using process_key [OF k gv, of example_process] by (simp add: clean_def)
  then show ?thesis using k by (intro exI [of _ ?key]) simp
qed


text \<open>
  Requeuing everything, when it reports no error, enqueues exactly the keys of the objects of
  the controller's kinds that pass the policy's namespace and object selectors, each under the kind
  it was listed for.
\<close>

theorem RequeueAll_complete:
  assumes "getPol name = Inr p" and "RequeueAll env getPol lister name gvks = (keys, None)"
  shows "key \<in> set keys \<longleftrightarrow>
    (\<exists>gvk \<in> set gvks. \<exists>objs. lister gvk = Inr objs \<and> (\<exists>o1 \<in> set objs.
       keyFunc (listed_as gvk o1) = Inr key \<and> selected env (ObjectSelector (pSpec p)) (moLabels o1) \<and>
       (if moNamespace o1 = [] then True
        else case NamespaceSelector (pSpec p) of
          None \<Rightarrow> True
        | Some sel \<Rightarrow> \<exists>labels. getNamespaceLabels env (moNamespace o1) = Inr labels \<and>
            selected env (Some sel) labels)))"
proof -
  have all: "requeue_gvks env lister p gvks = (keys, None)"
    using assms by (simp add: RequeueAll_def)
  have keys: "key \<in> set keys \<longleftrightarrow> (\<exists>gvk \<in> set gvks. \<exists>objs. lister gvk = Inr objs \<and>
      (\<exists>o1 \<in> set objs. controller_Add env (listed_as gvk o1) p = Inr (Some key)))"
    unfolding requeue_gvks_keys [OF all] by simp
  have sel: "controller_Add env (listed_as gvk o1) p = Inr (Some key) \<longleftrightarrow>
      keyFunc (listed_as gvk o1) = Inr key \<and> selected env (ObjectSelector (pSpec p)) (moLabels o1) \<and>
      (if moNamespace o1 = [] then True
       else case NamespaceSelector (pSpec p) of
          None \<Rightarrow> True
        | Some sel \<Rightarrow> \<exists>labels. getNamespaceLabels env (moNamespace o1) = Inr labels \<and>
            selected env (Some sel) labels)" for gvk o1
  proof -
    have "moNamespace (listed_as gvk o1) = moNamespace o1" "moLabels (listed_as gvk o1) = moLabels o1"
      by (simp_all add: listed_as_def)
    then show ?thesis by (cases "NamespaceSelector (pSpec p)") (simp_all add: controller_Add_iff)
  qed
  show ?thesis unfolding keys sel by (rule refl)
qed

theorem RequeueAll_complete_witness:
  "fst (RequeueAll \<lparr>getNamespaceLabels = (\<lambda>_. Inr []), selectorOf = (\<lambda>_. Inr (\<lambda>_. True))\<rparr>
     (\<lambda>_. Inr example_policy)
     (\<lambda>_. Inr [\<lparr>moAPIVersion = [], moKind = [], moNamespace = [], moName = ''n1'', moLabels = []\<rparr>])
     ''p'' [\<lparr>gvkGroup = [], gvkVersion = ''v1'', gvkKind = ''Node''\<rparr>]) \<noteq> []"
proof -
  let ?env = "\<lparr>getNamespaceLabels = (\<lambda>_. Inr []), selectorOf = (\<lambda>_. Inr (\<lambda>_. True))\<rparr>"
  let ?o = "\<lparr>moAPIVersion = [], moKind = [], moNamespace = [], moName = ''n1'', moLabels = []\<rparr>"
  let ?lister = "\<lambda>_::GroupVersionKind. (Inr [?o] :: go_error + meta_object list)"
  let ?gvk = "\<lparr>gvkGroup = [], gvkVersion = ''v1'', gvkKind = ''Node''\<rparr>"
  have sel: "ObjectSelector (pSpec example_policy) = None" by (simp add: example_policy_def)
  have key: "keyFunc (listed_as ?gvk ?o) = Inr ''v1||Node||n1''"
    by (simp add: keyFunc_def listed_as_def GroupVersion_String_def ParseGroupVersion_def)
  obtain keys e where r: "RequeueAll ?env (\<lambda>_. Inr example_policy) ?lister ''p'' [?gvk] = (keys, e)"
    by fastforce
  have "e = None"
    using r key sel by (auto simp: RequeueAll_def controller_Add_def selected_def listed_as_def)
  then show ?thesis
    using RequeueAll_complete [of "\<lambda>_. Inr example_policy" "''p''" example_policy ?env ?lister "[?gvk]" keys
        "''v1||Node||n1''"] r key sel
    by (auto simp: selected_def)
qed

end
