(* ===== verification/PolicyManager.thy ===== *)
theory PolicyManager
  imports PolicyController
begin

text \<open>
  \<open>pkg/controller/manager.go\<close> and the handler list of \<open>pkg/controller/handler.go\<close>: which
  controller policies run and which informer events reach them. The manager's mutex serialises its
  operations, so a run is a sequence of steps. Go's maps are functions to option; a map iteration
  whose order reaches a result takes its order as a parameter.
\<close>

section \<open>The state\<close>

text \<open>
  A controller object: its policy's name, the kinds it watches, and the number of the context it is
  started with, which tells two controllers of one policy apart.
\<close>

record controller =
  ctlName :: string
  ctlGVKs :: "GroupVersionKind list"
  ctlCtx :: nat

record policy_entry =
  peController :: controller
  peGVKs :: "GroupVersionKind list"
  peCancel :: nat

record manager =
  policies :: "string \<rightharpoonup> policy_entry"
  informers :: "GroupVersionKind \<rightharpoonup> controller list" \<comment> \<open>a handler is its list of controllers\<close>
  nextCtx :: nat
  liveCtx :: "nat list" \<comment> \<open>the contexts of the started controllers that are not cancelled\<close>
  queueOf :: "nat \<Rightarrow> string list" \<comment> \<open>each controller's work queue\<close>

text \<open>The clients, caches and the mapper at one operation.\<close>

record manager_env =
  meController :: controller_env
  meGetPolicy :: "string \<Rightarrow> go_error + JsPolicy"
  meList :: "GroupVersionKind \<Rightarrow> go_error + meta_object list"
  meGetInformer :: "GroupVersionKind \<Rightarrow> go_error option"
  meKindsFor :: "string \<Rightarrow> go_error + GroupVersionKind list"
  meOrder :: "GroupVersionKind list \<Rightarrow> GroupVersionKind list" \<comment> \<open>map iteration\<close>

section \<open>The kinds of a policy\<close>

definition matched :: "string list \<Rightarrow> string \<Rightarrow> bool" where
  "matched allowed x \<longleftrightarrow> allowed = [] \<or> (\<exists>g \<in> set allowed. g = ''*'' \<or> g = x)"

definition groupKind :: "GroupVersionKind \<Rightarrow> string \<times> string" where
  "groupKind gvk = (gvkGroup gvk, gvkKind gvk)"

text \<open>One kind of a resource: \<open>allGVKs\<close> and \<open>groupKinds\<close> before and after.\<close>

definition add_gvk ::
    "JsPolicy \<Rightarrow> GroupVersionKind \<Rightarrow> GroupVersionKind list \<times> (string \<times> string) list \<Rightarrow>
     GroupVersionKind list \<times> (string \<times> string) list" where
  "add_gvk policy gvk acc =
     (case acc of (allGVKs, groupKinds) \<Rightarrow>
        if matched (APIVersions (pSpec policy)) (gvkVersion gvk) \<and>
           matched (APIGroups (pSpec policy)) (gvkGroup gvk) \<and> groupKind gvk \<notin> set groupKinds
        then (List.insert gvk allGVKs, List.insert (groupKind gvk) groupKinds)
        else (allGVKs, groupKinds))"

fun resource_gvks ::
    "manager_env \<Rightarrow> JsPolicy \<Rightarrow> string list \<Rightarrow> GroupVersionKind list \<times> (string \<times> string) list \<Rightarrow>
     go_error + GroupVersionKind list" where
  "resource_gvks env policy [] acc = Inr (fst acc)"
| "resource_gvks env policy (r # rs) acc =
     (if r = ''*'' then Inl (Errorf ''wildcard resources are not allowed for background policies'')
      else case meKindsFor env r of
             Inl err \<Rightarrow> Inl (err_wrap err (''get kinds for resource '' @ r))
           | Inr gvks \<Rightarrow> resource_gvks env policy rs (fold (add_gvk policy) gvks acc))"

definition gvksFromPolicy :: "manager_env \<Rightarrow> JsPolicy \<Rightarrow> go_error + GroupVersionKind list" where
  "gvksFromPolicy env policy =
     (if Resources (pSpec policy) = []
      then Inl (Errorf ''cannot register a policy that has no resources specified'')
      else case resource_gvks env policy (Resources (pSpec policy)) ([], []) of
             Inl err \<Rightarrow> Inl err
           | Inr allGVKs \<Rightarrow>
               if meOrder env allGVKs = []
               then Inl (Errorf (''no kinds found for resources ['' @
                      join_with '' '' (Resources (pSpec policy)) @ '']''))
               else Inr (meOrder env allGVKs))"

definition areGVKsEqual :: "GroupVersionKind list \<Rightarrow> GroupVersionKind list \<Rightarrow> bool" where
  "areGVKsEqual o1 o2 \<longleftrightarrow>
     length o1 = length o2 \<and>
     (\<forall>gvk \<in> set o1. \<exists>gvk2 \<in> set o2.
        gvkKind gvk = gvkKind gvk2 \<and> gvkGroup gvk = gvkGroup gvk2 \<and> gvkVersion gvk = gvkVersion gvk2)"

section \<open>Operations\<close>

definition RemovePolicy :: "controller \<Rightarrow> controller list \<Rightarrow> controller list" where
  "RemovePolicy policy h = filter (\<lambda>p. ctlName p \<noteq> ctlName policy) h"

definition AddPolicy :: "controller \<Rightarrow> controller list \<Rightarrow> controller list" where
  "AddPolicy policy h = h @ [policy]"

text \<open>The rate limiting queue keeps one copy of a waiting key.\<close>

definition queue_Add :: "string \<Rightarrow> string list \<Rightarrow> string list" where
  "queue_Add key q = (if key \<in> set q then q else q @ [key])"

definition requeue :: "manager_env \<Rightarrow> controller \<Rightarrow> manager \<Rightarrow> manager \<times> go_error option" where
  "requeue env c st =
     (case RequeueAll (meController env) (meGetPolicy env) (meList env) (ctlName c) (ctlGVKs c) of
        (keys, err) \<Rightarrow> (st\<lparr>queueOf := (queueOf st)(ctlCtx c := fold queue_Add keys (queueOf st (ctlCtx c)))\<rparr>, err))"

fun ensure_informers :: "manager_env \<Rightarrow> GroupVersionKind list \<Rightarrow> manager \<Rightarrow> manager \<times> go_error option" where
  "ensure_informers env [] st = (st, None)"
| "ensure_informers env (gvk # gvks) st =
     (if informers st gvk = None
      then (case meGetInformer env gvk of
              Some err \<Rightarrow> (st, Some (err_wrap err (''get informer for '' @ gvk_String gvk)))
            | None \<Rightarrow> ensure_informers env gvks (st\<lparr>informers := (informers st)(gvk \<mapsto> [])\<rparr>))
      else ensure_informers env gvks st)"

definition add_to_handlers :: "controller \<Rightarrow> GroupVersionKind list \<Rightarrow> manager \<Rightarrow> manager" where
  "add_to_handlers c gvks st =
     fold (\<lambda>gvk st. st\<lparr>informers := (informers st)(gvk := map_option (AddPolicy c) (informers st gvk))\<rparr>) gvks st"

text \<open>\<open>addNoLock\<close>: a failing \<open>RequeueAll\<close> is only logged.\<close>

definition addNoLock ::
    "manager_env \<Rightarrow> JsPolicy \<Rightarrow> GroupVersionKind list \<Rightarrow> manager \<Rightarrow> manager \<times> go_error option" where
  "addNoLock env jsPolicy gvks st =
     (if policies st (pName jsPolicy) \<noteq> None then (st, None)
      else case ensure_informers env gvks st of
             (st1, Some err) \<Rightarrow> (st1, Some err)
           | (st1, None) \<Rightarrow>
               let c = \<lparr>ctlName = pName jsPolicy, ctlGVKs = gvks, ctlCtx = nextCtx st1\<rparr>;
                   st2 = add_to_handlers c gvks st1;
                   st3 = st2\<lparr>nextCtx := Suc (nextCtx st2), liveCtx := nextCtx st2 # liveCtx st2,
                             queueOf := (queueOf st2)(ctlCtx c := [])\<rparr>;
                   st4 = st3\<lparr>policies := (policies st3)(pName jsPolicy \<mapsto>
                               \<lparr>peController = c, peGVKs = gvks, peCancel = ctlCtx c\<rparr>)\<rparr>
               in (fst (requeue env c st4), None))"

definition deleteNoLock :: "string \<Rightarrow> manager \<Rightarrow> manager" where
  "deleteNoLock name st =
     (case policies st name of
        None \<Rightarrow> st
      | Some pol \<Rightarrow>
          st\<lparr>informers := (\<lambda>gvk. map_option (RemovePolicy (peController pol)) (informers st gvk)),
             liveCtx := removeAll (peCancel pol) (liveCtx st),
             policies := (policies st)(name := None)\<rparr>)"

definition manager_Update :: "manager_env \<Rightarrow> JsPolicy \<Rightarrow> bool \<Rightarrow> manager \<Rightarrow> manager \<times> go_error option" where
  "manager_Update env jsPolicy req st =
     (case gvksFromPolicy env jsPolicy of
        Inl err \<Rightarrow> (st, Some err)
      | Inr gvks \<Rightarrow>
          (case policies st (pName jsPolicy) of
             None \<Rightarrow> addNoLock env jsPolicy gvks st
           | Some oldPolicy \<Rightarrow>
               if areGVKsEqual (peGVKs oldPolicy) gvks
               then (if req then requeue env (peController oldPolicy) st else (st, None))
               else addNoLock env jsPolicy gvks (deleteNoLock (pName jsPolicy) st)))"

definition manager_Delete :: "string \<Rightarrow> manager \<Rightarrow> manager" where
  "manager_Delete name st = deleteNoLock name st"

text \<open>The informers that the cache must keep, and the handlers left.\<close>

definition garbageCollectInformers :: "manager \<Rightarrow> manager \<times> (GroupVersionKind \<Rightarrow> bool)" where
  "garbageCollectInformers st =
     (st\<lparr>informers := (\<lambda>gvk. if informers st gvk = Some [] then None else informers st gvk)\<rparr>,
      (\<lambda>gvk. informers st gvk \<noteq> None \<and> informers st gvk \<noteq> Some []))"

text \<open>\<open>cleanup\<close> cancels every policy in the map and forgets all of them.\<close>

definition manager_cleanup :: "string list \<Rightarrow> manager \<Rightarrow> manager" where
  "manager_cleanup names st =
     st\<lparr>liveCtx := fold (\<lambda>name live. case policies st name of
                                      None \<Rightarrow> live
                                    | Some pol \<Rightarrow> removeAll (peCancel pol) live) names (liveCtx st),
        policies := (\<lambda>_. None), informers := (\<lambda>_. None)\<rparr>"

definition newManager :: manager where
  "newManager = \<lparr>policies = (\<lambda>_. None), informers = (\<lambda>_. None), nextCtx = 0, liveCtx = [],
                 queueOf = (\<lambda>_. [])\<rparr>"

text \<open>An event of a kind reaches the controllers of its handler.\<close>

definition manager_event ::
    "manager_env \<Rightarrow> GroupVersionKind \<Rightarrow> informer_event \<Rightarrow> manager \<Rightarrow> (string \<times> string) list" where
  "manager_event env gvk ev st =
     (case informers st gvk of
        None \<Rightarrow> []
      | Some h \<Rightarrow> handler_add (meController env) (meGetPolicy env) (map ctlName h) (event_object ev))"

section \<open>Steps\<close>

datatype manager_op =
    OpUpdate JsPolicy bool
  | OpDelete string
  | OpGarbageCollect
  | OpCleanup

text \<open>\<open>policyNames\<close> lists the keys of the policies map, for \<open>cleanup\<close>'s loop.\<close>

definition lists_policies :: "string list \<Rightarrow> manager \<Rightarrow> bool" where
  "lists_policies names st \<longleftrightarrow> set names = dom (policies st)"

text \<open>A Go map is iterated once per key, in some order.\<close>

definition order_ok :: "manager_env \<Rightarrow> bool" where
  "order_ok env \<longleftrightarrow> (\<forall>xs. mset (meOrder env xs) = mset xs)"

inductive manager_step :: "manager \<Rightarrow> manager_op \<Rightarrow> manager \<Rightarrow> bool" where
  update: "order_ok env \<Longrightarrow> manager_Update env p req st = (st', err) \<Longrightarrow> manager_step st (OpUpdate p req) st'"
| delete: "manager_step st (OpDelete name) (manager_Delete name st)"
| gc: "manager_step st OpGarbageCollect (fst (garbageCollectInformers st))"
| cleanup: "lists_policies names st \<Longrightarrow> manager_step st OpCleanup (manager_cleanup names st)"

inductive manager_reachable :: "manager \<Rightarrow> bool" where
  init: "manager_reachable newManager"
| step: "manager_reachable st \<Longrightarrow> manager_step st op st' \<Longrightarrow> manager_reachable st'"

inductive_cases manager_stepE: "manager_step st op st'"

section \<open>The kinds chosen\<close>

lemma distinct_fold_add_gvk:
  "distinct (fst acc) \<Longrightarrow> distinct (fst (fold (add_gvk policy) gvks acc))"
  by (induction gvks arbitrary: acc) (auto simp: add_gvk_def split: prod.splits)

lemma resource_gvks_distinct:
  "resource_gvks env policy rs acc = Inr gvks \<Longrightarrow> distinct (fst acc) \<Longrightarrow> distinct gvks"
  by (induction env policy rs acc rule: resource_gvks.induct)
    (auto split: if_splits sum.splits intro: distinct_fold_add_gvk)

lemma order_ok_simps:
  assumes "order_ok env"
  shows "set (meOrder env xs) = set xs" and "distinct (meOrder env xs) \<longleftrightarrow> distinct xs"
    and "length (meOrder env xs) = length xs"
  using assms [unfolded order_ok_def, rule_format, of xs] mset_eq_setD mset_eq_imp_distinct_iff mset_eq_length
  by blast+

lemma gvksFromPolicy_distinct:
  assumes "order_ok env" and "gvksFromPolicy env policy = Inr gvks"
  shows "distinct gvks" and "gvks \<noteq> []"
  using assms resource_gvks_distinct [of env policy _ "([], [])"]
  by (auto simp: gvksFromPolicy_def order_ok_simps [OF assms(1)] split: if_splits sum.splits)

text \<open>
  A kind may be chosen if the policy's groups and versions match it. The kinds found, in order, and
  the first match of each group and kind.
\<close>

definition gvk_matches :: "JsPolicy \<Rightarrow> GroupVersionKind \<Rightarrow> bool" where
  "gvk_matches policy gvk \<longleftrightarrow>
     matched (APIVersions (pSpec policy)) (gvkVersion gvk) \<and> matched (APIGroups (pSpec policy)) (gvkGroup gvk)"

definition kinds_of :: "manager_env \<Rightarrow> string list \<Rightarrow> GroupVersionKind list" where
  "kinds_of env rs = concat (map (\<lambda>r. case meKindsFor env r of Inl err \<Rightarrow> [] | Inr gvks \<Rightarrow> gvks) rs)"

definition first_of_kind :: "JsPolicy \<Rightarrow> GroupVersionKind list \<Rightarrow> GroupVersionKind \<Rightarrow> bool" where
  "first_of_kind policy gvks gvk \<longleftrightarrow>
     List.find (\<lambda>g. gvk_matches policy g \<and> groupKind g = groupKind gvk) gvks = Some gvk"

lemma find_append:
  "List.find P (xs @ ys) = (case List.find P xs of None \<Rightarrow> List.find P ys | Some x \<Rightarrow> Some x)"
  by (induction xs) auto

lemma find_None_set: "List.find P xs = None \<longleftrightarrow> (\<forall>x \<in> set xs. \<not> P x)"
  by (induction xs) auto

lemma find_SomeD: "List.find P xs = Some x \<Longrightarrow> P x \<and> x \<in> set xs"
  by (induction xs) (auto split: if_splits)

text \<open>What the two maps hold after the kinds \<open>xs\<close>.\<close>

definition chosen_after ::
    "JsPolicy \<Rightarrow> GroupVersionKind list \<Rightarrow> GroupVersionKind list \<times> (string \<times> string) list \<Rightarrow> bool" where
  "chosen_after policy xs acc \<longleftrightarrow>
     set (fst acc) = {g. first_of_kind policy xs g} \<and>
     set (snd acc) = groupKind ` {g \<in> set xs. gvk_matches policy g}"

lemma chosen_after_step:
  assumes "chosen_after policy xs acc"
  shows "chosen_after policy (xs @ [g]) (add_gvk policy g acc)"
proof -
  obtain as gs where acc: "acc = (as, gs)" by (cases acc)
  have found: "List.find (\<lambda>h. gvk_matches policy h \<and> groupKind h = groupKind k) xs = None \<longleftrightarrow>
      groupKind k \<notin> set gs" for k
    using assms by (auto simp: chosen_after_def acc find_None_set image_iff)
  have first: "first_of_kind policy (xs @ [g]) k \<longleftrightarrow>
      first_of_kind policy xs k \<or> (k = g \<and> gvk_matches policy g \<and> groupKind g \<notin> set gs)" for k
    using found [of k]
    by (cases "List.find (\<lambda>h. gvk_matches policy h \<and> groupKind h = groupKind k) xs")
      (auto simp: first_of_kind_def find_append)
  show ?thesis
    using assms by (auto simp: chosen_after_def acc add_gvk_def first gvk_matches_def)
qed

lemma chosen_after_fold:
  "chosen_after policy xs acc \<Longrightarrow> chosen_after policy (xs @ gvks) (fold (add_gvk policy) gvks acc)"
proof (induction gvks arbitrary: xs acc)
  case Nil
  then show ?case by simp
next
  case (Cons g gvks)
  show ?case using Cons.IH [OF chosen_after_step [OF Cons.prems, of g]] by simp
qed

lemma resource_gvks_chosen:
  "resource_gvks env policy rs acc = Inr gvks \<Longrightarrow> chosen_after policy xs acc \<Longrightarrow>
   set gvks = {g. first_of_kind policy (xs @ kinds_of env rs) g} \<and>
   (\<forall>r \<in> set rs. r \<noteq> ''*'' \<and> (\<exists>ks. meKindsFor env r = Inr ks))"
proof (induction rs arbitrary: acc xs)
  case Nil
  then show ?case by (auto simp: kinds_of_def chosen_after_def)
next
  case (Cons r rs)
  then obtain ks where "r \<noteq> ''*''" "meKindsFor env r = Inr ks"
    "resource_gvks env policy rs (fold (add_gvk policy) ks acc) = Inr gvks"
    by (auto split: if_splits sum.splits)
  then show ?case
    using Cons.IH [OF _ chosen_after_fold [OF Cons.prems(2), of ks]] by (auto simp: kinds_of_def)
qed

lemma chosen_after_Nil: "chosen_after policy [] ([], [])"
  by (simp add: chosen_after_def first_of_kind_def)

section \<open>Comparing kinds\<close>

lemma areGVKsEqual_set:
  assumes "distinct o1" and "distinct o2"
  shows "areGVKsEqual o1 o2 \<longleftrightarrow> set o1 = set o2"
proof -
  have same: "a = b \<longleftrightarrow> gvkKind a = gvkKind b \<and> gvkGroup a = gvkGroup b \<and> gvkVersion a = gvkVersion b"
    for a b :: GroupVersionKind
    by auto
  have "areGVKsEqual o1 o2 \<longleftrightarrow> length o1 = length o2 \<and> set o1 \<subseteq> set o2"
    by (auto simp: areGVKsEqual_def same [symmetric])
  moreover have "card (set o1) = length o1" "card (set o2) = length o2"
    using assms distinct_card by auto
  ultimately show ?thesis by (metis List.finite_set card_subset_eq subset_refl)
qed

section \<open>The invariant\<close>

definition entry_ok :: "manager \<Rightarrow> string \<Rightarrow> policy_entry \<Rightarrow> bool" where
  "entry_ok st name e \<longleftrightarrow>
     ctlName (peController e) = name \<and> ctlGVKs (peController e) = peGVKs e \<and>
     ctlCtx (peController e) = peCancel e \<and> peCancel e < nextCtx st \<and>
     distinct (peGVKs e) \<and> peGVKs e \<noteq> [] \<and> (\<forall>g \<in> set (peGVKs e). informers st g \<noteq> None)"

definition handler_ok :: "manager \<Rightarrow> GroupVersionKind \<Rightarrow> controller list \<Rightarrow> bool" where
  "handler_ok st g h \<longleftrightarrow> distinct h \<and>
     (\<forall>c. c \<in> set h \<longleftrightarrow>
        (\<exists>e. policies st (ctlName c) = Some e \<and> peController e = c \<and> g \<in> set (peGVKs e)))"

definition live_ok :: "manager \<Rightarrow> bool" where
  "live_ok st \<longleftrightarrow> distinct (liveCtx st) \<and> set (liveCtx st) = peCancel ` ran (policies st) \<and>
     (\<forall>n m e e'. policies st n = Some e \<longrightarrow> policies st m = Some e' \<longrightarrow> peCancel e = peCancel e' \<longrightarrow> n = m)"

definition manager_inv :: "manager \<Rightarrow> bool" where
  "manager_inv st \<longleftrightarrow>
     (\<forall>n e. policies st n = Some e \<longrightarrow> entry_ok st n e) \<and>
     (\<forall>g h. informers st g = Some h \<longrightarrow> handler_ok st g h) \<and> live_ok st"

lemma manager_invI [inv_intros]:
  assumes "\<And>n e. policies st n = Some e \<Longrightarrow> entry_ok st n e"
    and "\<And>g h. informers st g = Some h \<Longrightarrow> handler_ok st g h" and "live_ok st"
  shows "manager_inv st"
  using assms by (simp add: manager_inv_def)

lemma manager_invD:
  assumes "manager_inv st"
  shows "policies st n = Some e \<Longrightarrow> entry_ok st n e"
    and "informers st g = Some h \<Longrightarrow> handler_ok st g h" and "live_ok st"
  using assms by (simp_all add: manager_inv_def)

lemma newManager_inv [inv_intros]: "manager_inv newManager"
  by (rule manager_invI) (simp_all add: newManager_def live_ok_def)

text \<open>The queues are not part of it.\<close>

lemma queueOf_inv [simp]: "manager_inv (st\<lparr>queueOf := q\<rparr>) \<longleftrightarrow> manager_inv st"
  by (simp add: manager_inv_def entry_ok_def handler_ok_def live_ok_def)

lemma requeue_only_queues: "\<exists>q. fst (requeue env c st) = st\<lparr>queueOf := q\<rparr>"
  by (auto simp: requeue_def split: prod.splits)

lemma requeue_fields [simp]:
  "policies (fst (requeue env c st)) = policies st" "informers (fst (requeue env c st)) = informers st"
  "nextCtx (fst (requeue env c st)) = nextCtx st" "liveCtx (fst (requeue env c st)) = liveCtx st"
  by (simp_all add: requeue_def split: prod.splits)

lemma requeue_inv [inv_intros]: "manager_inv st \<Longrightarrow> manager_inv (fst (requeue env c st))"
  using requeue_only_queues [of env c st] by auto

text \<open>New informers start without policies.\<close>

lemma ensure_informers_result:
  "ensure_informers env gvks st = (st', err) \<Longrightarrow>
   \<exists>gs. set gs \<subseteq> set gvks \<and> (err = None \<longrightarrow> set gs = set gvks) \<and>
     st' = st\<lparr>informers := (\<lambda>g. if g \<in> set gs \<and> informers st g = None then Some [] else informers st g)\<rparr>"
proof (induction gvks arbitrary: st)
  case Nil
  then show ?case by (intro exI [of _ "[]"]) simp
next
  case (Cons gvk gvks)
  let ?st1 = "if informers st gvk = None then st\<lparr>informers := (informers st)(gvk \<mapsto> [])\<rparr> else st"
  show ?case
  proof (cases "informers st gvk = None \<and> meGetInformer env gvk \<noteq> None")
    case True
    then have "st' = st" "err \<noteq> None" using Cons.prems by auto
    then show ?thesis by (intro exI [of _ "[]"]) simp
  next
    case False
    then have "ensure_informers env gvks ?st1 = (st', err)"
      using Cons.prems by (auto split: option.splits if_splits)
    from Cons.IH [OF this] obtain gs where gs: "set gs \<subseteq> set gvks" "err = None \<longrightarrow> set gs = set gvks"
      "st' = ?st1\<lparr>informers := (\<lambda>g. if g \<in> set gs \<and> informers ?st1 g = None then Some [] else informers ?st1 g)\<rparr>"
      by blast
    then show ?thesis by (intro exI [of _ "gvk # gs"]) (auto simp: fun_eq_iff)
  qed
qed

lemma ensure_informers_inv:
  assumes "manager_inv st" and "ensure_informers env gvks st = (st', err)"
  shows "manager_inv st'"
proof -
  obtain gs where st': "st' = st\<lparr>informers := (\<lambda>g. if g \<in> set gs \<and> informers st g = None then Some [] else informers st g)\<rparr>"
    using ensure_informers_result [OF assms(2)] by blast
  have unwatched: "g \<notin> set (peGVKs e)" if "informers st g = None" "policies st n = Some e" for g n e
    using manager_invD(1) [OF assms(1) that(2)] that(1) by (auto simp: entry_ok_def)
  show ?thesis
  proof (rule manager_invI)
    fix n e assume "policies st' n = Some e"
    then have "entry_ok st n e" using manager_invD(1) [OF assms(1)] by (simp add: st')
    then show "entry_ok st' n e" by (simp add: entry_ok_def st')
  next
    fix g h assume h: "informers st' g = Some h"
    have "handler_ok st g h"
    proof (cases "informers st g")
      case None
      then have "h = []" using h by (simp add: st' split: if_splits)
      then show ?thesis using unwatched [OF None] by (auto simp: handler_ok_def)
    next
      case (Some h')
      then show ?thesis using h manager_invD(2) [OF assms(1), of g h] by (simp add: st')
    qed
    then show "handler_ok st' g h" by (simp add: handler_ok_def st')
  next
    show "live_ok st'" using manager_invD(3) [OF assms(1)] by (simp add: live_ok_def st')
  qed
qed

text \<open>The controller joins each of its handlers once.\<close>

lemma add_to_handlers_result:
  "distinct gvks \<Longrightarrow> add_to_handlers c gvks st =
     st\<lparr>informers := (\<lambda>g. if g \<in> set gvks then map_option (AddPolicy c) (informers st g) else informers st g)\<rparr>"
  by (induction gvks arbitrary: st) (auto simp: add_to_handlers_def fun_eq_iff)

text \<open>A new controller: registered with its kinds' handlers, its context live.\<close>

definition with_controller :: "string \<Rightarrow> GroupVersionKind list \<Rightarrow> manager \<Rightarrow> manager" where
  "with_controller name gvks st =
     (let c = \<lparr>ctlName = name, ctlGVKs = gvks, ctlCtx = nextCtx st\<rparr> in
      st\<lparr>informers := (\<lambda>g. if g \<in> set gvks then map_option (AddPolicy c) (informers st g) else informers st g),
         nextCtx := Suc (nextCtx st), liveCtx := nextCtx st # liveCtx st,
         queueOf := (queueOf st)(nextCtx st := []),
         policies := (policies st)(name \<mapsto> \<lparr>peController = c, peGVKs = gvks, peCancel = nextCtx st\<rparr>)\<rparr>)"

lemma with_controller_inv:
  assumes inv: "manager_inv st" and new: "policies st name = None"
    and gvks: "distinct gvks" "gvks \<noteq> []" "\<forall>g \<in> set gvks. informers st g \<noteq> None"
  shows "manager_inv (with_controller name gvks st)"
proof (rule manager_invI)
  fix n e assume e: "policies (with_controller name gvks st) n = Some e"
  show "entry_ok (with_controller name gvks st) n e"
  proof (cases "n = name")
    case True
    then show ?thesis using e gvks by (auto simp: with_controller_def entry_ok_def Let_def)
  next
    case False
    then have "entry_ok st n e" using e manager_invD(1) [OF inv] by (simp add: with_controller_def Let_def)
    then show ?thesis by (auto simp: with_controller_def entry_ok_def Let_def)
  qed
next
  fix g h assume h: "informers (with_controller name gvks st) g = Some h"
  let ?c = "\<lparr>ctlName = name, ctlGVKs = gvks, ctlCtx = nextCtx st\<rparr>"
  obtain h' where h': "informers st g = Some h'" "h = (if g \<in> set gvks then h' @ [?c] else h')"
    using h by (auto simp: with_controller_def Let_def AddPolicy_def split: if_splits)
  have ok: "handler_ok st g h'" by (rule manager_invD(2) [OF inv h'(1)])
  have "ctlName c \<noteq> name" if "c \<in> set h'" for c
    using ok that new by (auto simp: handler_ok_def)
  then show "handler_ok (with_controller name gvks st) g h"
    using ok h'(2) new by (auto simp: handler_ok_def with_controller_def Let_def)
next
  have live: "live_ok st" by (rule manager_invD(3) [OF inv])
  have fresh: "peCancel e < nextCtx st" if "policies st n = Some e" for n e
    using manager_invD(1) [OF inv that] by (simp add: entry_ok_def)
  have "nextCtx st \<notin> set (liveCtx st)"
  proof
    assume "nextCtx st \<in> set (liveCtx st)"
    then obtain n e where "policies st n = Some e" "peCancel e = nextCtx st"
      using live by (auto simp: live_ok_def ran_def)
    then show False using fresh by fastforce
  qed
  moreover have "ran (policies (with_controller name gvks st)) =
      insert \<lparr>peController = \<lparr>ctlName = name, ctlGVKs = gvks, ctlCtx = nextCtx st\<rparr>, peGVKs = gvks,
              peCancel = nextCtx st\<rparr> (ran (policies st))"
    using new by (auto simp: with_controller_def Let_def ran_map_upd)
  ultimately show "live_ok (with_controller name gvks st)"
    using live fresh by (fastforce simp: live_ok_def with_controller_def Let_def)
qed

lemma addNoLock_result:
  assumes "distinct gvks" and "policies st (pName p) = None"
    and "ensure_informers env gvks st = (st1, None)"
  shows "\<exists>q. addNoLock env p gvks st = ((with_controller (pName p) gvks st1)\<lparr>queueOf := q\<rparr>, None)"
proof -
  let ?c = "\<lparr>ctlName = pName p, ctlGVKs = gvks, ctlCtx = nextCtx st1\<rparr>"
  let ?st4 = "with_controller (pName p) gvks st1"
  have "addNoLock env p gvks st = (fst (requeue env ?c ?st4), None)"
    using assms(2,3) by (simp add: addNoLock_def add_to_handlers_result [OF assms(1)] with_controller_def Let_def)
  then show ?thesis using requeue_only_queues [of env ?c ?st4] by force
qed

lemma addNoLock_inv [inv_intros]:
  assumes "manager_inv st" and "distinct gvks" and "gvks \<noteq> []"
  shows "manager_inv (fst (addNoLock env p gvks st))"
proof (cases "policies st (pName p)")
  case (Some e)
  then show ?thesis using assms(1) by (simp add: addNoLock_def)
next
  case None
  obtain st1 err where ens: "ensure_informers env gvks st = (st1, err)" by fastforce
  have inv1: "manager_inv st1" by (rule ensure_informers_inv [OF assms(1) ens])
  show ?thesis
  proof (cases err)
    case (Some e)
    then show ?thesis using inv1 None by (simp add: addNoLock_def ens)
  next
    case err: None
    have st1: "policies st1 = policies st" "\<forall>g \<in> set gvks. informers st1 g \<noteq> None"
      using ensure_informers_result [OF ens] err by auto
    have "manager_inv (with_controller (pName p) gvks st1)"
      using with_controller_inv [OF inv1 _ assms(2,3) st1(2)] None st1(1) by simp
    then show ?thesis using addNoLock_result [OF assms(2) None ens [unfolded err]] by auto
  qed
qed

lemma deleteNoLock_inv [inv_intros]:
  assumes inv: "manager_inv st"
  shows "manager_inv (deleteNoLock name st)"
proof (cases "policies st name")
  case None
  then show ?thesis using inv by (simp add: deleteNoLock_def)
next
  case (Some pol)
  have pol: "entry_ok st name pol" by (rule manager_invD(1) [OF inv Some])
  then have name: "ctlName (peController pol) = name" by (simp add: entry_ok_def)
  show ?thesis
  proof (rule manager_invI)
    fix n e assume "policies (deleteNoLock name st) n = Some e"
    then have "entry_ok st n e"
      using manager_invD(1) [OF inv] by (auto simp: deleteNoLock_def Some split: if_splits)
    then show "entry_ok (deleteNoLock name st) n e" by (simp add: entry_ok_def deleteNoLock_def Some)
  next
    fix g h assume "informers (deleteNoLock name st) g = Some h"
    then obtain h' where h': "informers st g = Some h'" "h = filter (\<lambda>c. ctlName c \<noteq> name) h'"
      by (auto simp: deleteNoLock_def Some RemovePolicy_def name)
    then show "handler_ok (deleteNoLock name st) g h"
      using manager_invD(2) [OF inv h'(1)] by (auto simp: handler_ok_def deleteNoLock_def Some)
  next
    have live: "live_ok st" by (rule manager_invD(3) [OF inv])
    have inj: "n = name" if "policies st n = Some e" "peCancel e = peCancel pol" for n e
      using live that Some unfolding live_ok_def by blast
    have "peCancel ` ran ((policies st)(name := None)) = peCancel ` ran (policies st) - {peCancel pol}"
      (is "?l = ?r")
    proof (intro equalityI subsetI)
      fix x assume "x \<in> ?l"
      then obtain n e where "n \<noteq> name" "policies st n = Some e" "x = peCancel e"
        by (auto simp: ran_def split: if_splits)
      then show "x \<in> ?r" using inj [of n e] by (auto simp: ran_def)
    next
      fix x assume "x \<in> ?r"
      then obtain n e where e: "policies st n = Some e" "x = peCancel e" "peCancel e \<noteq> peCancel pol"
        by (auto simp: ran_def)
      then have "((policies st)(name := None)) n = Some e" using Some by auto
      then have "e \<in> ran ((policies st)(name := None))" by (rule ranI)
      then show "x \<in> ?l" using e(2) by (rule_tac image_eqI)
    qed
    then show "live_ok (deleteNoLock name st)"
      using live by (auto simp: live_ok_def deleteNoLock_def Some distinct_removeAll)
  qed
qed

lemma garbageCollect_inv [inv_intros]:
  assumes inv: "manager_inv st"
  shows "manager_inv (fst (garbageCollectInformers st))"
proof (rule manager_invI)
  fix n e assume "policies (fst (garbageCollectInformers st)) n = Some e"
  then have p: "policies st n = Some e" by (simp add: garbageCollectInformers_def)
  have e: "entry_ok st n e" by (rule manager_invD(1) [OF inv p])
  have "informers st g \<noteq> Some []" if "g \<in> set (peGVKs e)" for g
  proof
    assume "informers st g = Some []"
    then have "handler_ok st g []" by (rule manager_invD(2) [OF inv])
    then show False using e p that by (auto simp: handler_ok_def entry_ok_def)
  qed
  then show "entry_ok (fst (garbageCollectInformers st)) n e"
    using e by (auto simp: entry_ok_def garbageCollectInformers_def)
next
  fix g h assume "informers (fst (garbageCollectInformers st)) g = Some h"
  then have "handler_ok st g h"
    using manager_invD(2) [OF inv] by (auto simp: garbageCollectInformers_def split: if_splits)
  then show "handler_ok (fst (garbageCollectInformers st)) g h"
    by (simp add: handler_ok_def garbageCollectInformers_def)
next
  show "live_ok (fst (garbageCollectInformers st))"
    using manager_invD(3) [OF inv] by (simp add: live_ok_def garbageCollectInformers_def)
qed

lemma set_cancel_all:
  "set (fold (\<lambda>name live. case m name of None \<Rightarrow> live | Some pol \<Rightarrow> removeAll (peCancel pol) live) names live) =
   set live - {peCancel e | n e. n \<in> set names \<and> m n = Some e}"
  by (induction names arbitrary: live) (auto split: option.splits)

lemma cleanup_inv [inv_intros]:
  assumes "manager_inv st" and "lists_policies names st"
  shows "manager_inv (manager_cleanup names st)"
proof -
  have "set (liveCtx (manager_cleanup names st)) =
      set (liveCtx st) - {peCancel e | n e. n \<in> set names \<and> policies st n = Some e}"
    by (simp add: manager_cleanup_def set_cancel_all)
  then have "set (liveCtx (manager_cleanup names st)) = {}"
    using manager_invD(3) [OF assms(1)] assms(2) by (auto simp: live_ok_def lists_policies_def ran_def)
  then show ?thesis
    by (intro manager_invI) (simp_all add: manager_cleanup_def live_ok_def)
qed

lemma manager_Update_inv:
  assumes inv: "manager_inv st" and order: "order_ok env"
  shows "manager_inv (fst (manager_Update env p req st))"
proof (cases "gvksFromPolicy env p")
  case (Inl err)
  then show ?thesis using inv by (simp add: manager_Update_def)
next
  case (Inr gvks)
  note gvks = gvksFromPolicy_distinct [OF order Inr]
  show ?thesis
    using inv gvks by (auto simp: manager_Update_def Inr intro!: inv_intros split: option.splits)
qed

lemma manager_step_inv: "manager_step st op st' \<Longrightarrow> manager_inv st \<Longrightarrow> manager_inv st'"
proof (erule manager_stepE)
  fix env p req err
  assume "manager_inv st" "order_ok env" "manager_Update env p req st = (st', err)"
  then show "manager_inv st'" using manager_Update_inv [of st env p req] by simp
qed (auto simp: manager_Delete_def intro: inv_intros)

lemma manager_reachable_inv: "manager_reachable st \<Longrightarrow> manager_inv st"
  by (induction rule: manager_reachable.induct) (auto intro: newManager_inv manager_step_inv)

section \<open>Properties\<close>

lemma handler_names:
  assumes "handler_ok st g h"
  shows "distinct (map ctlName h)"
    and "name \<in> ctlName ` set h \<longleftrightarrow> (\<exists>e. policies st name = Some e \<and> g \<in> set (peGVKs e) \<and> ctlName (peController e) = name)"
proof -
  have mem: "c \<in> set h \<longleftrightarrow> (\<exists>e. policies st (ctlName c) = Some e \<and> peController e = c \<and> g \<in> set (peGVKs e))" for c
    by (rule assms [unfolded handler_ok_def, THEN conjunct2, THEN spec])
  have "inj_on ctlName (set h)"
  proof (rule inj_onI)
    fix c d assume c: "c \<in> set h" and d: "d \<in> set h" and eq: "ctlName c = ctlName d"
    obtain e where e: "policies st (ctlName c) = Some e" "peController e = c" using c unfolding mem by blast
    obtain e' where e': "policies st (ctlName d) = Some e'" "peController e' = d" using d unfolding mem by blast
    have "Some e = Some e'" using e(1) e'(1) unfolding eq by (rule trans [OF sym])
    then show "c = d" using e(2) e'(2) by (simp only: option.inject)
  qed
  then show "distinct (map ctlName h)"
    using assms by (simp add: distinct_map handler_ok_def)
  show "name \<in> ctlName ` set h \<longleftrightarrow> (\<exists>e. policies st name = Some e \<and> g \<in> set (peGVKs e) \<and> ctlName (peController e) = name)"
    (is "?l = ?r")
  proof
    assume ?l
    then obtain c where c: "c \<in> set h" "ctlName c = name" by blast
    then obtain e where "policies st (ctlName c) = Some e" "peController e = c" "g \<in> set (peGVKs e)"
      unfolding mem by blast
    then show ?r using c(2) by (intro exI [of _ e]) (simp only: simp_thms)
  next
    assume ?r
    then obtain e where e: "policies st name = Some e" "g \<in> set (peGVKs e)" "ctlName (peController e) = name"
      by blast
    then have "peController e \<in> set h" unfolding mem by simp
    then show ?l using e(3) by blast
  qed
qed

lemma handler_add_names:
  "map fst (handler_add env getPol names obj) =
   filter (\<lambda>n. \<exists>p key. getPol n = Inr p \<and> controller_Add env obj p = Inr (Some key)) names"
  by (induction names) (auto simp: handler_add_def split: sum.splits option.splits)

lemma handler_add_set:
  "(n, key) \<in> set (handler_add env getPol names obj) \<longleftrightarrow>
   n \<in> set names \<and> (\<exists>p. getPol n = Inr p \<and> controller_Add env obj p = Inr (Some key))"
proof -
  have "(n, key) \<in> set (case getPol m of Inl err \<Rightarrow> []
            | Inr jsPolicy \<Rightarrow> (case controller_Add env obj jsPolicy of Inr (Some key) \<Rightarrow> [(m, key)] | _ \<Rightarrow> [])) \<longleftrightarrow>
      m = n \<and> (\<exists>p. getPol n = Inr p \<and> controller_Add env obj p = Inr (Some key))" for m
  proof (cases "getPol m")
    case (Inl err)
    then show ?thesis by auto
  next
    case (Inr p)
    then show ?thesis by (cases "m = n") (auto split: sum.splits option.splits)
  qed
  then show ?thesis by (auto simp: handler_add_def)
qed

text \<open>
  C17: in every state the manager reaches by updates, deletions, garbage collection and cleanup, an
  object event of a kind is queued for exactly the running policies that watch that kind and whose
  selectors it passes, once for each; and the controllers whose context is live are exactly those of
  the policies in the map: none is leaked, none runs twice.
\<close>

theorem manager_event_watching:
  assumes "manager_reachable st"
  shows "((name, key) \<in> set (manager_event env g ev st) \<longleftrightarrow>
      (\<exists>e p. policies st name = Some e \<and> g \<in> set (peGVKs e) \<and> meGetPolicy env name = Inr p \<and>
         controller_Add (meController env) (event_object ev) p = Inr (Some key))) \<and>
    distinct (map fst (manager_event env g ev st)) \<and>
    distinct (liveCtx st) \<and> set (liveCtx st) = peCancel ` ran (policies st)"
proof -
  have inv: "manager_inv st" by (rule manager_reachable_inv [OF assms])
  have entry: "ctlName (peController e) = n \<and> (g \<in> set (peGVKs e) \<longrightarrow> informers st g \<noteq> None)"
    if "policies st n = Some e" for n e
    using manager_invD(1) [OF inv that] by (simp add: entry_ok_def)
  have live: "distinct (liveCtx st)" "set (liveCtx st) = peCancel ` ran (policies st)"
    using manager_invD(3) [OF inv] by (simp_all add: live_ok_def)
  show ?thesis
  proof (cases "informers st g")
    case None
    then show ?thesis using entry live by (auto simp: manager_event_def)
  next
    case (Some h)
    note h = handler_names [OF manager_invD(2) [OF inv Some]]
    have "(name, key) \<in> set (manager_event env g ev st) \<longleftrightarrow>
        (\<exists>e p. policies st name = Some e \<and> g \<in> set (peGVKs e) \<and> meGetPolicy env name = Inr p \<and>
           controller_Add (meController env) (event_object ev) p = Inr (Some key))"
      using h(2) [of name] entry by (auto simp: manager_event_def Some handler_add_set)
    moreover have "distinct (map fst (manager_event env g ev st))"
      using h(1) by (simp add: manager_event_def Some handler_add_names)
    ultimately show ?thesis using live by simp
  qed
qed

definition example_manager_env :: manager_env where
  "example_manager_env =
     \<lparr>meController = \<lparr>getNamespaceLabels = (\<lambda>_. Inr []), selectorOf = (\<lambda>_. Inr (\<lambda>_. True))\<rparr>,
      meGetPolicy = (\<lambda>_. Inr example_policy), meList = (\<lambda>_. Inr []), meGetInformer = (\<lambda>_. None),
      meKindsFor = (\<lambda>r. Inr [\<lparr>gvkGroup = [], gvkVersion = ''v1'', gvkKind = ''Pod''\<rparr>]),
      meOrder = (\<lambda>gvks. gvks)\<rparr>"

definition example_manager :: manager where
  "example_manager = fst (manager_Update example_manager_env example_policy True newManager)"

lemma example_manager_reachable: "manager_reachable example_manager"
proof -
  have "order_ok example_manager_env" by (simp add: order_ok_def example_manager_env_def)
  then have "manager_step newManager (OpUpdate example_policy True) example_manager"
    by (rule manager_step.update [where err = "snd (manager_Update example_manager_env example_policy True newManager)"])
      (simp add: example_manager_def)
  then show ?thesis by (rule manager_reachable.step [OF manager_reachable.init])
qed

text \<open>
  The kinds of a controller policy: an error if it has no resources, names \<open>*\<close>, a resource
  has no kinds the mapper knows, or nothing matches; otherwise the kinds of its resources that match
  its groups and versions (an empty list matches all), each once, and of several versions of one
  group and kind only the first the mapper gives.
\<close>

theorem gvksFromPolicy_spec:
  assumes "order_ok env" and "gvksFromPolicy env policy = Inr gvks"
  shows "distinct gvks \<and> gvks \<noteq> [] \<and>
    (\<forall>r \<in> set (Resources (pSpec policy)). r \<noteq> ''*'' \<and> (\<exists>ks. meKindsFor env r = Inr ks)) \<and>
    set gvks = {g. first_of_kind policy (kinds_of env (Resources (pSpec policy))) g} \<and>
    inj_on groupKind (set gvks) \<and>
    (\<forall>g \<in> set (kinds_of env (Resources (pSpec policy))). gvk_matches policy g \<longrightarrow>
       (\<exists>g' \<in> set gvks. groupKind g' = groupKind g \<and> gvk_matches policy g'))"
proof -
  let ?ks = "kinds_of env (Resources (pSpec policy))"
  obtain all where all: "resource_gvks env policy (Resources (pSpec policy)) ([], []) = Inr all"
    "gvks = meOrder env all"
    using assms(2) by (auto simp: gvksFromPolicy_def split: if_splits sum.splits)
  have set: "set gvks = {g. first_of_kind policy ?ks g}"
    and ok: "\<forall>r \<in> set (Resources (pSpec policy)). r \<noteq> ''*'' \<and> (\<exists>ks. meKindsFor env r = Inr ks)"
    using resource_gvks_chosen [OF all(1) chosen_after_Nil] order_ok_simps(1) [OF assms(1)] all(2) by auto
  have inj: "inj_on groupKind (set gvks)"
    by (rule inj_onI) (simp add: set first_of_kind_def)
  have "\<exists>g' \<in> set gvks. groupKind g' = groupKind g \<and> gvk_matches policy g'"
    if g: "g \<in> set ?ks" "gvk_matches policy g" for g
  proof -
    let ?P = "\<lambda>h. gvk_matches policy h \<and> groupKind h = groupKind g"
    have "List.find ?P ?ks \<noteq> None" unfolding find_None_set using g by blast
    then obtain g' where g': "List.find ?P ?ks = Some g'" by blast
    then have P: "?P g'" using find_SomeD [OF g'] by simp
    then have "g' \<in> set gvks" using g' by (simp add: set first_of_kind_def)
    then show ?thesis using P by blast
  qed
  then show ?thesis using gvksFromPolicy_distinct [OF assms] ok set inj by blast
qed

theorem gvksFromPolicy_spec_witness:
  "gvksFromPolicy example_manager_env example_policy =
     Inr [\<lparr>gvkGroup = [], gvkVersion = ''v1'', gvkKind = ''Pod''\<rparr>] \<and>
   distinct [\<lparr>gvkGroup = [], gvkVersion = ''v1'', gvkKind = ''Pod''\<rparr>]"
proof -
  have o: "order_ok example_manager_env" by (simp add: order_ok_def example_manager_env_def)
  have g: "gvksFromPolicy example_manager_env example_policy = Inr [\<lparr>gvkGroup = [], gvkVersion = ''v1'', gvkKind = ''Pod''\<rparr>]"
    by (simp add: gvksFromPolicy_def example_manager_env_def add_gvk_def matched_def example_policy_def)
  from gvksFromPolicy_spec [OF o g] g show ?thesis by blast
qed

text \<open>
  An update changes no other policy. If the policy's kinds cannot be determined nothing happens;
  otherwise the policy ends up running for exactly those kinds, in the controller it had if the kinds
  are the same and in a new one if not, unless an informer could not be created: then it does not run
  at all. Other errors come only from requeuing a controller that keeps running.
\<close>

theorem manager_Update_result:
  assumes "manager_reachable st" and "order_ok env" and "manager_Update env p req st = (st', err)"
  shows "(\<forall>n. n = pName p \<or> policies st' n = policies st n) \<and>
    (case gvksFromPolicy env p of
       Inl e \<Rightarrow> st' = st \<and> err = Some e
     | Inr gvks \<Rightarrow>
         (case policies st' (pName p) of
            None \<Rightarrow> err \<noteq> None \<and> (\<exists>g \<in> set gvks. meGetInformer env g \<noteq> None)
          | Some e \<Rightarrow> set (peGVKs e) = set gvks \<and> peCancel e \<in> set (liveCtx st') \<and>
              (peCancel e \<in> set (liveCtx st) \<longleftrightarrow>
                 (\<exists>old. policies st (pName p) = Some old \<and> set (peGVKs old) = set gvks)) \<and>
              (err = None \<or> req \<and> peCancel e \<in> set (liveCtx st))))"
proof (cases "gvksFromPolicy env p")
  case (Inl e)
  then show ?thesis using assms(3) by (simp add: manager_Update_def)
next
  case (Inr gvks)
  have inv: "manager_inv st" by (rule manager_reachable_inv [OF assms(1)])
  have inv': "manager_inv st'" using manager_Update_inv [OF inv assms(2), of p req] assms(3) by simp
  note gvks = gvksFromPolicy_distinct [OF assms(2) Inr]
  have live: "peCancel e \<in> set (liveCtx s)" if "manager_inv s" "policies s n = Some e" for s n e
    using manager_invD(3) [OF that(1)] that(2) by (auto simp: live_ok_def ran_def)
  have stale: "nextCtx st \<notin> set (liveCtx st)"
    using manager_invD(1) [OF inv] manager_invD(3) [OF inv] by (fastforce simp: live_ok_def ran_def entry_ok_def)
  have add: ?thesis
    if s: "policies s (pName p) = None" "\<forall>n. n = pName p \<or> policies s n = policies st n" "nextCtx s = nextCtx st"
      and r: "addNoLock env p gvks s = (st', err)"
      and old: "\<not> (\<exists>old. policies st (pName p) = Some old \<and> set (peGVKs old) = set gvks)" for s
  proof -
    obtain s1 e1 where ens: "ensure_informers env gvks s = (s1, e1)" by fastforce
    have s1: "policies s1 = policies s" "nextCtx s1 = nextCtx s"
      using ensure_informers_result [OF ens] by auto
    show ?thesis
    proof (cases e1)
      case None
      obtain q where st': "st' = (with_controller (pName p) gvks s1)\<lparr>queueOf := q\<rparr>" "err = None"
        using addNoLock_result [OF gvks(1) s(1) ens [unfolded None]] r by auto
      then have "policies st' (pName p) = Some \<lparr>peController = \<lparr>ctlName = pName p, ctlGVKs = gvks, ctlCtx = nextCtx st\<rparr>,
          peGVKs = gvks, peCancel = nextCtx st\<rparr>"
        using s(3) s1 by (simp add: with_controller_def Let_def)
      moreover have "\<forall>n. n = pName p \<or> policies st' n = policies st n"
        using s(2) s1 st'(1) by (auto simp: with_controller_def Let_def)
      moreover have "nextCtx st \<in> set (liveCtx st')"
        using live [OF inv' calculation(1)] by simp
      ultimately show ?thesis using stale old st'(2) by (simp add: Inr)
    next
      case (Some e)
      then have "st' = s1" "err = Some e" using r s(1) by (simp_all add: addNoLock_def ens)
      moreover have "\<exists>g \<in> set gvks. meGetInformer env g \<noteq> None"
        using ens Some by (induction env gvks s rule: ensure_informers.induct) (auto split: if_splits option.splits)
      ultimately show ?thesis using s s1 by (simp add: Inr)
    qed
  qed
  show ?thesis
  proof (cases "policies st (pName p)")
    case None
    then show ?thesis using assms(3) by (intro add [of st]) (simp_all add: manager_Update_def Inr)
  next
    case (Some old)
    have "distinct (peGVKs old)" using manager_invD(1) [OF inv Some] by (simp add: entry_ok_def)
    note eq = areGVKsEqual_set [OF this gvks(1)]
    show ?thesis
    proof (cases "set (peGVKs old) = set gvks")
      case True
      then have "policies st' = policies st" "liveCtx st' = liveCtx st" "err = None \<or> req"
        using assms(3) eq requeue_only_queues [of env "peController old" st]
        by (auto simp: manager_Update_def Inr Some split: if_splits)
      then show ?thesis using True Some live [OF inv Some] by (simp add: Inr)
    next
      case False
      have "nextCtx (deleteNoLock (pName p) st) = nextCtx st" by (simp add: deleteNoLock_def Some)
      then show ?thesis using assms(3) False eq Some
        by (intro add [of "deleteNoLock (pName p) st"]) (simp_all add: manager_Update_def Inr deleteNoLock_def)
    qed
  qed
qed

lemma example_gvks: "gvksFromPolicy example_manager_env example_policy =
    Inr [\<lparr>gvkGroup = [], gvkVersion = ''v1'', gvkKind = ''Pod''\<rparr>]"
  by (simp add: gvksFromPolicy_def example_manager_env_def add_gvk_def matched_def example_policy_def)

theorem manager_Update_result_witness:
  "\<exists>e. policies example_manager ''p.example.com'' = Some e \<and>
     set (peGVKs e) = {\<lparr>gvkGroup = [], gvkVersion = ''v1'', gvkKind = ''Pod''\<rparr>}"
proof -
  have o: "order_ok example_manager_env" by (simp add: order_ok_def example_manager_env_def)
  obtain st' err where r: "manager_Update example_manager_env example_policy True newManager = (st', err)"
    by fastforce
  have name: "pName example_policy = ''p.example.com''" by (simp add: example_policy_def)
  have ni: "meGetInformer example_manager_env g = None" for g by (simp add: example_manager_env_def)
  have st': "example_manager = st'" by (simp add: example_manager_def r)
  note res = manager_Update_result [OF manager_reachable.init o r, THEN conjunct2, unfolded example_gvks name sum.case]
  show ?thesis
    using res by (cases "policies st' ''p.example.com''") (simp_all add: ni st')
qed

lemma example_entry:
  "policies example_manager ''p.example.com'' \<noteq> None \<and>
   \<lparr>gvkGroup = [], gvkVersion = ''v1'', gvkKind = ''Pod''\<rparr> \<in> set (peGVKs (the (policies example_manager ''p.example.com'')))"
  by (simp add: example_manager_def manager_Update_def example_gvks newManager_def addNoLock_def Let_def)
    (simp add: example_manager_env_def example_policy_def add_to_handlers_def)

theorem manager_event_watching_witness:
  "(''p.example.com'', ''v1||Pod|ns|x'') \<in>
     set (manager_event example_manager_env \<lparr>gvkGroup = [], gvkVersion = ''v1'', gvkKind = ''Pod''\<rparr>
       (OnAdd \<lparr>moAPIVersion = ''v1'', moKind = ''Pod'', moNamespace = ''ns'', moName = ''x'', moLabels = []\<rparr>)
       example_manager)"
proof -
  let ?g = "\<lparr>gvkGroup = [], gvkVersion = ''v1'', gvkKind = ''Pod''\<rparr>"
  let ?o = "\<lparr>moAPIVersion = ''v1'', moKind = ''Pod'', moNamespace = ''ns'', moName = ''x'', moLabels = []\<rparr>"
  have add: "controller_Add (meController example_manager_env) ?o example_policy = Inr (Some ''v1||Pod|ns|x'')"
    by (simp add: controller_Add_def example_policy_def selected_def keyFunc_def ParseGroupVersion_def)
  show ?thesis
    unfolding manager_event_watching [OF example_manager_reachable, THEN conjunct1]
    using example_entry add by (auto simp: example_manager_env_def)
qed

text \<open>
  Garbage collection keeps exactly the informers that some running policy watches, tells the
  cache to keep exactly those, and stops no policy.
\<close>

theorem garbageCollect_keeps_watched:
  assumes "manager_reachable st"
  shows "(case garbageCollectInformers st of (st', exclude) \<Rightarrow>
     policies st' = policies st \<and> liveCtx st' = liveCtx st \<and>
     (informers st' g \<noteq> None \<longleftrightarrow> exclude g) \<and>
     (exclude g \<longleftrightarrow> (\<exists>n e. policies st n = Some e \<and> g \<in> set (peGVKs e))))"
proof -
  have inv: "manager_inv st" by (rule manager_reachable_inv [OF assms])
  have "(\<exists>c h. informers st g = Some (c # h)) \<longleftrightarrow> (\<exists>n e. policies st n = Some e \<and> g \<in> set (peGVKs e))"
  proof
    assume "\<exists>c h. informers st g = Some (c # h)"
    then obtain c h where "informers st g = Some (c # h)" by blast
    then show "\<exists>n e. policies st n = Some e \<and> g \<in> set (peGVKs e)"
      using manager_invD(2) [OF inv] by (fastforce simp: handler_ok_def)
  next
    assume "\<exists>n e. policies st n = Some e \<and> g \<in> set (peGVKs e)"
    then obtain n e where e: "policies st n = Some e" "g \<in> set (peGVKs e)" by blast
    note ok = manager_invD(1) [OF inv e(1), unfolded entry_ok_def]
    obtain h where h: "informers st g = Some h" using ok e(2) by blast
    have "peController e \<in> set h"
      using manager_invD(2) [OF inv h] ok e by (simp add: handler_ok_def)
    then show "\<exists>c h. informers st g = Some (c # h)" using h by (cases h) auto
  qed
  then show ?thesis by (auto simp: garbageCollectInformers_def neq_Nil_conv)
qed

theorem garbageCollect_keeps_watched_witness:
  "snd (garbageCollectInformers example_manager) \<lparr>gvkGroup = [], gvkVersion = ''v1'', gvkKind = ''Pod''\<rparr>"
proof -
  have "\<exists>n e. policies example_manager n = Some e \<and> \<lparr>gvkGroup = [], gvkVersion = ''v1'', gvkKind = ''Pod''\<rparr> \<in> set (peGVKs e)"
    using example_entry by (intro exI [of _ "''p.example.com''"]) auto
  then show ?thesis
    using garbageCollect_keeps_watched [OF example_manager_reachable, of "\<lparr>gvkGroup = [], gvkVersion = ''v1'', gvkKind = ''Pod''\<rparr>"]
    by (cases "garbageCollectInformers example_manager") (simp only: prod.case snd_conv)
qed

end
