(* ===== verification/Reconciler.thy ===== *)
theory Reconciler
  imports Applier PolicyManager
begin

text \<open>
  \<open>pkg/controllers/jspolicy.go\<close>: the reconciler that compiles a policy's script into its bundle,
  keeps its webhook configuration or its background controller in step with it, and writes its
  status back. The API server, the bundler, the JSON encoder, SHA-256 and the process environment
  are parameters.
\<close>

section \<open>Webhook configurations\<close>

record ServiceReference =
  srNamespace :: string
  srName :: string
  srPath :: string
  srPort :: "int32 option"

record WebhookClientConfig =
  ccURL :: "string option"
  ccService :: "ServiceReference option"
  ccCABundle :: string

record RuleWithOperations =
  rwOperations :: "string list"
  rwAPIGroups :: "string list"
  rwAPIVersions :: "string list"
  rwResources :: "string list"
  rwScope :: "string option"

text \<open>One record for both kinds; a validating webhook has no reinvocation policy.\<close>

record webhook =
  whName :: string
  whClientConfig :: WebhookClientConfig
  whRules :: "RuleWithOperations list"
  whFailurePolicy :: "string option"
  whMatchPolicy :: "string option"
  whNamespaceSelector :: "LabelSelector option"
  whObjectSelector :: "LabelSelector option"
  whSideEffects :: "string option"
  whTimeoutSeconds :: "int32 option"
  whAdmissionReviewVersions :: "string list"
  whReinvocationPolicy :: "string option"

record OwnerReference =
  orAPIVersion :: string
  orKind :: string
  orName :: string
  orUID :: string
  orController :: bool

record WebhookConfiguration =
  wcName :: string
  wcLabels :: "(string \<times> string) list"
  wcAnnotations :: "(string \<times> string) list"
  wcOwners :: "OwnerReference list"
  wcWebhooks :: "webhook list"

section \<open>What the reconciler uses\<close>

record 'w reconcile_env =
  rcGetPolicy :: "string \<Rightarrow> 'w \<Rightarrow> (go_error + JsPolicy) \<times> 'w"
  rcGetBundle :: "string \<Rightarrow> 'w \<Rightarrow> (go_error + JsPolicyBundle) \<times> 'w"
  rcBundle :: "string \<Rightarrow> (string \<times> string) list \<Rightarrow> 'w \<Rightarrow> (go_error + string) \<times> 'w" \<comment> \<open>\<open>Bundler.Bundle\<close>\<close>
  rcBundleClient :: "('w, JsPolicyBundle) store_client"
  rcSetRef :: "JsPolicy \<Rightarrow> JsPolicyBundle \<Rightarrow> go_error + JsPolicyBundle"
  rcMarshalBundle :: "string \<Rightarrow> (string \<times> string) list \<Rightarrow> go_error + string"
  rcMarshalHash :: "string \<Rightarrow> string list \<Rightarrow> string list \<Rightarrow> string list \<Rightarrow> go_error + string"
    \<comment> \<open>bundle hash, resources, groups, versions\<close>
  rcSha :: "string \<Rightarrow> string" \<comment> \<open>\<open>hash.String\<close>\<close>
  rcListValidating :: "string \<Rightarrow> 'w \<Rightarrow> (go_error + WebhookConfiguration list) \<times> 'w" \<comment> \<open>by owner\<close>
  rcListMutating :: "string \<Rightarrow> 'w \<Rightarrow> (go_error + WebhookConfiguration list) \<times> 'w"
  rcDeleteValidating :: "WebhookConfiguration \<Rightarrow> 'w \<Rightarrow> go_error option \<times> 'w"
  rcDeleteMutating :: "WebhookConfiguration \<Rightarrow> 'w \<Rightarrow> go_error option \<times> 'w"
  rcApplyValidating :: "(WebhookConfiguration, 'w) apply_env"
  rcApplyMutating :: "(WebhookConfiguration, 'w) apply_env"
  rcGetenv :: "string \<Rightarrow> string"
  rcReadFile :: "string \<Rightarrow> go_error + string"
  rcRandom :: string \<comment> \<open>\<open>random.RandomString(5)\<close>\<close>
  rcCaBundle :: string
  rcPatch :: "'w patch_env"
  rcFormat :: "string \<Rightarrow> string" \<comment> \<open>\<open>Sprintf\<close> without operands\<close>
  rcClock :: gotime

section \<open>Hashing and compiling\<close>

definition hashBundle :: "'w reconcile_env \<Rightarrow> string \<Rightarrow> (string \<times> string) list \<Rightarrow> go_error + string" where
  "hashBundle env javascript dependencies =
     (if javascript = [] then Inr []
      else map_sum id (rcSha env) (rcMarshalBundle env javascript dependencies))"

text \<open>Conditions of a policy, set and read.\<close>

definition on_conditions :: "(Conditions \<Rightarrow> Conditions) \<Rightarrow> JsPolicy \<Rightarrow> JsPolicy" where
  "on_conditions f p = SetConditions p (f (GetConditions p))"

definition mark_true :: "gotime \<Rightarrow> string \<Rightarrow> JsPolicy \<Rightarrow> JsPolicy" where
  "mark_true now t = on_conditions (\<lambda>cs. MarkTrue now cs t)"

definition mark_error :: "gotime \<Rightarrow> string \<Rightarrow> string \<Rightarrow> string \<Rightarrow> JsPolicy \<Rightarrow> JsPolicy" where
  "mark_error now t reason message = on_conditions (\<lambda>cs. MarkFalse now cs t reason ConditionSeverityError message)"

definition needs_compile :: "JsPolicy \<Rightarrow> string \<Rightarrow> bool" where
  "needs_compile p bundleHash \<longleftrightarrow>
     \<not> Has (GetConditions p) BundleCompiledCondition \<or> bundleHash \<noteq> stBundleHash (pStatus p)"

text \<open>
  \<open>compileBundle\<close>: the error, the policy with its conditions, the bundle as the caller sees it (an
  existing one is changed in place, a created one is not handed back), and the world.
\<close>

definition compileBundle ::
    "'w reconcile_env \<Rightarrow> JsPolicy \<Rightarrow> JsPolicyBundle option \<Rightarrow> string \<Rightarrow> 'w \<Rightarrow>
     go_error option \<times> JsPolicy \<times> JsPolicyBundle option \<times> 'w" where
  "compileBundle env p bundle bundleHash w =
     (let now = rcClock env;
          failed = (\<lambda>err. mark_error now BundleCompiledCondition ''CompileFailed'' (err_text err) p);
          uncompiled = on_conditions (\<lambda>cs. Delete cs BundleCompiledCondition) p;
          compiled = mark_true now BundleCompiledCondition p
      in if bundleHash \<noteq> [] then
           (if \<not> needs_compile p bundleHash then (None, p, bundle, w)
            else case rcBundle env (JavaScript (pSpec p)) (Dependencies (pSpec p)) w of
              (Inl err, w1) \<Rightarrow> (None, failed err, bundle, w1)
            | (Inr jsBundle, w1) \<Rightarrow>
                (case bundle of
                   None \<Rightarrow>
                     (case CreateWithOwner (rcSetRef env p) (rcBundleClient env)
                             \<lparr>bName = pName p, bBundle = jsBundle\<rparr> w1 of
                        (Some err, w2) \<Rightarrow> (Some err, uncompiled, None, w2)
                      | (None, w2) \<Rightarrow> (None, compiled, None, w2))
                 | Some b \<Rightarrow>
                     (case cUpdate (rcBundleClient env) (b\<lparr>bBundle := jsBundle\<rparr>) w1 of
                        (Some err, w2) \<Rightarrow> (Some err, uncompiled, Some (b\<lparr>bBundle := jsBundle\<rparr>), w2)
                      | (None, w2) \<Rightarrow> (None, compiled, Some (b\<lparr>bBundle := jsBundle\<rparr>), w2))))
         else if bundle = None then
           (None, mark_error now BundleCompiledCondition ''BundleMissing''
                    (''couldn'' @ [CHR 0x27] @ ''t find js policy bundle, but no javascript provided'') p, bundle, w)
         else (None, compiled, bundle, w))"

section \<open>Webhooks\<close>

text \<open>Deleting listed configurations: one that is gone already is no error.\<close>

fun delete_each ::
    "(WebhookConfiguration \<Rightarrow> 'w \<Rightarrow> go_error option \<times> 'w) \<Rightarrow> WebhookConfiguration list \<Rightarrow> 'w \<Rightarrow>
     go_error option \<times> 'w" where
  "delete_each del [] w = (None, w)"
| "delete_each del (vw # vws) w =
     (case del vw w of
        (Some err, w1) \<Rightarrow> if \<not> IsNotFound err then (Some err, w1) else delete_each del vws w1
      | (None, w1) \<Rightarrow> delete_each del vws w1)"

definition delete_listed ::
    "(string \<Rightarrow> 'w \<Rightarrow> (go_error + WebhookConfiguration list) \<times> 'w) \<Rightarrow>
     (WebhookConfiguration \<Rightarrow> 'w \<Rightarrow> go_error option \<times> 'w) \<Rightarrow> string \<Rightarrow> 'w \<Rightarrow> go_error option \<times> 'w" where
  "delete_listed list del name w =
     (case list name w of
        (Inl err, w1) \<Rightarrow> (Some err, w1)
      | (Inr items, w1) \<Rightarrow> delete_each del items w1)"

definition deletePolicyWebhooks :: "'w reconcile_env \<Rightarrow> JsPolicy \<Rightarrow> 'w \<Rightarrow> go_error option \<times> 'w" where
  "deletePolicyWebhooks env p w =
     (case delete_listed (rcListValidating env) (rcDeleteValidating env) (pName p) w of
        (Some err, w1) \<Rightarrow> (Some err, w1)
      | (None, w1) \<Rightarrow> delete_listed (rcListMutating env) (rcDeleteMutating env) (pName p) w1)"

text \<open>The client configuration: the URL of the environment, or the service.\<close>

definition webhook_client :: "'w reconcile_env \<Rightarrow> JsPolicy \<Rightarrow> string \<Rightarrow> WebhookClientConfig" where
  "webhook_client env p namespace =
     (let path = ''/policy/'' @ pName p;
          url = WebhookURL (rcGetenv env)
      in if url \<noteq> [] then \<lparr>ccURL = Some (url @ path), ccService = None, ccCABundle = rcCaBundle env\<rparr>
         else \<lparr>ccURL = None,
               ccService = Some \<lparr>srNamespace = namespace, srName = ServiceName (rcGetenv env), srPath = path, srPort = Some 443\<rparr>,
               ccCABundle = rcCaBundle env\<rparr>)"

definition or_all :: "string list \<Rightarrow> string list" where
  "or_all xs = (if xs = [] then [''*''] else xs)"

definition or_default :: "'a \<Rightarrow> 'a option \<Rightarrow> 'a option" where
  "or_default d x = (case x of None \<Rightarrow> Some d | Some v \<Rightarrow> Some v)"

definition policy_webhook :: "'w reconcile_env \<Rightarrow> JsPolicy \<Rightarrow> string \<Rightarrow> webhook" where
  "policy_webhook env p namespace =
     \<lparr>whName = pName p,
      whClientConfig = webhook_client env p namespace,
      whRules = [\<lparr>rwOperations = Operations (pSpec p),
                  rwAPIGroups = or_all (APIGroups (pSpec p)), rwAPIVersions = or_all (APIVersions (pSpec p)),
                  rwResources = Resources (pSpec p), rwScope = or_default ''*'' (Scope (pSpec p))\<rparr>],
      whFailurePolicy = or_default ''Fail'' (FailurePolicy (pSpec p)),
      whMatchPolicy = or_default ''Equivalent'' (MatchPolicy (pSpec p)),
      whNamespaceSelector = or_default \<lparr>matchLabels = [], matchExpressions = []\<rparr> (NamespaceSelector (pSpec p)),
      whObjectSelector = or_default \<lparr>matchLabels = [], matchExpressions = []\<rparr> (ObjectSelector (pSpec p)),
      whSideEffects = Some ''None'',
      whTimeoutSeconds = or_default 10 (TimeoutSeconds (pSpec p)),
      whAdmissionReviewVersions = [''v1''],
      whReinvocationPolicy = None\<rparr>"

definition policy_configuration :: "'w reconcile_env \<Rightarrow> JsPolicy \<Rightarrow> WebhookConfiguration option \<Rightarrow> webhook \<Rightarrow> WebhookConfiguration" where
  "policy_configuration env p original wh =
     \<lparr>wcName = (case original of
                  Some o1 \<Rightarrow> if wcName o1 \<noteq> [] then wcName o1 else pName p @ ''-'' @ rcRandom env
                | None \<Rightarrow> pName p @ ''-'' @ rcRandom env),
      wcLabels = pLabels p, wcAnnotations = pAnnotations p,
      wcOwners = [\<lparr>orAPIVersion = policyGroupVersion, orKind = ''JsPolicy'', orName = pName p, orUID = pUID p,
                  orController = True\<rparr>],
      wcWebhooks = [wh]\<rparr>"

definition syncMutatingWebhookConfiguration ::
    "'w reconcile_env \<Rightarrow> JsPolicy \<Rightarrow> WebhookConfiguration option \<Rightarrow> 'w \<Rightarrow> go_error option \<times> 'w" where
  "syncMutatingWebhookConfiguration env p original w =
     (case CurrentNamespace (rcGetenv env) (rcReadFile env) of
        Inl err \<Rightarrow> (Some err, w)
      | Inr namespace \<Rightarrow>
          apply_Apply (rcApplyMutating env)
            (policy_configuration env p original
              ((policy_webhook env p namespace)\<lparr>whReinvocationPolicy := or_default ''Never'' (ReinvocationPolicy (pSpec p))\<rparr>))
            True w)"

definition syncValidatingWebhookConfiguration ::
    "'w reconcile_env \<Rightarrow> JsPolicy \<Rightarrow> WebhookConfiguration option \<Rightarrow> 'w \<Rightarrow> go_error option \<times> 'w" where
  "syncValidatingWebhookConfiguration env p original w =
     (case CurrentNamespace (rcGetenv env) (rcReadFile env) of
        Inl err \<Rightarrow> (Some err, w)
      | Inr namespace \<Rightarrow>
          apply_Apply (rcApplyValidating env) (policy_configuration env p original (policy_webhook env p namespace)) True w)"

text \<open>
  \<open>syncWebhook\<close> for one of the two kinds: the configurations of the other kind go, of this kind the
  first one listed stays and is applied.
\<close>

definition sync_kind ::
    "'w reconcile_env \<Rightarrow> (string \<Rightarrow> 'w \<Rightarrow> (go_error + WebhookConfiguration list) \<times> 'w) \<Rightarrow>
     (WebhookConfiguration \<Rightarrow> 'w \<Rightarrow> go_error option \<times> 'w) \<Rightarrow>
     (string \<Rightarrow> 'w \<Rightarrow> (go_error + WebhookConfiguration list) \<times> 'w) \<Rightarrow>
     (WebhookConfiguration \<Rightarrow> 'w \<Rightarrow> go_error option \<times> 'w) \<Rightarrow>
     (WebhookConfiguration option \<Rightarrow> 'w \<Rightarrow> go_error option \<times> 'w) \<Rightarrow> JsPolicy \<Rightarrow> 'w \<Rightarrow>
     go_error option \<times> JsPolicy \<times> 'w" where
  "sync_kind env list_other del_other list_own del_own sync p w =
     (case delete_listed list_other del_other (pName p) w of
        (Some err, w1) \<Rightarrow> (Some err, p, w1)
      | (None, w1) \<Rightarrow>
     (case list_own (pName p) w1 of
        (Inl err, w2) \<Rightarrow> (Some err, p, w2)
      | (Inr items, w2) \<Rightarrow>
     (case delete_each del_own (drop 1 items) w2 of
        (Some err, w3) \<Rightarrow> (Some err, p, w3)
      | (None, w3) \<Rightarrow>
     (case sync (case items of [] \<Rightarrow> None | x # _ \<Rightarrow> Some x) w3 of
        (Some err, w4) \<Rightarrow> (Some err, mark_error (rcClock env) WebhookReady ''SyncFailed'' (err_text err) p, w4)
      | (None, w4) \<Rightarrow> (None, mark_true (rcClock env) WebhookReady p, w4)))))"

definition syncWebhook ::
    "'w reconcile_env \<Rightarrow> JsPolicy \<Rightarrow> 'w \<Rightarrow> go_error option \<times> JsPolicy \<times> 'w" where
  "syncWebhook env p w =
     (if PType (pSpec p) = PolicyTypeController then (None, p, w)
      else if PType (pSpec p) = PolicyTypeMutating
      then sync_kind env (rcListValidating env) (rcDeleteValidating env) (rcListMutating env) (rcDeleteMutating env)
             (syncMutatingWebhookConfiguration env p) p w
      else sync_kind env (rcListMutating env) (rcDeleteMutating env) (rcListValidating env) (rcDeleteValidating env)
             (syncValidatingWebhookConfiguration env p) p w)"

section \<open>Controller policies\<close>

text \<open>
  The background side. The reconciler reaches it through the interface \<open>controller.PolicyManager\<close>:
  an update and a deletion over a state \<open>'m\<close>. Its own state is the map of hashes.
\<close>

type_synonym 'm updater = "JsPolicy \<Rightarrow> bool \<Rightarrow> 'm \<Rightarrow> 'm \<times> go_error option"
type_synonym 'm deleter = "string \<Rightarrow> 'm \<Rightarrow> 'm"
type_synonym hashes = "string \<rightharpoonup> string"

definition syncControllerPolicy ::
    "'m updater \<Rightarrow> 'm deleter \<Rightarrow> 'w reconcile_env \<Rightarrow> JsPolicy \<Rightarrow> JsPolicyBundle \<Rightarrow> string \<Rightarrow> hashes \<Rightarrow> 'm \<Rightarrow>
     go_error option \<times> JsPolicy \<times> hashes \<times> 'm" where
  "syncControllerPolicy upd del env p bundle bundleHash hs m =
     (let bundleHash' = (if bundleHash = [] then rcSha env (bBundle bundle) else bundleHash) in
      case rcMarshalHash env bundleHash' (Resources (pSpec p)) (APIGroups (pSpec p)) (APIVersions (pSpec p)) of
        Inl err \<Rightarrow> (Some (err_wrap err ''hash controller policy object''), p, hs, m)
      | Inr bundleObject \<Rightarrow>
          let completeBundleHash = rcSha env bundleObject in
          if hs (pName p) \<noteq> Some completeBundleHash then
            (let hs' = hs(pName p \<mapsto> completeBundleHash) in
             case upd p True m of
               (m1, Some err) \<Rightarrow>
                 (None, mark_error (rcClock env) ControllerPolicyReady ''InitControllerPolicy''
                          (''error starting controller policy: '' @ err_text err) p, hs', del (pName p) m1)
             | (m1, None) \<Rightarrow> (None, mark_true (rcClock env) ControllerPolicyReady p, hs', m1))
          else if IsFalse (GetConditions p) ControllerPolicyReady then (None, p, hs, m)
          else (None, mark_true (rcClock env) ControllerPolicyReady p, hs, m))"

section \<open>Phase and patch\<close>

definition reconcilePhase :: "JsPolicy \<Rightarrow> go_error option \<Rightarrow> JsPolicy" where
  "reconcilePhase p err =
     (let st = pStatus p;
          phase = (if err = None then WebhookPhaseSynced else WebhookPhaseFailed)
      in case List.find (\<lambda>c. cStatus c = ConditionFalse \<and> cSeverity c = ConditionSeverityError) (stConditions st) of
           None \<Rightarrow> p\<lparr>pStatus := st\<lparr>stPhase := phase, stReason := [], stMessage := []\<rparr>\<rparr>
         | Some c \<Rightarrow> p\<lparr>pStatus := st\<lparr>stPhase := WebhookPhaseFailed, stReason := cReason c, stMessage := cMessage c\<rparr>\<rparr>)"

definition summarised :: "'w reconcile_env \<Rightarrow> JsPolicy \<Rightarrow> JsPolicy" where
  "summarised env p =
     on_conditions (\<lambda>cs. SetSummary (rcFormat env) (rcClock env) cs \<lparr>gKind = ''JsPolicy'', gName = pName p\<rparr>
       [WithConditions [ControllerPolicyReady, WebhookReady, BundleCompiledCondition]]) p"

definition patchPolicy ::
    "'w reconcile_env \<Rightarrow> Helper \<Rightarrow> JsPolicy \<Rightarrow> patch_option list \<Rightarrow> 'w \<Rightarrow> go_error list option \<times> JsPolicy \<times> 'w" where
  "patchPolicy env helper p options w =
     Patch (rcPatch env) helper (summarised env p)
       (options @ [WithOwnedConditions [ReadyCondition, ControllerPolicyReady, BundleCompiledCondition, WebhookReady]]) w"

section \<open>Reconcile\<close>

record ('w, 'm) reconciler_state =
  rsWorld :: 'w
  rsHashes :: hashes
  rsManager :: 'm

text \<open>The body after the patch helper is set up: requeue, error, the policy, the state.\<close>

definition reconcile_body ::
    "'m updater \<Rightarrow> 'm deleter \<Rightarrow> 'w reconcile_env \<Rightarrow> JsPolicy \<Rightarrow> JsPolicyBundle option \<Rightarrow> string \<Rightarrow>
     ('w, 'm) reconciler_state \<Rightarrow> bool \<times> go_error option \<times> JsPolicy \<times> ('w, 'm) reconciler_state" where
  "reconcile_body upd del env p bundle bundleHash st =
     (case compileBundle env p bundle bundleHash (rsWorld st) of
        (Some err, p1, bundle1, w1) \<Rightarrow> (False, Some err, p1, st\<lparr>rsWorld := w1\<rparr>)
      | (None, p1, bundle1, w1) \<Rightarrow>
          if IsFalse (GetConditions p1) BundleCompiledCondition then
            (case deletePolicyWebhooks env p1 w1 of
               (Some err, w2) \<Rightarrow> (False, Some err, p1, st\<lparr>rsWorld := w2\<rparr>)
             | (None, w2) \<Rightarrow>
                 (False, None, p1, st\<lparr>rsWorld := w2, rsManager := del (pName p1) (rsManager st)\<rparr>))
          else if PType (pSpec p1) = PolicyTypeController then
            (case bundle1 of
               None \<Rightarrow> (True, None, p1, st\<lparr>rsWorld := w1\<rparr>)
             | Some b \<Rightarrow>
                 (case syncControllerPolicy upd del env p1 b bundleHash (rsHashes st) (rsManager st) of
                    (err, p2, hs, m) \<Rightarrow> (False, err, p2, \<lparr>rsWorld = w1, rsHashes = hs, rsManager = m\<rparr>)))
          else
            (case syncWebhook env p1 w1 of
               (err, p2, w2) \<Rightarrow> (False, err, p2, st\<lparr>rsWorld := w2\<rparr>)))"

text \<open>
  \<open>Reconcile\<close>: whether to requeue, the errors of the returned aggregate, and the policy as it was
  handed to the patch, if it got that far.
\<close>

record reconcile_result =
  rrRequeue :: bool
  rrErrors :: "go_error list"
  rrPolicy :: "JsPolicy option"

abbreviation failed_early :: "go_error \<Rightarrow> reconcile_result" where
  "failed_early err \<equiv> \<lparr>rrRequeue = False, rrErrors = [err], rrPolicy = None\<rparr>"

definition finish_reconcile ::
    "'w reconcile_env \<Rightarrow> Helper \<Rightarrow> string \<Rightarrow> bool \<Rightarrow> go_error option \<Rightarrow> JsPolicy \<Rightarrow> ('w, 'm) reconciler_state \<Rightarrow>
     reconcile_result \<times> ('w, 'm) reconciler_state" where
  "finish_reconcile env helper bundleHash req reterr p st =
     (let p1 = reconcilePhase p reterr;
          p2 = p1\<lparr>pStatus := (pStatus p1)\<lparr>stBundleHash := bundleHash\<rparr>\<rparr>
      in case patchPolicy env helper p2 (if reterr = None then [WithStatusObservedGeneration] else []) (rsWorld st) of
           (patchErrs, p3, w) \<Rightarrow>
             (\<lparr>rrRequeue = req,
               rrErrors = (case reterr of None \<Rightarrow> [] | Some e \<Rightarrow> [e]) @ (case patchErrs of None \<Rightarrow> [] | Some es \<Rightarrow> es),
               rrPolicy = Some p3\<rparr>, st\<lparr>rsWorld := w\<rparr>))"

text \<open>With the policy, its bundle if there is one, and the hash: set up the patch helper, run, patch.\<close>

definition reconcile_found ::
    "'m updater \<Rightarrow> 'm deleter \<Rightarrow> 'w reconcile_env \<Rightarrow> JsPolicy \<Rightarrow> JsPolicyBundle option \<Rightarrow> string \<Rightarrow>
     ('w, 'm) reconciler_state \<Rightarrow> reconcile_result \<times> ('w, 'm) reconciler_state" where
  "reconcile_found upd del env p bundle bundleHash st =
     (case NewHelper (rcPatch env) True p of
        Inl err \<Rightarrow> (failed_early err, st)
      | Inr helper \<Rightarrow>
          (case reconcile_body upd del env p bundle bundleHash st of
             (req, reterr, p1, st1) \<Rightarrow> finish_reconcile env helper bundleHash req reterr p1 st1))"

definition Reconcile ::
    "'m updater \<Rightarrow> 'm deleter \<Rightarrow> 'w reconcile_env \<Rightarrow> string \<Rightarrow> ('w, 'm) reconciler_state \<Rightarrow>
     reconcile_result \<times> ('w, 'm) reconciler_state" where
  "Reconcile upd del env name st =
     (case rcGetPolicy env name (rsWorld st) of
        (Inl err, w1) \<Rightarrow>
          if IsNotFound err
          then (\<lparr>rrRequeue = False, rrErrors = [], rrPolicy = None\<rparr>,
                \<lparr>rsWorld = w1, rsHashes = (rsHashes st)(name := None), rsManager = del name (rsManager st)\<rparr>)
          else (failed_early err, st\<lparr>rsWorld := w1\<rparr>)
      | (Inr p, w1) \<Rightarrow>
     (case hashBundle env (JavaScript (pSpec p)) (Dependencies (pSpec p)) of
        Inl err \<Rightarrow> (failed_early (err_wrap err ''hash bundle''), st\<lparr>rsWorld := w1\<rparr>)
      | Inr bundleHash \<Rightarrow>
     (case rcGetBundle env name w1 of
        (res, w2) \<Rightarrow>
     (case res of
        Inl err \<Rightarrow>
          if \<not> IsNotFound err then (failed_early err, st\<lparr>rsWorld := w2\<rparr>)
          else reconcile_found upd del env p None bundleHash (st\<lparr>rsWorld := w2\<rparr>)
      | Inr b \<Rightarrow> reconcile_found upd del env p (Some b) bundleHash (st\<lparr>rsWorld := w2\<rparr>)))))"

section \<open>Finding a policy's configurations (indices.go, watcher.go)\<close>

definition GetControllerOf :: "OwnerReference list \<Rightarrow> OwnerReference option" where
  "GetControllerOf owners = List.find orController owners"

text \<open>The index of both kinds of configuration.\<close>

definition index_by_policy :: "WebhookConfiguration \<Rightarrow> string list" where
  "index_by_policy cr =
     (case GetControllerOf (wcOwners cr) of
        None \<Rightarrow> []
      | Some owner \<Rightarrow>
          if orAPIVersion owner \<noteq> policyGroupVersion \<or> orKind owner \<noteq> ''JsPolicy'' then [] else [orName owner])"

text \<open>The events of bundles: all but generic ones requeue the policy of the bundle's name.\<close>

datatype bundle_event =
    BundleCreate JsPolicyBundle
  | BundleUpdate JsPolicyBundle JsPolicyBundle
  | BundleDelete JsPolicyBundle
  | BundleGeneric JsPolicyBundle

fun bundle_requests :: "bundle_event \<Rightarrow> string list" where
  "bundle_requests (BundleCreate b) = [bName b]"
| "bundle_requests (BundleUpdate old new) = [bName new]"
| "bundle_requests (BundleDelete b) = [bName b]"
| "bundle_requests (BundleGeneric b) = []"

lemma index_policy_configuration [simp]:
  "index_by_policy (policy_configuration env p original wh) = [pName p]"
  by (simp add: index_by_policy_def policy_configuration_def GetControllerOf_def)

section \<open>The contract of the policy manager\<close>

text \<open>
  What the reconciler relies on: a deletion stops the policy, a successful update leaves it running,
  and neither touches another policy.
\<close>

locale policy_runner =
  fixes upd :: "'m updater" and del :: "'m deleter" and runs :: "'m \<Rightarrow> string \<Rightarrow> bool"
  assumes del_stops: "\<not> runs (del n m) n"
    and del_other: "k \<noteq> n \<Longrightarrow> runs (del n m) k = runs m k"
    and upd_runs: "upd p r m = (m', None) \<Longrightarrow> runs m' (pName p)"
    and upd_other: "upd p r m = (m', err) \<Longrightarrow> k \<noteq> pName p \<Longrightarrow> runs m' k = runs m k"
begin

lemma sync_other:
  "syncControllerPolicy upd del env p b h hs m = (err, p', hs', m') \<Longrightarrow> k \<noteq> pName p \<Longrightarrow>
   runs m' k = runs m k \<and> hs' k = hs k"
  by (auto simp: syncControllerPolicy_def Let_def del_other dest: upd_other split: sum.splits if_splits option.splits prod.splits)

text \<open>With a new hash, the condition and the manager agree afterwards.\<close>

lemma sync_new_hash:
  assumes "distinct (map cType (GetConditions p))"
    and "rcMarshalHash env (if h = [] then rcSha env (bBundle b) else h) (Resources (pSpec p)) (APIGroups (pSpec p)) (APIVersions (pSpec p)) = Inr obj"
    and "hs (pName p) \<noteq> Some (rcSha env obj)"
    and "syncControllerPolicy upd del env p b h hs m = (err, p', hs', m')"
  shows "err = None \<and> hs' (pName p) = Some (rcSha env obj) \<and>
    IsFalse (GetConditions p') ControllerPolicyReady = (\<not> runs m' (pName p)) \<and>
    Has (GetConditions p') ControllerPolicyReady"
proof -
  obtain m1 e where u: "upd p True m = (m1, e)" by fastforce
  have get: "Get (fst (SetCondition now (GetConditions p) c)) (cType c) = Some (stored now (GetConditions p) c)" for now c
    by (simp add: Get_SetCondition [OF assms(1)])
  have status: "cStatus (stored now (GetConditions p) c) = cStatus c" for now c
    using stored_same [of now "GetConditions p" c] by (simp add: hasSameState_def)
  show ?thesis
  proof (cases e)
    case None
    have "runs m1 (pName p)" using upd_runs [OF u [unfolded None]] .
    moreover have "p' = mark_true (rcClock env) ControllerPolicyReady p" "hs' = hs(pName p \<mapsto> rcSha env obj)" "m' = m1" "err = None"
      using assms(2-4) u None by (auto simp: syncControllerPolicy_def Let_def)
    ultimately show ?thesis
      using get [of "rcClock env" "TrueCondition ControllerPolicyReady"] status [of "rcClock env" "TrueCondition ControllerPolicyReady"]
      by (simp add: mark_true_def on_conditions_def MarkTrue_def SetCond_def IsFalse_def Has_def GetConditions_def SetConditions_def TrueCondition_def)
  next
    case (Some x)
    let ?c = "FalseCondition ControllerPolicyReady ''InitControllerPolicy'' ConditionSeverityError
      (''error starting controller policy: '' @ err_text x)"
    have "\<not> runs (del (pName p) m1) (pName p)" by (rule del_stops)
    moreover have "p' = on_conditions (\<lambda>cs. SetCond (rcClock env) cs (Some ?c)) p"
      "hs' = hs(pName p \<mapsto> rcSha env obj)" "m' = del (pName p) m1" "err = None"
      using assms(2-4) u Some by (auto simp: syncControllerPolicy_def Let_def mark_error_def MarkFalse_def)
    ultimately show ?thesis
      using get [of "rcClock env" ?c] status [of "rcClock env" ?c]
      by (simp add: on_conditions_def SetCond_def IsFalse_def Has_def GetConditions_def SetConditions_def FalseCondition_def)
  qed
qed

lemma stop_result: "\<not> runs (del n m) n \<and> (k \<noteq> n \<longrightarrow> runs (del n m) k = runs m k)"
  by (simp add: del_stops del_other)

end

lemma deleteNoLock_policies: "policies (deleteNoLock n st) = (policies st)(n := None)"
  by (auto simp: deleteNoLock_def split: option.splits)

lemma ensure_informers_policies: "policies (fst (ensure_informers env gvks st)) = policies st"
  by (induction env gvks st rule: ensure_informers.induct) (auto split: option.splits)

lemma add_to_handlers_policies: "policies (add_to_handlers c gvks st) = policies st"
  unfolding add_to_handlers_def by (induction gvks arbitrary: st) simp_all

lemma addNoLock_policies:
  assumes "addNoLock env p gvks st = (st', err)"
  shows "(err = None \<longrightarrow> policies st' (pName p) \<noteq> None) \<and> (\<forall>k. k \<noteq> pName p \<longrightarrow> policies st' k = policies st k)"
proof (cases "policies st (pName p)")
  case (Some e)
  then show ?thesis using assms by (simp add: addNoLock_def)
next
  case None
  obtain s1 e1 where ens: "ensure_informers env gvks st = (s1, e1)" by fastforce
  have "policies s1 = policies st" using ensure_informers_policies [of env gvks st] ens by simp
  then show ?thesis
    using assms None by (cases e1) (auto simp: addNoLock_def ens Let_def add_to_handlers_policies)
qed

interpretation manager_runner: policy_runner "manager_Update env" manager_Delete "\<lambda>m n. policies m n \<noteq> None" for env
proof unfold_locales
  fix n m k
  show "\<not> policies (manager_Delete n m) n \<noteq> None" by (simp add: manager_Delete_def deleteNoLock_policies)
  show "k \<noteq> n \<Longrightarrow> (policies (manager_Delete n m) k \<noteq> None) = (policies m k \<noteq> None)"
    by (simp add: manager_Delete_def deleteNoLock_policies)
next
  fix p r m m' err k
  have upd: "(err = None \<longrightarrow> policies m' (pName p) \<noteq> None) \<and> (\<forall>k. k \<noteq> pName p \<longrightarrow> policies m' k = policies m k)"
    if u: "manager_Update env p r m = (m', err)" for err
  proof -
    have rq: "policies s' = policies s" if "requeue env c s = (s', e)" for s s' c e
      using requeue_fields(1) [of env c s] that by simp
    show ?thesis
      using u addNoLock_policies [of env p _ m m' err] addNoLock_policies [of env p _ "deleteNoLock (pName p) m" m' err]
      by (auto simp: manager_Update_def deleteNoLock_policies dest: rq split: sum.splits option.splits if_splits)
  qed
  show "manager_Update env p r m = (m', None) \<Longrightarrow> policies m' (pName p) \<noteq> None"
    using upd [of None] by simp
  show "manager_Update env p r m = (m', err) \<Longrightarrow> k \<noteq> pName p \<Longrightarrow> (policies m' k \<noteq> None) = (policies m k \<noteq> None)"
    using upd [of err] by simp
qed

section \<open>Deleting configurations\<close>

text \<open>
  What the API server answers for one kind of configuration, \<open>own\<close>, and leaves of the other: a list
  by owner gives the stored configurations that the index files under that policy, once each; a
  deletion removes the configuration or reports that there is none. Other errors may occur.
\<close>

definition api_kind ::
    "(string \<Rightarrow> 'w \<Rightarrow> (go_error + WebhookConfiguration list) \<times> 'w) \<Rightarrow>
     (WebhookConfiguration \<Rightarrow> 'w \<Rightarrow> go_error option \<times> 'w) \<Rightarrow>
     ('w \<Rightarrow> string \<rightharpoonup> WebhookConfiguration) \<Rightarrow> ('w \<Rightarrow> string \<rightharpoonup> WebhookConfiguration) \<Rightarrow> bool" where
  "api_kind list del own other \<longleftrightarrow>
     (\<forall>n w items w'. list n w = (Inr items, w') \<longrightarrow>
        own w' = own w \<and> other w' = other w \<and> distinct (map wcName items) \<and>
        (\<forall>c. c \<in> set items \<longleftrightarrow> own w (wcName c) = Some c \<and> n \<in> set (index_by_policy c))) \<and>
     (\<forall>c w r w'. del c w = (r, w') \<and> (r = None \<or> IsNotFound (the r)) \<longrightarrow>
        own w' = (own w)(wcName c := None) \<and> other w' = other w)"

lemma api_kind_list:
  assumes "api_kind list del own other" and "list n w = (Inr items, w')"
  shows "own w' = own w" and "other w' = other w" and "distinct (map wcName items)"
    and "c \<in> set items \<longleftrightarrow> own w (wcName c) = Some c \<and> n \<in> set (index_by_policy c)"
  using assms(1) [unfolded api_kind_def, THEN conjunct1, rule_format, OF assms(2)] by blast+

lemma api_kind_del:
  assumes "api_kind list del own other" and "del c w = (r, w')" and "r = None \<or> IsNotFound (the r)"
  shows "own w' = (own w)(wcName c := None)" and "other w' = other w"
  using assms(1) [unfolded api_kind_def, THEN conjunct2, rule_format, OF conjI [OF assms(2,3)]] by blast+

lemma delete_each_result:
  assumes "api_kind list del own other"
  shows "delete_each del items w = (None, w') \<Longrightarrow>
    own w' = own w |` (- wcName ` set items) \<and> other w' = other w"
proof (induction items arbitrary: w)
  case Nil
  then show ?case by simp
next
  case (Cons c items)
  obtain r w1 where d: "del c w = (r, w1)" by fastforce
  have ok: "r = None \<or> IsNotFound (the r)" and rest: "delete_each del items w1 = (None, w')"
    using Cons.prems d by (auto split: option.splits if_splits)
  note step = api_kind_del [OF assms d ok]
  show ?case using Cons.IH [OF rest] step by (auto simp: restrict_map_def fun_eq_iff)
qed

text \<open>The configurations that are not filed under a policy.\<close>

definition unowned :: "string \<Rightarrow> (string \<rightharpoonup> WebhookConfiguration) \<Rightarrow> string \<rightharpoonup> WebhookConfiguration" where
  "unowned n cfgs = (\<lambda>k. case cfgs k of
     None \<Rightarrow> None | Some c \<Rightarrow> if wcName c = k \<and> n \<in> set (index_by_policy c) then None else Some c)"

lemma listed_gone:
  assumes "\<forall>c. c \<in> set items \<longleftrightarrow> cfgs (wcName c) = Some c \<and> n \<in> set (index_by_policy c)"
  shows "cfgs |` (- wcName ` set items) = unowned n cfgs"
proof
  fix k
  have "k \<in> wcName ` set items \<longleftrightarrow> (\<exists>c. cfgs k = Some c \<and> wcName c = k \<and> n \<in> set (index_by_policy c))"
    using assms by auto
  then show "(cfgs |` (- wcName ` set items)) k = unowned n cfgs k"
    by (auto simp: restrict_map_def unowned_def split: option.splits)
qed

lemma delete_listed_result:
  assumes "api_kind list del own other" and "delete_listed list del n w = (None, w')"
  shows "own w' = unowned n (own w)" and "other w' = other w"
proof -
  obtain items w1 where l: "list n w = (Inr items, w1)" "delete_each del items w1 = (None, w')"
    using assms(2) by (auto simp: delete_listed_def split: prod.splits sum.splits)
  note lst = api_kind_list [OF assms(1) l(1)]
  have "own w' = own w1 |` (- wcName ` set items)" and o: "other w' = other w1"
    using delete_each_result [OF assms(1) l(2)] by blast+
  then show "own w' = unowned n (own w)" using lst(1,4) listed_gone [of items "own w" n] by simp
  show "other w' = other w" using o lst(2) by simp
qed

section \<open>Properties\<close>

lemma sync_kind_result:
  assumes other: "api_kind list_other del_other other own" and own: "api_kind list_own del_own own other"
    and sync: "sync_kind env list_other del_other list_own del_own apply_it p w = (None, p', w')"
  shows "\<exists>wa kept. other wa = unowned (pName p) (other w) \<and>
    (case kept of
       None \<Rightarrow> own wa = unowned (pName p) (own w)
     | Some c \<Rightarrow> own w (wcName c) = Some c \<and> pName p \<in> set (index_by_policy c) \<and>
         own wa = (unowned (pName p) (own w))(wcName c \<mapsto> c)) \<and>
    apply_it kept wa = (None, w') \<and> p' = mark_true (rcClock env) WebhookReady p"
proof -
  obtain w1 where w1: "delete_listed list_other del_other (pName p) w = (None, w1)"
    using sync by (auto simp: sync_kind_def split: prod.splits option.splits)
  obtain items w2 where w2: "list_own (pName p) w1 = (Inr items, w2)"
    using sync w1 by (auto simp: sync_kind_def split: prod.splits option.splits sum.splits)
  obtain wa where wa: "delete_each del_own (drop 1 items) w2 = (None, wa)"
    using sync w1 w2 by (auto simp: sync_kind_def split: prod.splits option.splits)
  let ?kept = "case items of [] \<Rightarrow> None | x # _ \<Rightarrow> Some x"
  have ap: "apply_it ?kept wa = (None, w')" and p': "p' = mark_true (rcClock env) WebhookReady p"
    using sync w1 w2 wa by (auto simp: sync_kind_def split: prod.splits option.splits)
  note r1 = delete_listed_result [OF other w1]
  note r2 = api_kind_list [OF own w2]
  have r3: "own wa = own w2 |` (- wcName ` set (drop 1 items))" "other wa = other w2"
    using delete_each_result [OF own wa] by blast+
  have otherwa: "other wa = unowned (pName p) (other w)" using r1(1) r2(2) r3(2) by simp
  have ownw: "own w2 = own w" using r1(2) r2(1) by simp
  have all: "own w |` (- wcName ` set items) = unowned (pName p) (own w)"
    by (rule listed_gone) (use r2(4) r1(2) in simp)
  have kept: "case ?kept of None \<Rightarrow> own wa = unowned (pName p) (own w)
     | Some c \<Rightarrow> own w (wcName c) = Some c \<and> pName p \<in> set (index_by_policy c) \<and>
         own wa = (unowned (pName p) (own w))(wcName c \<mapsto> c)"
  proof (cases items)
    case Nil
    then show ?thesis using r3(1) ownw all by simp
  next
    case (Cons c rest)
    have c: "own w (wcName c) = Some c" "pName p \<in> set (index_by_policy c)"
      using r2(4) [of c] r1(2) Cons by simp_all
    have notin: "wcName c \<notin> wcName ` set rest" using r2(3) Cons by simp
    have "own w |` (- wcName ` set rest) = (own w |` (- wcName ` set items))(wcName c \<mapsto> c)"
      using c(1) notin by (auto simp: Cons restrict_map_def fun_eq_iff)
    then show ?thesis using c r3(1) ownw all Cons by simp
  qed
  show ?thesis using otherwa kept ap p' by blast
qed

text \<open>The webhook of a policy, as its kind has it, and where it is applied.\<close>

definition kind_webhook :: "'w reconcile_env \<Rightarrow> JsPolicy \<Rightarrow> string \<Rightarrow> webhook" where
  "kind_webhook env p ns =
     (if PType (pSpec p) = PolicyTypeMutating
      then (policy_webhook env p ns)\<lparr>whReinvocationPolicy := or_default ''Never'' (ReinvocationPolicy (pSpec p))\<rparr>
      else policy_webhook env p ns)"

definition kind_apply :: "'w reconcile_env \<Rightarrow> JsPolicy \<Rightarrow> (WebhookConfiguration, 'w) apply_env" where
  "kind_apply env p =
     (if PType (pSpec p) = PolicyTypeMutating then rcApplyMutating env else rcApplyValidating env)"


text \<open>
  C22: when compiling a changed script fails, a reconcile that reports no error has taken the policy
  out of service and nothing else: no webhook configuration of either kind is left that is filed under
  it, its background controller is stopped, the failure is in the condition with its full text, and
  the phase becomes Failed. What it forgets is the recorded hash of the background controller, which
  stays.
\<close>

theorem compile_failure_stops_policy:
  assumes val: "api_kind (rcListValidating env) (rcDeleteValidating env) val mut"
    and mut: "api_kind (rcListMutating env) (rcDeleteMutating env) mut val"
    and types: "distinct (map cType (GetConditions p))"
    and compile: "h \<noteq> []" "needs_compile p h"
      "rcBundle env (JavaScript (pSpec p)) (Dependencies (pSpec p)) (rsWorld st) = (Inl e, rsWorld st)"
    and run: "reconcile_body (manager_Update menv) manager_Delete env p b h st = (req, None, p1, st1)"
  shows "\<not> req \<and> val (rsWorld st1) = unowned (pName p) (val (rsWorld st)) \<and>
    mut (rsWorld st1) = unowned (pName p) (mut (rsWorld st)) \<and>
    policies (rsManager st1) = (policies (rsManager st))(pName p := None) \<and>
    rsHashes st1 = rsHashes st \<and>
    (\<exists>c. Get (GetConditions p1) BundleCompiledCondition = Some c \<and> cStatus c = ConditionFalse \<and>
       cReason c = ''CompileFailed'' \<and> cMessage c = err_text e) \<and>
    stPhase (pStatus (reconcilePhase p1 None)) = WebhookPhaseFailed"
proof -
  let ?c = "FalseCondition BundleCompiledCondition ''CompileFailed'' ConditionSeverityError (err_text e)"
  let ?p1 = "mark_error (rcClock env) BundleCompiledCondition ''CompileFailed'' (err_text e) p"
  have cb: "compileBundle env p b h (rsWorld st) = (None, ?p1, b, rsWorld st)"
    using compile by (simp add: compileBundle_def Let_def)
  have get: "Get (GetConditions ?p1) BundleCompiledCondition = Some (stored (rcClock env) (GetConditions p) ?c)"
    using Get_SetCondition [OF types, of "rcClock env" ?c BundleCompiledCondition]
    by (simp add: mark_error_def on_conditions_def MarkFalse_def SetCond_def GetConditions_def SetConditions_def FalseCondition_def)
  have same: "hasSameState (stored (rcClock env) (GetConditions p) ?c) ?c" by (rule stored_same)
  then have c: "cStatus (stored (rcClock env) (GetConditions p) ?c) = ConditionFalse"
      "cSeverity (stored (rcClock env) (GetConditions p) ?c) = ConditionSeverityError"
      "cReason (stored (rcClock env) (GetConditions p) ?c) = ''CompileFailed''"
      "cMessage (stored (rcClock env) (GetConditions p) ?c) = err_text e"
    by (simp_all add: hasSameState_def FalseCondition_def)
  have false: "IsFalse (GetConditions ?p1) BundleCompiledCondition" by (simp add: IsFalse_def get c(1))
  have name: "pName ?p1 = pName p" by (simp add: mark_error_def on_conditions_def SetConditions_def)
  obtain w2 where del: "deletePolicyWebhooks env ?p1 (rsWorld st) = (None, w2)"
    using run by (auto simp: reconcile_body_def cb false split: prod.splits option.splits)
  then have r: "req = False" "p1 = ?p1" "st1 = st\<lparr>rsWorld := w2, rsManager := manager_Delete (pName p) (rsManager st)\<rparr>"
    using run by (simp_all add: reconcile_body_def cb false name)
  obtain wm where d1: "delete_listed (rcListValidating env) (rcDeleteValidating env) (pName p) (rsWorld st) = (None, wm)"
      and d2: "delete_listed (rcListMutating env) (rcDeleteMutating env) (pName p) wm = (None, w2)"
    using del by (auto simp: deletePolicyWebhooks_def name split: prod.splits option.splits)
  note l1 = delete_listed_result [OF val d1]
  note l2 = delete_listed_result [OF mut d2]
  have "stored (rcClock env) (GetConditions p) ?c \<in> set (stConditions (pStatus ?p1))"
    using Get_in [OF get] by (simp add: GetConditions_def)
  then have "List.find (\<lambda>c. cStatus c = ConditionFalse \<and> cSeverity c = ConditionSeverityError) (stConditions (pStatus ?p1)) \<noteq> None"
    unfolding find_None_set using c(1,2) by blast
  then have "stPhase (pStatus (reconcilePhase ?p1 None)) = WebhookPhaseFailed"
    by (auto simp: reconcilePhase_def Let_def split: option.splits)
  moreover have "\<exists>c. Get (GetConditions ?p1) BundleCompiledCondition = Some c \<and> cStatus c = ConditionFalse \<and>
       cReason c = ''CompileFailed'' \<and> cMessage c = err_text e"
    using get c by blast
  ultimately show ?thesis
    using l1 l2 by (simp add: r manager_Delete_def deleteNoLock_policies)
qed

text \<open>
  C29: a controller policy whose script breaks and is then put back does not come back. The failed
  compile stops its controller but keeps the recorded hash, so the reconcile of the repaired script
  finds nothing changed: it reports the bundle compiled and the controller ready and reports no
  error, while no controller of the policy runs.
\<close>

theorem repaired_policy_not_running:
  assumes failed: "IsFalse (GetConditions pf) BundleCompiledCondition"
      "compileBundle env p1 (Some b1) h1 (rsWorld st) = (None, pf, bf, w1)"
      "reconcile_body (manager_Update menv) manager_Delete env p1 (Some b1) h1 st = (req, None, p1', st1)"
    and recorded: "rcMarshalHash env h (Resources (pSpec p2)) (APIGroups (pSpec p2)) (APIVersions (pSpec p2)) = Inr obj"
      "rsHashes st (pName p2) = Some (rcSha env obj)"
    and repaired: "h \<noteq> []" "PType (pSpec p2) = PolicyTypeController" "pName pf = pName p2"
      "distinct (map cType (GetConditions p2))" "\<not> IsFalse (GetConditions p2) ControllerPolicyReady"
      "needs_compile p2 h" "rcBundle env (JavaScript (pSpec p2)) (Dependencies (pSpec p2)) (rsWorld st1) = (Inr js, w2)"
      "cUpdate (rcBundleClient env) (b2\<lparr>bBundle := js\<rparr>) w2 = (None, w3)"
  shows "\<exists>p' st2. reconcile_body (manager_Update menv) manager_Delete env p2 (Some b2) h st1 = (False, None, p', st2) \<and>
    IsTrue (GetConditions p') BundleCompiledCondition \<and> IsTrue (GetConditions p') ControllerPolicyReady \<and>
    policies (rsManager st2) (pName p2) = None"
proof -
  obtain w where st1: "st1 = st\<lparr>rsWorld := w, rsManager := manager_Delete (pName p2) (rsManager st)\<rparr>"
    using failed repaired(3) by (auto simp: reconcile_body_def split: prod.splits option.splits)
  let ?now = "rcClock env"
  let ?p' = "mark_true ?now BundleCompiledCondition p2"
  let ?p'' = "mark_true ?now ControllerPolicyReady ?p'"
  have cb: "compileBundle env p2 (Some b2) h (rsWorld st1) = (None, ?p', Some (b2\<lparr>bBundle := js\<rparr>), w3)"
    using repaired by (simp add: compileBundle_def Let_def)
  have fields: "pSpec (mark_true now t p) = pSpec p" "pName (mark_true now t p) = pName p" for now t p
    by (simp_all add: mark_true_def on_conditions_def SetConditions_def)
  have get: "Get (GetConditions (mark_true now t p)) t' =
      (if t' = t then Some (stored now (GetConditions p) (TrueCondition t)) else Get (GetConditions p) t')"
    if "distinct (map cType (GetConditions p))" for now t t' p
    using Get_SetCondition [OF that, of now "TrueCondition t" t']
    by (simp add: mark_true_def on_conditions_def MarkTrue_def SetCond_def GetConditions_def SetConditions_def TrueCondition_def)
  have dist: "distinct (map cType (GetConditions (mark_true now t p)))" if "distinct (map cType (GetConditions p))" for now t p
    using SetCondition_distinct [OF that, of now "TrueCondition t"]
    by (simp add: mark_true_def on_conditions_def MarkTrue_def SetCond_def GetConditions_def SetConditions_def)
  have true: "cStatus (stored now cs (TrueCondition t)) = ConditionTrue" for now cs t
    using stored_same [of now cs "TrueCondition t"] by (simp add: hasSameState_def TrueCondition_def)
  note d = dist [OF repaired(4)]
  have notfalse: "\<not> IsFalse (GetConditions ?p') BundleCompiledCondition" "\<not> IsFalse (GetConditions ?p') ControllerPolicyReady"
    using repaired(5) by (simp_all add: IsFalse_def get [OF repaired(4)] true)
  have "syncControllerPolicy (manager_Update menv) manager_Delete env ?p' (b2\<lparr>bBundle := js\<rparr>) h (rsHashes st1) (rsManager st1) =
      (None, ?p'', rsHashes st1, rsManager st1)"
    using recorded repaired(1) notfalse(2) by (simp add: syncControllerPolicy_def fields st1 Let_def)
  then have "reconcile_body (manager_Update menv) manager_Delete env p2 (Some b2) h st1 =
      (False, None, ?p'', \<lparr>rsWorld = w3, rsHashes = rsHashes st1, rsManager = rsManager st1\<rparr>)"
    using notfalse(1) repaired(2) by (simp add: reconcile_body_def cb fields)
  moreover have "IsTrue (GetConditions ?p'') BundleCompiledCondition \<and> IsTrue (GetConditions ?p'') ControllerPolicyReady"
    by (simp add: IsTrue_def get [OF d] get [OF repaired(4)] true)
  moreover have "policies (rsManager st1) (pName p2) = None"
    by (simp add: st1 manager_Delete_def deleteNoLock_policies)
  ultimately show ?thesis by auto
qed

text \<open>
  A bundle that was deleted while its policy's script is compiled and unchanged is not created
  again: compiling does nothing, a controller policy is requeued without end and in the same state,
  and the policy still says that its bundle is compiled.
\<close>

theorem deleted_bundle_not_recreated:
  assumes "h \<noteq> []" and "\<not> needs_compile p h" and "IsTrue (GetConditions p) BundleCompiledCondition"
    and "PType (pSpec p) = PolicyTypeController"
  shows "compileBundle env p None h (rsWorld st) = (None, p, None, rsWorld st) \<and>
    reconcile_body upd del env p None h st = (True, None, p, st)"
proof -
  have c: "compileBundle env p None h (rsWorld st) = (None, p, None, rsWorld st)"
    using assms(1,2) by (simp add: compileBundle_def Let_def)
  have "\<not> IsFalse (GetConditions p) BundleCompiledCondition"
    using assms(3) by (auto simp: IsTrue_def IsFalse_def split: option.splits)
  then show ?thesis using c assms(4) by (simp add: reconcile_body_def)
qed

section \<open>An example server\<close>

text \<open>Two lists of stored configurations, validating and mutating, and the scripts that compile.\<close>

type_synonym cfg_world = "WebhookConfiguration list \<times> WebhookConfiguration list"

definition stored_cfg :: "WebhookConfiguration list \<Rightarrow> string \<rightharpoonup> WebhookConfiguration" where
  "stored_cfg xs k = List.find (\<lambda>c. wcName c = k) xs"

definition list_cfgs :: "WebhookConfiguration list \<Rightarrow> string \<Rightarrow> WebhookConfiguration list" where
  "list_cfgs xs n = remdups (filter (\<lambda>c. stored_cfg xs (wcName c) = Some c \<and> n \<in> set (index_by_policy c)) xs)"

lemma stored_cfg_mem: "stored_cfg xs (wcName c) = Some c \<Longrightarrow> c \<in> set xs"
  using find_SomeD [of _ xs c] by (auto simp: stored_cfg_def)

lemma list_cfgs_ok:
  "distinct (map wcName (list_cfgs xs n)) \<and>
   (c \<in> set (list_cfgs xs n) \<longleftrightarrow> stored_cfg xs (wcName c) = Some c \<and> n \<in> set (index_by_policy c))"
proof -
  have mem: "c \<in> set (list_cfgs xs n) \<longleftrightarrow> stored_cfg xs (wcName c) = Some c \<and> n \<in> set (index_by_policy c)" for c
    using stored_cfg_mem by (auto simp: list_cfgs_def)
  have "inj_on wcName (set (list_cfgs xs n))"
    by (rule inj_onI) (metis mem option.inject)
  then have "distinct (map wcName (list_cfgs xs n))" by (simp add: distinct_map list_cfgs_def)
  then show ?thesis using mem by blast
qed

lemma stored_cfg_filter: "stored_cfg (filter (\<lambda>x. wcName x \<noteq> n) xs) = (stored_cfg xs)(n := None)"
  by (induction xs) (auto simp: stored_cfg_def fun_eq_iff)

definition cfg_apply :: "('w \<Rightarrow> WebhookConfiguration list) \<Rightarrow>
    ((WebhookConfiguration list \<Rightarrow> WebhookConfiguration list) \<Rightarrow> 'w \<Rightarrow> 'w) \<Rightarrow>
    (WebhookConfiguration, 'w) apply_env" where
  "cfg_apply part upd =
     \<lparr>objectKinds = (\<lambda>_. Inr [\<lparr>gvkGroup = ''admissionregistration.k8s.io'', gvkVersion = ''v1'', gvkKind = ''Webhook''\<rparr>]),
      schemeNew = (\<lambda>_. Inr \<lparr>wcName = [], wcLabels = [], wcAnnotations = [], wcOwners = [], wcWebhooks = []\<rparr>), emptyUnstructured = (\<lambda>_. None), setType = (\<lambda>_ x. x),
      nameOf = wcName, namespaceOf = (\<lambda>_. []), generateNameOf = (\<lambda>_. []), resourceVersionOf = (\<lambda>_. []),
      setNames = (\<lambda>n ns x. x\<lparr>wcName := n\<rparr>), annotationsOf = wcAnnotations, setAnnotations = (\<lambda>a x. x\<lparr>wcAnnotations := a\<rparr>),
      encodeObject = (\<lambda>x. Inr (wcName x)), decodeObject = (\<lambda>s. Inl (Errorf s)), showObject = wcName,
      threeWayJSON = (\<lambda>o1 m c. Inr m), threeWayStrategic = (\<lambda>o1 m c. Inr m), unmarshalPatch = (\<lambda>s. Inr []),
      apGet = (\<lambda>ns n w. case stored_cfg (part w) n of None \<Rightarrow> (Inl (GoError NotFound n), w) | Some x \<Rightarrow> (Inr x, w)),
      apCreate = (\<lambda>x w. (None, upd (Cons x) w)), apPatch = (\<lambda>x p w. (None, w)),
      apDelete = (\<lambda>x w. (None, upd (filter (\<lambda>c. wcName c \<noteq> wcName x)) w)), pollChecks = 10\<rparr>"

definition example_patch :: "'w patch_env" where
  "example_patch =
     \<lparr>gvkForObject = (\<lambda>_. Inr \<lparr>gvkGroup = [], gvkVersion = [], gvkKind = ''JsPolicy''\<rparr>), toUnstructured = (\<lambda>_. Inr []),
      fromUnstructured = (\<lambda>_ p. Inr p), mergePatchKeys = (\<lambda>_ _. Inr []), getLatest = (\<lambda>k w. (Inl (GoError NotFound k), w)),
      patchStatusLocked = (\<lambda>_ _ w. (None, w)), patchObject = (\<lambda>_ _ w. (None, w)), patchStatusSub = (\<lambda>_ _ w. (None, w)),
      conflictText = (\<lambda>_. ''conflict''), clock = 9\<rparr>"

definition example_reconcile :: "cfg_world reconcile_env" where
  "example_reconcile =
     \<lparr>rcGetPolicy = (\<lambda>n w. (Inr example_policy, w)), rcGetBundle = (\<lambda>n w. (Inr \<lparr>bName = n, bBundle = []\<rparr>, w)),
      rcBundle = (\<lambda>js deps w. (if js = ''broken'' then Inl (Errorf ''syntax error'') else Inr js, w)),
      rcBundleClient = \<lparr>cGet = (\<lambda>ns n w. (Inr \<lparr>bName = n, bBundle = []\<rparr>, w)), cCreate = (\<lambda>b w. (None, w)), cUpdate = (\<lambda>b w. (None, w))\<rparr>,
      rcSetRef = (\<lambda>p b. Inr b), rcMarshalBundle = (\<lambda>js deps. Inr js), rcMarshalHash = (\<lambda>h rs gs vs. Inr h), rcSha = (\<lambda>s. s),
      rcListValidating = (\<lambda>n w. (Inr (list_cfgs (fst w) n), w)), rcListMutating = (\<lambda>n w. (Inr (list_cfgs (snd w) n), w)),
      rcDeleteValidating = (\<lambda>c w. (None, (filter (\<lambda>x. wcName x \<noteq> wcName c) (fst w), snd w))),
      rcDeleteMutating = (\<lambda>c w. (None, (fst w, filter (\<lambda>x. wcName x \<noteq> wcName c) (snd w)))),
      rcApplyValidating = cfg_apply fst apfst, rcApplyMutating = cfg_apply snd apsnd,
      rcGetenv = (\<lambda>_. ''jspolicy''), rcReadFile = (\<lambda>_. Inr []), rcRandom = ''abcde'', rcCaBundle = ''ca'',
      rcPatch = example_patch, rcFormat = id, rcClock = 9\<rparr>"

lemma example_kinds:
  "api_kind (rcListValidating example_reconcile) (rcDeleteValidating example_reconcile) (stored_cfg \<circ> fst) (stored_cfg \<circ> snd)"
  "api_kind (rcListMutating example_reconcile) (rcDeleteMutating example_reconcile) (stored_cfg \<circ> snd) (stored_cfg \<circ> fst)"
  using list_cfgs_ok by (auto simp: api_kind_def example_reconcile_def stored_cfg_filter)

definition example_mutating :: JsPolicy where
  "example_mutating = example_policy\<lparr>pSpec := (pSpec example_policy)\<lparr>PType := PolicyTypeMutating\<rparr>\<rparr>"

definition example_stale :: WebhookConfiguration where
  "example_stale = policy_configuration example_reconcile example_mutating None (policy_webhook example_reconcile example_mutating [])"

lemma example_stale_facts:
  "index_by_policy example_stale = [''p.example.com'']" "wcName example_stale = ''p.example.com-abcde''"
  by (simp_all add: example_stale_def example_mutating_def example_policy_def policy_configuration_def
      index_by_policy_def GetControllerOf_def example_reconcile_def)

lemma example_lists:
  "list_cfgs [example_stale] ''p.example.com'' = [example_stale]" "list_cfgs [] n = []"
  by (simp_all add: list_cfgs_def stored_cfg_def example_stale_facts)

lemma cfg_apply_creates:
  assumes "stored_cfg (part w) (wcName c) = None" and "wcName c \<noteq> []"
  shows "fst (apply_Apply (cfg_apply part upd) c True w) = None"
proof -
  let ?env = "cfg_apply part upd"
  have acc: "accessor_ok ?env" by (simp add: accessor_ok_def cfg_apply_def)
  have ty: "ensureType ?env c = Inr c" by (simp add: ensureType_def GVKFrom_def cfg_apply_def)
  have chk: "apply_checked ?env c = None" by (simp add: apply_checked_def cfg_apply_def assms)
  have conf: "configuration ?env c = Inr (wcName c)" by (simp add: configuration_def cfg_apply_def)
  have enc: "encodeObject ?env (annotated ?env (wcName c) c) = Inr (wcName c)"
    by (simp add: annotated_def cfg_apply_def)
  have new: "\<exists>o1. NewObjectFromExisting ?env x = Inr o1" for x
    by (simp add: NewObjectFromExisting_def GVKFrom_def cfg_apply_def)
  have get: "apGet ?env (namespaceOf ?env c) (nameOf ?env c) w = (Inl (GoError NotFound (wcName c)), w)"
    by (simp add: cfg_apply_def assms)
  obtain o1 where o1: "NewObjectFromExisting ?env (annotated ?env (GetOriginalConfiguration ?env c) c) = Inr o1"
    using new by blast
  have "apCreate ?env x w = (None, upd (Cons x) w)" for x by (simp add: cfg_apply_def)
  then show ?thesis
    using CreateApplyAnnotation_annotated [OF acc, of "annotated ?env (GetOriginalConfiguration ?env c) c" "wcName c"]
      annotated_again [OF acc] GetModified_left [OF acc conf enc] ty chk conf o1 get assms(2)
    by (simp add: apply_Apply_def IsNotFound_def)
qed

lemma example_sync_ok: "fst (syncWebhook example_reconcile example_mutating ([example_stale], [])) = None"
proof -
  have type: "PType (pSpec example_mutating) = PolicyTypeMutating" "pName example_mutating = ''p.example.com''"
    by (simp_all add: example_mutating_def example_policy_def)
  have lists: "rcListValidating example_reconcile n w = (Inr (list_cfgs (fst w) n), w)"
    "rcListMutating example_reconcile n w = (Inr (list_cfgs (snd w) n), w)" for n w
    by (simp_all add: example_reconcile_def)
  have del: "rcDeleteValidating example_reconcile example_stale ([example_stale], []) = (None, ([], []))"
    by (simp add: example_reconcile_def)
  have ns: "CurrentNamespace (rcGetenv example_reconcile) (rcReadFile example_reconcile) = Inr ''jspolicy''"
    by (simp add: CurrentNamespace_def example_reconcile_def)
  have ap: "rcApplyMutating example_reconcile = cfg_apply snd apsnd" by (simp add: example_reconcile_def)
  have "fst (syncMutatingWebhookConfiguration example_reconcile example_mutating None ([], [])) = None"
    unfolding syncMutatingWebhookConfiguration_def ns sum.case ap
    by (rule cfg_apply_creates) (simp_all add: stored_cfg_def policy_configuration_def type)
  then obtain w' where "syncMutatingWebhookConfiguration example_reconcile example_mutating None ([], []) = (None, w')"
    by (metis prod.collapse)
  then show ?thesis
    by (simp add: syncWebhook_def sync_kind_def type lists del delete_listed_def example_lists)
qed


definition example_controller :: "string \<Rightarrow> string \<Rightarrow> JsPolicy" where
  "example_controller js h = example_policy\<lparr>pSpec := (pSpec example_policy)\<lparr>PType := PolicyTypeController, JavaScript := js\<rparr>,
     pStatus := (pStatus example_policy)\<lparr>stBundleHash := h\<rparr>\<rparr>"

definition example_state :: "(cfg_world, manager) reconciler_state" where
  "example_state = \<lparr>rsWorld = ([], []), rsHashes = [''p.example.com'' \<mapsto> ''allow()''], rsManager = example_manager\<rparr>"

lemma example_controller_facts [simp]:
  "pName (example_controller js h) = ''p.example.com''" "PType (pSpec (example_controller js h)) = PolicyTypeController"
  "JavaScript (pSpec (example_controller js h)) = js" "stBundleHash (pStatus (example_controller js h)) = h"
  "GetConditions (example_controller js h) = []"
  by (simp_all add: example_controller_def example_policy_def GetConditions_def)

lemma example_delete: "deletePolicyWebhooks example_reconcile p ([], []) = (None, ([], []))"
  by (simp add: deletePolicyWebhooks_def delete_listed_def example_reconcile_def list_cfgs_def)

abbreviation example_broken :: JsPolicy where
  "example_broken \<equiv> mark_error 9 BundleCompiledCondition ''CompileFailed'' ''syntax error'' (example_controller ''broken'' ''allow()'')"

lemma example_compile:
  "compileBundle example_reconcile (example_controller ''broken'' ''allow()'') (Some b) ''broken'' ([], []) =
     (None, example_broken, Some b, ([], []))"
  "IsFalse (GetConditions example_broken) BundleCompiledCondition" "pName example_broken = ''p.example.com''"
proof -
  show "compileBundle example_reconcile (example_controller ''broken'' ''allow()'') (Some b) ''broken'' ([], []) =
     (None, example_broken, Some b, ([], []))"
    by (simp add: compileBundle_def needs_compile_def Has_def example_reconcile_def Let_def Errorf_def)
  show "IsFalse (GetConditions example_broken) BundleCompiledCondition"
    using Get_SetCondition [of "[]" 9 "FalseCondition BundleCompiledCondition ''CompileFailed'' ConditionSeverityError ''syntax error''"
        BundleCompiledCondition]
    by (simp add: mark_error_def on_conditions_def IsFalse_def MarkFalse_def SetCond_def stored_def GetConditions_def SetConditions_def
        example_controller_def example_policy_def FalseCondition_def IsZero_def)
  show "pName example_broken = ''p.example.com''" by (simp add: mark_error_def on_conditions_def SetConditions_def)
qed

lemma example_run:
  "reconcile_body (manager_Update menv) manager_Delete example_reconcile (example_controller ''broken'' ''allow()'') (Some b) ''broken''
     example_state = (False, None, example_broken, example_state\<lparr>rsManager := manager_Delete ''p.example.com'' example_manager\<rparr>)"
  using example_compile(1) [of b] example_compile(2,3) by (simp add: reconcile_body_def example_state_def example_delete)

theorem compile_failure_stops_policy_witness:
  "policies example_manager ''p.example.com'' \<noteq> None \<and>
   policies (rsManager (example_state\<lparr>rsManager := manager_Delete ''p.example.com'' example_manager\<rparr>)) ''p.example.com'' = None \<and>
   stPhase (pStatus (reconcilePhase example_broken None)) = WebhookPhaseFailed"
proof -
  let ?p = "example_controller ''broken'' ''allow()''"
  have b: "rcBundle example_reconcile (JavaScript (pSpec ?p)) (Dependencies (pSpec ?p)) (rsWorld example_state) =
      (Inl (Errorf ''syntax error''), rsWorld example_state)"
    by (simp add: example_reconcile_def)
  have n: "needs_compile ?p ''broken''" by (simp add: needs_compile_def)
  from compile_failure_stops_policy [OF example_kinds _ _ n b
      example_run [of example_manager_env "\<lparr>bName = [], bBundle = []\<rparr>"]]
  show ?thesis using example_entry by simp
qed

theorem repaired_policy_not_running_witness:
  "\<exists>p' st2. reconcile_body (manager_Update example_manager_env) manager_Delete example_reconcile
      (example_controller ''allow()'' ''broken'') (Some \<lparr>bName = [], bBundle = []\<rparr>) ''allow()''
      (example_state\<lparr>rsManager := manager_Delete ''p.example.com'' example_manager\<rparr>) = (False, None, p', st2) \<and>
    IsTrue (GetConditions p') ControllerPolicyReady \<and> policies (rsManager st2) ''p.example.com'' = None"
proof -
  let ?b = "\<lparr>bName = [], bBundle = []\<rparr>"
  let ?p = "example_controller ''allow()'' ''broken''"
  let ?st1 = "example_state\<lparr>rsManager := manager_Delete ''p.example.com'' example_manager\<rparr>"
  have w: "rsWorld example_state = ([], [])" "rsWorld ?st1 = ([], [])" by (simp_all add: example_state_def)
  have hash: "rcMarshalHash example_reconcile ''allow()'' (Resources (pSpec ?p)) (APIGroups (pSpec ?p)) (APIVersions (pSpec ?p)) =
      Inr ''allow()''" "rsHashes example_state (pName ?p) = Some (rcSha example_reconcile ''allow()'')"
    by (simp_all add: example_reconcile_def example_state_def)
  have js: "rcBundle example_reconcile (JavaScript (pSpec ?p)) (Dependencies (pSpec ?p)) (rsWorld ?st1) = (Inr ''allow()'', ([], []))"
    by (simp add: example_reconcile_def example_state_def)
  have upd: "cUpdate (rcBundleClient example_reconcile) (?b\<lparr>bBundle := ''allow()''\<rparr>) ([], []) = (None, ([], []))"
    by (simp add: example_reconcile_def)
  have n: "needs_compile ?p ''allow()''" by (simp add: needs_compile_def)
  have facts: "''allow()'' \<noteq> []" "PType (pSpec ?p) = PolicyTypeController" "pName example_broken = pName ?p"
    "distinct (map cType (GetConditions ?p))" "\<not> IsFalse (GetConditions ?p) ControllerPolicyReady"
    by (simp_all add: example_compile(3) IsFalse_def)
  show ?thesis
    using repaired_policy_not_running [OF example_compile(2) example_compile(1) [of ?b, folded w(1)]
        example_run [of example_manager_env ?b] hash facts n js upd] by simp blast
qed

theorem deleted_bundle_not_recreated_witness:
  "reconcile_body (manager_Update example_manager_env) manager_Delete example_reconcile
     (mark_true 9 BundleCompiledCondition (example_controller ''allow()'' ''allow()'')) None ''allow()'' example_state =
   (True, None, mark_true 9 BundleCompiledCondition (example_controller ''allow()'' ''allow()''), example_state)"
proof -
  let ?p = "mark_true 9 BundleCompiledCondition (example_controller ''allow()'' ''allow()'')"
  have g: "Get (GetConditions ?p) BundleCompiledCondition = Some (stored 9 [] (TrueCondition BundleCompiledCondition))"
    using Get_SetCondition [of "[]" 9 "TrueCondition BundleCompiledCondition" BundleCompiledCondition]
    by (simp add: mark_true_def on_conditions_def MarkTrue_def SetCond_def GetConditions_def SetConditions_def TrueCondition_def
        example_controller_def example_policy_def)
  have s: "cStatus (stored 9 [] (TrueCondition BundleCompiledCondition)) = ConditionTrue"
    using stored_same [of 9 "[]" "TrueCondition BundleCompiledCondition"] by (simp add: hasSameState_def TrueCondition_def)
  have "IsTrue (GetConditions ?p) BundleCompiledCondition" by (simp add: IsTrue_def g s)
  moreover have "\<not> needs_compile ?p ''allow()''"
    using g by (simp add: needs_compile_def Has_def mark_true_def on_conditions_def SetConditions_def)
  moreover have "PType (pSpec ?p) = PolicyTypeController" by (simp add: mark_true_def on_conditions_def SetConditions_def)
  ultimately show ?thesis
    using deleted_bundle_not_recreated [where h = "''allow()''" and p = ?p and env = example_reconcile
        and st = example_state and upd = "manager_Update example_manager_env" and del = manager_Delete] by simp
qed

end
