(* ===== verification/Startup.thy ===== *)
theory Startup
  imports Reconciler
begin

text \<open>
  What a replica does before it serves: its certificate (\<open>pkg/util/certhelper/certhelper.go\<close>), shared
  between the replicas through a secret (\<open>pkg/util/secret/store.go\<close>), and the configuration of the
  webhook that validates policies (\<open>pkg/store/validatingwebhookconfiguration/store.go\<close>). The API
  server, the key generator, the X.509 and PEM encoders and the URL parser are parameters; the file
  system is modelled.
\<close>

section \<open>Files\<close>

text \<open>
  The files by their path, and the paths on which the system refuses every operation, with the error
  it answers. Directories are not told apart from the paths of their files.
\<close>

record filesystem =
  fsFile :: "string \<rightharpoonup> string"
  fsFault :: "string \<Rightarrow> go_error option"

definition path_Join :: "string \<Rightarrow> string \<Rightarrow> string" where
  "path_Join folder file = folder @ ''/'' @ file"

definition ReadFile :: "filesystem \<Rightarrow> string \<Rightarrow> go_error + string" where
  "ReadFile fs path =
     (case fsFault fs path of
        Some err \<Rightarrow> Inl err
      | None \<Rightarrow> (case fsFile fs path of
                   None \<Rightarrow> Inl (Errorf (''open '' @ path @ '': no such file or directory''))
                 | Some content \<Rightarrow> Inr content))"

definition WriteFile :: "string \<Rightarrow> string \<Rightarrow> filesystem \<Rightarrow> go_error option \<times> filesystem" where
  "WriteFile path content fs =
     (case fsFault fs path of
        Some err \<Rightarrow> (Some err, fs)
      | None \<Rightarrow> (None, fs\<lparr>fsFile := (fsFile fs)(path \<mapsto> content)\<rparr>))"

definition MkdirAll :: "string \<Rightarrow> filesystem \<Rightarrow> go_error option" where
  "MkdirAll folder fs = fsFault fs folder"

definition Stat :: "string \<Rightarrow> filesystem \<Rightarrow> go_error option" where
  "Stat path fs = (case ReadFile fs path of Inl err \<Rightarrow> Some err | Inr content \<Rightarrow> None)"

section \<open>Certificates (certhelper.go)\<close>

abbreviation WebhookCertFolder :: string where
  "WebhookCertFolder \<equiv> ''/tmp/k8s-webhook-server/serving-certs''"

abbreviation WebhookServiceName :: string where "WebhookServiceName \<equiv> ''jspolicy''"

record cert_env =
  ceGetenv :: "string \<Rightarrow> string"
  ceGenerateKey :: "go_error + string"
  ceCreateCertificate :: "string list \<Rightarrow> string \<Rightarrow> go_error + string" \<comment> \<open>DNS names, key; self-signed for ten years\<close>
  ceMarshalKey :: "string \<Rightarrow> string"
  cePem :: "string \<Rightarrow> string \<Rightarrow> go_error + string" \<comment> \<open>block type and bytes\<close>
  ceHost :: "string \<Rightarrow> go_error + string" \<comment> \<open>\<open>ParseRequestURI\<close>, then \<open>Host\<close>\<close>

definition writeCert :: "cert_env \<Rightarrow> string \<Rightarrow> string \<Rightarrow> string \<Rightarrow> filesystem \<Rightarrow> go_error option \<times> filesystem" where
  "writeCert env folder cert key fs =
     (case cePem env ''CERTIFICATE'' cert of
        Inl err \<Rightarrow> (Some err, fs)
      | Inr out \<Rightarrow>
     (case MkdirAll folder fs of
        Some err \<Rightarrow> (Some err, fs)
      | None \<Rightarrow>
     (case WriteFile (path_Join folder ''tls.crt'') out fs of
        (Some err, fs1) \<Rightarrow> (Some err, fs1)
      | (None, fs1) \<Rightarrow>
     (case WriteFile (path_Join folder ''ca.crt'') out fs1 of
        (Some err, fs2) \<Rightarrow> (Some err, fs2)
      | (None, fs2) \<Rightarrow>
     (case cePem env ''RSA PRIVATE KEY'' (ceMarshalKey env key) of
        Inl err \<Rightarrow> (Some err, fs2)
      | Inr keyOut \<Rightarrow> WriteFile (path_Join folder ''tls.key'') keyOut fs2)))))"

text \<open>The names the certificate is for: the service inside the cluster, and the host of a webhook URL.\<close>

definition service_names :: "string \<Rightarrow> string \<Rightarrow> string list" where
  "service_names service namespace =
     [service @ ''.'' @ namespace @ ''.svc'', service @ ''.'' @ namespace @ ''.svc.cluster.local'']"

definition dns_names :: "cert_env \<Rightarrow> string \<Rightarrow> string \<Rightarrow> go_error + string list" where
  "dns_names env service namespace =
     (let wurl = WebhookURL (ceGetenv env) in
      if wurl \<noteq> [] then
        (case ceHost env wurl of
           Inl err \<Rightarrow> Inl err
         | Inr host \<Rightarrow> Inr (service_names service namespace @ (if host \<noteq> [] then [host] else [])))
      else Inr (service_names service namespace))"

definition generateCertificate :: "cert_env \<Rightarrow> string \<Rightarrow> string \<Rightarrow> filesystem \<Rightarrow> go_error option \<times> filesystem" where
  "generateCertificate env folder service fs =
     (case Stat (path_Join folder ''tls.key'') fs of
        None \<Rightarrow> (None, fs)
      | Some missing \<Rightarrow>
     (case ceGenerateKey env of
        Inl err \<Rightarrow> (Some err, fs)
      | Inr priv \<Rightarrow>
     (case CurrentNamespace (ceGetenv env) (ReadFile fs) of
        Inl err \<Rightarrow> (Some err, fs)
      | Inr namespace \<Rightarrow>
     (case dns_names env service namespace of
        Inl err \<Rightarrow> (Some err, fs)
      | Inr dnsNames \<Rightarrow>
     (case ceCreateCertificate env dnsNames priv of
        Inl err \<Rightarrow> (Some err, fs)
      | Inr cert \<Rightarrow> writeCert env folder cert priv fs)))))"

definition GenerateWebhookCertificate :: "cert_env \<Rightarrow> filesystem \<Rightarrow> go_error option \<times> filesystem" where
  "GenerateWebhookCertificate env = generateCertificate env WebhookCertFolder WebhookServiceName"

section \<open>The shared secret (secret/store.go)\<close>

abbreviation SecretTypeTLS :: string where "SecretTypeTLS \<equiv> ''kubernetes.io/tls''"
abbreviation WebhookCertSecretName :: string where "WebhookCertSecretName \<equiv> ''jspolicy-webhook-cert''"

definition cert_files :: "string list" where
  "cert_files = [''ca.crt'', ''tls.crt'', ''tls.key'']"

record Secret =
  seName :: string
  seNamespace :: string
  seData :: "(string \<times> string) list option"
  seType :: string

definition secret_file :: "Secret \<Rightarrow> string \<Rightarrow> string option" where
  "secret_file s file = map_of ((case seData s of None \<Rightarrow> [] | Some d \<Rightarrow> d)) file"

definition isSecretValid :: "Secret \<Rightarrow> bool" where
  "isSecretValid s =
     (if seData s = None then False
      else if seType s \<noteq> SecretTypeTLS then False
      else if secret_file s ''ca.crt'' = None \<or> secret_file s ''tls.crt'' = None \<or> secret_file s ''tls.key'' = None then False
      else True)"

fun write_files :: "string \<Rightarrow> (string \<Rightarrow> string) \<Rightarrow> string list \<Rightarrow> filesystem \<Rightarrow> go_error option \<times> filesystem" where
  "write_files folder data [] fs = (None, fs)"
| "write_files folder data (file # files) fs =
     (case WriteFile (path_Join folder file) (data file) fs of
        (Some err, fs1) \<Rightarrow> (Some err, fs1)
      | (None, fs1) \<Rightarrow> write_files folder data files fs1)"

definition getDataFromSecret :: "Secret \<Rightarrow> string \<Rightarrow> filesystem \<Rightarrow> go_error option \<times> filesystem" where
  "getDataFromSecret s certFolder fs =
     (case MkdirAll certFolder fs of
        Some err \<Rightarrow> (Some err, fs)
      | None \<Rightarrow> write_files certFolder (\<lambda>file. (case secret_file s file of None \<Rightarrow> [] | Some d \<Rightarrow> d)) cert_files fs)"

fun read_files :: "string \<Rightarrow> filesystem \<Rightarrow> string list \<Rightarrow> go_error + (string \<times> string) list" where
  "read_files folder fs [] = Inr []"
| "read_files folder fs (file # files) =
     (case ReadFile fs (path_Join folder file) of
        Inl err \<Rightarrow> Inl err
      | Inr out \<Rightarrow> map_sum id (Cons (file, out)) (read_files folder fs files))"

record 'w secret_env =
  seClient :: "('w, Secret) store_client"
  seDelete :: "Secret \<Rightarrow> 'w \<Rightarrow> go_error option \<times> 'w"
  seGetNamespace :: "string \<Rightarrow> 'w \<Rightarrow> go_error option \<times> 'w"
  seCreateNamespace :: "string \<Rightarrow> 'w \<Rightarrow> go_error option \<times> 'w"

text \<open>
  One round of \<open>ensureSecret\<close>: \<open>Inl\<close> what it returns, \<open>Inr\<close> the state in which it calls itself
  again, because another replica created the secret first.
\<close>

definition create_secret ::
    "'w secret_env \<Rightarrow> string \<Rightarrow> string \<Rightarrow> string \<Rightarrow> (filesystem \<Rightarrow> go_error option \<times> filesystem) \<Rightarrow> filesystem \<Rightarrow> 'w \<Rightarrow>
     go_error option \<times> filesystem \<times> 'w + filesystem \<times> 'w" where
  "create_secret env namespace certSecretName certFolder createCert fs w =
     (case createCert fs of
        (Some err, fs1) \<Rightarrow> Inl (Some err, fs1, w)
      | (None, fs1) \<Rightarrow>
     (case read_files certFolder fs1 cert_files of
        Inl err \<Rightarrow> Inl (Some err, fs1, w)
      | Inr data \<Rightarrow>
     (case cCreate (seClient env)
             \<lparr>seName = certSecretName, seNamespace = namespace, seData = Some data, seType = SecretTypeTLS\<rparr> w of
        (Some err, w1) \<Rightarrow> if IsAlreadyExists err then Inr (fs1, w1) else Inl (Some err, fs1, w1)
      | (None, w1) \<Rightarrow> Inl (None, fs1, w1))))"

definition ensure_round ::
    "'w secret_env \<Rightarrow> string \<Rightarrow> string \<Rightarrow> string \<Rightarrow> (filesystem \<Rightarrow> go_error option \<times> filesystem) \<Rightarrow> filesystem \<Rightarrow> 'w \<Rightarrow>
     go_error option \<times> filesystem \<times> 'w + filesystem \<times> 'w" where
  "ensure_round env namespace certSecretName certFolder createCert fs w =
     (case cGet (seClient env) namespace certSecretName w of
        (Inl err, w1) \<Rightarrow>
          if \<not> IsNotFound err then Inl (Some err, fs, w1)
          else create_secret env namespace certSecretName certFolder createCert fs w1
      | (Inr s, w1) \<Rightarrow>
          if isSecretValid s then (case getDataFromSecret s certFolder fs of (err, fs1) \<Rightarrow> Inl (err, fs1, w1))
          else (case seDelete env s w1 of
                  (Some err, w2) \<Rightarrow> Inl (Some err, fs, w2)
                | (None, w2) \<Rightarrow> create_secret env namespace certSecretName certFolder createCert fs w2))"

partial_function (option) ensureSecret ::
    "'w secret_env \<Rightarrow> string \<Rightarrow> string \<Rightarrow> string \<Rightarrow> (filesystem \<Rightarrow> go_error option \<times> filesystem) \<Rightarrow> filesystem \<Rightarrow> 'w \<Rightarrow>
     (go_error option \<times> filesystem \<times> 'w) option" where
  "ensureSecret env namespace certSecretName certFolder createCert fs w =
     (case ensure_round env namespace certSecretName certFolder createCert fs w of
        Inl result \<Rightarrow> Some result
      | Inr again \<Rightarrow> ensureSecret env namespace certSecretName certFolder createCert (fst again) (snd again))"

definition EnsureCertSecrets ::
    "'w secret_env \<Rightarrow> cert_env \<Rightarrow> filesystem \<Rightarrow> 'w \<Rightarrow> (go_error option \<times> filesystem \<times> 'w) option" where
  "EnsureCertSecrets env cenv fs w =
     (case CurrentNamespace (ceGetenv cenv) (ReadFile fs) of
        Inl err \<Rightarrow> Some (Some err, fs, w)
      | Inr namespace \<Rightarrow>
     (case (case seGetNamespace env namespace w of
              (Some err, w1) \<Rightarrow> if IsNotFound err then seCreateNamespace env namespace w1 else (Some err, w1)
            | (None, w1) \<Rightarrow> (None, w1)) of
        (Some err, w2) \<Rightarrow> Some (Some err, fs, w2)
      | (None, w2) \<Rightarrow>
          map_option (\<lambda>(err, fs', w'). (map_option (\<lambda>e. err_wrap e ''ensure webhook cert'') err, fs', w'))
            (ensureSecret env namespace WebhookCertSecretName WebhookCertFolder (GenerateWebhookCertificate cenv) fs w2)))"

section \<open>The webhook that validates policies (store.go)\<close>

definition crd_webhook :: "cert_env \<Rightarrow> string \<Rightarrow> string \<Rightarrow> webhook" where
  "crd_webhook env namespace caBundleData =
     \<lparr>whName = ''jspolicy.jspolicy.com'',
      whClientConfig =
        (let url = WebhookURL (ceGetenv env) in
         if url \<noteq> [] then \<lparr>ccURL = Some (url @ ''/crds''), ccService = None, ccCABundle = caBundleData\<rparr>
         else \<lparr>ccURL = None,
               ccService = Some \<lparr>srNamespace = namespace, srName = WebhookServiceName, srPath = ''/crds'', srPort = None\<rparr>,
               ccCABundle = caBundleData\<rparr>),
      whRules = [\<lparr>rwOperations = [''CREATE'', ''UPDATE''], rwAPIGroups = [''policy.jspolicy.com''],
                  rwAPIVersions = [''v1beta1''], rwResources = [''*''], rwScope = None\<rparr>],
      whFailurePolicy = Some ''Fail'', whMatchPolicy = None, whNamespaceSelector = None, whObjectSelector = None,
      whSideEffects = Some ''None'', whTimeoutSeconds = None, whAdmissionReviewVersions = [''v1'', ''v1beta1''],
      whReinvocationPolicy = None\<rparr>"

definition prepareValidatingWebhookConfiguration ::
    "cert_env \<Rightarrow> filesystem \<Rightarrow> WebhookConfiguration \<Rightarrow> go_error + WebhookConfiguration" where
  "prepareValidatingWebhookConfiguration env fs config =
     (case ReadFile fs (path_Join WebhookCertFolder ''ca.crt'') of
        Inl err \<Rightarrow> Inl err
      | Inr caBundleData \<Rightarrow>
     (case CurrentNamespace (ceGetenv env) (ReadFile fs) of
        Inl err \<Rightarrow> Inl err
      | Inr namespace \<Rightarrow>
          Inr (config\<lparr>wcAnnotations := map_del ''cert-manager.io/inject-ca-from'' (wcAnnotations config),
                      wcWebhooks := [crd_webhook env namespace caBundleData]\<rparr>)))"

abbreviation ValidatingWebhookConfigurationName :: string where
  "ValidatingWebhookConfigurationName \<equiv> ''jspolicy''"

definition EnsureValidatingWebhookConfiguration ::
    "('w, WebhookConfiguration) store_client \<Rightarrow> cert_env \<Rightarrow> filesystem \<Rightarrow> 'w \<Rightarrow> go_error option \<times> 'w" where
  "EnsureValidatingWebhookConfiguration c env fs w =
     (case cGet c [] ValidatingWebhookConfigurationName w of
        (Inl err, w1) \<Rightarrow>
          if \<not> IsNotFound err then (Some err, w1)
          else (case prepareValidatingWebhookConfiguration env fs
                       \<lparr>wcName = ValidatingWebhookConfigurationName, wcLabels = [], wcAnnotations = [], wcOwners = [],
                        wcWebhooks = []\<rparr> of
                  Inl err' \<Rightarrow> (Some err', w1)
                | Inr config \<Rightarrow> cCreate c config w1)
      | (Inr config, w1) \<Rightarrow>
          (case prepareValidatingWebhookConfiguration env fs config of
             Inl err \<Rightarrow> (Some err, w1)
           | Inr config' \<Rightarrow> cUpdate c config' w1))"

section \<open>Files written and read\<close>

lemma path_Join_inject [simp]: "path_Join folder f = path_Join folder g \<longleftrightarrow> f = g"
  by (simp add: path_Join_def)

lemma WriteFile_ok:
  "WriteFile path content fs = (None, fs') \<Longrightarrow>
   fsFile fs' = (fsFile fs)(path \<mapsto> content) \<and> fsFault fs' = fsFault fs"
  by (auto simp: WriteFile_def split: option.splits)

lemma write_files_ok:
  "write_files folder data files fs = (None, fs') \<Longrightarrow>
   fsFile fs' (path_Join folder f) = (if f \<in> set files then Some (data f) else fsFile fs (path_Join folder f))"
proof (induction files arbitrary: fs)
  case Nil
  then show ?case by simp
next
  case (Cons x xs)
  obtain fs1 where w: "WriteFile (path_Join folder x) (data x) fs = (None, fs1)"
    and rest: "write_files folder data xs fs1 = (None, fs')"
    using Cons.prems by (auto split: prod.splits option.splits)
  show ?case using Cons.IH [OF rest] WriteFile_ok [OF w] by simp
qed

lemma write_files_no_fault:
  "\<forall>f \<in> set files. fsFault fs (path_Join folder f) = None \<Longrightarrow> fst (write_files folder data files fs) = None"
proof (induction files arbitrary: fs)
  case Nil
  then show ?case by simp
next
  case (Cons x xs)
  have "\<forall>f \<in> set xs. fsFault (fs\<lparr>fsFile := m\<rparr>) (path_Join folder f) = None" for m using Cons.prems by simp
  from Cons.IH [OF this] show ?case using Cons.prems by (simp add: WriteFile_def)
qed

lemma ReadFile_Inr: "ReadFile fs path = Inr content \<Longrightarrow> fsFile fs path = Some content"
  by (auto simp: ReadFile_def split: option.splits)

lemma read_files_ok:
  "read_files folder fs files = Inr data \<Longrightarrow> f \<in> set files \<Longrightarrow>
   map_of data f = fsFile fs (path_Join folder f) \<and> map_of data f \<noteq> None"
proof (induction files arbitrary: data)
  case Nil
  then show ?case by simp
next
  case (Cons x xs)
  obtain out rest where o: "ReadFile fs (path_Join folder x) = Inr out" "read_files folder fs xs = Inr rest"
    "data = (x, out) # rest"
    using Cons.prems(1) by (cases "ReadFile fs (path_Join folder x)"; cases "read_files folder fs xs") auto
  show ?case using Cons.IH [OF o(2)] Cons.prems(2) ReadFile_Inr [OF o(1)] by (auto simp: o(3))
qed

text \<open>The certificate on a disk is that of a secret.\<close>

definition disk_agrees :: "string \<Rightarrow> filesystem \<Rightarrow> Secret \<Rightarrow> bool" where
  "disk_agrees folder fs s \<longleftrightarrow>
     (\<forall>f \<in> set cert_files. fsFile fs (path_Join folder f) = secret_file s f \<and> secret_file s f \<noteq> None)"

lemma isSecretValid_iff:
  "isSecretValid s \<longleftrightarrow>
     seData s \<noteq> None \<and> seType s = SecretTypeTLS \<and> (\<forall>f \<in> set cert_files. secret_file s f \<noteq> None)"
  by (simp add: isSecretValid_def cert_files_def)

lemma getDataFromSecret_agrees:
  assumes "getDataFromSecret s folder fs = (None, fs')" and "isSecretValid s"
  shows "disk_agrees folder fs' s"
proof -
  have w: "write_files folder (\<lambda>file. case secret_file s file of None \<Rightarrow> [] | Some d \<Rightarrow> d) cert_files fs = (None, fs')"
    using assms(1) by (auto simp: getDataFromSecret_def split: option.splits)
  show ?thesis
    unfolding disk_agrees_def
  proof (intro ballI)
    fix f assume f: "f \<in> set cert_files"
    obtain d where "secret_file s f = Some d" using assms(2) f by (auto simp: isSecretValid_iff)
    then show "fsFile fs' (path_Join folder f) = secret_file s f \<and> secret_file s f \<noteq> None"
      using write_files_ok [OF w, of f] f by simp
  qed
qed

lemma created_agrees:
  assumes "read_files folder fs cert_files = Inr data"
  shows "disk_agrees folder fs \<lparr>seName = n, seNamespace = ns, seData = Some data, seType = SecretTypeTLS\<rparr> \<and>
    isSecretValid \<lparr>seName = n, seNamespace = ns, seData = Some data, seType = SecretTypeTLS\<rparr>"
proof -
  have "\<forall>f \<in> set cert_files. map_of data f = fsFile fs (path_Join folder f) \<and> map_of data f \<noteq> None"
    using read_files_ok [OF assms] by blast
  then show ?thesis by (simp add: disk_agrees_def isSecretValid_iff secret_file_def) metis
qed

section \<open>What a successful run leaves\<close>

definition from_server :: "'w secret_env \<Rightarrow> string \<Rightarrow> string \<Rightarrow> Secret \<Rightarrow> 'w \<Rightarrow> bool" where
  "from_server env namespace name s w' \<longleftrightarrow>
     (\<exists>w0. cGet (seClient env) namespace name w0 = (Inr s, w') \<or> cCreate (seClient env) s w0 = (None, w'))"

lemma create_secret_agrees:
  assumes "create_secret env namespace name folder createCert fs w = Inl (None, fs', w')"
  shows "\<exists>s. from_server env namespace name s w' \<and> isSecretValid s \<and> disk_agrees folder fs' s"
proof -
  obtain fs1 where c: "createCert fs = (None, fs1)"
    using assms by (auto simp: create_secret_def split: prod.splits option.splits)
  obtain data where d: "read_files folder fs1 cert_files = Inr data"
    using assms by (auto simp: create_secret_def c split: sum.splits)
  have k: "cCreate (seClient env) \<lparr>seName = name, seNamespace = namespace, seData = Some data, seType = SecretTypeTLS\<rparr> w = (None, w')"
    and fs: "fs1 = fs'"
    using assms by (auto simp: create_secret_def c d split: prod.splits option.splits if_splits)
  show ?thesis using created_agrees [OF d, of name namespace] k unfolding fs from_server_def by blast
qed

lemma ensure_round_agrees:
  assumes "ensure_round env namespace name folder createCert fs w = Inl (None, fs', w')"
  shows "\<exists>s. from_server env namespace name s w' \<and> isSecretValid s \<and> disk_agrees folder fs' s"
proof (cases "\<exists>s w1. cGet (seClient env) namespace name w = (Inr s, w1) \<and> isSecretValid s")
  case True
  then obtain s w1 where g: "cGet (seClient env) namespace name w = (Inr s, w1)" "isSecretValid s" by blast
  then have "getDataFromSecret s folder fs = (None, fs')" "w1 = w'"
    using assms by (auto simp: ensure_round_def split: prod.splits)
  then show ?thesis using getDataFromSecret_agrees g unfolding from_server_def by blast
next
  case False
  then obtain w2 where "create_secret env namespace name folder createCert fs w2 = Inl (None, fs', w')"
    using assms by (auto simp: ensure_round_def split: prod.splits sum.splits option.splits if_splits)
  then show ?thesis by (rule create_secret_agrees)
qed

lemma ensureSecret_last_round:
  assumes "ensureSecret env namespace name folder createCert fs w = Some r"
  shows "\<exists>fs w. ensure_round env namespace name folder createCert fs w = Inl r"
  by (rule ensureSecret.raw_induct [where P = "\<lambda>env namespace name folder createCert fs w r.
        \<exists>fs w. ensure_round env namespace name folder createCert fs w = Inl r", OF _ assms])
    (auto split: sum.splits)

text \<open>
  The recursion has no bound of its own: on a server that hides the secret from reading and refuses to
  create it again, it does not return.
\<close>

lemma ensureSecret_diverges:
  assumes get: "\<And>w. \<exists>e w'. cGet (seClient env) namespace name w = (Inl e, w') \<and> IsNotFound e"
    and create: "\<And>s w. \<exists>e w'. cCreate (seClient env) s w = (Some e, w') \<and> IsAlreadyExists e"
    and certs: "\<And>fs. \<exists>fs' data. createCert fs = (None, fs') \<and> read_files folder fs' cert_files = Inr data"
  shows "ensureSecret env namespace name folder createCert fs w = None"
proof (rule ccontr)
  assume "ensureSecret env namespace name folder createCert fs w \<noteq> None"
  then obtain r where "ensureSecret env namespace name folder createCert fs w = Some r" by auto
  from ensureSecret_last_round [OF this] obtain fs w where
    last: "ensure_round env namespace name folder createCert fs w = Inl r" by auto
  obtain e w1 where g: "cGet (seClient env) namespace name w = (Inl e, w1)" "IsNotFound e" using get by blast
  obtain fs1 data where c: "createCert fs = (None, fs1)" "read_files folder fs1 cert_files = Inr data" using certs by blast
  obtain e2 w2 where k: "cCreate (seClient env)
      \<lparr>seName = name, seNamespace = namespace, seData = Some data, seType = SecretTypeTLS\<rparr> w1 = (Some e2, w2)"
    "IsAlreadyExists e2" using create by blast
  show False using last by (simp add: ensure_round_def create_secret_def g c k)
qed

section \<open>On a quiet server\<close>

definition secret_key :: "Secret \<Rightarrow> string \<times> string" where
  "secret_key s = (seNamespace s, seName s)"

definition same_secret :: "Secret \<Rightarrow> Secret \<Rightarrow> bool" where
  "same_secret s t \<longleftrightarrow> seData s = seData t \<and> seType s = seType t"

definition quiet_secrets :: "'w secret_env \<Rightarrow> ('w \<Rightarrow> string \<times> string \<Rightarrow> Secret option) \<Rightarrow> bool" where
  "quiet_secrets env cur \<longleftrightarrow>
     quiet_server (seClient env) secret_key same_secret (\<lambda>_. []) cur \<and>
     (\<forall>s w. cur w (secret_key s) = Some s \<longrightarrow>
        (\<exists>w'. seDelete env s w = (None, w') \<and> cur w' = (cur w)(secret_key s := None)))"

text \<open>A disk that takes the certificate, and a generator that leaves one there.\<close>

definition certifies :: "string \<Rightarrow> (filesystem \<Rightarrow> go_error option \<times> filesystem) \<Rightarrow> filesystem \<Rightarrow> bool" where
  "certifies folder createCert fs \<longleftrightarrow>
     fsFault fs folder = None \<and> (\<forall>f \<in> set cert_files. fsFault fs (path_Join folder f) = None) \<and>
     (\<exists>fs1 data. createCert fs = (None, fs1) \<and> read_files folder fs1 cert_files = Inr data)"

lemma same_secret_valid: "same_secret s t \<Longrightarrow> isSecretValid s \<longleftrightarrow> isSecretValid t"
  by (simp add: same_secret_def isSecretValid_def secret_file_def)

lemma same_secret_agrees: "same_secret s t \<Longrightarrow> disk_agrees folder fs s \<longleftrightarrow> disk_agrees folder fs t"
  by (simp add: same_secret_def disk_agrees_def secret_file_def)

lemma create_secret_quiet:
  assumes q: "quiet_secrets env cur" and cur: "cur w (namespace, name) = None" and c: "certifies folder createCert fs"
  shows "\<exists>fs' w' s. create_secret env namespace name folder createCert fs w = Inl (None, fs', w') \<and>
    cur w' (namespace, name) = Some s \<and> isSecretValid s \<and> disk_agrees folder fs' s"
proof -
  obtain fs1 data where d: "createCert fs = (None, fs1)" "read_files folder fs1 cert_files = Inr data"
    using c by (auto simp: certifies_def)
  let ?s = "\<lparr>seName = name, seNamespace = namespace, seData = Some data, seType = SecretTypeTLS\<rparr>"
  have q': "quiet_server (seClient env) secret_key same_secret (\<lambda>_. []) cur" using q by (simp add: quiet_secrets_def)
  obtain w' s where k: "cCreate (seClient env) ?s w = (None, w')" "cur w' = (cur w)(secret_key ?s \<mapsto> s)" "same_secret s ?s"
    by (rule quiet_create [OF q', of w ?s]) (simp_all add: secret_key_def cur)
  have "create_secret env namespace name folder createCert fs w = Inl (None, fs1, w')"
    by (simp add: create_secret_def d k(1))
  moreover have "cur w' (namespace, name) = Some s" by (simp add: k(2) secret_key_def)
  moreover have "isSecretValid s \<and> disk_agrees folder fs1 s"
    using created_agrees [OF d(2), of name namespace] same_secret_valid [OF k(3)] same_secret_agrees [OF k(3)] by simp
  ultimately show ?thesis by blast
qed

lemma ensure_round_last:
  "ensure_round env namespace name folder createCert fs w = Inl r \<Longrightarrow>
   ensureSecret env namespace name folder createCert fs w = Some r"
  by (simp add: ensureSecret.simps)

lemma ensureSecret_quiet:
  assumes q: "quiet_secrets env cur" and c: "certifies folder createCert fs"
  shows "\<exists>fs' w' s. ensureSecret env namespace name folder createCert fs w = Some (None, fs', w') \<and>
    cur w' (namespace, name) = Some s \<and> isSecretValid s \<and> disk_agrees folder fs' s \<and>
    (\<forall>s0. cur w (namespace, name) = Some s0 \<and> isSecretValid s0 \<longrightarrow> s = s0)"
proof -
  have q': "quiet_server (seClient env) secret_key same_secret (\<lambda>_. []) cur"
    and del: "\<And>s w. cur w (secret_key s) = Some s \<Longrightarrow>
      \<exists>w'. seDelete env s w = (None, w') \<and> cur w' = (cur w)(secret_key s := None)"
    using q unfolding quiet_secrets_def by blast+
  note get = quiet_get [where w = w and ns = namespace and n = name, OF q']
  consider (new) "cur w (namespace, name) = None"
    | (bad) s where "cur w (namespace, name) = Some s" "\<not> isSecretValid s"
    | (good) s where "cur w (namespace, name) = Some s" "isSecretValid s" by (cases "cur w (namespace, name)") auto
  then show ?thesis
  proof cases
    case new
    then obtain e where g: "cGet (seClient env) namespace name w = (Inl e, w)" "IsNotFound e" using get by auto
    obtain fs' w' s where r: "create_secret env namespace name folder createCert fs w = Inl (None, fs', w')"
      "cur w' (namespace, name) = Some s" "isSecretValid s" "disk_agrees folder fs' s"
      using create_secret_quiet [OF q new c] by blast
    have "ensure_round env namespace name folder createCert fs w = Inl (None, fs', w')"
      by (simp add: ensure_round_def g r(1))
    from ensure_round_last [OF this] show ?thesis using r(2-4) new by auto
  next
    case bad
    have g: "cGet (seClient env) namespace name w = (Inr s, w)" using get bad(1) by simp
    have key: "secret_key s = (namespace, name)" using quiet_key [OF q' bad(1)] .
    obtain w2 where d: "seDelete env s w = (None, w2)" "cur w2 = (cur w)((namespace, name) := None)"
      using del [of w s] bad(1) unfolding key by blast
    have none: "cur w2 (namespace, name) = None" by (simp add: d(2))
    obtain fs' w' s' where r: "create_secret env namespace name folder createCert fs w2 = Inl (None, fs', w')"
      "cur w' (namespace, name) = Some s'" "isSecretValid s'" "disk_agrees folder fs' s'"
      using create_secret_quiet [OF q none c] by blast
    have "ensure_round env namespace name folder createCert fs w = Inl (None, fs', w')"
      by (simp add: ensure_round_def g d(1) bad(2) r(1))
    from ensure_round_last [OF this] show ?thesis using r(2-4) bad by auto
  next
    case good
    have g: "cGet (seClient env) namespace name w = (Inr s, w)" using get good(1) by simp
    obtain fs' where fs': "getDataFromSecret s folder fs = (None, fs')"
    proof -
      have "fst (getDataFromSecret s folder fs) = None"
        using c write_files_no_fault [of cert_files fs folder]
        by (simp add: certifies_def getDataFromSecret_def MkdirAll_def)
      then show ?thesis using that by (cases "getDataFromSecret s folder fs") simp
    qed
    have "ensure_round env namespace name folder createCert fs w = Inl (None, fs', w)"
      by (simp add: ensure_round_def g good(2) fs')
    from ensure_round_last [OF this] show ?thesis using good getDataFromSecret_agrees [OF fs' good(2)] by auto
  qed
qed

text \<open>
  Whatever other replicas do to the secret in between, when \<open>ensureSecret\<close> reports success the
  certificate on the disk, all three files of it, is that of a valid secret which the server has just
  handed out or accepted.
\<close>

lemma ensureSecret_agrees:
  assumes "ensureSecret env namespace name folder createCert fs w = Some (None, fs', w')"
  shows "\<exists>s. from_server env namespace name s w' \<and> isSecretValid s \<and> disk_agrees folder fs' s"
proof -
  obtain fs1 w1 where "ensure_round env namespace name folder createCert fs1 w1 = Inl (None, fs', w')"
    using ensureSecret_last_round [OF assms] by auto
  then show ?thesis by (rule ensure_round_agrees)
qed

lemma writeCert_ok:
  assumes "writeCert env folder cert key fs = (None, fs')"
  obtains out where "cePem env ''CERTIFICATE'' cert = Inr out" "fsFile fs' (path_Join folder ''tls.crt'') = Some out"
    "fsFile fs' (path_Join folder ''ca.crt'') = Some out"
proof -
  obtain out where out: "cePem env ''CERTIFICATE'' cert = Inr out" "MkdirAll folder fs = None"
    using assms by (auto simp: writeCert_def split: sum.splits option.splits)
  obtain r1 fs1 where 1: "WriteFile (path_Join folder ''tls.crt'') out fs = (r1, fs1)" by fastforce
  obtain r2 fs2 where 2: "WriteFile (path_Join folder ''ca.crt'') out fs1 = (r2, fs2)" by fastforce
  have r: "r1 = None" "r2 = None"
    using assms by (auto simp: writeCert_def out 1 2 split: option.splits)
  obtain keyOut where 3: "WriteFile (path_Join folder ''tls.key'') keyOut fs2 = (None, fs')"
    using assms by (auto simp: writeCert_def out 1 2 r split: sum.splits)
  show ?thesis
    using that [OF out(1)] WriteFile_ok [OF 1 [unfolded r]] WriteFile_ok [OF 2 [unfolded r]] WriteFile_ok [OF 3] by simp
qed

text \<open>A certificate that is new on the disk is one for the names that \<open>dns_names\<close> gives.\<close>

lemma generateCertificate_new:
  assumes "generateCertificate env folder service fs = (None, fs')"
    and "Stat (path_Join folder ''tls.key'') fs \<noteq> None" and "CurrentNamespace (ceGetenv env) (ReadFile fs) = Inr namespace"
  obtains hosts key cert out where "dns_names env service namespace = Inr hosts" "ceGenerateKey env = Inr key"
    "ceCreateCertificate env hosts key = Inr cert" "cePem env ''CERTIFICATE'' cert = Inr out"
    "fsFile fs' (path_Join folder ''tls.crt'') = Some out"
proof -
  obtain missing where m: "Stat (path_Join folder ''tls.key'') fs = Some missing" using assms(2) by auto
  obtain key where k: "ceGenerateKey env = Inr key"
    using assms(1) by (auto simp: generateCertificate_def m split: sum.splits)
  obtain hosts where h: "dns_names env service namespace = Inr hosts"
    using assms(1) by (auto simp: generateCertificate_def m k assms(3) split: sum.splits)
  obtain cert where c: "ceCreateCertificate env hosts key = Inr cert"
    using assms(1) by (auto simp: generateCertificate_def m k h assms(3) split: sum.splits)
  have "writeCert env folder cert key fs = (None, fs')"
    using assms(1) by (simp add: generateCertificate_def m k h c assms(3))
  then obtain out where "cePem env ''CERTIFICATE'' cert = Inr out" "fsFile fs' (path_Join folder ''tls.crt'') = Some out"
    by (rule writeCert_ok)
  then show ?thesis using that h k c by blast
qed

section \<open>Properties\<close>

text \<open>
  Replicas share one certificate: on a server that nobody else writes to, and disks that take the
  files, one replica after the other returns without an error, and both have the same three files,
  those of the secret on the server.
\<close>

theorem replicas_share_certificate:
  assumes "quiet_secrets env cur"
    and "certifies folder createCert1 fs1" and "certifies folder createCert2 fs2"
  shows "\<exists>fa wa fb wb s. ensureSecret env namespace name folder createCert1 fs1 w = Some (None, fa, wa) \<and>
    ensureSecret env namespace name folder createCert2 fs2 wa = Some (None, fb, wb) \<and>
    cur wb (namespace, name) = Some s \<and> isSecretValid s \<and> disk_agrees folder fa s \<and> disk_agrees folder fb s"
proof -
  obtain fa wa s where a: "ensureSecret env namespace name folder createCert1 fs1 w = Some (None, fa, wa)"
    "cur wa (namespace, name) = Some s" "isSecretValid s" "disk_agrees folder fa s"
    using ensureSecret_quiet [OF assms(1,2)] by blast
  obtain fb wb t where b: "ensureSecret env namespace name folder createCert2 fs2 wa = Some (None, fb, wb)"
    "cur wb (namespace, name) = Some t" "disk_agrees folder fb t" "t = s"
    using ensureSecret_quiet [OF assms(1,3), of namespace name wa] a(2,3) by blast
  show ?thesis using a b by blast
qed

text \<open>Two replicas with their own keys, an empty disk each, and the server of an empty cluster.\<close>

definition example_cert_env :: "string \<Rightarrow> cert_env" where
  "example_cert_env key =
     \<lparr>ceGetenv = (\<lambda>n. if n = ''KUBE_NAMESPACE'' then ''jspolicy'' else []), ceGenerateKey = Inr key,
      ceCreateCertificate = (\<lambda>names k. Inr (''cert '' @ k)), ceMarshalKey = (\<lambda>k. k),
      cePem = (\<lambda>t b. Inr (t @ b)), ceHost = (\<lambda>u. Inr u)\<rparr>"

definition empty_disk :: filesystem where
  "empty_disk = \<lparr>fsFile = (\<lambda>_. None), fsFault = (\<lambda>_. None)\<rparr>"

definition example_secret_env :: "(string \<times> string \<Rightarrow> Secret option) secret_env" where
  "example_secret_env =
     \<lparr>seClient = keyed_client secret_key, seDelete = (\<lambda>s w. (None, w(secret_key s := None))),
      seGetNamespace = (\<lambda>n w. (None, w)), seCreateNamespace = (\<lambda>n w. (None, w))\<rparr>"

lemma keyed_delete: "keyed key (w(k := None)) = (keyed key w)(k := None)"
  by (rule ext) (auto simp: keyed_def)

lemma example_secrets_quiet: "quiet_secrets example_secret_env (keyed secret_key)"
  unfolding quiet_secrets_def
proof (intro conjI allI impI)
  show "quiet_server (seClient example_secret_env) secret_key same_secret (\<lambda>_. []) (keyed secret_key)"
    using keyed_client_quiet [of same_secret] by (simp add: example_secret_env_def same_secret_def)
  show "\<exists>w'. seDelete example_secret_env s w = (None, w') \<and> keyed secret_key w' = (keyed secret_key w)(secret_key s := None)" for s w
    by (simp add: example_secret_env_def keyed_delete)
qed

lemma example_certifies: "certifies WebhookCertFolder (GenerateWebhookCertificate (example_cert_env key)) empty_disk"
  by (simp add: certifies_def GenerateWebhookCertificate_def generateCertificate_def Stat_def ReadFile_def empty_disk_def
      example_cert_env_def CurrentNamespace_def dns_names_def WebhookURL_def writeCert_def MkdirAll_def WriteFile_def cert_files_def)

theorem replicas_share_certificate_witness:
  "\<exists>fa wa fb wb s. ensureSecret example_secret_env ''jspolicy'' WebhookCertSecretName WebhookCertFolder
     (GenerateWebhookCertificate (example_cert_env ''k'')) empty_disk (\<lambda>_. None) = Some (None, fa, wa) \<and>
   ensureSecret example_secret_env ''jspolicy'' WebhookCertSecretName WebhookCertFolder
     (GenerateWebhookCertificate (example_cert_env ''l'')) empty_disk wa = Some (None, fb, wb) \<and>
   disk_agrees WebhookCertFolder fa s \<and> disk_agrees WebhookCertFolder fb s"
  using replicas_share_certificate [OF example_secrets_quiet example_certifies [of "''k''"] example_certifies [of "''l''"],
      of "''jspolicy''" WebhookCertSecretName "\<lambda>_. None"] by blast

end
