(* ===== verification/Bundler.thy ===== *)
theory Bundler
  imports Startup
begin

text \<open>
  \<open>pkg/bundle/bundle.go\<close>: the compilation of a policy's script with npm and webpack in a temporary
  directory. The two programs, the JSON encoder and gzip are parameters; the files are modelled.
\<close>

text \<open>How a command ends: it does not start, it is killed, or it exits with its output.\<close>

datatype outcome = StartFailed go_error | TimedOut | Exited "go_error option" string

record bundle_env =
  beTempDir :: "go_error + string"
  beMarshal :: "(string \<times> string) list \<Rightarrow> go_error + string" \<comment> \<open>\<open>package.json\<close> for the dependencies\<close>
  beRun :: "string \<Rightarrow> string \<Rightarrow> string list \<Rightarrow> filesystem \<Rightarrow> outcome \<times> filesystem" \<comment> \<open>folder, name, arguments\<close>
  beDuration :: "int \<Rightarrow> string"
  beCompress :: "string \<Rightarrow> go_error + string"
  beWebpackConfig :: string

definition commandWithTimeout ::
    "bundle_env \<Rightarrow> string \<Rightarrow> int \<Rightarrow> string \<Rightarrow> string list \<Rightarrow> filesystem \<Rightarrow> go_error option \<times> filesystem" where
  "commandWithTimeout env folder timeout name args fs =
     (case beRun env folder name args fs of
        (StartFailed err, fs1) \<Rightarrow> (Some err, fs1)
      | (TimedOut, fs1) \<Rightarrow>
          (Some (Errorf (''the command '' @ name @ '' '' @ join_with '' '' args @ '' timed out after '' @ beDuration env timeout)), fs1)
      | (Exited (Some err) output, fs1) \<Rightarrow> (Some (Errorf (output @ '' '' @ err_text err)), fs1)
      | (Exited None output, fs1) \<Rightarrow> (None, fs1))"

text \<open>\<open>os.RemoveAll\<close> of a directory, which is what its name and a slash begin.\<close>

definition inside :: "string \<Rightarrow> string \<Rightarrow> bool" where
  "inside folder path \<longleftrightarrow> path = folder \<or> take (length folder + 1) path = folder @ ''/''"

definition RemoveAll :: "string \<Rightarrow> filesystem \<Rightarrow> filesystem" where
  "RemoveAll folder fs = fs\<lparr>fsFile := (\<lambda>path. if inside folder path then None else fsFile fs path)\<rparr>"

text \<open>The steps of \<open>Bundle\<close> between the creation of the directory and its removal.\<close>

definition write_sources ::
    "bundle_env \<Rightarrow> string \<Rightarrow> string \<Rightarrow> (string \<times> string) list \<Rightarrow> filesystem \<Rightarrow> go_error option \<times> filesystem" where
  "write_sources env tempDir javascript dependencies fs =
     (case beMarshal env dependencies of
        Inl err \<Rightarrow> (Some (err_wrap err ''marshal package json''), fs)
      | Inr packageJson \<Rightarrow>
     (case WriteFile (path_Join tempDir ''index.js'') javascript fs of
        (Some err, fs1) \<Rightarrow> (Some (err_wrap err ''write index js''), fs1)
      | (None, fs1) \<Rightarrow>
     (case WriteFile (path_Join tempDir ''package.json'') packageJson fs1 of
        (Some err, fs2) \<Rightarrow> (Some (err_wrap err ''write package json''), fs2)
      | (None, fs2) \<Rightarrow>
     (case WriteFile (path_Join tempDir ''webpack.config.js'') (beWebpackConfig env) fs2 of
        (Some err, fs3) \<Rightarrow> (Some (err_wrap err ''write webpack config''), fs3)
      | (None, fs3) \<Rightarrow> (None, fs3)))))"

definition install_modules ::
    "bundle_env \<Rightarrow> string \<Rightarrow> (string \<times> string) list \<Rightarrow> int \<Rightarrow> filesystem \<Rightarrow> go_error option \<times> filesystem" where
  "install_modules env tempDir dependencies timeout fs =
     (if dependencies \<noteq> [] then
        (case commandWithTimeout env tempDir timeout ''npm'' [''install'', ''--disable-scripts''] fs of
           (Some err, fs1) \<Rightarrow> (Some (Errorf (''error installing dependencies: '' @ err_text err)), fs1)
         | (None, fs1) \<Rightarrow> (None, fs1))
      else (None, fs))"

definition run_webpack :: "bundle_env \<Rightarrow> string \<Rightarrow> int \<Rightarrow> filesystem \<Rightarrow> (go_error + string) \<times> filesystem" where
  "run_webpack env tempDir timeout fs =
     (case commandWithTimeout env tempDir timeout ''webpack-cli'' [''--config'', ''webpack.config.js''] fs of
        (Some err, fs1) \<Rightarrow> (Inl (Errorf (''error bundling javascript: '' @ err_text err)), fs1)
      | (None, fs1) \<Rightarrow>
     (case ReadFile fs1 (path_Join (path_Join tempDir ''dist'') ''bundle.js'') of
        Inl err \<Rightarrow> (Inl (err_wrap err ''read bundle.js''), fs1)
      | Inr out \<Rightarrow> (beCompress env out, fs1)))"

definition bundle_in ::
    "bundle_env \<Rightarrow> string \<Rightarrow> string \<Rightarrow> (string \<times> string) list \<Rightarrow> int \<Rightarrow> filesystem \<Rightarrow> (go_error + string) \<times> filesystem" where
  "bundle_in env tempDir javascript dependencies timeout fs =
     (case write_sources env tempDir javascript dependencies fs of
        (Some err, fs1) \<Rightarrow> (Inl err, fs1)
      | (None, fs1) \<Rightarrow>
     (case install_modules env tempDir dependencies timeout fs1 of
        (Some err, fs2) \<Rightarrow> (Inl err, fs2)
      | (None, fs2) \<Rightarrow> run_webpack env tempDir timeout fs2))"

definition Bundle ::
    "bundle_env \<Rightarrow> string \<Rightarrow> (string \<times> string) list \<Rightarrow> int \<Rightarrow> filesystem \<Rightarrow> (go_error + string) \<times> filesystem" where
  "Bundle env javascript dependencies timeout fs =
     (case beTempDir env of
        Inl err \<Rightarrow> (Inl err, fs)
      | Inr tempDir \<Rightarrow> apsnd (RemoveAll tempDir) (bundle_in env tempDir javascript dependencies timeout fs))"

section \<open>What is left on the disk\<close>

text \<open>Two disks that differ at most inside a folder.\<close>

definition same_outside :: "string \<Rightarrow> filesystem \<Rightarrow> filesystem \<Rightarrow> bool" where
  "same_outside folder fs fs' \<longleftrightarrow> (\<forall>path. inside folder path \<or> fsFile fs' path = fsFile fs path)"

text \<open>The programs that are run write to their own folder only.\<close>

definition confined :: "bundle_env \<Rightarrow> bool" where
  "confined env \<longleftrightarrow> (\<forall>folder name args fs. same_outside folder fs (snd (beRun env folder name args fs)))"

lemma same_outside_refl [simp]: "same_outside folder fs fs"
  by (simp add: same_outside_def)

lemma same_outside_trans: "same_outside folder fs gs \<Longrightarrow> same_outside folder gs hs \<Longrightarrow> same_outside folder fs hs"
  unfolding same_outside_def by metis

lemma inside_Join [simp]: "inside folder (path_Join folder file)"
  by (simp add: inside_def path_Join_def)

lemma WriteFile_outside: "same_outside folder fs (snd (WriteFile (path_Join folder file) content fs))"
  by (auto simp: same_outside_def WriteFile_def split: option.splits)

lemma write_sources_outside: "same_outside dir fs (snd (write_sources env dir js deps fs))"
proof (cases "beMarshal env deps")
  case (Inl err)
  then show ?thesis by (simp add: write_sources_def)
next
  case (Inr packageJson)
  let ?w = "\<lambda>file content. WriteFile (path_Join dir file) content"
  obtain r1 fs1 where 1: "?w ''index.js'' js fs = (r1, fs1)" by fastforce
  obtain r2 fs2 where 2: "?w ''package.json'' packageJson fs1 = (r2, fs2)" by fastforce
  obtain r3 fs3 where 3: "?w ''webpack.config.js'' (beWebpackConfig env) fs2 = (r3, fs3)" by fastforce
  have o1: "same_outside dir fs fs1" using WriteFile_outside [of dir fs "''index.js''" js] by (simp only: 1 snd_conv)
  have "same_outside dir fs1 fs2" using WriteFile_outside [of dir fs1 "''package.json''" packageJson] by (simp only: 2 snd_conv)
  then have o2: "same_outside dir fs fs2" by (rule same_outside_trans [OF o1])
  have "same_outside dir fs2 fs3"
    using WriteFile_outside [of dir fs2 "''webpack.config.js''" "beWebpackConfig env"] by (simp only: 3 snd_conv)
  then have o3: "same_outside dir fs fs3" by (rule same_outside_trans [OF o2])
  show ?thesis
    using o1 o2 o3 by (simp add: write_sources_def Inr 1 2 3 split: option.split)
qed

lemma commandWithTimeout_outside:
  assumes "confined env"
  shows "same_outside dir fs (snd (commandWithTimeout env dir timeout name args fs))"
proof -
  obtain r fs1 where r: "beRun env dir name args fs = (r, fs1)" by fastforce
  then have "same_outside dir fs fs1" using assms unfolding confined_def by (metis snd_conv)
  then show ?thesis by (simp add: commandWithTimeout_def r split: outcome.split option.split)
qed

lemma command_result:
  assumes "confined env"
  obtains r fs1 where "commandWithTimeout env dir timeout name args fs = (r, fs1)" "same_outside dir fs fs1"
  using commandWithTimeout_outside [OF assms, of dir fs timeout name args] by (metis prod.collapse)

lemma install_modules_outside:
  assumes "confined env"
  shows "same_outside dir fs (snd (install_modules env dir deps timeout fs))"
proof -
  obtain r fs1 where "commandWithTimeout env dir timeout ''npm'' [''install'', ''--disable-scripts''] fs = (r, fs1)"
    "same_outside dir fs fs1" by (rule command_result [OF assms])
  then show ?thesis by (cases r) (simp_all add: install_modules_def)
qed

lemma run_webpack_outside:
  assumes "confined env"
  shows "same_outside dir fs (snd (run_webpack env dir timeout fs))"
proof -
  obtain r fs1 where "commandWithTimeout env dir timeout ''webpack-cli'' [''--config'', ''webpack.config.js''] fs = (r, fs1)"
    "same_outside dir fs fs1" by (rule command_result [OF assms])
  then show ?thesis by (cases r) (simp_all add: run_webpack_def split: sum.split)
qed

lemma bundle_in_outside:
  assumes "confined env"
  shows "same_outside dir fs (snd (bundle_in env dir js deps timeout fs))"
proof -
  obtain r1 fs1 where 1: "write_sources env dir js deps fs = (r1, fs1)" by fastforce
  obtain r2 fs2 where 2: "install_modules env dir deps timeout fs1 = (r2, fs2)" by fastforce
  obtain r3 fs3 where 3: "run_webpack env dir timeout fs2 = (r3, fs3)" by fastforce
  have o1: "same_outside dir fs fs1" using write_sources_outside [of dir fs env js deps] by (simp only: 1 snd_conv)
  have "same_outside dir fs1 fs2" using install_modules_outside [OF assms, of dir fs1 deps timeout] by (simp only: 2 snd_conv)
  then have o2: "same_outside dir fs fs2" by (rule same_outside_trans [OF o1])
  have "same_outside dir fs2 fs3" using run_webpack_outside [OF assms, of dir fs2 timeout] by (simp only: 3 snd_conv)
  then have "same_outside dir fs fs3" by (rule same_outside_trans [OF o2])
  then show ?thesis using o1 o2 by (simp add: bundle_in_def 1 2 3 split: option.split)
qed

lemma RemoveAll_restores:
  assumes "same_outside dir fs fs'" and "\<forall>path. inside dir path \<longrightarrow> fsFile fs path = None"
  shows "fsFile (RemoveAll dir fs') = fsFile fs"
  using assms by (auto simp: RemoveAll_def same_outside_def fun_eq_iff)

section \<open>Properties\<close>


text \<open>A webpack that copies the script, and times out on an empty one.\<close>

definition example_bundle_env :: bundle_env where
  "example_bundle_env =
     \<lparr>beTempDir = Inr ''/tmp/1'', beMarshal = (\<lambda>deps. Inr ''{}''),
      beRun = (\<lambda>folder name args fs.
        case ReadFile fs (path_Join folder ''index.js'') of
          Inl err \<Rightarrow> (StartFailed err, fs)
        | Inr js \<Rightarrow> if js = [] then (TimedOut, fs)
                    else (Exited None [], fs\<lparr>fsFile := (fsFile fs)(path_Join (path_Join folder ''dist'') ''bundle.js'' \<mapsto> js)\<rparr>)),
      beDuration = itoa, beCompress = Inr, beWebpackConfig = ''x''\<rparr>"

lemma inside_nested [simp]: "inside folder (path_Join (path_Join folder a) b)"
  by (simp add: inside_def path_Join_def)

lemma example_confined: "confined example_bundle_env"
  by (auto simp: confined_def example_bundle_env_def same_outside_def split: sum.splits)


end
