(* ===== verification/Replicas.thy ===== *)
theory Replicas
  imports Startup
begin

text \<open>
  \<open>ensureSecret\<close> (\<open>pkg/util/secret/store.go\<close>) as it runs in several replicas at once. Between two calls of
  the API server a replica only touches its own disk, so one call together with the local work after it
  is one step; the server handles each call atomically. Startup models the same function as one run
  against an arbitrary server; \<open>ensure_step_alone\<close> links the two.
\<close>

section \<open>One replica\<close>

text \<open>The next call of a replica, or what \<open>ensureSecret\<close> returned. \<open>AtCreate\<close> carries the data it read.\<close>

datatype phase = AtGet | AtDelete | AtCreate "(string \<times> string) list" | Returned "go_error option"

text \<open>\<open>createCert\<close> and the reading of its three files, up to the call of \<open>Create\<close>.\<close>

definition prepare ::
    "string \<Rightarrow> (filesystem \<Rightarrow> go_error option \<times> filesystem) \<Rightarrow> filesystem \<Rightarrow> phase \<times> filesystem" where
  "prepare certFolder createCert fs =
     (case createCert fs of
        (Some err, fs1) \<Rightarrow> (Returned (Some err), fs1)
      | (None, fs1) \<Rightarrow>
          (case read_files certFolder fs1 cert_files of
             Inl err \<Rightarrow> (Returned (Some err), fs1)
           | Inr data \<Rightarrow> (AtCreate data, fs1)))"

text \<open>
  One call against the secret that the server holds now. The deletion names the secret only: it removes
  whichever secret is there, not the one that was read.
\<close>

definition new_secret :: "string \<Rightarrow> string \<Rightarrow> (string \<times> string) list \<Rightarrow> Secret" where
  "new_secret namespace certSecretName data =
     \<lparr>seName = certSecretName, seNamespace = namespace, seData = Some data, seType = SecretTypeTLS\<rparr>"

fun ensure_step ::
    "string \<Rightarrow> string \<Rightarrow> string \<Rightarrow> (filesystem \<Rightarrow> go_error option \<times> filesystem) \<Rightarrow>
     (phase \<times> filesystem) \<times> Secret option \<Rightarrow> (phase \<times> filesystem) \<times> Secret option" where
  "ensure_step namespace certSecretName certFolder createCert ((AtGet, fs), server) =
     (case server of
        None \<Rightarrow> (prepare certFolder createCert fs, server)
      | Some s \<Rightarrow>
          if isSecretValid s then (apfst Returned (getDataFromSecret s certFolder fs), server)
          else ((AtDelete, fs), server))"
| "ensure_step namespace certSecretName certFolder createCert ((AtDelete, fs), server) =
     (case server of
        None \<Rightarrow> ((Returned (Some (GoError NotFound certSecretName)), fs), server)
      | Some s \<Rightarrow> (prepare certFolder createCert fs, None))"
| "ensure_step namespace certSecretName certFolder createCert ((AtCreate data, fs), server) =
     (case server of
        None \<Rightarrow> ((Returned None, fs), Some (new_secret namespace certSecretName data))
      | Some s \<Rightarrow> ((AtGet, fs), server))"
| "ensure_step namespace certSecretName certFolder createCert ((Returned r, fs), server) = ((Returned r, fs), server)"

text \<open>The atomic server, as the client that Startup's \<open>ensureSecret\<close> takes.\<close>

definition atomic_secrets :: "string \<Rightarrow> Secret option secret_env" where
  "atomic_secrets certSecretName =
     \<lparr>seClient =
        \<lparr>cGet = (\<lambda>ns n server. (case server of None \<Rightarrow> Inl (GoError NotFound certSecretName) | Some s \<Rightarrow> Inr s, server)),
         cCreate = (\<lambda>s server. if server = None then (None, Some s)
                               else (Some (GoError AlreadyExists certSecretName), server)),
         cUpdate = (\<lambda>s server. (None, Some s))\<rparr>,
      seDelete = (\<lambda>s server. if server = None then (Some (GoError NotFound certSecretName), None) else (None, None)),
      seGetNamespace = (\<lambda>n server. (None, server)), seCreateNamespace = (\<lambda>n server. (None, server))\<rparr>"

section \<open>Several replicas\<close>

record replicas_state =
  srvSecret :: "Secret option"
  replicas :: "(phase \<times> filesystem) list"

text \<open>
  \<open>Calling i\<close> is a call of replica \<open>i\<close>; \<open>Failing i\<close> one whose answer is an error of another kind than
  not-found and already-exists, \<open>Lost\<close> whether the server has done its part nevertheless; and
  \<open>Restarting i\<close> a replica that starts again, at any time and with any disk.
\<close>

datatype replica_event = Calling nat | Failing nat go_error bool | Restarting nat filesystem

inductive replicas_step ::
    "string \<Rightarrow> string \<Rightarrow> string \<Rightarrow> (nat \<Rightarrow> filesystem \<Rightarrow> go_error option \<times> filesystem) \<Rightarrow>
     replicas_state \<Rightarrow> replica_event \<Rightarrow> replicas_state \<Rightarrow> bool"
  for namespace certSecretName certFolder createCert where
  calling:
    "\<lbrakk>i < length (replicas st); replicas st ! i = (p, fs); \<forall>r. p \<noteq> Returned r;
      ensure_step namespace certSecretName certFolder (createCert i) ((p, fs), srvSecret st) = (r', server')\<rbrakk> \<Longrightarrow>
     replicas_step namespace certSecretName certFolder createCert st (Calling i)
       \<lparr>srvSecret = server', replicas = (replicas st)[i := r']\<rparr>"
| failing:
    "\<lbrakk>i < length (replicas st); replicas st ! i = (p, fs); \<forall>r. p \<noteq> Returned r; \<not> IsNotFound err; \<not> IsAlreadyExists err;
      ensure_step namespace certSecretName certFolder (createCert i) ((p, fs), srvSecret st) = (r', server')\<rbrakk> \<Longrightarrow>
     replicas_step namespace certSecretName certFolder createCert st (Failing i err lost)
       \<lparr>srvSecret = (if lost then server' else srvSecret st), replicas = (replicas st)[i := (Returned (Some err), fs)]\<rparr>"
| restarting:
    "i < length (replicas st) \<Longrightarrow>
     replicas_step namespace certSecretName certFolder createCert st (Restarting i fs)
       \<lparr>srvSecret = srvSecret st, replicas = (replicas st)[i := (AtGet, fs)]\<rparr>"

inductive_cases replicas_stepE: "replicas_step namespace certSecretName certFolder createCert st e st'"

inductive replicas_run ::
    "string \<Rightarrow> string \<Rightarrow> string \<Rightarrow> (nat \<Rightarrow> filesystem \<Rightarrow> go_error option \<times> filesystem) \<Rightarrow>
     replicas_state \<Rightarrow> replica_event list \<Rightarrow> replicas_state \<Rightarrow> bool"
  for namespace certSecretName certFolder createCert where
  run_nil: "replicas_run namespace certSecretName certFolder createCert st [] st"
| run_snoc:
    "\<lbrakk>replicas_run namespace certSecretName certFolder createCert st es st1;
      replicas_step namespace certSecretName certFolder createCert st1 e st2\<rbrakk> \<Longrightarrow>
     replicas_run namespace certSecretName certFolder createCert st (es @ [e]) st2"

section \<open>A replica on its own\<close>

lemma prepare_alone:
  "\<exists>n \<le> 1. \<exists>err fs' sv'.
     (ensure_step namespace name folder createCert ^^ n) (prepare folder createCert fs, None) =
       ((Returned err, fs'), sv') \<and>
     create_secret (atomic_secrets name) namespace name folder createCert fs None = Inl (err, fs', sv')"
proof -
  obtain r fs1 where c: "createCert fs = (r, fs1)" by fastforce
  consider (failed) err where "r = Some err"
    | (unread) err where "r = None" "read_files folder fs1 cert_files = Inl err"
    | (made) data where "r = None" "read_files folder fs1 cert_files = Inr data"
    by (cases r; cases "read_files folder fs1 cert_files") auto
  then show ?thesis
  proof cases
    case made
    then show ?thesis using c
      by (intro exI [of _ 1]) (simp add: prepare_def create_secret_def atomic_secrets_def new_secret_def)
  qed (use c in \<open>intro exI [of _ 0], simp add: prepare_def create_secret_def\<close>)+
qed

text \<open>
  With no other replica in between, the steps lead where \<open>ensureSecret\<close> does, in at most three calls.
\<close>

lemma ensure_step_alone:
  "\<exists>n \<le> 3. \<exists>err fs' sv'.
     (ensure_step namespace name folder createCert ^^ n) ((AtGet, fs), sv) = ((Returned err, fs'), sv') \<and>
     ensureSecret (atomic_secrets name) namespace name folder createCert fs sv = Some (err, fs', sv')"
proof -
  let ?f = "ensure_step namespace name folder createCert"
  let ?e = "ensure_round (atomic_secrets name) namespace name folder createCert fs sv"
  obtain n err fs' sv' where f: "n \<le> 1" "(?f ^^ n) (prepare folder createCert fs, None) = ((Returned err, fs'), sv')"
    "create_secret (atomic_secrets name) namespace name folder createCert fs None = Inl (err, fs', sv')"
    using prepare_alone by blast
  consider (new) "sv = None" | (good) s where "sv = Some s" "isSecretValid s"
    | (bad) s where "sv = Some s" "\<not> isSecretValid s" by (cases sv) auto
  then show ?thesis
  proof cases
    case new
    have "?e = Inl (err, fs', sv')" using f(3) by (simp add: ensure_round_def atomic_secrets_def new IsNotFound_def)
    moreover have "(?f ^^ Suc n) ((AtGet, fs), sv) = ((Returned err, fs'), sv')"
      using f(2) by (simp add: funpow_Suc_right new del: funpow.simps)
    ultimately show ?thesis using f(1) by (intro exI [of _ "Suc n"]) (simp add: ensure_round_last del: funpow.simps)
  next
    case good
    then show ?thesis
      by (intro exI [of _ 1]) (simp add: ensure_round_def atomic_secrets_def ensureSecret.simps split: prod.split)
  next
    case bad
    have "?e = Inl (err, fs', sv')" using f(3) by (simp add: ensure_round_def atomic_secrets_def bad)
    moreover have "(?f ^^ Suc (Suc n)) ((AtGet, fs), sv) = ((Returned err, fs'), sv')"
      using f(2) by (simp add: funpow_Suc_right bad del: funpow.simps)
    ultimately show ?thesis using f(1)
      by (intro exI [of _ "Suc (Suc n)"]) (simp add: ensure_round_last del: funpow.simps)
  qed
qed

section \<open>Without a broken secret\<close>

text \<open>Nobody deletes, and who has returned without an error holds the secret of the server.\<close>

definition replica_ok :: "string \<Rightarrow> Secret option \<Rightarrow> phase \<times> filesystem \<Rightarrow> bool" where
  "replica_ok folder sv r \<longleftrightarrow>
     (case fst r of
        AtGet \<Rightarrow> True
      | AtDelete \<Rightarrow> False
      | AtCreate data \<Rightarrow> read_files folder (snd r) cert_files = Inr data
      | Returned err \<Rightarrow> err = None \<longrightarrow> (\<exists>s. sv = Some s \<and> disk_agrees folder (snd r) s))"

definition server_ok :: "Secret option \<Rightarrow> bool" where
  "server_ok sv \<longleftrightarrow> (\<forall>s. sv = Some s \<longrightarrow> isSecretValid s)"

definition replicas_ok :: "string \<Rightarrow> replicas_state \<Rightarrow> bool" where
  "replicas_ok folder st \<longleftrightarrow>
     server_ok (srvSecret st) \<and> (\<forall>i < length (replicas st). replica_ok folder (srvSecret st) (replicas st ! i))"

lemma replica_ok_prepare [simp]: "replica_ok folder sv (prepare folder createCert fs)"
  by (simp add: replica_ok_def prepare_def split: prod.splits option.splits sum.splits)

lemma replica_ok_restart [simp]: "replica_ok folder sv (AtGet, fs)"
  by (simp add: replica_ok_def)

lemma replica_ok_failed [simp]: "replica_ok folder sv (Returned (Some err), fs)"
  by (simp add: replica_ok_def)

lemma replica_ok_mono: "replica_ok folder None r \<Longrightarrow> replica_ok folder sv r"
  by (auto simp: replica_ok_def split: phase.splits)

lemma ensure_step_ok:
  assumes "replica_ok folder sv (p, fs)" and "server_ok sv"
    and "ensure_step namespace name folder createCert ((p, fs), sv) = (r', sv')"
  shows "replica_ok folder sv' r' \<and> server_ok sv' \<and> (sv' = sv \<or> sv = None)"
proof (cases p)
  case AtGet
  show ?thesis
  proof (cases sv)
    case None
    then show ?thesis using assms(2,3) AtGet by auto
  next
    case (Some s)
    obtain err fs' where g: "getDataFromSecret s folder fs = (err, fs')" by fastforce
    have v: "isSecretValid s" using assms(2) Some by (simp add: server_ok_def)
    have "r' = (Returned err, fs')" "sv' = sv" using assms(3) AtGet Some g v by auto
    then show ?thesis using getDataFromSecret_agrees [OF _ v] g assms(2) Some by (auto simp: replica_ok_def)
  qed
next
  case AtDelete
  then show ?thesis using assms(1) by (simp add: replica_ok_def)
next
  case (AtCreate data)
  then have d: "read_files folder fs cert_files = Inr data" using assms(1) by (simp add: replica_ok_def)
  show ?thesis
    using assms(2,3) AtCreate created_agrees [OF d, of name namespace]
    by (auto simp: replica_ok_def server_ok_def new_secret_def split: option.splits)
next
  case (Returned err)
  then show ?thesis using assms by auto
qed

lemma nth_update: "xs[i := x] ! j = (if i = j \<and> i < length xs then x else xs ! j)"
  by (cases "i < length xs") (auto simp: nth_list_update list_update_beyond not_less)

lemma replicas_ok_update:
  assumes "replicas_ok folder st" and "replica_ok folder sv' r'" and "server_ok sv'" and "sv' = srvSecret st \<or> srvSecret st = None"
  shows "replicas_ok folder \<lparr>srvSecret = sv', replicas = (replicas st)[i := r']\<rparr>"
proof -
  have "replica_ok folder sv' (replicas st ! j)" if "j < length (replicas st)" for j
    using assms(1,4) replica_ok_mono [of folder "replicas st ! j" sv'] that by (auto simp: replicas_ok_def)
  then show ?thesis using assms(2,3) by (simp add: replicas_ok_def nth_update)
qed

lemma replicas_step_ok:
  assumes "replicas_step namespace name folder createCert st e st'" and "replicas_ok folder st"
  shows "replicas_ok folder st' \<and> (srvSecret st' = srvSecret st \<or> srvSecret st = None)"
  using assms
proof cases
  case (calling i p fs r' sv')
  have "replica_ok folder (srvSecret st) (p, fs)" "server_ok (srvSecret st)"
    using assms(2) calling(3,4) by (auto simp: replicas_ok_def)
  from ensure_step_ok [OF this calling(6)] show ?thesis
    using replicas_ok_update [OF assms(2), of sv' r' i] calling(2) by simp
next
  case (failing i p fs err r' sv' lost)
  have "replica_ok folder (srvSecret st) (p, fs)" "server_ok (srvSecret st)"
    using assms(2) failing(3,4) by (auto simp: replicas_ok_def)
  from ensure_step_ok [OF this failing(8)] show ?thesis
    using replicas_ok_update [OF assms(2), of _ "(Returned (Some err), fs)" i] failing(2) \<open>server_ok (srvSecret st)\<close> by auto
next
  case (restarting i fs)
  then show ?thesis
    using assms(2) by (auto simp: replicas_ok_def nth_update)
qed

lemma replicas_run_ok:
  assumes "replicas_run namespace name folder createCert st es st'" and "replicas_ok folder st"
  shows "replicas_ok folder st'"
  using assms by (induction rule: replicas_run.induct) (auto dest: replicas_step_ok)

section \<open>How many calls\<close>

text \<open>The calls that a replica may still make.\<close>

definition calls_left :: "Secret option \<Rightarrow> phase \<times> filesystem \<Rightarrow> nat" where
  "calls_left sv r =
     (case fst r of
        AtGet \<Rightarrow> (if sv = None then 3 else 1)
      | AtDelete \<Rightarrow> 3
      | AtCreate data \<Rightarrow> 2
      | Returned err \<Rightarrow> 0)"

definition replicas_left :: "replicas_state \<Rightarrow> nat" where
  "replicas_left st = (\<Sum>i < length (replicas st). calls_left (srvSecret st) (replicas st ! i))"

lemma calls_left_le: "calls_left sv r \<le> 3"
  by (simp add: calls_left_def split: phase.splits)

lemma calls_left_mono: "sv' = sv \<or> sv = None \<Longrightarrow> calls_left sv' r \<le> calls_left sv r"
  by (auto simp: calls_left_def split: phase.splits)

lemma calls_left_prepare: "calls_left sv (prepare folder createCert fs) \<le> 2"
  by (simp add: calls_left_def prepare_def split: prod.splits option.splits sum.splits)

lemma ensure_step_left:
  assumes "replica_ok folder sv (p, fs)" and "server_ok sv" and "\<forall>r. p \<noteq> Returned r"
    and "ensure_step namespace name folder createCert ((p, fs), sv) = (r', sv')"
  shows "calls_left sv' r' < calls_left sv (p, fs)"
proof (cases p)
  case AtGet
  show ?thesis
  proof (cases sv)
    case None
    have "r' = prepare folder createCert fs" "sv' = None" using assms(4) AtGet None by auto
    then show ?thesis using calls_left_prepare [of None folder createCert fs] AtGet None by (simp add: calls_left_def)
  next
    case (Some s)
    then show ?thesis using assms(2,4) AtGet by (auto simp: server_ok_def calls_left_def apfst_def map_prod_def split: prod.splits)
  qed
next
  case AtDelete
  then show ?thesis using assms(1) by (simp add: replica_ok_def)
next
  case (AtCreate data)
  then show ?thesis using assms(4) by (auto simp: calls_left_def split: option.splits)
next
  case (Returned err)
  then show ?thesis using assms(3) by simp
qed

text \<open>One entry of a sum that changes.\<close>

lemma sum_list_update:
  fixes f g :: "'a \<Rightarrow> nat"
  assumes "i < length xs" and "\<And>x. g x \<le> f x"
  shows "(\<Sum>j < length xs. g (xs[i := y] ! j)) + f (xs ! i) \<le> (\<Sum>j < length xs. f (xs ! j)) + g y"
proof -
  have i: "i \<in> {..<length xs}" using assms(1) by simp
  have "(\<Sum>j \<in> {..<length xs} - {i}. g (xs[i := y] ! j)) \<le> (\<Sum>j \<in> {..<length xs} - {i}. f (xs ! j))"
    by (rule sum_mono) (auto simp: assms(2))
  then show ?thesis
    using assms(1) sum.remove [OF _ i, of "\<lambda>j. g (xs[i := y] ! j)"] sum.remove [OF _ i, of "\<lambda>j. f (xs ! j)"] by simp
qed

lemma replicas_left_update:
  assumes "i < length (replicas st)" and "sv' = srvSecret st \<or> srvSecret st = None"
  shows "replicas_left \<lparr>srvSecret = sv', replicas = (replicas st)[i := r']\<rparr> + calls_left (srvSecret st) (replicas st ! i)
    \<le> replicas_left st + calls_left sv' r'"
  using sum_list_update [of i "replicas st" "calls_left sv'" "calls_left (srvSecret st)" r'] assms calls_left_mono
  by (simp add: replicas_left_def)

fun is_restart :: "replica_event \<Rightarrow> bool" where
  "is_restart (Restarting i fs) = True"
| "is_restart e = False"

lemma replicas_step_left:
  assumes "replicas_step namespace name folder createCert st e st'" and "replicas_ok folder st"
  shows "replicas_left st' + (if is_restart e then 0 else 1) \<le> replicas_left st + (if is_restart e then 3 else 0)"
  using assms
proof cases
  case (calling i p fs r' sv')
  have ok: "replica_ok folder (srvSecret st) (p, fs)" "server_ok (srvSecret st)"
    using assms(2) calling(3,4) by (auto simp: replicas_ok_def)
  show ?thesis
    using replicas_left_update [of i st sv' r'] ensure_step_left [OF ok calling(5,6)] ensure_step_ok [OF ok calling(6)] calling
    by auto
next
  case (failing i p fs err r' sv' lost)
  have ok: "replica_ok folder (srvSecret st) (p, fs)" "server_ok (srvSecret st)"
    using assms(2) failing(3,4) by (auto simp: replicas_ok_def)
  have "calls_left sv' r' < calls_left (srvSecret st) (p, fs)" using ensure_step_left [OF ok failing(5,8)] .
  then show ?thesis
    using replicas_left_update [of i st "srvSecret st'" "(Returned (Some err), fs)"] ensure_step_ok [OF ok failing(8)] failing
    by (auto simp: calls_left_def [of _ "(Returned (Some err), fs)"])
next
  case (restarting i fs)
  then show ?thesis
    using replicas_left_update [of i st "srvSecret st" "(AtGet, fs)"] calls_left_le [of "srvSecret st" "(AtGet, fs)"] by simp
qed

lemma replicas_run_left:
  assumes "replicas_run namespace name folder createCert st es st'" and "replicas_ok folder st"
  shows "replicas_left st' + length (filter (\<lambda>e. \<not> is_restart e) es) \<le> replicas_left st + 3 * length (filter is_restart es)"
  using assms
proof (induction rule: replicas_run.induct)
  case (run_nil st)
  then show ?case by simp
next
  case (run_snoc st es st1 e st2)
  have "replicas_ok folder st1" using replicas_run_ok [OF run_snoc.hyps(1) run_snoc.prems] .
  from replicas_step_left [OF run_snoc.hyps(2) this] run_snoc.IH [OF run_snoc.prems] show ?case
    by (auto split: if_splits)
qed

lemma replicas_left_le: "replicas_left st \<le> 3 * length (replicas st)"
  using sum_bounded_above [of "{..<length (replicas st)}" "\<lambda>i. calls_left (srvSecret st) (replicas st ! i)" 3]
  by (simp add: replicas_left_def calls_left_le)

lemma run_call:
  assumes "replicas_run namespace name folder createCert st es \<lparr>srvSecret = sv, replicas = rs\<rparr>"
    and "i < length rs" and "\<forall>r. fst (rs ! i) \<noteq> Returned r"
    and "ensure_step namespace name folder (createCert i) (rs ! i, sv) = (r', sv')"
    and "rs' = rs[i := r']" and "es' = es @ [Calling i]"
  shows "replicas_run namespace name folder createCert st es' \<lparr>srvSecret = sv', replicas = rs'\<rparr>"
  using run_snoc [OF assms(1)
      calling [of i "\<lparr>srvSecret = sv, replicas = rs\<rparr>" "fst (rs ! i)" "snd (rs ! i)" namespace name folder createCert r' sv']]
    assms(2-6) by simp

lemma prepare_ok:
  "createCert fs = (None, fs1) \<Longrightarrow> read_files folder fs1 cert_files = Inr data \<Longrightarrow>
   prepare folder createCert fs = (AtCreate data, fs1)"
  by (simp add: prepare_def)

section \<open>Properties\<close>

text \<open>
  C27: replicas that start on a cluster without the certificate's secret, or with a valid one, end up with
  the same certificate under every interleaving of their calls, with failing calls, calls whose answer
  is lost and restarts on any disk: whoever has returned without an error holds the three files of the
  secret on the server. They make at most three calls each, and at most three more for each restart.
\<close>

theorem replicas_agree:
  assumes "replicas_run namespace name folder createCert st es st'"
    and "\<forall>r \<in> set (replicas st). fst r = AtGet" and "\<forall>s. srvSecret st = Some s \<longrightarrow> isSecretValid s"
  shows "(\<forall>fs. (Returned None, fs) \<in> set (replicas st') \<longrightarrow>
       (\<exists>s. srvSecret st' = Some s \<and> isSecretValid s \<and> disk_agrees folder fs s)) \<and>
     length (filter (\<lambda>e. \<not> is_restart e) es) \<le> 3 * (length (replicas st) + length (filter is_restart es))"
proof -
  have ok: "replicas_ok folder st"
    using assms(2,3) by (auto simp: replicas_ok_def server_ok_def replica_ok_def split: phase.splits)
  have "replicas_ok folder st'" using replicas_run_ok [OF assms(1) ok] .
  then show ?thesis
    using replicas_run_left [OF assms(1) ok] replicas_left_le [of st]
    by (fastforce simp: replicas_ok_def server_ok_def replica_ok_def in_set_conv_nth)
qed

definition example_replicas :: "Secret option \<Rightarrow> replicas_state" where
  "example_replicas sv = \<lparr>srvSecret = sv, replicas = [(AtGet, empty_disk), (AtGet, empty_disk)]\<rparr>"

definition example_data :: "nat \<Rightarrow> (string \<times> string) list" where
  "example_data i = map (\<lambda>f. (f, if i = 0 then ''k'' else ''l'')) cert_files"

definition example_disk :: "nat \<Rightarrow> filesystem" where
  "example_disk i =
     \<lparr>fsFile = (\<lambda>p. if p \<in> path_Join WebhookCertFolder ` set cert_files then Some (if i = 0 then ''k'' else ''l'') else None),
      fsFault = (\<lambda>_. None)\<rparr>"

definition example_generator :: "nat \<Rightarrow> filesystem \<Rightarrow> go_error option \<times> filesystem" where
  "example_generator i fs = (None, example_disk i)"

lemma example_disk_read: "read_files WebhookCertFolder (example_disk i) cert_files = Inr (example_data i)"
  by (simp add: cert_files_def ReadFile_def example_disk_def example_data_def)

lemma example_prepare: "prepare WebhookCertFolder (example_generator i) fs = (AtCreate (example_data i), example_disk i)"
  by (simp add: prepare_def example_generator_def example_disk_read)

theorem replicas_agree_witness:
  "\<exists>st' s. replicas_run ''jspolicy'' WebhookCertSecretName WebhookCertFolder example_generator (example_replicas None)
       [Calling 0, Calling 1, Calling 1, Calling 0, Calling 0] st' \<and>
     map fst (replicas st') = [Returned None, Returned None] \<and>
     (\<forall>r \<in> set (replicas st'). disk_agrees WebhookCertFolder (snd r) s)"
proof -
  let ?run = "replicas_run ''jspolicy'' WebhookCertSecretName WebhookCertFolder example_generator (example_replicas None)"
  let ?s = "new_secret ''jspolicy'' WebhookCertSecretName (example_data (Suc 0))"
  obtain fs where g: "getDataFromSecret ?s WebhookCertFolder (example_disk 0) = (None, fs)"
    by (simp add: getDataFromSecret_def MkdirAll_def example_disk_def WriteFile_def cert_files_def)
  have v: "isSecretValid ?s"
    using created_agrees [OF example_disk_read [of "Suc 0"]] by (simp add: new_secret_def)
  have 0: "?run [] \<lparr>srvSecret = None, replicas = [(AtGet, empty_disk), (AtGet, empty_disk)]\<rparr>"
    using run_nil [of _ _ _ _ "example_replicas None"] by (simp add: example_replicas_def)
  have 1: "?run [Calling 0] \<lparr>srvSecret = None, replicas = [(AtCreate (example_data 0), example_disk 0), (AtGet, empty_disk)]\<rparr>"
    by (rule run_call [OF 0, of 0]) (simp_all add: example_prepare)
  have 2: "?run [Calling 0, Calling 1] \<lparr>srvSecret = None,
      replicas = [(AtCreate (example_data 0), example_disk 0), (AtCreate (example_data 1), example_disk 1)]\<rparr>"
    by (rule run_call [OF 1, of 1]) (simp_all add: example_prepare)
  have 3: "?run [Calling 0, Calling 1, Calling 1] \<lparr>srvSecret = Some ?s,
      replicas = [(AtCreate (example_data 0), example_disk 0), (Returned None, example_disk 1)]\<rparr>"
    by (rule run_call [OF 2, of 1]) simp_all
  have 4: "?run [Calling 0, Calling 1, Calling 1, Calling 0] \<lparr>srvSecret = Some ?s,
      replicas = [(AtGet, example_disk 0), (Returned None, example_disk 1)]\<rparr>"
    by (rule run_call [OF 3, of 0]) simp_all
  have 5: "?run [Calling 0, Calling 1, Calling 1, Calling 0, Calling 0] \<lparr>srvSecret = Some ?s,
      replicas = [(Returned None, fs), (Returned None, example_disk 1)]\<rparr>"
    by (rule run_call [OF 4, of 0]) (simp_all add: g v)
  have "\<forall>r \<in> set (replicas (example_replicas None)). fst r = AtGet"
    "\<forall>s. srvSecret (example_replicas None) = Some s \<longrightarrow> isSecretValid s" by (simp_all add: example_replicas_def)
  from replicas_agree [OF 5 this] 5 show ?thesis
    by (intro exI [of _ "\<lparr>srvSecret = Some ?s, replicas = [(Returned None, fs), (Returned None, example_disk 1)]\<rparr>"]
        exI [of _ ?s]) simp
qed

text \<open>
  C36: on a broken secret (without data, of another type, without one of its files) two replicas can both
  succeed with different certificates: the one that was slower deletes the valid secret that the other has just
  created, because the deletion only names the secret, and creates its own.
\<close>

theorem broken_secret_splits_replicas:
  assumes "srvSecret st = Some s" and "\<not> isSecretValid s" and "replicas st = [(AtGet, f0), (AtGet, f1)]"
    and "createCert 0 f0 = (None, g0)" and "read_files folder g0 cert_files = Inr d0"
    and "createCert (Suc 0) f1 = (None, g1)" and "read_files folder g1 cert_files = Inr d1"
    and "f \<in> set cert_files" and "map_of d0 f \<noteq> map_of d1 f"
  shows "\<exists>st' t. replicas_run namespace name folder createCert st
       [Calling 0, Calling 1, Calling 0, Calling 0, Calling 1, Calling 1] st' \<and>
     replicas st' = [(Returned None, g0), (Returned None, g1)] \<and> srvSecret st' = Some t \<and> isSecretValid t \<and>
     disk_agrees folder g1 t \<and> \<not> disk_agrees folder g0 t"
proof -
  let ?run = "replicas_run namespace name folder createCert st"
  let ?t0 = "new_secret namespace name d0" and ?t1 = "new_secret namespace name d1"
  have st: "st = \<lparr>srvSecret = Some s, replicas = [(AtGet, f0), (AtGet, f1)]\<rparr>" using assms(1,3) by simp
  have t1: "isSecretValid ?t1" "disk_agrees folder g1 ?t1"
    using created_agrees [OF assms(7)] by (simp_all add: new_secret_def)
  have p: "prepare folder (createCert 0) f0 = (AtCreate d0, g0)" "prepare folder (createCert (Suc 0)) f1 = (AtCreate d1, g1)"
    using prepare_ok [of "createCert 0", OF assms(4,5)] prepare_ok [of "createCert (Suc 0)", OF assms(6,7)] by simp_all
  have 0: "?run [] \<lparr>srvSecret = Some s, replicas = [(AtGet, f0), (AtGet, f1)]\<rparr>"
    unfolding st by (rule run_nil)
  have 1: "?run [Calling 0] \<lparr>srvSecret = Some s, replicas = [(AtDelete, f0), (AtGet, f1)]\<rparr>"
    by (rule run_call [OF 0, of 0]) (simp_all add: assms(2))
  have 2: "?run [Calling 0, Calling 1] \<lparr>srvSecret = Some s, replicas = [(AtDelete, f0), (AtDelete, f1)]\<rparr>"
    by (rule run_call [OF 1, of 1]) (simp_all add: assms(2))
  have 3: "?run [Calling 0, Calling 1, Calling 0] \<lparr>srvSecret = None, replicas = [(AtCreate d0, g0), (AtDelete, f1)]\<rparr>"
    by (rule run_call [OF 2, of 0]) (simp_all add: p)
  have 4: "?run [Calling 0, Calling 1, Calling 0, Calling 0]
      \<lparr>srvSecret = Some ?t0, replicas = [(Returned None, g0), (AtDelete, f1)]\<rparr>"
    by (rule run_call [OF 3, of 0]) simp_all
  have 5: "?run [Calling 0, Calling 1, Calling 0, Calling 0, Calling 1]
      \<lparr>srvSecret = None, replicas = [(Returned None, g0), (AtCreate d1, g1)]\<rparr>"
    by (rule run_call [OF 4, of 1]) (simp_all add: p)
  have 6: "?run [Calling 0, Calling 1, Calling 0, Calling 0, Calling 1, Calling 1]
      \<lparr>srvSecret = Some ?t1, replicas = [(Returned None, g0), (Returned None, g1)]\<rparr>"
    by (rule run_call [OF 5, of 1]) simp_all
  have "\<not> disk_agrees folder g0 ?t1"
    using read_files_ok [OF assms(5,8)] assms(8,9) by (auto simp: disk_agrees_def new_secret_def secret_file_def)
  with 6 t1 show ?thesis
    by (intro exI [of _ "\<lparr>srvSecret = Some ?t1, replicas = [(Returned None, g0), (Returned None, g1)]\<rparr>"]
        exI [of _ ?t1]) simp
qed

theorem broken_secret_splits_replicas_witness:
  "\<exists>st' t. replicas_run ''jspolicy'' WebhookCertSecretName WebhookCertFolder example_generator
       (example_replicas (Some \<lparr>seName = WebhookCertSecretName, seNamespace = ''jspolicy'', seData = None, seType = SecretTypeTLS\<rparr>))
       [Calling 0, Calling 1, Calling 0, Calling 0, Calling 1, Calling 1] st' \<and>
     map fst (replicas st') = [Returned None, Returned None] \<and>
     disk_agrees WebhookCertFolder (snd (replicas st' ! 1)) t \<and> \<not> disk_agrees WebhookCertFolder (snd (replicas st' ! 0)) t"
proof -
  let ?s = "\<lparr>seName = WebhookCertSecretName, seNamespace = ''jspolicy'', seData = None, seType = SecretTypeTLS\<rparr>"
  have "map_of (example_data 0) ''ca.crt'' \<noteq> map_of (example_data (Suc 0)) ''ca.crt''" "''ca.crt'' \<in> set cert_files"
    by (simp_all add: example_data_def cert_files_def)
  from broken_secret_splits_replicas [of "example_replicas (Some ?s)" ?s empty_disk empty_disk example_generator
      "example_disk 0" WebhookCertFolder "example_data 0" "example_disk (Suc 0)" "example_data (Suc 0)" "''ca.crt''"
      "''jspolicy''" WebhookCertSecretName, OF _ _ _ _ example_disk_read _ example_disk_read this(2,1)]
  show ?thesis by (fastforce simp: example_replicas_def isSecretValid_def example_generator_def)
qed

end
