(* ===== verification/Strconv.thy ===== *)
theory Strconv
  imports Prelude
begin

text \<open>
  What the program parses with package \<open>strconv\<close>: numbers in decimal and truth values, with the errors that the
  package gives.
\<close>

text \<open>\<open>ParseUint\<close> in base 10: the first bad digit or the first overflow of 64 bits decides.\<close>

fun parse_uint :: "nat \<Rightarrow> string \<Rightarrow> string + nat" where
  "parse_uint n [] = Inr n"
| "parse_uint n (c # cs) =
     (if \<not> (48 \<le> (of_char c :: nat) \<and> (of_char c :: nat) \<le> 57) then Inl ''invalid syntax''
      else if 10 * n + (of_char c - 48) \<ge> 2 ^ 64 then Inl ''value out of range''
      else parse_uint (10 * n + (of_char c - 48)) cs)"

definition num_error :: "string \<Rightarrow> string \<Rightarrow> string \<Rightarrow> go_error" where
  "num_error fn s reason = Errorf (''strconv.'' @ fn @ '': parsing '' @ quoted s @ '': '' @ reason)"

definition Atoi :: "string \<Rightarrow> go_error + int" where
  "Atoi s =
     (let neg = (s \<noteq> [] \<and> hd s = CHR ''-'');
          digits = (if s \<noteq> [] \<and> (hd s = CHR ''-'' \<or> hd s = CHR ''+'') then tl s else s)
      in if digits = [] then Inl (num_error ''Atoi'' s ''invalid syntax'')
         else case parse_uint 0 digits of
                Inl reason \<Rightarrow> Inl (num_error ''Atoi'' s reason)
              | Inr un \<Rightarrow>
                  if \<not> neg \<and> un \<ge> 2 ^ 63 then Inl (num_error ''Atoi'' s ''value out of range'')
                  else if neg \<and> un > 2 ^ 63 then Inl (num_error ''Atoi'' s ''value out of range'')
                  else Inr (if neg then - int un else int un))"

definition ParseBool :: "string \<Rightarrow> go_error + bool" where
  "ParseBool str =
     (if str \<in> {''1'', ''t'', ''T'', ''true'', ''TRUE'', ''True''} then Inr True
      else if str \<in> {''0'', ''f'', ''F'', ''false'', ''FALSE'', ''False''} then Inr False
      else Inl (num_error ''ParseBool'' str ''invalid syntax''))"

end
