(* ===== verification/Entry.thy ===== *)
theory Entry
  imports Logging Election Webhook Bundler Replicas Strconv
begin

text \<open>
  The process: \<open>cmd/jspolicy/main.go\<close> with the two \<open>register.go\<close> it calls. \<open>init\<close> reads the
  settings, the first half of \<open>main\<close> builds the parts of the program in order and ends the process when one
  of them fails, and its second half starts goroutines, which a step relation interleaves. The API
  clients, caches and managers that \<open>main\<close> creates are parameters by the error they return.
\<close>

section \<open>The settings\<close>

record settings =
  VMPoolSize :: int
  EnablePolicyReports :: bool
  PolicyReportMaxEvents :: int

definition default_settings :: settings where
  "default_settings = \<lparr>VMPoolSize = 4, EnablePolicyReports = False, PolicyReportMaxEvents = 50\<rparr>"

text \<open>A variable that is set replaces the default; \<open>Inl\<close> is the text of \<open>klog.Fatalf\<close>.\<close>

definition read_setting :: "string \<Rightarrow> (string \<Rightarrow> go_error + 'a) \<Rightarrow> string \<Rightarrow> 'a \<Rightarrow> string + 'a" where
  "read_setting message parse value unset =
     (if value = [] then Inr unset
      else case parse value of
             Inl err \<Rightarrow> Inl (message @ err_text err)
           | Inr v \<Rightarrow> Inr v)"

definition main_init :: "(string \<Rightarrow> string) \<Rightarrow> string + settings" where
  "main_init getenv =
     (case read_setting ''Error converting VM_POOL_SIZE to number: '' Atoi (getenv ''VM_POOL_SIZE'')
             (VMPoolSize default_settings) of
        Inl fatal \<Rightarrow> Inl fatal
      | Inr poolSize \<Rightarrow>
     (case read_setting ''Error converting ENABLE_POLICY_REPORTS to bool: '' ParseBool (getenv ''ENABLE_POLICY_REPORTS'')
             (EnablePolicyReports default_settings) of
        Inl fatal \<Rightarrow> Inl fatal
      | Inr reports \<Rightarrow>
     (case read_setting ''Error converting POLICY_REPORT_MAX_EVENTS to number: '' Atoi (getenv ''POLICY_REPORT_MAX_EVENTS'')
             (PolicyReportMaxEvents default_settings) of
        Inl fatal \<Rightarrow> Inl fatal
      | Inr maxEvents \<Rightarrow>
          Inr \<lparr>VMPoolSize = poolSize, EnablePolicyReports = reports, PolicyReportMaxEvents = maxEvents\<rparr>)))"

text \<open>
  \<open>init\<close> of \<open>controllers/jspolicy.go\<close> sets \<open>DefaultBundleTimeout\<close>, a number of nanoseconds in 64 bits; the
  product of the seconds and \<open>time.Second\<close> wraps.
\<close>

definition controllers_init :: "(string \<Rightarrow> string) \<Rightarrow> string + 64 word" where
  "controllers_init getenv =
     (let bundleTimeout = getenv ''BUNDLE_TIMEOUT'' in
      if bundleTimeout \<noteq> []
      then case Atoi bundleTimeout of
             Inl err \<Rightarrow> Inl (''Error parsing env variable BUNDLE_TIMEOUT: '' @ err_text err)
           | Inr i \<Rightarrow> Inr (word_of_int i * word_of_int 1000000000)
      else Inr (1000000000 * 30))"

lemma controllers_init_exact:
  assumes "Atoi (getenv ''BUNDLE_TIMEOUT'') = Inr i" and "controllers_init getenv = Inr timeout" and "getenv ''BUNDLE_TIMEOUT'' \<noteq> []"
  shows "sint timeout = i * 1000000000 \<longleftrightarrow> \<bar>i\<bar> \<le> 9223372036"
proof -
  have "timeout = word_of_int (i * 1000000000)"
    using assms by (simp add: controllers_init_def Let_def)
  then show ?thesis
    by (simp only: sint_sbintrunc' signed_take_bit_int_eq_self_iff len_bit0 len_num1) (auto simp: abs_le_iff)
qed

text \<open>With some 292 years as the timeout, every command has timed out before it starts.\<close>

lemma controllers_init_wraps:
  "controllers_init (\<lambda>v. ''9223372037'') = Inr timeout \<Longrightarrow> sint timeout < 0"
  by (auto simp: controllers_init_def Atoi_def Let_def)

section \<open>Registering the endpoints (webhook/register.go)\<close>

datatype endpoint = PolicyEndpoint bool int | ValidationEndpoint

definition webhook_Register :: "bool \<Rightarrow> int \<Rightarrow> (string \<times> endpoint) list" where
  "webhook_Register enableReports maxEvents =
     [(''/policy/'', PolicyEndpoint enableReports maxEvents), (''/crds'', ValidationEndpoint)]"

text \<open>
  \<open>http.ServeMux\<close> on a clean path: the pattern itself, or the longest pattern that ends with a slash
  and starts the path.
\<close>

definition has_prefix :: "string \<Rightarrow> string \<Rightarrow> bool" where
  "has_prefix s pre \<longleftrightarrow> take (length pre) s = pre"

definition longest_prefix :: "(string \<times> endpoint) list \<Rightarrow> string \<Rightarrow> endpoint option" where
  "longest_prefix patterns path =
     (case sort_slice (\<lambda>a b. length (fst b) < length (fst a))
             (filter (\<lambda>(pat, h). has_suffix pat ''/'' \<and> has_prefix path pat) patterns) of
        [] \<Rightarrow> None
      | m # _ \<Rightarrow> Some (snd m))"

definition mux_route :: "(string \<times> endpoint) list \<Rightarrow> string \<Rightarrow> endpoint option" where
  "mux_route patterns path =
     (case map_of patterns path of
        Some h \<Rightarrow> Some h
      | None \<Rightarrow> longest_prefix patterns path)"

section \<open>The first half of main\<close>

record ('c, 'w) main_env =
  mnCert :: cert_env \<comment> \<open>with the environment variables\<close>
  mnSecrets :: "'w secret_env" \<comment> \<open>\<open>uncachedClient\<close>\<close>
  mnValidating :: "('w, WebhookConfiguration) store_client" \<comment> \<open>\<open>mgr.GetClient()\<close>\<close>
  mnElection :: election_env
  mnGetConfig :: "go_error option"
  mnNewClient :: "go_error option"
  mnNewManager :: "go_error option"
  mnIndexField :: "string \<Rightarrow> go_error option" \<comment> \<open>by the kind that is indexed\<close>
  mnNewCache :: "go_error option"
  mnNewVM :: "nat \<Rightarrow> go_error + 'c vm"
  mnSetupController :: "string \<Rightarrow> go_error option" \<comment> \<open>\<open>SetupWithManager\<close>, by \<open>CaBundle\<close>\<close>

definition AddManagerIndices :: "(string \<Rightarrow> go_error option) \<Rightarrow> go_error option" where
  "AddManagerIndices indexField =
     (case indexField ''ValidatingWebhookConfiguration'' of
        Some err \<Rightarrow> Some err
      | None \<Rightarrow> indexField ''MutatingWebhookConfiguration'')"

text \<open>What the first half leaves for the goroutines.\<close>

record 'c replica =
  rpSettings :: settings
  rpLogger :: logger
  rpDisk :: filesystem
  rpPool :: "'c vmpool"
  rpEndpoints :: "(string \<times> endpoint) list"

text \<open>After the certificate is there. An error is the one logged before \<open>os.Exit(1)\<close>.\<close>

definition main_parts :: "('c, 'w) main_env \<Rightarrow> settings \<Rightarrow> logger \<Rightarrow> filesystem \<Rightarrow> go_error + 'c replica" where
  "main_parts env settings log fs =
     (case mnNewManager env of
        Some err \<Rightarrow> Inl err
      | None \<Rightarrow>
     (case AddManagerIndices (mnIndexField env) of
        Some err \<Rightarrow> Inl err
      | None \<Rightarrow>
     (case mnNewCache env of
        Some err \<Rightarrow> Inl err
      | None \<Rightarrow>
     (case NewVMPool (nat (VMPoolSize settings)) (mnNewVM env) of
        Inl err \<Rightarrow> Inl err
      | Inr vmPool \<Rightarrow>
          Inr \<lparr>rpSettings = settings, rpLogger = log, rpDisk = fs, rpPool = vmPool,
               rpEndpoints = webhook_Register (EnablePolicyReports settings) (PolicyReportMaxEvents settings)\<rparr>))))"

text \<open>
  The exit code, 255 of \<open>klog.Fatal\<close> and 1 of \<open>os.Exit(1)\<close>, or the replica, with the disk and the server
  after it. The whole is \<open>None\<close> if \<open>ensureSecret\<close> does not return.
\<close>

definition main_setup ::
    "('c, 'w) main_env \<Rightarrow> filesystem \<Rightarrow> 'w \<Rightarrow> ((int + 'c replica) \<times> filesystem \<times> 'w) option" where
  "main_setup env fs w =
     (let getenv = ceGetenv (mnCert env) in
      case main_init getenv of
        Inl fatal \<Rightarrow> Some (Inl 255, fs, w)
      | Inr settings \<Rightarrow>
          let log = NewLog (if getenv ''DEBUG'' = ''true'' then 0 else 2) in
          if mnGetConfig env \<noteq> None \<or> mnNewClient env \<noteq> None then Some (Inl 1, fs, w)
          else (case EnsureCertSecrets (mnSecrets env) (mnCert env) fs w of
                  None \<Rightarrow> None
                | Some (Some err, fs1, w1) \<Rightarrow> Some (Inl 1, fs1, w1)
                | Some (None, fs1, w1) \<Rightarrow>
                    (case main_parts env settings log fs1 of
                       Inl err \<Rightarrow> Some (Inl 1, fs1, w1)
                     | Inr rep \<Rightarrow> Some (Inr rep, fs1, w1))))"

section \<open>The controllers (controllers/register.go)\<close>

text \<open>The certificate authority that the reconciler is set up with, which goes into every policy's webhook.\<close>

definition controllers_Register :: "('c, 'w) main_env \<Rightarrow> filesystem \<Rightarrow> go_error + string" where
  "controllers_Register env fs =
     (case ReadFile fs (path_Join WebhookCertFolder ''ca.crt'') of
        Inl err \<Rightarrow> Inl err
      | Inr caBundleData \<Rightarrow>
          (case mnSetupController env caBundleData of
             Some err \<Rightarrow> Inl (Errorf (''unable to create jspolicy controller: '' @ err_text err))
           | None \<Rightarrow> Inr caBundleData))"

section \<open>The second half of main\<close>

text \<open>
  How far the main goroutine and the elector's are. \<open>MainStart\<close> is before \<open>mgr.Start\<close>, \<open>MainSync\<close> waits
  for the cache, \<open>MainServe\<close> for ever. The elector first campaigns; then \<open>OnStartedLeading\<close> configures the
  validation of policies and registers the controllers.
\<close>

datatype main_stage = MainStart | MainSync | MainServe

datatype election_stage = NotStarted | Campaigns election_config | ConfiguresWebhook | RegistersControllers | Runs

record ('c, 'w) main_process =
  prReplica :: "'c replica"
  prMain :: main_stage
  prPolicyManager :: bool
  prHealth :: bool
  prElection :: election_stage
  prValidating :: bool \<comment> \<open>the validating configuration was written\<close>
  prControllers :: "string option" \<comment> \<open>the reconciler's certificate authority\<close>
  prWorld :: 'w
  prExit :: "int option"

definition new_process :: "'c replica \<Rightarrow> 'w \<Rightarrow> ('c, 'w) main_process" where
  "new_process rep w =
     \<lparr>prReplica = rep, prMain = MainStart, prPolicyManager = False, prHealth = False, prElection = NotStarted,
      prValidating = False, prControllers = None, prWorld = w, prExit = None\<rparr>"

text \<open>The goroutine of \<open>StartLeaderElection\<close> up to the campaign; a bad configuration panics.\<close>

definition start_election :: "('c, 'w) main_env \<Rightarrow> ('c, 'w) main_process \<Rightarrow> ('c, 'w) main_process" where
  "start_election env p =
     (case StartLeaderElection (mnElection env) of
        Inl err \<Rightarrow> p\<lparr>prExit := Some 255\<rparr>
      | Inr lec \<Rightarrow> if NewLeaderElector lec \<noteq> None then p\<lparr>prExit := Some 2\<rparr> else p\<lparr>prElection := Campaigns lec\<rparr>)"

text \<open>The two steps of the callback \<open>run\<close>.\<close>

definition configure_webhook :: "('c, 'w) main_env \<Rightarrow> ('c, 'w) main_process \<Rightarrow> ('c, 'w) main_process" where
  "configure_webhook env p =
     (if ceGetenv (mnCert env) ''UPDATE_WEBHOOK'' \<noteq> ''false'' then
        (case EnsureValidatingWebhookConfiguration (mnValidating env) (mnCert env) (rpDisk (prReplica p)) (prWorld p) of
           (Some err, w1) \<Rightarrow> p\<lparr>prWorld := w1, prExit := Some 1\<rparr>
         | (None, w1) \<Rightarrow> p\<lparr>prElection := RegistersControllers, prValidating := True, prWorld := w1\<rparr>)
      else p\<lparr>prElection := RegistersControllers\<rparr>)"

definition register_controllers :: "('c, 'w) main_env \<Rightarrow> ('c, 'w) main_process \<Rightarrow> ('c, 'w) main_process" where
  "register_controllers env p =
     (case controllers_Register env (rpDisk (prReplica p)) of
        Inl err \<Rightarrow> p\<lparr>prExit := Some 255\<rparr>
      | Inr ca \<Rightarrow> p\<lparr>prElection := Runs, prControllers := Some ca\<rparr>)"

inductive process_step :: "('c, 'w) main_env \<Rightarrow> ('c, 'w) main_process \<Rightarrow> ('c, 'w) main_process \<Rightarrow> bool" for env where
  manager_starts: "prExit p = None \<Longrightarrow> prMain p = MainStart \<Longrightarrow> process_step env p (p\<lparr>prMain := MainSync\<rparr>)"
| cache_synced:
    "prExit p = None \<Longrightarrow> prMain p = MainSync \<Longrightarrow>
     process_step env p (start_election env (p\<lparr>prMain := MainServe, prPolicyManager := True, prHealth := True\<rparr>))"
| manager_fails: "prExit p = None \<Longrightarrow> prMain p \<noteq> MainStart \<Longrightarrow> process_step env p (p\<lparr>prExit := Some 2\<rparr>)"
| policy_manager_fails: "prExit p = None \<Longrightarrow> prPolicyManager p \<Longrightarrow> process_step env p (p\<lparr>prExit := Some 255\<rparr>)"
| leads: "prExit p = None \<Longrightarrow> prElection p = Campaigns lec \<Longrightarrow> process_step env p (p\<lparr>prElection := ConfiguresWebhook\<rparr>)"
| configures: "prExit p = None \<Longrightarrow> prElection p = ConfiguresWebhook \<Longrightarrow> process_step env p (configure_webhook env p)"
| registers: "prExit p = None \<Longrightarrow> prElection p = RegistersControllers \<Longrightarrow> process_step env p (register_controllers env p)"
| elector_ends: \<comment> \<open>lost, or the process is asked to end\<close>
    "prExit p = None \<Longrightarrow> prElection p \<noteq> NotStarted \<Longrightarrow> process_step env p (p\<lparr>prExit := Some 1\<rparr>)"
| server_changes: "prExit p = None \<Longrightarrow> process_step env p (p\<lparr>prWorld := w\<rparr>)" \<comment> \<open>by others\<close>

inductive process_reachable :: "('c, 'w) main_env \<Rightarrow> ('c, 'w) main_process \<Rightarrow> ('c, 'w) main_process \<Rightarrow> bool" for env p0 where
  begins: "process_reachable env p0 p0"
| goes_on: "process_reachable env p0 p \<Longrightarrow> process_step env p p' \<Longrightarrow> process_reachable env p0 p'"

section \<open>Numbers\<close>

lemma digit_char: "d < 10 \<Longrightarrow> (of_char (char_of (48 + d) :: char) :: nat) = 48 + d"
  by (simp add: of_char_of)

lemma parse_uint_append:
  "parse_uint n xs = Inr m \<Longrightarrow> parse_uint n (xs @ ys) = parse_uint m ys"
  by (induction n xs rule: parse_uint.induct) (auto split: if_splits)

lemma parse_uint_digits: "n < 2 ^ 64 \<Longrightarrow> parse_uint 0 (digits_of n) = Inr n"
proof (induction n rule: digits_of.induct)
  case (1 n)
  show ?case
  proof (cases "n < 10")
    case True
    then show ?thesis by (subst digits_of.simps) (simp add: digit_char)
  next
    case False
    have d: "n div 10 * 10 + n mod 10 = n" by simp
    have ih: "parse_uint 0 (digits_of (n div 10)) = Inr (n div 10)" using 1 False by simp
    have "parse_uint 0 (digits_of n) = parse_uint (n div 10) [char_of (48 + n mod 10)]"
      by (subst digits_of.simps) (use False parse_uint_append [OF ih] in simp)
    also have "\<dots> = Inr n" using digit_char [of "n mod 10"] 1(2) d by (simp add: mult.commute)
    finally show ?thesis .
  qed
qed

lemma digits_of_nonempty [simp]: "digits_of n \<noteq> []"
  by (subst digits_of.simps) simp


lemma digits_of_digits: "c \<in> set (digits_of n) \<Longrightarrow> 48 \<le> (of_char c :: nat) \<and> (of_char c :: nat) \<le> 57"
proof (induction n rule: digits_of.induct)
  case (1 n)
  show ?case
  proof (cases "n < 10")
    case True
    then show ?thesis using 1(2) by (subst (asm) digits_of.simps) (auto simp: digit_char)
  next
    case False
    then have "c \<in> set (digits_of (n div 10)) \<or> c = char_of (48 + n mod 10)"
      using 1(2) by (subst (asm) digits_of.simps) auto
    then show ?thesis using 1(1) [OF False] digit_char [of "n mod 10"] by auto
  qed
qed

lemma Atoi_itoa: "- (2 ^ 63) \<le> i \<Longrightarrow> i < 2 ^ 63 \<Longrightarrow> Atoi (itoa i) = Inr i"
proof (cases "i < 0")
  case True
  assume "- (2 ^ 63) \<le> i"
  then have b: "nat (- i) \<le> 2 ^ 63" by simp
  then have "parse_uint 0 (digits_of (nat (- i))) = Inr (nat (- i))" by (intro parse_uint_digits) simp
  then show ?thesis using True b by (simp add: Atoi_def itoa_def)
next
  case False
  assume "i < 2 ^ 63"
  then have b: "nat i < 2 ^ 63" using False by (simp add: nat_less_iff)
  then have p: "parse_uint 0 (digits_of (nat i)) = Inr (nat i)" by (intro parse_uint_digits) simp
  have "hd (digits_of (nat i)) \<in> set (digits_of (nat i))" by simp
  from digits_of_digits [OF this] have "hd (digits_of (nat i)) \<noteq> CHR ''-''" "hd (digits_of (nat i)) \<noteq> CHR ''+''" by auto
  then show ?thesis using False b p by (simp add: Atoi_def itoa_def)
qed

section \<open>What the first half leaves\<close>

lemma main_setup_ok:
  assumes "main_setup env fs w = Some (Inr rep, fs', w')"
  obtains s where "main_init (ceGetenv (mnCert env)) = Inr s"
    and "EnsureCertSecrets (mnSecrets env) (mnCert env) fs w = Some (None, fs', w')"
    and "main_parts env s (NewLog (if ceGetenv (mnCert env) ''DEBUG'' = ''true'' then 0 else 2)) fs' = Inr rep"
  using assms by (auto simp: main_setup_def Let_def split: sum.splits if_splits option.splits prod.splits)

lemma main_parts_ok:
  assumes "main_parts env s log fs = Inr rep"
  obtains vmPool where "NewVMPool (nat (VMPoolSize s)) (mnNewVM env) = Inr vmPool"
    and "rep = \<lparr>rpSettings = s, rpLogger = log, rpDisk = fs, rpPool = vmPool,
               rpEndpoints = webhook_Register (EnablePolicyReports s) (PolicyReportMaxEvents s)\<rparr>"
  using assms by (auto simp: main_parts_def split: option.splits sum.splits)

lemma main_setup_replica:
  assumes "main_setup env fs w = Some (Inr rep, fs', w')"
  shows "rpDisk rep = fs'"
    and "rpEndpoints rep = webhook_Register (EnablePolicyReports (rpSettings rep)) (PolicyReportMaxEvents (rpSettings rep))"
    and "NewVMPool (nat (VMPoolSize (rpSettings rep))) (mnNewVM env) = Inr (rpPool rep)"
    and "EnsureCertSecrets (mnSecrets env) (mnCert env) fs w = Some (None, fs', w')"
proof -
  obtain s where s: "EnsureCertSecrets (mnSecrets env) (mnCert env) fs w = Some (None, fs', w')"
    "main_parts env s (NewLog (if ceGetenv (mnCert env) ''DEBUG'' = ''true'' then 0 else 2)) fs' = Inr rep"
    by (rule main_setup_ok [OF assms])
  show "rpDisk rep = fs'"
    "rpEndpoints rep = webhook_Register (EnablePolicyReports (rpSettings rep)) (PolicyReportMaxEvents (rpSettings rep))"
    "NewVMPool (nat (VMPoolSize (rpSettings rep))) (mnNewVM env) = Inr (rpPool rep)"
    "EnsureCertSecrets (mnSecrets env) (mnCert env) fs w = Some (None, fs', w')"
    using s(1) by (auto intro: main_parts_ok [OF s(2)])
qed

lemma EnsureCertSecrets_agrees:
  assumes "EnsureCertSecrets senv cenv fs w = Some (None, fs', w')"
  obtains s namespace where "from_server senv namespace WebhookCertSecretName s w'" and "isSecretValid s"
    and "disk_agrees WebhookCertFolder fs' s"
proof -
  obtain namespace w2 where "ensureSecret senv namespace WebhookCertSecretName WebhookCertFolder
      (GenerateWebhookCertificate cenv) fs w2 = Some (None, fs', w')"
    using assms by (auto simp: EnsureCertSecrets_def split: sum.splits prod.splits option.splits if_splits)
  from ensureSecret_agrees [OF this] show ?thesis using that by (elim exE conjE)
qed

text \<open>The configuration that \<open>EnsureValidatingWebhookConfiguration\<close> has sent when it reports success.\<close>

definition config_sent ::
    "('w, WebhookConfiguration) store_client \<Rightarrow> WebhookConfiguration \<Rightarrow> bool" where
  "config_sent c config \<longleftrightarrow> (\<exists>w w'. cCreate c config w = (None, w') \<or> cUpdate c config w = (None, w'))"

lemma prepare_webhooks:
  assumes "prepareValidatingWebhookConfiguration cenv fs config = Inr config'"
    and "ReadFile fs (path_Join WebhookCertFolder ''ca.crt'') = Inr ca"
  shows "\<exists>ns. CurrentNamespace (ceGetenv cenv) (ReadFile fs) = Inr ns \<and> wcWebhooks config' = [crd_webhook cenv ns ca]"
  using assms by (auto simp: prepareValidatingWebhookConfiguration_def split: sum.splits)

lemma EnsureValidating_sent:
  assumes "EnsureValidatingWebhookConfiguration c cenv fs w = (None, w')"
    and "ReadFile fs (path_Join WebhookCertFolder ''ca.crt'') = Inr ca"
  shows "\<exists>config ns. config_sent c config \<and> CurrentNamespace (ceGetenv cenv) (ReadFile fs) = Inr ns \<and>
    wcWebhooks config = [crd_webhook cenv ns ca]"
proof -
  obtain config0 config' where p: "prepareValidatingWebhookConfiguration cenv fs config0 = Inr config'"
    and sent: "config_sent c config'"
    using assms(1)
    by (auto simp: EnsureValidatingWebhookConfiguration_def config_sent_def split: prod.splits sum.splits if_splits)
  show ?thesis using prepare_webhooks [OF p assms(2)] sent by blast
qed

section \<open>What holds while the process runs\<close>

definition process_inv :: "('c, 'w) main_env \<Rightarrow> 'c replica \<Rightarrow> ('c, 'w) main_process \<Rightarrow> bool" where
  "process_inv env rep p \<longleftrightarrow>
     prReplica p = rep \<and>
     (prElection p \<noteq> NotStarted \<longrightarrow> prMain p = MainServe \<and> prPolicyManager p \<and> (\<exists>lec. StartLeaderElection (mnElection env) = Inr lec)) \<and>
     (prValidating p \<longrightarrow> (\<exists>v v'. EnsureValidatingWebhookConfiguration (mnValidating env) (mnCert env) (rpDisk rep) v = (None, v'))) \<and>
     (prElection p \<in> {RegistersControllers, Runs} \<longrightarrow> prValidating p \<or> ceGetenv (mnCert env) ''UPDATE_WEBHOOK'' = ''false'') \<and>
     (\<forall>ca. prControllers p = Some ca \<longrightarrow> prElection p = Runs \<and> controllers_Register env (rpDisk rep) = Inr ca)"

lemma new_process_inv: "process_inv env rep (new_process rep w)"
  by (simp add: process_inv_def new_process_def)

lemma start_election_inv:
  assumes "process_inv env rep p" and "prElection p = NotStarted" and "prMain p = MainServe" and "prPolicyManager p"
  shows "process_inv env rep (start_election env p)"
  using assms by (auto simp: process_inv_def start_election_def split: sum.splits)

lemma configure_webhook_inv:
  assumes "process_inv env rep p" and "prElection p = ConfiguresWebhook"
  shows "process_inv env rep (configure_webhook env p)"
  using assms by (auto simp: process_inv_def configure_webhook_def split: prod.splits option.splits)

lemma register_controllers_inv:
  assumes "process_inv env rep p" and "prElection p = RegistersControllers"
  shows "process_inv env rep (register_controllers env p)"
  using assms by (auto simp: process_inv_def register_controllers_def split: sum.splits)

lemma process_step_inv: "process_step env p p' \<Longrightarrow> process_inv env rep p \<Longrightarrow> process_inv env rep p'"
proof (induction rule: process_step.induct)
  case (cache_synced p)
  then have "prElection p = NotStarted" by (auto simp: process_inv_def)
  then show ?case using cache_synced by (intro start_election_inv) (auto simp: process_inv_def)
next
  case (configures p)
  then show ?case by (intro configure_webhook_inv)
next
  case (registers p)
  then show ?case by (intro register_controllers_inv)
qed (auto simp: process_inv_def)

lemma process_reachable_inv:
  "process_reachable env p0 p \<Longrightarrow> process_inv env rep p0 \<Longrightarrow> process_inv env rep p"
  by (induction rule: process_reachable.induct) (auto intro: process_step_inv)

section \<open>Properties\<close>

text \<open>The variables that stand for given settings.\<close>

definition settings_environment :: "settings \<Rightarrow> string \<Rightarrow> string" where
  "settings_environment s name =
     (if name = ''VM_POOL_SIZE'' then itoa (VMPoolSize s)
      else if name = ''ENABLE_POLICY_REPORTS'' then (if EnablePolicyReports s then ''true'' else ''false'')
      else if name = ''POLICY_REPORT_MAX_EVENTS'' then itoa (PolicyReportMaxEvents s)
      else [])"

definition in_int64 :: "int \<Rightarrow> bool" where
  "in_int64 i \<longleftrightarrow> - (2 ^ 63) \<le> i \<and> i < 2 ^ 63"

lemma itoa_nonempty [simp]: "itoa i \<noteq> []"
  by (simp add: itoa_def)

text \<open>
  The settings can be given in the environment, whatever machine integers they are, and are read back
  as they were; nothing else is checked of them.
\<close>

theorem settings_roundtrip:
  assumes "in_int64 (VMPoolSize s)" and "in_int64 (PolicyReportMaxEvents s)"
  shows "main_init (settings_environment s) = Inr s"
  using assms Atoi_itoa [of "VMPoolSize s"] Atoi_itoa [of "PolicyReportMaxEvents s"]
  by (simp add: main_init_def read_setting_def settings_environment_def ParseBool_def in_int64_def)

theorem settings_roundtrip_witness:
  "main_init (settings_environment \<lparr>VMPoolSize = - 1, EnablePolicyReports = True, PolicyReportMaxEvents = 0\<rparr>) =
     Inr \<lparr>VMPoolSize = - 1, EnablePolicyReports = True, PolicyReportMaxEvents = 0\<rparr>"
  by (rule settings_roundtrip) (simp_all add: in_int64_def)

text \<open>
  With a positive \<open>VM_POOL_SIZE\<close> the process starts with that many fresh machines. With zero or a negative
  one it starts as well, but \<open>Get\<close> never hands out a machine, and every policy denies with status 500
  when its request has run out of time.
\<close>

theorem pool_of_setting:
  fixes env :: "('c, 'w) main_env"
  assumes "main_setup env fs w = Some (Inr rep, fs', w')" and "mnNewVM env = NewVM setGlobal v8 blank prelude"
  shows "(0 < VMPoolSize (rpSettings rep) \<longrightarrow> pool_ready v8 blank prelude (rpPool rep) \<and>
       int (length (stack_data (rpPool rep))) = VMPoolSize (rpSettings rep)) \<and>
     (VMPoolSize (rpSettings rep) \<le> 0 \<longrightarrow> VMPool_Get (rpPool rep) = (GotNil, rpPool rep) \<and>
       (\<forall>(henv :: 'c handler_env) req p. \<exists>err. fst (internalHandle henv req p None) = (Errored 500 err, None)))"
proof -
  let ?n = "nat (VMPoolSize (rpSettings rep))"
  have pool: "start_pool setGlobal v8 blank prelude ?n = Inr (rpPool rep)"
    using main_setup_replica(3) [OF assms(1)] assms(2) by (simp add: start_pool_def)
  note shape = start_pool_shape [OF pool]
  have "pool_ready v8 blank prelude (rpPool rep)" if "0 < VMPoolSize (rpSettings rep)"
    using shape that by (simp add: pool_ready_def)
  moreover have "VMPool_Get (rpPool rep) = (GotNil, rpPool rep)" if "VMPoolSize (rpSettings rep) \<le> 0"
    using shape that by (simp add: VMPool_Get_def)
  moreover have "\<exists>err. fst (internalHandle henv req p None) = (Errored 500 err, None)" for henv :: "'c handler_env" and req p
    by (auto simp: internalHandle_def runScript_def Let_def split: sum.splits)
  ultimately show ?thesis using shape by simp
qed


section \<open>Witnesses\<close>

text \<open>A process that finds its certificate on the disk, on the server of an empty cluster.\<close>

definition example_main_env :: "string \<Rightarrow> (nat, string \<times> string \<Rightarrow> Secret option) main_env" where
  "example_main_env poolSize =
     \<lparr>mnCert = (example_cert_env ''k'')\<lparr>ceGetenv := (\<lambda>n. if n = ''KUBE_NAMESPACE'' then ''jspolicy''
                                                    else if n = ''VM_POOL_SIZE'' then poolSize else [])\<rparr>,
      mnSecrets = example_secret_env,
      mnValidating = \<lparr>cGet = (\<lambda>ns n w. (Inl (GoError NotFound n), w)), cCreate = (\<lambda>c w. (None, w)), cUpdate = (\<lambda>c w. (None, w))\<rparr>,
      mnElection = example_election_env, mnGetConfig = None, mnNewClient = None, mnNewManager = None,
      mnIndexField = (\<lambda>kind. None), mnNewCache = None, mnNewVM = NewVM (\<lambda>_. None) counting_engine 0 ''prelude'',
      mnSetupController = (\<lambda>ca. None)\<rparr>"

lemma example_main_certs:
  "\<exists>w'. EnsureCertSecrets (mnSecrets (example_main_env n)) (mnCert (example_main_env n)) (example_disk 0) (\<lambda>_. None) =
     Some (None, example_disk 0, w')"
proof -
  let ?gen = "GenerateWebhookCertificate (mnCert (example_main_env n))"
  have ns: "CurrentNamespace (ceGetenv (mnCert (example_main_env n))) (ReadFile (example_disk 0)) = Inr ''jspolicy''"
    by (simp add: example_main_env_def CurrentNamespace_def)
  have gen: "?gen (example_disk 0) = (None, example_disk 0)"
    by (simp add: GenerateWebhookCertificate_def generateCertificate_def Stat_def ReadFile_def example_disk_def cert_files_def)
  have get: "cGet (seClient example_secret_env) ns n (\<lambda>_. None) = (Inl (GoError NotFound ''not found''), \<lambda>_. None)" for ns n
    by (simp add: example_secret_env_def keyed_client_def keyed_def)
  have create: "cCreate (seClient example_secret_env) s (\<lambda>_. None) = (None, (\<lambda>_. None)(secret_key s \<mapsto> s))" for s
    by (simp add: example_secret_env_def keyed_client_def keyed_def)
  obtain w' where r: "ensure_round example_secret_env ''jspolicy'' WebhookCertSecretName WebhookCertFolder ?gen (example_disk 0)
      (\<lambda>_. None) = Inl (None, example_disk 0, w')"
    by (simp add: ensure_round_def get IsNotFound_def create_secret_def gen example_disk_read create)
  have "ensureSecret example_secret_env ''jspolicy'' WebhookCertSecretName WebhookCertFolder ?gen (example_disk 0)
      (\<lambda>_. None) = Some (None, example_disk 0, w')"
    by (rule ensure_round_last [OF r])
  moreover have "mnSecrets (example_main_env n) = example_secret_env" "seGetNamespace example_secret_env ns w = (None, w)" for ns w
    by (simp_all add: example_main_env_def example_secret_env_def)
  ultimately show ?thesis by (simp add: EnsureCertSecrets_def ns)
qed

lemma example_main_setup:
  assumes "\<And>m. read_setting m Atoi n 4 = Inr k" and "k \<le> 1"
  shows "\<exists>rep w'. main_setup (example_main_env n) (example_disk 0) (\<lambda>_. None) = Some (Inr rep, example_disk 0, w') \<and>
    VMPoolSize (rpSettings rep) = k"
proof -
  let ?env = "example_main_env n"
  obtain w' where certs: "EnsureCertSecrets (mnSecrets ?env) (mnCert ?env) (example_disk 0) (\<lambda>_. None) =
      Some (None, example_disk 0, w')" using example_main_certs by blast
  have init: "main_init (ceGetenv (mnCert ?env)) = Inr \<lparr>VMPoolSize = k, EnablePolicyReports = False, PolicyReportMaxEvents = 50\<rparr>"
    using assms(1) by (simp add: main_init_def example_main_env_def default_settings_def) (simp add: read_setting_def default_settings_def)
  have "nat k = 0 \<or> nat k = 1" using assms(2) by auto
  then obtain vmPool where pool: "NewVMPool (nat k) (mnNewVM ?env) = Inr vmPool"
    by (elim disjE) (simp_all add: NewVMPool_def example_main_env_def NewVM_def globalFunctions_def NewContext_def
        RunScriptWithTimeout_def runScript_error_def counting_engine_def)
  have "mnNewManager ?env = None" "mnIndexField ?env = (\<lambda>kind. None)" "mnNewCache ?env = None"
    by (simp_all add: example_main_env_def)
  then have "main_parts ?env \<lparr>VMPoolSize = k, EnablePolicyReports = False, PolicyReportMaxEvents = 50\<rparr> log fs \<noteq> Inl e" for log fs e
    using pool by (simp add: main_parts_def AddManagerIndices_def)
  then obtain rep where rep: "main_parts ?env \<lparr>VMPoolSize = k, EnablePolicyReports = False, PolicyReportMaxEvents = 50\<rparr>
      (NewLog (if ceGetenv (mnCert ?env) ''DEBUG'' = ''true'' then 0 else 2)) (example_disk 0) = Inr rep"
    by (meson sum.exhaust)
  have "rpSettings rep = \<lparr>VMPoolSize = k, EnablePolicyReports = False, PolicyReportMaxEvents = 50\<rparr>"
    by (rule main_parts_ok [OF rep]) simp
  moreover have "mnGetConfig ?env = None" "mnNewClient ?env = None" by (simp_all add: example_main_env_def)
  ultimately show ?thesis using certs init rep by (simp add: main_setup_def Let_def)
qed

theorem pool_of_setting_witness:
  "\<exists>rep w'. main_setup (example_main_env ''0'') (example_disk 0) (\<lambda>_. None) = Some (Inr rep, example_disk 0, w') \<and>
     VMPool_Get (rpPool rep) = (GotNil, rpPool rep)"
proof -
  have "read_setting m Atoi ''0'' 4 = Inr 0" for m :: string by (simp add: read_setting_def Atoi_def)
  then obtain rep w' where r: "main_setup (example_main_env ''0'') (example_disk 0) (\<lambda>_. None) = Some (Inr rep, example_disk 0, w')"
    "VMPoolSize (rpSettings rep) = 0" using example_main_setup [of "''0''" 0] by auto
  have "mnNewVM (example_main_env ''0'') = NewVM (\<lambda>_. None) counting_engine 0 ''prelude''" by (simp add: example_main_env_def)
  from pool_of_setting [OF r(1) this, THEN conjunct2] r show ?thesis by simp
qed

text \<open>The same process becomes the leader.\<close>

lemma example_leads:
  assumes "rpDisk rep = example_disk 0" and "prReplica p0 = rep" and "prExit p0 = None" and "prMain p0 = MainStart"
  shows "\<exists>p. process_reachable (example_main_env n) p0 p \<and> prControllers p = Some ''k''"
proof -
  let ?env = "example_main_env n"
  obtain lec where lec: "StartLeaderElection (mnElection ?env) = Inr lec" "NewLeaderElector lec = None"
    by (simp add: example_main_env_def StartLeaderElection_def example_election_env_def CurrentNamespace_def NewLeaderElector_def)
  have read: "ReadFile (example_disk 0) (path_Join WebhookCertFolder ''ca.crt'') = Inr ''k''"
    by (simp add: ReadFile_def example_disk_def cert_files_def)
  have ns: "CurrentNamespace (ceGetenv (mnCert ?env)) (ReadFile (example_disk 0)) = Inr ''jspolicy''"
    by (simp add: example_main_env_def CurrentNamespace_def)
  have c: "mnValidating ?env =
      \<lparr>cGet = (\<lambda>ns n w. (Inl (GoError NotFound n), w)), cCreate = (\<lambda>c w. (None, w)), cUpdate = (\<lambda>c w. (None, w))\<rparr>"
    by (simp add: example_main_env_def)
  have ens: "EnsureValidatingWebhookConfiguration (mnValidating ?env) (mnCert ?env) (example_disk 0) v = (None, v)" for v
    by (simp add: EnsureValidatingWebhookConfiguration_def prepareValidatingWebhookConfiguration_def read ns c IsNotFound_def)
  let ?p1 = "p0\<lparr>prMain := MainSync\<rparr>"
  let ?p2 = "start_election ?env (?p1\<lparr>prMain := MainServe, prPolicyManager := True, prHealth := True\<rparr>)"
  let ?p3 = "?p2\<lparr>prElection := ConfiguresWebhook\<rparr>"
  let ?p4 = "configure_webhook ?env ?p3"
  let ?p5 = "register_controllers ?env ?p4"
  have p2: "prElection ?p2 = Campaigns lec" "prExit ?p2 = None" "prReplica ?p2 = rep"
    using assms by (simp_all add: start_election_def lec)
  have up: "ceGetenv (mnCert ?env) ''UPDATE_WEBHOOK'' \<noteq> ''false''" by (simp add: example_main_env_def)
  have p4: "prElection ?p4 = RegistersControllers" "prExit ?p4 = None" "prReplica ?p4 = rep"
    using p2 by (simp_all add: configure_webhook_def up ens assms(1))
  have ctl: "mnSetupController ?env = (\<lambda>ca. None)" by (simp add: example_main_env_def)
  have "controllers_Register ?env (rpDisk (prReplica ?p4)) = Inr ''k''"
    unfolding p4(3) assms(1) by (simp add: controllers_Register_def read ctl)
  then have p5: "prControllers ?p5 = Some ''k''" by (simp add: register_controllers_def)
  have 1: "process_reachable ?env p0 ?p1"
    by (rule goes_on [OF begins manager_starts]) (simp_all add: assms)
  have 2: "process_reachable ?env p0 ?p2"
    by (rule goes_on [OF 1 cache_synced]) (simp_all add: assms)
  have 3: "process_reachable ?env p0 ?p3" by (rule goes_on [OF 2 leads [OF p2(2,1)]])
  have 4: "process_reachable ?env p0 ?p4" by (rule goes_on [OF 3 configures]) (use p2 in simp_all)
  have 5: "process_reachable ?env p0 ?p5" by (rule goes_on [OF 4 registers [OF p4(2,1)]])
  show ?thesis using 5 p5 by blast
qed


end
