(* ===== verification/Util.thy ===== *)
theory Util
  imports Prelude
begin

text \<open>
  The small packages: random names (\<open>pkg/util/random\<close>), hexadecimal hashes (\<open>pkg/util/hash\<close>), compressed
  scripts (\<open>pkg/util/compress\<close>), and the check of object names of the vendored apimachinery. The random
  source, SHA-256 and gzip are parameters.
\<close>

section \<open>Random names (random.go)\<close>

definition letterRunes :: string where
  "letterRunes = ''abcdefghijklmnopqrstuvwxyz''"

definition moreLetterRunes :: string where
  "moreLetterRunes = letterRunes @ ''ABCDEFGHIJKLMNOPQRSTUVWXYZ0123456789''"

text \<open>\<open>intn i k\<close> is the \<open>i\<close>-th call \<open>rand.Intn(k)\<close>.\<close>

definition random_runes :: "string \<Rightarrow> (nat \<Rightarrow> nat \<Rightarrow> nat) \<Rightarrow> nat \<Rightarrow> string" where
  "random_runes runes intn n = map (\<lambda>i. runes ! intn i (length runes)) [0..<n]"

definition RandomString :: "(nat \<Rightarrow> nat \<Rightarrow> nat) \<Rightarrow> nat \<Rightarrow> string" where
  "RandomString intn n = random_runes letterRunes intn n"

definition RandomFullAlphabetString :: "(nat \<Rightarrow> nat \<Rightarrow> nat) \<Rightarrow> nat \<Rightarrow> string" where
  "RandomFullAlphabetString intn n = random_runes moreLetterRunes intn n"

text \<open>What package rand documents of \<open>Intn\<close>.\<close>

definition draws :: "(nat \<Rightarrow> nat \<Rightarrow> nat) \<Rightarrow> bool" where
  "draws intn \<longleftrightarrow> (\<forall>i k. 0 < k \<longrightarrow> intn i k < k)"

lemma random_runes_set: "draws intn \<Longrightarrow> runes \<noteq> [] \<Longrightarrow> set (random_runes runes intn n) \<subseteq> set runes"
  by (auto simp: random_runes_def draws_def)

lemma length_RandomString [simp]: "length (RandomString intn n) = n"
  by (simp add: RandomString_def random_runes_def)

lemma RandomString_letters: "draws intn \<Longrightarrow> set (RandomString intn n) \<subseteq> set letterRunes"
  unfolding RandomString_def by (rule random_runes_set) (simp_all add: letterRunes_def)

section \<open>Hashes (hash.go)\<close>

text \<open>\<open>%x\<close> of a byte: two lower-case digits.\<close>

definition hex_digit :: "nat \<Rightarrow> char" where
  "hex_digit d = (if d < 10 then char_of (48 + d) else char_of (87 + d))"

definition hex_byte :: "8 word \<Rightarrow> string" where
  "hex_byte b = [hex_digit (unat b div 16), hex_digit (unat b mod 16)]"

definition hash_String :: "(string \<Rightarrow> 8 word list) \<Rightarrow> string \<Rightarrow> string" where
  "hash_String sha s = concat (map hex_byte (sha s))"

lemma length_hex_byte [simp]: "length (hex_byte b) = 2"
  by (simp add: hex_byte_def)

lemma hex_digit_inject: "d < 16 \<Longrightarrow> e < 16 \<Longrightarrow> hex_digit d = hex_digit e \<Longrightarrow> d = e"
  by (auto simp: hex_digit_def of_char_of dest!: arg_cong [where f = "of_char :: char \<Rightarrow> nat"] split: if_splits)

lemma hex_byte_inject [simp]: "hex_byte b = hex_byte c \<longleftrightarrow> b = c"
proof
  assume h: "hex_byte b = hex_byte c"
  have lt: "unat x < 256" for x :: "8 word" using unsigned_less [of x] by simp
  have "unat x div 16 < 16" "unat x mod 16 < 16" for x :: "8 word" using lt [of x] by (simp_all add: less_mult_imp_div_less)
  then have "unat b div 16 = unat c div 16" "unat b mod 16 = unat c mod 16"
    using h hex_digit_inject unfolding hex_byte_def by blast+
  then have "unat b = unat c" by (metis div_mult_mod_eq)
  then show "b = c" by (simp only: word_unat_eq_iff)
qed simp

text \<open>Two texts have the same name exactly if SHA-256 does not tell them apart.\<close>

lemma hash_String_inject: "hash_String sha s = hash_String sha t \<longleftrightarrow> sha s = sha t"
proof -
  have "concat (map hex_byte xs) = concat (map hex_byte ys) \<Longrightarrow> xs = ys" for xs ys
  proof (induction xs arbitrary: ys)
    case Nil
    then show ?case by (cases ys) (auto simp: hex_byte_def)
  next
    case (Cons x xs)
    then obtain y ys' where ys: "ys = y # ys'" by (cases ys) (auto simp: hex_byte_def)
    have "hex_byte x = hex_byte y \<and> concat (map hex_byte xs) = concat (map hex_byte ys')"
      using Cons.prems unfolding ys by (simp add: append_eq_append_conv del: hex_byte_inject)
    then show ?case using Cons.IH ys by simp
  qed
  then show ?thesis by (auto simp: hash_String_def)
qed

lemma length_hash_String: "length (hash_String sha s) = 2 * length (sha s)"
proof -
  have "length (concat (map hex_byte xs)) = 2 * length xs" for xs by (induction xs) (simp_all add: hex_byte_def)
  then show ?thesis by (simp add: hash_String_def)
qed

section \<open>Compressed scripts (compress.go)\<close>

text \<open>A gzip writer: the errors of its three calls and the bytes it leaves in the buffer; and a reader.\<close>

record gzip =
  gzWrite :: "string \<Rightarrow> go_error option"
  gzFlush :: "string \<Rightarrow> go_error option"
  gzClose :: "string \<Rightarrow> go_error option"
  gzBytes :: "string \<Rightarrow> string"
  gzNewReader :: "string \<Rightarrow> go_error option"
  gzReadAll :: "string \<Rightarrow> go_error + string"

definition gz_Compress :: "gzip \<Rightarrow> string \<Rightarrow> go_error + string" where
  "gz_Compress gz s =
     (case gzWrite gz s of
        Some err \<Rightarrow> Inl err
      | None \<Rightarrow>
     (case gzFlush gz s of
        Some err \<Rightarrow> Inl err
      | None \<Rightarrow>
     (case gzClose gz s of
        Some err \<Rightarrow> Inl err
      | None \<Rightarrow> Inr (gzBytes gz s))))"

definition gz_Decompress :: "gzip \<Rightarrow> string \<Rightarrow> go_error + string" where
  "gz_Decompress gz s =
     (case gzNewReader gz s of
        Some err \<Rightarrow> Inl err
      | None \<Rightarrow> gzReadAll gz s)"

text \<open>What package gzip documents: a reader on what a closed writer has left reads what was written.\<close>

definition gzip_reads :: "gzip \<Rightarrow> bool" where
  "gzip_reads gz \<longleftrightarrow>
     (\<forall>s. gzClose gz s = None \<longrightarrow> gzNewReader gz (gzBytes gz s) = None \<and> gzReadAll gz (gzBytes gz s) = Inr s)"

lemma compress_roundtrip: "gzip_reads gz \<Longrightarrow> gz_Compress gz s = Inr b \<Longrightarrow> gz_Decompress gz b = Inr s"
  by (auto simp: gzip_reads_def gz_Compress_def gz_Decompress_def split: option.splits)

section \<open>Object names\<close>

definition lower_alnum :: "char \<Rightarrow> bool" where
  "lower_alnum c \<longleftrightarrow> c \<in> set (letterRunes @ ''0123456789'')"

text \<open>\<open>[a-z0-9]([-a-z0-9]*[a-z0-9])?\<close>\<close>

definition dns1123_label :: "string \<Rightarrow> bool" where
  "dns1123_label s \<longleftrightarrow>
     s \<noteq> [] \<and> lower_alnum (hd s) \<and> lower_alnum (last s) \<and> (\<forall>c \<in> set s. lower_alnum c \<or> c = CHR ''-'')"

definition IsDNS1123Subdomain :: "string \<Rightarrow> bool" where
  "IsDNS1123Subdomain s \<longleftrightarrow> length s \<le> 253 \<and> (\<forall>l \<in> set (split_on (CHR ''.'') s). dns1123_label l)"

lemma split_on_append_no_sep:
  "c \<notin> set ys \<Longrightarrow> split_on c (xs @ ys) = butlast (split_on c xs) @ [last (split_on c xs) @ ys]"
proof (induction xs)
  case Nil
  then show ?case by (simp add: split_on_no_sep)
next
  case (Cons x xs)
  then show ?case by (cases "split_on c xs" rule: list.exhaust) auto
qed

lemma letters_alnum: "set ys \<subseteq> set letterRunes \<Longrightarrow> c \<in> set ys \<Longrightarrow> lower_alnum c"
  unfolding lower_alnum_def by (simp only: set_append) blast

lemma dns1123_label_append:
  assumes "dns1123_label l" and "ys \<noteq> []" and "set ys \<subseteq> set letterRunes"
  shows "dns1123_label (l @ ''-'' @ ys)"
  unfolding dns1123_label_def
proof (intro conjI ballI)
  show "l @ ''-'' @ ys \<noteq> []" by simp
  show "lower_alnum (hd (l @ ''-'' @ ys))" using assms(1) by (simp add: dns1123_label_def)
  have "last (l @ ''-'' @ ys) = last ys" using assms(2) by simp
  then show "lower_alnum (last (l @ ''-'' @ ys))" using letters_alnum [OF assms(3) last_in_set [OF assms(2)]] by simp
  fix c assume "c \<in> set (l @ ''-'' @ ys)"
  then consider "c \<in> set l" | "c = CHR ''-''" | "c \<in> set ys" by auto
  then show "lower_alnum c \<or> c = CHR ''-''"
    using assms(1) letters_alnum [OF assms(3), of c] unfolding dns1123_label_def by cases blast+
qed

lemma IsDNS1123Subdomain_suffix:
  assumes "IsDNS1123Subdomain s" and "ys \<noteq> []" and "set ys \<subseteq> set letterRunes"
  shows "IsDNS1123Subdomain (s @ ''-'' @ ys) \<longleftrightarrow> length s + 1 + length ys \<le> 253"
proof -
  have "CHR ''.'' \<notin> set (''-'' @ ys)" using assms(3) by (auto simp: letterRunes_def)
  then have sp: "split_on (CHR ''.'') (s @ ''-'' @ ys) =
      butlast (split_on (CHR ''.'') s) @ [last (split_on (CHR ''.'') s) @ ''-'' @ ys]"
    by (rule split_on_append_no_sep)
  have labels: "dns1123_label l" if "l \<in> set (split_on (CHR ''.'') s)" for l
    using assms(1) that by (simp add: IsDNS1123Subdomain_def)
  have "dns1123_label (last (split_on (CHR ''.'') s) @ ''-'' @ ys)"
    by (rule dns1123_label_append [OF labels assms(2,3)]) simp
  moreover have "dns1123_label l" if "l \<in> set (butlast (split_on (CHR ''.'') s))" for l
    by (rule labels) (rule in_set_butlastD [OF that])
  ultimately have "\<forall>l \<in> set (split_on (CHR ''.'') (s @ ''-'' @ ys)). dns1123_label l"
    unfolding sp by (simp only: set_append) auto
  then show ?thesis unfolding IsDNS1123Subdomain_def by simp
qed

end
