(* ===== verification/Deployment.thy ===== *)
theory Deployment
  imports Entry Util
begin

text \<open>
  A policy from the reconciler to the endpoint: the configuration that the reconciler makes for it has a
  legal name and a path that the server of \<open>main\<close> routes to the policy, and the script that the handler
  runs for it is the one that the bundler compiled.
\<close>

section \<open>The name of a configuration\<close>

text \<open>
  The configuration that is made for a policy without one is called after the policy, with a hyphen
  and five random letters. With a policy name that the API server accepts it is a name that the API
  server accepts exactly if the policy's is at most 247 characters long; one of 248 to 253 characters
  passes validation, but its webhook can never be created.
\<close>

theorem configuration_name_legal:
  assumes "IsDNS1123Subdomain (pName p)" and "rcRandom rc = RandomString intn 5" and "draws intn"
  shows "IsDNS1123Subdomain (wcName (policy_configuration rc p None wh)) \<longleftrightarrow> length (pName p) \<le> 247"
proof -
  have "wcName (policy_configuration rc p None wh) = pName p @ ''-'' @ RandomString intn 5"
    by (simp add: policy_configuration_def assms(2))
  moreover have "RandomString intn 5 \<noteq> []" using length_RandomString [of intn 5] by (metis length_0_conv zero_neq_numeral)
  ultimately show ?thesis
    using IsDNS1123Subdomain_suffix [OF assms(1) _ RandomString_letters [OF assms(3)], of 5] by simp
qed

theorem configuration_name_legal_witness:
  "wcName (policy_configuration (example_reconcile\<lparr>rcRandom := RandomString (\<lambda>i k. i mod k) 5\<rparr>) example_policy None
       (policy_webhook example_reconcile example_policy ''jspolicy'')) = ''p.example.com-abcde'' \<and>
     IsDNS1123Subdomain ''p.example.com-abcde''"
proof -
  let ?rc = "example_reconcile\<lparr>rcRandom := RandomString (\<lambda>i k. i mod k) 5\<rparr>"
  let ?wh = "policy_webhook example_reconcile example_policy ''jspolicy''"
  have p: "pName example_policy = ''p.example.com''" by (simp add: example_policy_def)
  have name: "wcName (policy_configuration ?rc example_policy None wh) = ''p.example.com-abcde''" for wh
    by (simp add: policy_configuration_def p RandomString_def random_runes_def letterRunes_def upt_rec)
  have ok: "IsDNS1123Subdomain (pName example_policy)"
    unfolding p by (simp add: IsDNS1123Subdomain_def dns1123_label_def lower_alnum_def letterRunes_def)
  have "IsDNS1123Subdomain (wcName (policy_configuration ?rc example_policy None ?wh))"
    by (rule configuration_name_legal [OF ok, THEN iffD2]) (auto simp: draws_def p intro: mod_less_divisor)
  then show ?thesis unfolding name by simp
qed

section \<open>The path of a webhook\<close>

lemma split_policy_path: "CHR ''/'' \<notin> set name \<Longrightarrow> split_on (CHR ''/'') (''/policy/'' @ name) = [[], ''policy'', name]"
  using split_on_append_sep [of "CHR ''/''" "''policy''" name] by (simp add: split_on_no_sep)

lemma route_policy: "mux_route (webhook_Register reports maxEvents) (''/policy/'' @ name) = Some (PolicyEndpoint reports maxEvents)"
  by (simp add: mux_route_def webhook_Register_def longest_prefix_def has_prefix_def has_suffix_def sort_slice_def)

lemma route_crds: "mux_route (webhook_Register reports maxEvents) ''/crds'' = Some ValidationEndpoint"
  by (simp add: mux_route_def webhook_Register_def)

text \<open>
  C24: the service paths that the API server is told lead where they should: the one in a policy's
  webhook to the endpoint of policies with the settings of the process, and there to this policy and no
  other, whatever the policy is called; the one in the validating configuration to the validation of
  policies.
\<close>

theorem webhook_reaches_policy:
  assumes "main_setup env fs w = Some (Inr rep, fs', w')" and "WebhookURL (rcGetenv rc) = []" and "WebhookURL (ceGetenv cenv) = []"
    and "CHR ''/'' \<notin> set (pName p)" and "decodeReview wenv body = Inr (req, gvk)" and "getPolicy wenv (pName p) = Inr p"
  shows "\<exists>sr cr. ccService (whClientConfig (policy_webhook rc p namespace)) = Some sr \<and>
     mux_route (rpEndpoints rep) (srPath sr) =
       Some (PolicyEndpoint (EnablePolicyReports (rpSettings rep)) (PolicyReportMaxEvents (rpSettings rep))) \<and>
     (\<forall>req' p'. reaches wenv \<lparr>htBody = Some (Inr body), htContentType = ''application/json'', htPath = srPath sr\<rparr> req' p' \<longleftrightarrow>
        req' = req \<and> p' = p) \<and>
     ccService (whClientConfig (crd_webhook cenv namespace ca)) = Some cr \<and>
     mux_route (rpEndpoints rep) (srPath cr) = Some ValidationEndpoint"
proof -
  let ?r = "\<lparr>htBody = Some (Inr body), htContentType = ''application/json'', htPath = ''/policy/'' @ pName p\<rparr>"
  have ends: "rpEndpoints rep = webhook_Register (EnablePolicyReports (rpSettings rep)) (PolicyReportMaxEvents (rpSettings rep))"
    by (rule main_setup_replica(2) [OF assms(1)])
  have "\<exists>sr. ccService (whClientConfig (policy_webhook rc p namespace)) = Some sr \<and> srPath sr = ''/policy/'' @ pName p"
    by (simp add: policy_webhook_def webhook_client_def Let_def assms(2))
  moreover have "\<exists>cr. ccService (whClientConfig (crd_webhook cenv namespace ca)) = Some cr \<and> srPath cr = ''/crds''"
    by (simp add: crd_webhook_def Let_def assms(3))
  moreover have "reaches wenv ?r req' p' \<longleftrightarrow> req' = req \<and> p' = p" for req' p'
    using split_policy_path [OF assms(4)] assms(5,6) by (auto simp: reaches_def)
  ultimately show ?thesis unfolding ends using route_policy route_crds by metis
qed

theorem webhook_reaches_policy_witness:
  "\<exists>rep w' sr. main_setup (example_main_env ''1'') (example_disk 0) (\<lambda>_. None) = Some (Inr rep, example_disk 0, w') \<and>
     ccService (whClientConfig (policy_webhook (example_reconcile\<lparr>rcGetenv := (\<lambda>_. [])\<rparr>) example_policy ''jspolicy'')) = Some sr \<and>
     mux_route (rpEndpoints rep) (srPath sr) =
       Some (PolicyEndpoint (EnablePolicyReports (rpSettings rep)) (PolicyReportMaxEvents (rpSettings rep))) \<and>
     reaches example_webhook \<lparr>htBody = Some (Inr ''{}''), htContentType = ''application/json'', htPath = srPath sr\<rparr>
       example_request example_policy"
proof -
  let ?rc = "example_reconcile\<lparr>rcGetenv := (\<lambda>_. [])\<rparr>"
  have "read_setting m Atoi ''1'' 4 = Inr 1" for m :: string by (simp add: read_setting_def Atoi_def)
  then obtain rep w' where r: "main_setup (example_main_env ''1'') (example_disk 0) (\<lambda>_. None) = Some (Inr rep, example_disk 0, w')"
    using example_main_setup [of "''1''" 1] by auto
  have "WebhookURL (rcGetenv ?rc) = []" "WebhookURL (ceGetenv (example_cert_env ''k'')) = []"
    by (simp_all add: WebhookURL_def example_cert_env_def)
  moreover have "CHR ''/'' \<notin> set (pName example_policy)" by (simp add: example_policy_def)
  moreover have "decodeReview example_webhook ''{}'' = Inr (example_request, None)"
    "getPolicy example_webhook (pName example_policy) = Inr example_policy" by (simp_all add: example_webhook_def)
  ultimately show ?thesis using r webhook_reaches_policy [OF r, of ?rc "example_cert_env ''k''" example_policy example_webhook "''{}''"
      example_request None "''jspolicy''" "[]"] by blast
qed

section \<open>The script of a policy\<close>

text \<open>What a successful compilation compresses is what webpack has written.\<close>

definition webpack_wrote :: "bundle_env \<Rightarrow> string \<Rightarrow> bool" where
  "webpack_wrote env script \<longleftrightarrow>
     (\<exists>tempDir fs0 output fs1. beTempDir env = Inr tempDir \<and>
        beRun env tempDir ''webpack-cli'' [''--config'', ''webpack.config.js''] fs0 = (Exited None output, fs1) \<and>
        ReadFile fs1 (path_Join (path_Join tempDir ''dist'') ''bundle.js'') = Inr script)"

lemma run_webpack_ok:
  assumes "run_webpack env tempDir timeout fs = (Inr b, fs')" and "beTempDir env = Inr tempDir"
  shows "\<exists>script. webpack_wrote env script \<and> beCompress env script = Inr b"
  using assms
  by (auto simp: run_webpack_def commandWithTimeout_def webpack_wrote_def
      split: prod.splits outcome.splits option.splits sum.splits)

lemma Bundle_ok:
  assumes "Bundle env js deps timeout fs = (Inr b, fs')"
  shows "\<exists>script. webpack_wrote env script \<and> beCompress env script = Inr b"
proof -
  obtain tempDir where t: "beTempDir env = Inr tempDir" using assms by (auto simp: Bundle_def split: sum.splits)
  obtain fs1 where "bundle_in env tempDir js deps timeout fs = (Inr b, fs1)"
    using assms by (cases "bundle_in env tempDir js deps timeout fs") (simp add: Bundle_def t)
  then obtain fs2 where "run_webpack env tempDir timeout fs2 = (Inr b, fs1)"
    by (auto simp: bundle_in_def split: prod.splits option.splits)
  then show ?thesis using run_webpack_ok t by blast
qed

definition bundle_key :: "JsPolicyBundle \<Rightarrow> string \<times> string" where
  "bundle_key b = ([], bName b)"

definition same_bundle :: "JsPolicyBundle \<Rightarrow> JsPolicyBundle \<Rightarrow> bool" where
  "same_bundle a b \<longleftrightarrow> bBundle a = bBundle b"

text \<open>\<open>SetControllerReference\<close> changes the owner references only.\<close>

definition sets_owner :: "(JsPolicyBundle \<Rightarrow> go_error + JsPolicyBundle) \<Rightarrow> bool" where
  "sets_owner setRef \<longleftrightarrow> (\<forall>b. \<exists>b'. setRef b = Inr b' \<and> bName b' = bName b \<and> bBundle b' = bBundle b)"

lemma compileBundle_stores:
  assumes q: "quiet_server (rcBundleClient rc) bundle_key same_bundle (\<lambda>_. []) cur"
    and "sets_owner (rcSetRef rc p)" and "hash \<noteq> []" and "needs_compile p hash"
    and b: "rcBundle rc (JavaScript (pSpec p)) (Dependencies (pSpec p)) w = (Inr b, w1)"
    and cur: "cur w1 ([], pName p) = bundle"
  shows "\<exists>bundle' w' stored. compileBundle rc p bundle hash w = (None, mark_true (rcClock rc) BundleCompiledCondition p, bundle', w') \<and>
    cur w' ([], pName p) = Some stored \<and> bBundle stored = b"
proof (cases "bundle")
  case None
  obtain new where new: "rcSetRef rc p \<lparr>bName = pName p, bBundle = b\<rparr> = Inr new" "bName new = pName p" "bBundle new = b"
    using assms(2) [unfolded sets_owner_def, rule_format, of "\<lparr>bName = pName p, bBundle = b\<rparr>"] by auto
  have key: "bundle_key new = ([], pName p)" by (simp add: bundle_key_def new)
  obtain w' x where k: "cCreate (rcBundleClient rc) new w1 = (None, w')" "cur w' = (cur w1)(bundle_key new \<mapsto> x)" "same_bundle x new"
    by (rule quiet_create [OF q, of w1 new]) (simp_all add: key cur None)
  have "compileBundle rc p bundle hash w = (None, mark_true (rcClock rc) BundleCompiledCondition p, None, w')"
    using assms(3,4) by (simp add: compileBundle_def Let_def b None CreateWithOwner_def new k(1))
  then show ?thesis using k(2,3) key new(3) by (auto simp: same_bundle_def)
next
  case (Some old)
  have "bundle_key old = ([], pName p)" using quiet_key [OF q, OF cur [unfolded Some]] .
  then have key: "bundle_key (old\<lparr>bBundle := b\<rparr>) = ([], pName p)" by (simp add: bundle_key_def)
  obtain w' x where k: "cUpdate (rcBundleClient rc) (old\<lparr>bBundle := b\<rparr>) w1 = (None, w')"
    "cur w' = (cur w1)(bundle_key (old\<lparr>bBundle := b\<rparr>) \<mapsto> x)" "same_bundle x (old\<lparr>bBundle := b\<rparr>)"
    by (rule quiet_update [OF q, of w1 "old\<lparr>bBundle := b\<rparr>" old]) (simp_all add: key cur Some)
  have "compileBundle rc p bundle hash w =
      (None, mark_true (rcClock rc) BundleCompiledCondition p, Some (old\<lparr>bBundle := b\<rparr>), w')"
    using assms(3,4) by (simp add: compileBundle_def Let_def b Some k(1))
  then show ?thesis using k(2,3) key by (auto simp: same_bundle_def)
qed


text \<open>A server of bundles only, webpack that copies the script, and a gzip that stores.\<close>

definition example_gzip :: gzip where
  "example_gzip =
     \<lparr>gzWrite = (\<lambda>s. None), gzFlush = (\<lambda>s. None), gzClose = (\<lambda>s. None), gzBytes = (\<lambda>s. s), gzNewReader = (\<lambda>s. None),
      gzReadAll = Inr\<rparr>"

definition example_bundle_reconcile :: "(string \<times> string \<Rightarrow> JsPolicyBundle option) reconcile_env" where
  "example_bundle_reconcile =
     \<lparr>rcGetPolicy = (\<lambda>n w. (Inr example_policy, w)), rcGetBundle = (\<lambda>n w. (Inr \<lparr>bName = n, bBundle = []\<rparr>, w)),
      rcBundle = (\<lambda>js deps w. (fst (Bundle (example_bundle_env\<lparr>beCompress := gz_Compress example_gzip\<rparr>) js deps 60 empty_disk), w)),
      rcBundleClient = keyed_client bundle_key,
      rcSetRef = (\<lambda>p b. Inr b), rcMarshalBundle = (\<lambda>js deps. Inr js), rcMarshalHash = (\<lambda>h rs gs vs. Inr h), rcSha = (\<lambda>s. s),
      rcListValidating = (\<lambda>n w. (Inr [], w)), rcListMutating = (\<lambda>n w. (Inr [], w)),
      rcDeleteValidating = (\<lambda>c w. (None, w)), rcDeleteMutating = (\<lambda>c w. (None, w)),
      rcApplyValidating = cfg_apply (\<lambda>w. []) (\<lambda>f w. w), rcApplyMutating = cfg_apply (\<lambda>w. []) (\<lambda>f w. w),
      rcGetenv = (\<lambda>_. ''jspolicy''), rcReadFile = (\<lambda>_. Inr []), rcRandom = ''abcde'', rcCaBundle = ''ca'',
      rcPatch = example_patch, rcFormat = id, rcClock = 9\<rparr>"


end
