(* ===== verification/ManagerSpec.thy ===== *)
theory ManagerSpec
  imports PolicyManager
begin

text \<open>
  What the policy manager (\<open>pkg/controller/manager.go\<close>) promises its callers, without controllers,
  handlers, contexts and queues: a map from the running policies to the kinds they watch. The
  operations of PolicyManager implement the operations on that map, and who is asked about an event
  depends on the map only.
\<close>

type_synonym watch_map = "string \<rightharpoonup> GroupVersionKind set"

section \<open>The specification\<close>

text \<open>
  An update with the kinds it determined; \<open>failed\<close> if it could not get an informer for one of them. A
  policy that already watches these kinds is left alone, and a failing one runs no longer.
\<close>

definition watch_update :: "string \<Rightarrow> go_error + GroupVersionKind list \<Rightarrow> bool \<Rightarrow> watch_map \<Rightarrow> watch_map" where
  "watch_update name kinds failed w =
     (case kinds of
        Inl err \<Rightarrow> w
      | Inr gvks \<Rightarrow>
          if w name = Some (set gvks) then w
          else if failed then w(name := None)
          else w(name \<mapsto> set gvks))"

definition watch_delete :: "string \<Rightarrow> watch_map \<Rightarrow> watch_map" where
  "watch_delete name w = w(name := None)"

definition watch_event :: "manager_env \<Rightarrow> GroupVersionKind \<Rightarrow> informer_event \<Rightarrow> watch_map \<Rightarrow> (string \<times> string) set" where
  "watch_event env g ev w =
     {(name, key). \<exists>ks p. w name = Some ks \<and> g \<in> ks \<and> meGetPolicy env name = Inr p \<and>
        controller_Add (meController env) (event_object ev) p = Inr (Some key)}"

text \<open>The policies of a manager, as that map.\<close>

definition abs_manager :: "manager \<Rightarrow> watch_map" where
  "abs_manager st = (\<lambda>name. map_option (\<lambda>e. set (peGVKs e)) (policies st name))"

section \<open>The operations implement it\<close>

lemma abs_policies: "policies st' = policies st \<Longrightarrow> abs_manager st' = abs_manager st"
  by (simp add: abs_manager_def)

lemma abs_delete: "abs_manager (deleteNoLock name st) = watch_delete name (abs_manager st)"
  by (auto simp: abs_manager_def deleteNoLock_def watch_delete_def fun_eq_iff split: option.splits)

lemma abs_with_controller: "abs_manager ((with_controller name gvks st)\<lparr>queueOf := q\<rparr>) = (abs_manager st)(name \<mapsto> set gvks)"
  by (auto simp: abs_manager_def with_controller_def Let_def fun_eq_iff)

lemma ensure_informers_failed:
  "ensure_informers env gvks st = (st', Some err) \<Longrightarrow> \<exists>g \<in> set gvks. meGetInformer env g \<noteq> None"
  by (induction env gvks st rule: ensure_informers.induct) (auto split: if_splits option.splits)

lemma abs_add:
  assumes "distinct gvks" and "policies st (pName p) = None"
  obtains failed where "failed \<longrightarrow> (\<exists>g \<in> set gvks. meGetInformer env g \<noteq> None)"
    and "snd (addNoLock env p gvks st) = None \<longleftrightarrow> \<not> failed"
    and "abs_manager (fst (addNoLock env p gvks st)) = (if failed then abs_manager st else (abs_manager st)(pName p \<mapsto> set gvks))"
proof -
  obtain st1 err where ens: "ensure_informers env gvks st = (st1, err)" by fastforce
  have st1: "abs_manager st1 = abs_manager st" using ensure_informers_result [OF ens] by (auto intro: abs_policies)
  show ?thesis
  proof (cases err)
    case None
    obtain q where "addNoLock env p gvks st = ((with_controller (pName p) gvks st1)\<lparr>queueOf := q\<rparr>, None)"
      using addNoLock_result [OF assms ens [unfolded None]] by blast
    then show ?thesis using that [of False] st1 by (simp add: abs_with_controller)
  next
    case (Some e)
    then show ?thesis
      using that [of True] st1 ensure_informers_failed [OF ens [unfolded Some]] by (simp add: addNoLock_def assms(2) ens)
  qed
qed

lemma abs_update:
  assumes inv: "manager_inv st" and "order_ok env"
  obtains failed where
    "failed \<longrightarrow> (\<exists>gvks. gvksFromPolicy env p = Inr gvks \<and> (\<exists>g \<in> set gvks. meGetInformer env g \<noteq> None))"
    and "failed \<longrightarrow> snd (manager_Update env p req st) \<noteq> None"
    and "abs_manager (fst (manager_Update env p req st)) =
      watch_update (pName p) (gvksFromPolicy env p) failed (abs_manager st)"
proof (cases "gvksFromPolicy env p")
  case (Inl err)
  then show ?thesis using that [of False] by (simp add: manager_Update_def watch_update_def)
next
  case (Inr gvks)
  note gvks = gvksFromPolicy_distinct [OF assms(2) Inr]
  show ?thesis
  proof (cases "policies st (pName p)")
    case None
    then have w: "abs_manager st (pName p) = None" by (simp add: abs_manager_def)
    show ?thesis
    proof (rule abs_add [OF gvks(1), of st p env])
      fix failed
      assume r: "failed \<longrightarrow> (\<exists>g \<in> set gvks. meGetInformer env g \<noteq> None)"
        "snd (addNoLock env p gvks st) = None \<longleftrightarrow> \<not> failed"
        "abs_manager (fst (addNoLock env p gvks st)) = (if failed then abs_manager st else (abs_manager st)(pName p \<mapsto> set gvks))"
      have "(abs_manager st)(pName p := None) = abs_manager st" using w by auto
      then show ?thesis using r that [of failed] w by (auto simp: manager_Update_def Inr None watch_update_def)
    qed (rule None)
  next
    case (Some old)
    have "distinct (peGVKs old)" using manager_invD(1) [OF inv Some] by (simp add: entry_ok_def)
    note eq = areGVKsEqual_set [OF this gvks(1)]
    have w: "abs_manager st (pName p) = Some (set (peGVKs old))" by (simp add: abs_manager_def Some)
    show ?thesis
    proof (cases "set (peGVKs old) = set gvks")
      case True
      then have "abs_manager (fst (manager_Update env p req st)) = abs_manager st"
        using eq by (auto simp: manager_Update_def Inr Some intro: abs_policies)
      then show ?thesis using that [of False] True w by (simp add: Inr watch_update_def)
    next
      case False
      let ?d = "deleteNoLock (pName p) st"
      have u: "manager_Update env p req st = addNoLock env p gvks ?d"
        using False eq by (simp add: manager_Update_def Inr Some)
      have d: "policies ?d (pName p) = None" by (simp add: deleteNoLock_def Some)
      show ?thesis
      proof (rule abs_add [OF gvks(1) d, of env])
        fix failed
        assume r: "failed \<longrightarrow> (\<exists>g \<in> set gvks. meGetInformer env g \<noteq> None)"
          "snd (addNoLock env p gvks ?d) = None \<longleftrightarrow> \<not> failed"
          "abs_manager (fst (addNoLock env p gvks ?d)) =
            (if failed then abs_manager ?d else (abs_manager ?d)(pName p \<mapsto> set gvks))"
        show ?thesis
          using r that [of failed] w False by (auto simp: u Inr watch_update_def abs_delete watch_delete_def)
      qed
    qed
  qed
qed

lemma abs_garbageCollect: "abs_manager (fst (garbageCollectInformers st)) = abs_manager st"
  by (rule abs_policies) (simp add: garbageCollectInformers_def)

lemma abs_cleanup: "abs_manager (manager_cleanup names st) = (\<lambda>_. None)"
  by (simp add: abs_manager_def manager_cleanup_def)

lemma abs_watches:
  "(\<exists>ks. abs_manager st name = Some ks \<and> g \<in> ks) \<longleftrightarrow> (\<exists>e. policies st name = Some e \<and> g \<in> set (peGVKs e))"
  by (auto simp: abs_manager_def)

lemma abs_event:
  assumes inv: "manager_inv st"
  shows "set (manager_event env g ev st) = watch_event env g ev (abs_manager st)"
proof -
  have entry: "ctlName (peController e) = n" "g \<in> set (peGVKs e) \<Longrightarrow> informers st g \<noteq> None"
    if "policies st n = Some e" for n e
    using manager_invD(1) [OF inv that] by (simp_all add: entry_ok_def)
  have "(name, key) \<in> set (manager_event env g ev st) \<longleftrightarrow>
      (\<exists>e. policies st name = Some e \<and> g \<in> set (peGVKs e)) \<and>
      (\<exists>p. meGetPolicy env name = Inr p \<and> controller_Add (meController env) (event_object ev) p = Inr (Some key))"
    for name key
  proof (cases "informers st g")
    case None
    then show ?thesis using entry(2) by (auto simp: manager_event_def)
  next
    case (Some h)
    have "name \<in> ctlName ` set h \<longleftrightarrow> (\<exists>e. policies st name = Some e \<and> g \<in> set (peGVKs e))"
      using handler_names(2) [OF manager_invD(2) [OF inv Some], of name] entry(1) [of name] by blast
    then show ?thesis by (simp add: manager_event_def Some handler_add_set)
  qed
  then show ?thesis unfolding abs_watches [symmetric] by (auto simp: watch_event_def)
qed

section \<open>Properties\<close>

text \<open>
  A call of the manager with the environment it finds, which decides the kinds of an updated policy and
  which informers can be had; on the manager and on the map.
\<close>

inductive manager_call :: "manager \<Rightarrow> manager_env \<times> manager_op \<Rightarrow> manager \<Rightarrow> bool" where
  "order_ok env \<Longrightarrow> manager_call st (env, OpUpdate p req) (fst (manager_Update env p req st))"
| "manager_call st (env, OpDelete name) (manager_Delete name st)"
| "manager_call st (env, OpGarbageCollect) (fst (garbageCollectInformers st))"
| "lists_policies names st \<Longrightarrow> manager_call st (env, OpCleanup) (manager_cleanup names st)"

inductive watch_call :: "watch_map \<Rightarrow> manager_env \<times> manager_op \<Rightarrow> watch_map \<Rightarrow> bool" where
  watch_updates:
    "(failed \<Longrightarrow> \<exists>gvks. gvksFromPolicy env p = Inr gvks \<and> (\<exists>g \<in> set gvks. meGetInformer env g \<noteq> None)) \<Longrightarrow>
     watch_call w (env, OpUpdate p req) (watch_update (pName p) (gvksFromPolicy env p) failed w)"
| watch_deletes: "watch_call w (env, OpDelete name) (watch_delete name w)"
| watch_collects: "watch_call w (env, OpGarbageCollect) w"
| watch_cleans: "watch_call w (env, OpCleanup) (\<lambda>_. None)"

inductive manager_calls :: "manager \<Rightarrow> (manager_env \<times> manager_op) list \<Rightarrow> manager \<Rightarrow> bool" where
  "manager_calls st [] st"
| "manager_call st c st1 \<Longrightarrow> manager_calls st1 cs st2 \<Longrightarrow> manager_calls st (c # cs) st2"

inductive watch_calls :: "watch_map \<Rightarrow> (manager_env \<times> manager_op) list \<Rightarrow> watch_map \<Rightarrow> bool" where
  "watch_calls w [] w"
| "watch_call w c w1 \<Longrightarrow> watch_calls w1 cs w2 \<Longrightarrow> watch_calls w (c # cs) w2"

inductive_cases manager_callE: "manager_call st (env, op) st'"

lemma manager_call_step: "manager_call st (env, op) st' \<Longrightarrow> manager_step st op st'"
proof (erule manager_callE)
  fix p req
  assume "op = OpUpdate p req" "st' = fst (manager_Update env p req st)" "order_ok env"
  then show "manager_step st op st'"
    using manager_step.update [of env p req st st' "snd (manager_Update env p req st)"] by simp
qed (auto intro: manager_step.intros)

lemma manager_call_refines:
  assumes "manager_inv st" and "manager_call st (env, op) st'"
  shows "watch_call (abs_manager st) (env, op) (abs_manager st')"
  using assms(2)
proof (rule manager_callE)
  fix p req
  assume op: "op = OpUpdate p req" and st': "st' = fst (manager_Update env p req st)" and "order_ok env"
  show ?thesis
  proof (rule abs_update [OF assms(1) \<open>order_ok env\<close>, of p req])
    fix failed
    assume f: "failed \<longrightarrow> (\<exists>gvks. gvksFromPolicy env p = Inr gvks \<and> (\<exists>g \<in> set gvks. meGetInformer env g \<noteq> None))"
      and w: "abs_manager (fst (manager_Update env p req st)) =
        watch_update (pName p) (gvksFromPolicy env p) failed (abs_manager st)"
    show ?thesis unfolding op st' w by (rule watch_updates) (use f in blast)
  qed
qed (simp_all add: manager_Delete_def abs_delete abs_garbageCollect abs_cleanup watch_deletes watch_collects watch_cleans)

lemma manager_calls_refine:
  "manager_calls st cs st' \<Longrightarrow> manager_inv st \<Longrightarrow>
   manager_inv st' \<and> watch_calls (abs_manager st) cs (abs_manager st')"
proof (induction rule: manager_calls.induct)
  case (1 st)
  then show ?case by (simp add: watch_calls.intros(1))
next
  case (2 st c st1 cs st2)
  obtain env op where c: "c = (env, op)" by (cases c)
  have "manager_inv st1" using manager_step_inv [OF manager_call_step] 2 unfolding c by blast
  then show ?case using 2 manager_call_refines [of st env op st1] watch_calls.intros(2) unfolding c by blast
qed

text \<open>
  C18: the manager implements the map of running policies to the kinds they watch: what any sequence of
  its operations does to it, garbage collections and failing updates included, is what the sequence
  does to the map, and the keys that an event of a kind queues are those of the policies that the map
  lets watch it, whatever controllers, handlers, contexts and queues it has come to hold.
\<close>

theorem manager_refines_map:
  assumes "manager_calls newManager cs st"
  shows "watch_calls (\<lambda>_. None) cs (abs_manager st) \<and>
    set (manager_event env g ev st) = watch_event env g ev (abs_manager st)"
  using manager_calls_refine [OF assms newManager_inv] abs_event [of st env g ev]
  by (simp add: abs_manager_def newManager_def)

theorem manager_refines_map_witness:
  "\<exists>w. watch_calls (\<lambda>_. None)
       [(example_manager_env, OpUpdate example_policy True), (example_manager_env, OpGarbageCollect),
        (example_manager_env, OpDelete ''other'')] w \<and>
     w ''p.example.com'' = Some {\<lparr>gvkGroup = [], gvkVersion = ''v1'', gvkKind = ''Pod''\<rparr>}"
proof -
  have o: "order_ok example_manager_env" by (simp add: order_ok_def example_manager_env_def)
  let ?st = "manager_Delete ''other'' (fst (garbageCollectInformers example_manager))"
  have "manager_calls newManager
       [(example_manager_env, OpUpdate example_policy True), (example_manager_env, OpGarbageCollect),
        (example_manager_env, OpDelete ''other'')] ?st"
    unfolding example_manager_def
    by (rule manager_calls.intros(2) [OF manager_call.intros(1) [OF o]
        manager_calls.intros(2) [OF manager_call.intros(3) manager_calls.intros(2) [OF manager_call.intros(2) manager_calls.intros(1)]]])
  from manager_refines_map [OF this, THEN conjunct1]
  have "watch_calls (\<lambda>_. None)
       [(example_manager_env, OpUpdate example_policy True), (example_manager_env, OpGarbageCollect),
        (example_manager_env, OpDelete ''other'')] (abs_manager ?st)" .
  moreover have "abs_manager ?st ''p.example.com'' = Some {\<lparr>gvkGroup = [], gvkVersion = ''v1'', gvkKind = ''Pod''\<rparr>}"
    by (simp add: manager_Delete_def abs_delete watch_delete_def abs_garbageCollect)
      (simp add: abs_manager_def example_manager_def manager_Update_def example_gvks newManager_def addNoLock_def Let_def,
       simp add: example_manager_env_def example_policy_def add_to_handlers_def)
  ultimately show ?thesis by blast
qed

end
