(* ===== verification/Cache.thy ===== *)
theory Cache
  imports PolicyManager
begin

text \<open>
  \<open>pkg/cache\<close>: the informer cache that background policies read from. The reader over one
  informer's index (\<open>cache_reader.go\<close>), the field indices (\<open>cache.go\<close>), the map of informers with
  its garbage collection (\<open>informers_map.go\<close>, \<open>wrapper_map.go\<close>, \<open>cache.go\<close>), and the manager of
  background policies on top of it. The indexer of client-go, the selectors and the informers
  themselves are parameters.
\<close>

section \<open>Keys (cache\_reader.go)\<close>

definition objectKeyToStoreKey :: "string \<Rightarrow> string \<Rightarrow> string" where
  "objectKeyToStoreKey namespace name = (if namespace = [] then name else namespace @ ''/'' @ name)"

definition FieldIndexName :: "string \<Rightarrow> string" where
  "FieldIndexName field = ''field:'' @ field"

abbreviation allNamespacesNamespace :: string where
  "allNamespacesNamespace \<equiv> ''__all_namespaces''"

definition KeyToNamespacedKey :: "string \<Rightarrow> string \<Rightarrow> string" where
  "KeyToNamespacedKey ns baseKey =
     (if ns \<noteq> [] then ns @ ''/'' @ baseKey else allNamespacesNamespace @ ''/'' @ baseKey)"

section \<open>The reader\<close>

text \<open>A field selector's requirements: field, operator, value.\<close>

type_synonym requirement = "string \<times> string \<times> string"

definition requiresExactMatch :: "requirement list \<Rightarrow> (string \<times> string) option" where
  "requiresExactMatch reqs =
     (case reqs of
        [(field, operator, val)] \<Rightarrow> if operator \<noteq> ''='' \<and> operator \<noteq> ''=='' then None else Some (field, val)
      | _ \<Rightarrow> None)"

record 'o indexer =
  ixGetByKey :: "string \<Rightarrow> go_error + 'o option"
  ixByIndex :: "string \<Rightarrow> string \<Rightarrow> go_error + 'o list"
  ixList :: "'o list"
  ixNamespace :: "'o \<Rightarrow> string"
  ixLabels :: "'o \<Rightarrow> (string \<times> string) list"
  ixIsObject :: "'o \<Rightarrow> bool" \<comment> \<open>what is stored is a \<open>runtime.Object\<close>\<close>
  ixTypeName :: "'o \<Rightarrow> string"

record cache_reader =
  crGVK :: GroupVersionKind
  crRootScope :: bool

text \<open>\<open>errors.NewNotFound\<close> of a group and resource.\<close>

definition NewNotFound :: "string \<Rightarrow> string \<Rightarrow> string \<Rightarrow> go_error" where
  "NewNotFound grp resource name =
     GoError NotFound ((if grp = [] then resource else resource @ ''.'' @ grp) @ '' '' @ quoted name @ '' not found'')"

text \<open>The object found, which the caller then gets under the reader's kind and version.\<close>

definition reader_Get :: "cache_reader \<Rightarrow> 'o indexer \<Rightarrow> string \<Rightarrow> string \<Rightarrow> go_error + 'o" where
  "reader_Get c ix namespace name =
     (case ixGetByKey ix (objectKeyToStoreKey (if crRootScope c then [] else namespace) name) of
        Inl err \<Rightarrow> Inl err
      | Inr None \<Rightarrow> Inl (NewNotFound (gvkGroup (crGVK c)) (gvkKind (crGVK c)) name)
      | Inr (Some obj) \<Rightarrow>
          if \<not> ixIsObject ix obj
          then Inl (Errorf (''cache contained '' @ ixTypeName ix obj @ '', which is not an Object''))
          else Inr obj)"

record list_options =
  loField :: "requirement list option"
  loNamespace :: string
  loLabels :: "((string \<times> string) list \<Rightarrow> bool) option"

definition listed_objects :: "'o indexer \<Rightarrow> list_options \<Rightarrow> go_error + 'o list" where
  "listed_objects ix opts =
     (case loField opts of
        Some sel \<Rightarrow>
          (case requiresExactMatch sel of
             None \<Rightarrow> Inl (Errorf ''non-exact field matches are not supported by the cache'')
           | Some (field, val) \<Rightarrow> ixByIndex ix (FieldIndexName field) (KeyToNamespacedKey (loNamespace opts) val))
      | None \<Rightarrow>
          if loNamespace opts \<noteq> [] then ixByIndex ix ''namespace'' (loNamespace opts) else Inr (ixList ix))"

fun keep_labelled :: "'o indexer \<Rightarrow> list_options \<Rightarrow> 'o list \<Rightarrow> go_error + 'o list" where
  "keep_labelled ix opts [] = Inr []"
| "keep_labelled ix opts (item # items) =
     (if \<not> ixIsObject ix item then Inl (Errorf ''cache contained <nil>, which is not an Object'')
      else if (case loLabels opts of None \<Rightarrow> False | Some sel \<Rightarrow> \<not> sel (ixLabels ix item))
      then keep_labelled ix opts items
      else map_sum id (Cons item) (keep_labelled ix opts items))"

definition reader_List :: "'o indexer \<Rightarrow> list_options \<Rightarrow> go_error + 'o list" where
  "reader_List ix opts =
     (case listed_objects ix opts of Inl err \<Rightarrow> Inl err | Inr objs \<Rightarrow> keep_labelled ix opts objs)"

section \<open>Field indices (cache.go)\<close>

text \<open>
  The index function of \<open>indexByField\<close>: for a namespaced object the values twice, under its
  namespace and under all of them.
\<close>

definition indexFunc :: "('o \<Rightarrow> string list) \<Rightarrow> ('o \<Rightarrow> string) \<Rightarrow> 'o \<Rightarrow> string list" where
  "indexFunc extractor nsOf obj =
     (let ns = nsOf obj; rawVals = extractor obj in
      if ns = [] then map (KeyToNamespacedKey ns) rawVals
      else map (KeyToNamespacedKey ns) rawVals @ map (KeyToNamespacedKey []) rawVals)"

definition objectTypeForListObject :: "string \<Rightarrow> GroupVersionKind \<Rightarrow> go_error + GroupVersionKind" where
  "objectTypeForListObject typeName gvk =
     (if \<not> has_suffix (gvkKind gvk) ''List''
      then Inl (Errorf (''non-list type '' @ typeName @ '' (kind '' @ quoted (gvk_String gvk) @ '') passed as output''))
      else Inr (gvk\<lparr>gvkKind := take (length (gvkKind gvk) - 4) (gvkKind gvk)\<rparr>))"

section \<open>The map of informers\<close>

text \<open>
  An entry is one informer with its stop channel, known by a number; whether it runs, and how many
  handlers were added to it.
\<close>

record map_entry =
  meId :: nat
  meRunning :: bool
  meHandlers :: nat

record informer_cache =
  informersByGVK :: "GroupVersionKind \<rightharpoonup> map_entry"
  icStarted :: bool
  icNextId :: nat
  icClosed :: "nat list" \<comment> \<open>stop channels closed so far, latest first\<close>
  icLastUsed :: "GroupVersionKind \<rightharpoonup> gotime"
  icCleanup :: gotime

definition close_chan :: "nat \<Rightarrow> informer_cache \<Rightarrow> informer_cache" where
  "close_chan n c = c\<lparr>icClosed := n # icClosed c\<rparr>"

definition map_Delete :: "GroupVersionKind \<Rightarrow> informer_cache \<Rightarrow> informer_cache" where
  "map_Delete gvk c =
     (case informersByGVK c gvk of
        None \<Rightarrow> c
      | Some i \<Rightarrow> (close_chan (meId i) c)\<lparr>informersByGVK := (informersByGVK c)(gvk := None)\<rparr>)"

text \<open>
  \<open>Get\<close>: the informer of a kind, created if there is none; \<open>mapping\<close> is what the list watcher and
  the REST mapper answer, \<open>synced\<close> whether a started informer syncs in time.
\<close>

definition addInformerToMap ::
    "go_error option \<Rightarrow> GroupVersionKind \<Rightarrow> informer_cache \<Rightarrow> (go_error + map_entry) \<times> informer_cache" where
  "addInformerToMap mapping gvk c =
     (case informersByGVK c gvk of
        Some i \<Rightarrow> (Inr i, c)
      | None \<Rightarrow>
          (case mapping of
             Some err \<Rightarrow> (Inl err, c)
           | None \<Rightarrow>
               let i = \<lparr>meId = icNextId c, meRunning = icStarted c, meHandlers = 0\<rparr>
               in (Inr i, c\<lparr>icNextId := Suc (icNextId c), informersByGVK := (informersByGVK c)(gvk \<mapsto> i)\<rparr>)))"

definition map_Get ::
    "go_error option \<Rightarrow> bool \<Rightarrow> GroupVersionKind \<Rightarrow> informer_cache \<Rightarrow> (go_error + bool \<times> map_entry) \<times> informer_cache" where
  "map_Get mapping synced gvk c =
     (case addInformerToMap mapping gvk c of
        (Inl err, c1) \<Rightarrow> (Inl err, c1)
      | (Inr i, c1) \<Rightarrow>
          if icStarted c1 \<and> \<not> synced
          then (Inl (Errorf ''Timeout: failed waiting for *unstructured.Unstructured Informer to sync''), c1)
          else (Inr (icStarted c1, i), c1))"

text \<open>\<open>GetInformerForKind\<close>, and a handler added to the informer it returns.\<close>

definition GetInformerForKind ::
    "go_error option \<Rightarrow> bool \<Rightarrow> GroupVersionKind \<Rightarrow> informer_cache \<Rightarrow> (go_error + map_entry) \<times> informer_cache" where
  "GetInformerForKind mapping synced gvk c =
     (case map_Get mapping synced gvk c of
        (Inl err, c1) \<Rightarrow> (Inl err, c1)
      | (Inr (started, i), c1) \<Rightarrow> (Inr i, c1))"

definition AddEventHandler :: "GroupVersionKind \<Rightarrow> informer_cache \<Rightarrow> informer_cache" where
  "AddEventHandler gvk c =
     c\<lparr>informersByGVK := (informersByGVK c)(gvk := map_option (\<lambda>i. i\<lparr>meHandlers := Suc (meHandlers i)\<rparr>) (informersByGVK c gvk))\<rparr>"

text \<open>\<open>Get\<close> and \<open>List\<close> of the cache: the informer, then its reader; the use is recorded at \<open>now\<close>.\<close>

definition cache_update :: "gotime \<Rightarrow> GroupVersionKind \<Rightarrow> informer_cache \<Rightarrow> informer_cache" where
  "cache_update now gvk c = c\<lparr>icLastUsed := (icLastUsed c)(gvk \<mapsto> now)\<rparr>"

definition cache_read ::
    "go_error option \<Rightarrow> bool \<Rightarrow> gotime \<Rightarrow> GroupVersionKind \<Rightarrow> (map_entry \<Rightarrow> go_error + 'r) \<Rightarrow> informer_cache \<Rightarrow>
     (go_error + 'r) \<times> informer_cache" where
  "cache_read mapping synced now gvk rd c =
     (case map_Get mapping synced gvk c of
        (Inl err, c1) \<Rightarrow> (Inl err, c1)
      | (Inr (started, i), c1) \<Rightarrow>
          if \<not> started then (Inl (Errorf ''the cache is not started, can not read objects''), c1)
          else (rd i, cache_update now gvk c1))"

text \<open>\<open>GarbageCollectInformers\<close>, over the kinds of the map in some order.\<close>

definition collect_one :: "gotime \<Rightarrow> (GroupVersionKind \<Rightarrow> bool) \<Rightarrow> GroupVersionKind \<Rightarrow> informer_cache \<Rightarrow> informer_cache" where
  "collect_one now exclude gvk c =
     (case icLastUsed c gvk of
        None \<Rightarrow> c
      | Some lastUsed \<Rightarrow>
          if exclude gvk then c
          else if lastUsed + icCleanup c < now
          then (map_Delete gvk c)\<lparr>icLastUsed := (icLastUsed c)(gvk := None)\<rparr>
          else c)"

definition GarbageCollectInformers ::
    "gotime \<Rightarrow> (GroupVersionKind \<Rightarrow> bool) \<Rightarrow> GroupVersionKind list \<Rightarrow> informer_cache \<Rightarrow> informer_cache" where
  "GarbageCollectInformers now exclude gvks c = fold (collect_one now exclude) gvks c"

text \<open>The two halves of \<open>Start\<close>: every informer runs; every informer stops.\<close>

definition map_Start :: "informer_cache \<Rightarrow> informer_cache" where
  "map_Start c = c\<lparr>informersByGVK := (\<lambda>g. map_option (\<lambda>i. i\<lparr>meRunning := True\<rparr>) (informersByGVK c g)), icStarted := True\<rparr>"

definition map_Stop :: "GroupVersionKind list \<Rightarrow> informer_cache \<Rightarrow> informer_cache" where
  "map_Stop gvks c = fold map_Delete gvks c"

section \<open>Index keys\<close>

text \<open>A namespace as the API server allows it: no slash, and not the name reserved for all of them.\<close>

definition proper_namespace :: "string \<Rightarrow> bool" where
  "proper_namespace ns \<longleftrightarrow> CHR ''/'' \<notin> set ns \<and> ns \<noteq> allNamespacesNamespace"

lemma slash_split:
  "CHR ''/'' \<notin> set a \<Longrightarrow> CHR ''/'' \<notin> set b \<Longrightarrow> a @ CHR ''/'' # v = b @ CHR ''/'' # w \<Longrightarrow> a = b \<and> v = w"
proof (induction a arbitrary: b)
  case Nil
  then show ?case by (cases b) auto
next
  case (Cons x a)
  then show ?case by (cases b) auto
qed

lemma KeyToNamespacedKey_inj:
  assumes "proper_namespace a" and "proper_namespace b" and "KeyToNamespacedKey a v = KeyToNamespacedKey b w"
  shows "a = b \<and> v = w"
proof -
  let ?p = "\<lambda>n. if n \<noteq> [] then n else allNamespacesNamespace"
  have key: "KeyToNamespacedKey n x = ?p n @ CHR ''/'' # x" for n x
    by (cases n) (simp_all add: KeyToNamespacedKey_def)
  have slash: "CHR ''/'' \<notin> set (?p n)" if "proper_namespace n" for n
    using that by (auto simp: proper_namespace_def)
  have "?p a = ?p b \<and> v = w"
    by (rule slash_split [OF slash [OF assms(1)] slash [OF assms(2)]]) (use assms(3) in \<open>simp only: key\<close>)
  then show ?thesis using assms(1,2) by (auto simp: proper_namespace_def split: if_splits)
qed

lemma indexFunc_iff:
  assumes "proper_namespace (nsOf obj)" and "proper_namespace ns"
  shows "KeyToNamespacedKey ns val \<in> set (indexFunc extractor nsOf obj) \<longleftrightarrow>
    val \<in> set (extractor obj) \<and> (ns = [] \<or> nsOf obj = ns)"
proof -
  have nil: "proper_namespace []" by (simp add: proper_namespace_def)
  have "KeyToNamespacedKey ns val \<in> KeyToNamespacedKey n ` A \<longleftrightarrow> ns = n \<and> val \<in> A" if "proper_namespace n" for n A
    using KeyToNamespacedKey_inj [OF assms(2) that] by blast
  then show ?thesis
    using assms(1) nil by (cases "nsOf obj = []"; cases "ns = []") (simp_all add: indexFunc_def Let_def, blast+)
qed

lemma keep_labelled_set:
  "keep_labelled ix opts items = Inr res \<Longrightarrow>
   set res = {x \<in> set items. case loLabels opts of None \<Rightarrow> True | Some sel \<Rightarrow> sel (ixLabels ix x)} \<and>
   (\<forall>x \<in> set items. ixIsObject ix x)"
proof (induction items arbitrary: res)
  case Nil
  then show ?case by simp
next
  case (Cons x items)
  obtain r where r: "keep_labelled ix opts items = Inr r" and x: "ixIsObject ix x"
    using Cons.prems by (cases "keep_labelled ix opts items") (auto split: if_splits)
  have res: "res = (if (case loLabels opts of None \<Rightarrow> False | Some sel \<Rightarrow> \<not> sel (ixLabels ix x)) then r else x # r)"
    using Cons.prems by (simp add: r x split: if_splits)
  show ?case using Cons.IH [OF r] x unfolding res by (cases "loLabels opts") auto
qed

text \<open>What the index over a field holds: every stored object under each of its keys.\<close>

definition index_ok :: "'o indexer \<Rightarrow> string \<Rightarrow> ('o \<Rightarrow> string list) \<Rightarrow> bool" where
  "index_ok ix field extractor \<longleftrightarrow>
     (\<forall>k. \<exists>objs. ixByIndex ix (FieldIndexName field) k = Inr objs \<and>
        set objs = {x \<in> set (ixList ix). k \<in> set (indexFunc extractor (ixNamespace ix) x)}) \<and>
     (\<forall>x \<in> set (ixList ix). proper_namespace (ixNamespace ix x))"

section \<open>Informers are not stopped twice\<close>

definition cache_inv :: "informer_cache \<Rightarrow> bool" where
  "cache_inv c \<longleftrightarrow> distinct (icClosed c) \<and> (\<forall>n \<in> set (icClosed c). n < icNextId c) \<and>
     (\<forall>g i. informersByGVK c g = Some i \<longrightarrow> meId i < icNextId c \<and> meId i \<notin> set (icClosed c) \<and> meRunning i = icStarted c) \<and>
     (\<forall>g h i j. informersByGVK c g = Some i \<longrightarrow> informersByGVK c h = Some j \<longrightarrow> meId i = meId j \<longrightarrow> g = h)"

lemma cache_invD:
  assumes "cache_inv c"
  shows "distinct (icClosed c)" and "n \<in> set (icClosed c) \<Longrightarrow> n < icNextId c"
    and "informersByGVK c g = Some i \<Longrightarrow> meId i < icNextId c \<and> meId i \<notin> set (icClosed c) \<and> meRunning i = icStarted c"
    and "informersByGVK c g = Some i \<Longrightarrow> informersByGVK c h = Some j \<Longrightarrow> meId i = meId j \<Longrightarrow> g = h"
  using assms unfolding cache_inv_def by blast+

lemma cache_invI [inv_intros]:
  assumes "distinct (icClosed c)" and "\<And>n. n \<in> set (icClosed c) \<Longrightarrow> n < icNextId c"
    and "\<And>g i. informersByGVK c g = Some i \<Longrightarrow> meId i < icNextId c \<and> meId i \<notin> set (icClosed c) \<and> meRunning i = icStarted c"
    and "\<And>g h i j. informersByGVK c g = Some i \<Longrightarrow> informersByGVK c h = Some j \<Longrightarrow> meId i = meId j \<Longrightarrow> g = h"
  shows "cache_inv c"
  using assms unfolding cache_inv_def by blast

lemma map_Delete_inv [inv_intros]:
  assumes inv: "cache_inv c"
  shows "cache_inv (map_Delete gvk c)"
proof (cases "informersByGVK c gvk")
  case None
  then show ?thesis using inv by (simp add: map_Delete_def)
next
  case (Some i)
  note new = cache_invD(3) [OF inv Some]
  have other: "meId j \<noteq> meId i" if "informersByGVK c g = Some j" "g \<noteq> gvk" for g j
    using cache_invD(4) [OF inv that(1) Some] that(2) by blast
  show ?thesis
  proof (rule cache_invI)
    show "distinct (icClosed (map_Delete gvk c))"
      using cache_invD(1) [OF inv] new by (simp add: map_Delete_def Some close_chan_def)
  next
    fix n assume "n \<in> set (icClosed (map_Delete gvk c))"
    then show "n < icNextId (map_Delete gvk c)"
      using cache_invD(2) [OF inv] new by (auto simp: map_Delete_def Some close_chan_def)
  next
    fix g j assume "informersByGVK (map_Delete gvk c) g = Some j"
    then have j: "informersByGVK c g = Some j" "g \<noteq> gvk"
      by (auto simp: map_Delete_def Some close_chan_def split: if_splits)
    then show "meId j < icNextId (map_Delete gvk c) \<and> meId j \<notin> set (icClosed (map_Delete gvk c)) \<and>
        meRunning j = icStarted (map_Delete gvk c)"
      using cache_invD(3) [OF inv j(1)] other [OF j] by (simp add: map_Delete_def Some close_chan_def)
  next
    fix g h j k assume "informersByGVK (map_Delete gvk c) g = Some j" "informersByGVK (map_Delete gvk c) h = Some k" "meId j = meId k"
    then show "g = h"
      using cache_invD(4) [OF inv] by (auto simp: map_Delete_def Some close_chan_def split: if_splits)
  qed
qed

lemma addInformerToMap_inv [inv_intros]:
  assumes inv: "cache_inv c"
  shows "cache_inv (snd (addInformerToMap mapping gvk c))"
proof (cases "informersByGVK c gvk = None \<and> mapping = None")
  case False
  then have "snd (addInformerToMap mapping gvk c) = c"
    by (cases "informersByGVK c gvk"; cases mapping) (simp_all add: addInformerToMap_def)
  then show ?thesis using inv by simp
next
  case True
  let ?i = "\<lparr>meId = icNextId c, meRunning = icStarted c, meHandlers = 0\<rparr>"
  let ?c = "c\<lparr>icNextId := Suc (icNextId c), informersByGVK := (informersByGVK c)(gvk \<mapsto> ?i)\<rparr>"
  have c: "snd (addInformerToMap mapping gvk c) = ?c" using True by (simp add: addInformerToMap_def Let_def)
  have old: "meId j < icNextId c" if "informersByGVK c g = Some j" for g j using cache_invD(3) [OF inv that] by simp
  have fresh: "icNextId c \<notin> set (icClosed c)" using cache_invD(2) [OF inv] by blast
  show ?thesis unfolding c
  proof (rule cache_invI)
    show "distinct (icClosed ?c)" using cache_invD(1) [OF inv] by simp
  next
    fix n assume "n \<in> set (icClosed ?c)"
    then show "n < icNextId ?c" using cache_invD(2) [OF inv, of n] by simp
  next
    fix g j assume "informersByGVK ?c g = Some j"
    then show "meId j < icNextId ?c \<and> meId j \<notin> set (icClosed ?c) \<and> meRunning j = icStarted ?c"
      using cache_invD(3) [OF inv, of g j] fresh by (auto split: if_splits)
  next
    fix g h j k assume "informersByGVK ?c g = Some j" "informersByGVK ?c h = Some k" "meId j = meId k"
    then show "g = h"
      using cache_invD(4) [OF inv, of g j h k] old [of g j] old [of h k] by (auto split: if_splits)
  qed
qed

lemma map_Get_snd [simp]: "snd (map_Get mapping synced gvk c) = snd (addInformerToMap mapping gvk c)"
  by (simp add: map_Get_def split: prod.splits sum.splits)

lemma GetInformerForKind_snd [simp]:
  "snd (GetInformerForKind mapping synced gvk c) = snd (addInformerToMap mapping gvk c)"
proof -
  obtain r c1 where g: "map_Get mapping synced gvk c = (r, c1)" by fastforce
  have "c1 = snd (addInformerToMap mapping gvk c)" using map_Get_snd [of mapping synced gvk c] by (simp add: g)
  then show ?thesis by (cases r) (simp_all add: GetInformerForKind_def g split: prod.splits)
qed

lemma AddEventHandler_inv [inv_intros]: "cache_inv c \<Longrightarrow> cache_inv (AddEventHandler gvk c)"
  by (rule cache_invI) (auto simp: AddEventHandler_def split: if_splits dest: cache_invD)

lemma cache_update_inv [simp]: "cache_inv (cache_update now gvk c) = cache_inv c"
  by (simp add: cache_inv_def cache_update_def)

lemma cache_read_state:
  "\<exists>u. snd (cache_read mapping synced now gvk rd c) = (snd (addInformerToMap mapping gvk c))\<lparr>icLastUsed := u\<rparr>"
proof -
  obtain r c1 where g: "map_Get mapping synced gvk c = (r, c1)" by fastforce
  then have "c1 = snd (addInformerToMap mapping gvk c)" using map_Get_snd [of mapping synced gvk c] by simp
  moreover have "\<exists>u. snd (cache_read mapping synced now gvk rd c) = c1\<lparr>icLastUsed := u\<rparr>"
  proof (cases "\<exists>i. r = Inr (True, i)")
    case True
    then show ?thesis by (auto simp: cache_read_def g cache_update_def)
  next
    case False
    then have "snd (cache_read mapping synced now gvk rd c) = c1"
      by (auto simp: cache_read_def g split: sum.splits prod.splits)
    then show ?thesis by (intro exI [of _ "icLastUsed c1"]) simp
  qed
  ultimately show ?thesis by simp
qed

lemma icLastUsed_inv [simp]: "cache_inv (c\<lparr>icLastUsed := u\<rparr>) = cache_inv c"
  by (simp add: cache_inv_def)

lemma collect_one_inv [inv_intros]: "cache_inv c \<Longrightarrow> cache_inv (collect_one now exclude gvk c)"
  by (auto simp: collect_one_def intro: inv_intros split: option.splits)

lemma collect_fold_inv: "cache_inv c \<Longrightarrow> cache_inv (fold (collect_one now exclude) gvks c)"
  by (induction gvks arbitrary: c) (auto intro: inv_intros)

text \<open>A collection keeps the excluded kinds' informers as they are.\<close>

lemma collect_fold_excluded:
  "exclude g \<Longrightarrow> informersByGVK (fold (collect_one now exclude) gvks c) g = informersByGVK c g"
proof (induction gvks arbitrary: c)
  case Nil
  then show ?case by simp
next
  case (Cons gvk gvks)
  have "informersByGVK (collect_one now exclude gvk c) g = informersByGVK c g"
    using Cons.prems by (auto simp: collect_one_def map_Delete_def close_chan_def split: option.splits)
  then show ?case using Cons by simp
qed

lemma collect_fold_started: "icStarted (fold (collect_one now exclude) gvks c) = icStarted c"
proof (induction gvks arbitrary: c)
  case (Cons gvk gvks)
  have "icStarted (collect_one now exclude gvk c) = icStarted c"
    by (auto simp: collect_one_def map_Delete_def close_chan_def split: option.splits)
  then show ?case using Cons by simp
qed simp

lemma map_Start_inv [inv_intros]: "cache_inv c \<Longrightarrow> cache_inv (map_Start c)"
  by (rule cache_invI) (auto simp: map_Start_def dest: cache_invD)

section \<open>The manager on top of the cache\<close>

record system =
  sysManager :: manager
  sysCache :: informer_cache

text \<open>
  For the kinds that \<open>addNoLock\<close> gets an informer for and adds its handler to, in order; the manager's
  own model asks an oracle whether that fails.
\<close>

definition attach :: "GroupVersionKind list \<Rightarrow> informer_cache \<Rightarrow> informer_cache" where
  "attach gvks c = fold (\<lambda>gvk c. AddEventHandler gvk (snd (GetInformerForKind None True gvk c))) gvks c"

definition newly_handled :: "manager \<Rightarrow> manager \<Rightarrow> GroupVersionKind set" where
  "newly_handled m m' = {g. informers m g = None \<and> informers m' g \<noteq> None}"

text \<open>
  The steps while the cache runs: an update or deletion of a policy; the garbage collection of the
  manager and then, with the kinds it must keep, of the cache; a read of the cache by anybody, also of
  a kind nobody watches; the start of the informers.
\<close>

inductive system_step :: "system \<Rightarrow> system \<Rightarrow> bool" where
  policy: "manager_step (sysManager s) op m \<Longrightarrow> op \<noteq> OpCleanup \<Longrightarrow> op \<noteq> OpGarbageCollect \<Longrightarrow>
    set gvks = newly_handled (sysManager s) m \<Longrightarrow>
    system_step s \<lparr>sysManager = m, sysCache = attach gvks (sysCache s)\<rparr>"
| collect: "garbageCollectInformers (sysManager s) = (m, exclude) \<Longrightarrow>
    system_step s \<lparr>sysManager = m, sysCache = GarbageCollectInformers now exclude gvks (sysCache s)\<rparr>"
| read: "system_step s (s\<lparr>sysCache := snd (cache_read mapping synced now gvk
    (rd :: map_entry \<Rightarrow> go_error + meta_object list) (sysCache s))\<rparr>)"
| start: "system_step s (s\<lparr>sysCache := map_Start (sysCache s)\<rparr>)"

definition newCache :: "gotime \<Rightarrow> informer_cache" where
  "newCache cleanup = \<lparr>informersByGVK = (\<lambda>_. None), icStarted = False, icNextId = 0, icClosed = [],
     icLastUsed = (\<lambda>_. None), icCleanup = cleanup\<rparr>"

inductive system_reachable :: "gotime \<Rightarrow> system \<Rightarrow> bool" for cleanup where
  init: "system_reachable cleanup \<lparr>sysManager = newManager, sysCache = newCache cleanup\<rparr>"
| step: "system_reachable cleanup s \<Longrightarrow> system_step s s' \<Longrightarrow> system_reachable cleanup s'"

text \<open>Every kind with a handler has an informer that the handler is attached to.\<close>

definition attached :: "system \<Rightarrow> bool" where
  "attached s \<longleftrightarrow> (\<forall>g. informers (sysManager s) g = None \<or>
     (\<exists>i. informersByGVK (sysCache s) g = Some i \<and> meHandlers i > 0))"

lemma addInformerToMap_entry:
  "informersByGVK (snd (addInformerToMap mapping gvk c)) g =
     (if g = gvk \<and> informersByGVK c g = None \<and> mapping = None
      then Some \<lparr>meId = icNextId c, meRunning = icStarted c, meHandlers = 0\<rparr> else informersByGVK c g)"
  by (cases "informersByGVK c gvk"; cases mapping) (auto simp: addInformerToMap_def Let_def)

definition has_handler :: "informer_cache \<Rightarrow> GroupVersionKind \<Rightarrow> bool" where
  "has_handler c g \<longleftrightarrow> (\<exists>i. informersByGVK c g = Some i \<and> meHandlers i > 0)"

lemma attach_step:
  "has_handler (AddEventHandler gvk (snd (GetInformerForKind None True gvk c))) g \<longleftrightarrow> has_handler c g \<or> g = gvk"
  by (auto simp: has_handler_def AddEventHandler_def addInformerToMap_entry)

lemma attach_handlers: "has_handler (attach gvks c) g \<longleftrightarrow> has_handler c g \<or> g \<in> set gvks"
proof (induction gvks arbitrary: c)
  case Nil
  show ?case by (simp add: attach_def)
next
  case (Cons gvk gvks)
  show ?case
    using Cons [of "AddEventHandler gvk (snd (GetInformerForKind None True gvk c))"] attach_step [of gvk c g]
    by (auto simp: attach_def)
qed

lemma attach_inv: "cache_inv c \<Longrightarrow> cache_inv (attach gvks c)"
proof (induction gvks arbitrary: c)
  case Nil
  then show ?case by (simp add: attach_def)
next
  case (Cons gvk gvks)
  have "cache_inv (AddEventHandler gvk (snd (addInformerToMap None gvk c)))"
    by (rule AddEventHandler_inv [OF addInformerToMap_inv [OF Cons.prems]])
  from Cons.IH [OF this] show ?case by (simp add: attach_def)
qed

lemma attached_iff: "attached s \<longleftrightarrow> (\<forall>g. informers (sysManager s) g \<noteq> None \<longrightarrow> has_handler (sysCache s) g)"
  unfolding attached_def has_handler_def imp_conv_disj not_not by (rule refl)

lemma system_step_inv:
  assumes "system_step s s'" and "attached s" and "cache_inv (sysCache s)" and "manager_reachable (sysManager s)"
  shows "attached s' \<and> cache_inv (sysCache s') \<and> manager_reachable (sysManager s')"
  using assms(1)
proof (cases rule: system_step.cases)
  case (policy op m gvks)
  have "has_handler (attach gvks (sysCache s)) g" if "informers m g \<noteq> None" for g
    using that assms(2) policy(5) by (auto simp: attached_iff attach_handlers newly_handled_def)
  then show ?thesis
    using policy attach_inv [OF assms(3)] manager_reachable.step [OF assms(4) policy(2)] by (simp add: attached_iff)
next
  case (collect m exclude now gvks)
  have m: "m = fst (garbageCollectInformers (sysManager s))" "exclude = snd (garbageCollectInformers (sysManager s))"
    using collect(2) by simp_all
  have keep: "informers m g \<noteq> None \<Longrightarrow> exclude g \<and> informers (sysManager s) g \<noteq> None" for g
    by (auto simp: m garbageCollectInformers_def split: if_splits)
  have "has_handler (GarbageCollectInformers now exclude gvks (sysCache s)) g" if "informers m g \<noteq> None" for g
    using keep [OF that] assms(2)
    by (simp add: attached_iff has_handler_def GarbageCollectInformers_def collect_fold_excluded)
  moreover have "manager_reachable m" unfolding m by (rule manager_reachable.step [OF assms(4) manager_step.gc])
  ultimately show ?thesis
    using collect collect_fold_inv [OF assms(3)] by (simp add: attached_iff GarbageCollectInformers_def)
next
  case (read mapping synced now gvk rd)
  obtain u where u: "snd (cache_read mapping synced now gvk rd (sysCache s)) =
      (snd (addInformerToMap mapping gvk (sysCache s)))\<lparr>icLastUsed := u\<rparr>"
    using cache_read_state by blast
  have "has_handler (snd (addInformerToMap mapping gvk (sysCache s))) g" if "has_handler (sysCache s) g" for g
    using that by (auto simp: has_handler_def addInformerToMap_entry)
  then show ?thesis
    using read assms addInformerToMap_inv [OF assms(3)] by (simp add: attached_iff u has_handler_def)
next
  case start
  then show ?thesis
    using assms map_Start_inv [OF assms(3)] by (auto simp: attached_iff has_handler_def map_Start_def)
qed

lemma system_reachable_inv:
  "system_reachable cleanup s \<Longrightarrow> attached s \<and> cache_inv (sysCache s) \<and> manager_reachable (sysManager s)"
proof (induction rule: system_reachable.induct)
  case init
  then show ?case
    by (auto simp: attached_def newManager_def newCache_def cache_inv_def intro: manager_reachable.init [unfolded newManager_def])
next
  case (step s s')
  then show ?case using system_step_inv by blast
qed

section \<open>Properties\<close>

text \<open>
  C31: however policies come and go, caches are read and informers collected, every kind that a
  running policy watches has an informer in the cache that the manager's handler is attached to,
  which runs if the cache was started and whose stop channel is open; and no stop channel is ever
  closed twice, which would be a panic.
\<close>

theorem watched_kinds_stay_attached:
  assumes "system_reachable cleanup s" and "policies (sysManager s) name = Some e" and "g \<in> set (peGVKs e)"
  shows "(\<exists>i. informersByGVK (sysCache s) g = Some i \<and> meHandlers i > 0 \<and> meRunning i = icStarted (sysCache s) \<and>
      meId i \<notin> set (icClosed (sysCache s))) \<and> distinct (icClosed (sysCache s))"
proof -
  have inv: "attached s" "cache_inv (sysCache s)" "manager_inv (sysManager s)"
    using system_reachable_inv [OF assms(1)] manager_reachable_inv by blast+
  have "informers (sysManager s) g \<noteq> None"
    using manager_invD(1) [OF inv(3) assms(2)] assms(3) by (simp add: entry_ok_def)
  then obtain i where "informersByGVK (sysCache s) g = Some i" "meHandlers i > 0"
    using inv(1) unfolding attached_iff has_handler_def by blast
  then show ?thesis using cache_invD(1,3) [OF inv(2)] by blast
qed

theorem watched_kinds_stay_attached_witness:
  "\<exists>s i. system_reachable 60 s \<and> informersByGVK (sysCache s) \<lparr>gvkGroup = [], gvkVersion = ''v1'', gvkKind = ''Pod''\<rparr> = Some i \<and>
     meHandlers i > 0"
proof -
  let ?g = "\<lparr>gvkGroup = [], gvkVersion = ''v1'', gvkKind = ''Pod''\<rparr>"
  let ?s0 = "\<lparr>sysManager = newManager, sysCache = newCache 60\<rparr>"
  have m: "manager_step newManager (OpUpdate example_policy True) example_manager"
  proof -
    have "order_ok example_manager_env" by (simp add: order_ok_def example_manager_env_def)
    then show ?thesis
      by (rule manager_step.update [where err = "snd (manager_Update example_manager_env example_policy True newManager)"])
        (simp add: example_manager_def)
  qed
  have "finite (newly_handled newManager example_manager)"
  proof (rule finite_subset [of _ "{?g}"])
    have gvks: "gvksFromPolicy example_manager_env example_policy = Inr [?g]" by (rule example_gvks)
    show "newly_handled newManager example_manager \<subseteq> {?g}"
      by (auto simp: newly_handled_def example_manager_def manager_Update_def gvks newManager_def addNoLock_def Let_def
          add_to_handlers_def split: if_splits option.splits)
  qed simp
  then obtain gvks where gvks: "set gvks = newly_handled newManager example_manager"
    using finite_list by blast
  have r: "system_reachable 60 \<lparr>sysManager = example_manager, sysCache = attach gvks (newCache 60)\<rparr>"
    using system_reachable.step [OF system_reachable.init system_step.policy [of ?s0 _ _ gvks, OF _ _ _ _]] m gvks by simp
  have "policies example_manager ''p.example.com'' = Some (the (policies example_manager ''p.example.com''))"
    using example_entry by auto
  then show ?thesis
    using watched_kinds_stay_attached [OF r, of "''p.example.com''" _ ?g] example_entry r by (metis system.select_convs(1))
qed

text \<open>
  C32: listing by a field reads off the index what filtering every stored object would: the objects
  whose field has the value, in the asked namespace or, without one, in all of them, and with matching
  labels. Namespaces must be names that the API server allows: the index keys of others can clash.
\<close>

theorem reader_List_by_field:
  assumes "index_ok ix field extractor" and "proper_namespace ns"
    and "reader_List ix \<lparr>loField = Some [(field, ''='', val)], loNamespace = ns, loLabels = sel\<rparr> = Inr objs"
  shows "set objs = {x \<in> set (ixList ix). val \<in> set (extractor x) \<and> (ns = [] \<or> ixNamespace ix x = ns) \<and>
    (case sel of None \<Rightarrow> True | Some matches \<Rightarrow> matches (ixLabels ix x))}"
proof -
  obtain found where f: "ixByIndex ix (FieldIndexName field) (KeyToNamespacedKey ns val) = Inr found"
    "set found = {x \<in> set (ixList ix). KeyToNamespacedKey ns val \<in> set (indexFunc extractor (ixNamespace ix) x)}"
    using assms(1) [unfolded index_ok_def, THEN conjunct1, rule_format, of "KeyToNamespacedKey ns val"] by blast
  have proper: "proper_namespace (ixNamespace ix x)" if "x \<in> set (ixList ix)" for x
    using assms(1) that by (simp add: index_ok_def)
  have found: "set found = {x \<in> set (ixList ix). val \<in> set (extractor x) \<and> (ns = [] \<or> ixNamespace ix x = ns)}"
    unfolding f(2) using indexFunc_iff [where nsOf = "ixNamespace ix", OF proper assms(2)] by blast
  have "keep_labelled ix \<lparr>loField = Some [(field, ''='', val)], loNamespace = ns, loLabels = sel\<rparr> found = Inr objs"
    using assms(3) by (simp add: reader_List_def listed_objects_def requiresExactMatch_def f(1))
  from keep_labelled_set [OF this] show ?thesis unfolding found by auto
qed

definition example_indexer :: "(string \<times> string) indexer" where
  "example_indexer =
     \<lparr>ixGetByKey = (\<lambda>k. Inr None),
      ixByIndex = (\<lambda>name k. Inr (filter (\<lambda>x. k \<in> set (indexFunc (\<lambda>x. [snd x]) fst x)) [(''default'', ''a''), (''kube-system'', ''a'')])),
      ixList = [(''default'', ''a''), (''kube-system'', ''a'')], ixNamespace = fst, ixLabels = (\<lambda>_. []),
      ixIsObject = (\<lambda>_. True), ixTypeName = (\<lambda>_. [])\<rparr>"

theorem reader_List_by_field_witness:
  "\<exists>objs. reader_List example_indexer \<lparr>loField = Some [(''spec.x'', ''='', ''a'')], loNamespace = ''default'', loLabels = None\<rparr> = Inr objs \<and>
     set objs = {(''default'', ''a'')}"
proof -
  have ok: "index_ok example_indexer ''spec.x'' (\<lambda>x. [snd x])"
    by (auto simp: index_ok_def example_indexer_def proper_namespace_def)
  have ns: "proper_namespace ''default''" by (simp add: proper_namespace_def)
  have keep: "\<exists>r. keep_labelled example_indexer opts items = Inr r" for opts items
    by (induction items) (auto simp: example_indexer_def split: option.splits)
  obtain objs where o1: "reader_List example_indexer \<lparr>loField = Some [(''spec.x'', ''='', ''a'')], loNamespace = ''default'', loLabels = None\<rparr> = Inr objs"
  proof -
    obtain found where "ixByIndex example_indexer (FieldIndexName ''spec.x'') (KeyToNamespacedKey ''default'' ''a'') = Inr found"
      by (simp add: example_indexer_def)
    then have "reader_List example_indexer \<lparr>loField = Some [(''spec.x'', ''='', ''a'')], loNamespace = ''default'', loLabels = None\<rparr> =
        keep_labelled example_indexer \<lparr>loField = Some [(''spec.x'', ''='', ''a'')], loNamespace = ''default'', loLabels = None\<rparr> found"
      by (simp only: reader_List_def listed_objects_def requiresExactMatch_def list_options.simps option.case list.case prod.case sum.case) simp
    then show ?thesis using keep that by metis
  qed
  have list: "ixList example_indexer = [(''default'', ''a''), (''kube-system'', ''a'')]" "ixNamespace example_indexer = fst"
    by (simp_all add: example_indexer_def)
  have pick: "{x \<in> set [(a, v), (b, v)]. v \<in> set [snd x] \<and> (a = [] \<or> fst x = a) \<and>
      (case None of None \<Rightarrow> True | Some matches \<Rightarrow> matches (f x))} = {(a, v)}"
    if "a \<noteq> []" "b \<noteq> a" for a b v :: string and f :: "string \<times> string \<Rightarrow> (string \<times> string) list"
    using that by auto
  have "set objs = {(''default'', ''a'')}"
    unfolding reader_List_by_field [OF ok ns o1] list by (rule pick) simp_all
  then show ?thesis using o1 by blast
qed

end
