(* ===== verification/CacheSetup.thy ===== *)
theory CacheSetup
  imports Cache Complex_Main
begin

text \<open>
  How the informer cache is put together (\<open>pkg/cache\<close>): its options, the list watcher of a kind, the resync
  period, the wait for the first sync, and the informers and indices that callers ask for. The REST
  mapper and the dynamic client are parameters; a request of the latter is what it asks for. Durations are in
  nanoseconds, the rounding of floating-point numbers is left out.
\<close>

section \<open>Options (cache.go)\<close>

record cache_options =
  opScheme :: bool \<comment> \<open>not nil\<close>
  opMapper :: bool
  opResync :: "int option"
  opCleanup :: "int option"
  opNamespace :: string

definition defaultOpts :: "cache_options \<Rightarrow> go_error + cache_options" where
  "defaultOpts opts =
     (if \<not> opScheme opts then Inl (Errorf ''need to define a scheme'')
      else if \<not> opMapper opts then Inl (Errorf ''need to define a rest mapper'')
      else if opResync opts = None then Inl (Errorf ''need to define a resync time'')
      else if opCleanup opts = None then Inl (Errorf ''need to define a cleanup time'')
      else Inr opts)"

text \<open>What the map of informers is set up with (wrapper\_map.go, informers\_map.go).\<close>

record map_settings =
  msResync :: int
  msNamespace :: string

definition newSpecificInformersMap :: "int \<Rightarrow> string \<Rightarrow> map_settings" where
  "newSpecificInformersMap resync namespace = \<lparr>msResync = resync, msNamespace = namespace\<rparr>"

definition NewInformersMap :: "int \<Rightarrow> string \<Rightarrow> map_settings" where
  "NewInformersMap resync namespace = newSpecificInformersMap resync namespace"

definition cache_New :: "cache_options \<Rightarrow> go_error + map_settings \<times> int" where
  "cache_New opts =
     (case defaultOpts opts of
        Inl err \<Rightarrow> Inl err
      | Inr opts' \<Rightarrow> Inr (NewInformersMap (the (opResync opts')) (opNamespace opts'), the (opCleanup opts')))"

text \<open>The options of \<open>main\<close>: six and three hours, no namespace.\<close>

definition main_cache_options :: cache_options where
  "main_cache_options =
     \<lparr>opScheme = True, opMapper = True, opResync = Some (6 * 3600 * 1000000000), opCleanup = Some (3 * 3600 * 1000000000),
      opNamespace = []\<rparr>"

lemma defaultOpts_iff:
  "defaultOpts opts = Inr opts' \<longleftrightarrow>
     opts' = opts \<and> opScheme opts \<and> opMapper opts \<and> opResync opts \<noteq> None \<and> opCleanup opts \<noteq> None"
  by (auto simp: defaultOpts_def)

lemma main_cache: "\<exists>ms. cache_New main_cache_options = Inr (ms, 10800000000000) \<and> msNamespace ms = []"
  by (simp add: cache_New_def main_cache_options_def defaultOpts_def NewInformersMap_def newSpecificInformersMap_def)

section \<open>The list watcher of a kind (informers\_map.go)\<close>

record rest_mapping =
  rmResource :: string
  rmRootScope :: bool

text \<open>What the dynamic client asks for: a resource, in one namespace or in all, listed or watched.\<close>

record 'o dyn_request =
  dqResource :: string
  dqNamespace :: "string option"
  dqWatch :: bool
  dqOptions :: 'o

record 'o list_watch =
  ListFunc :: "'o \<Rightarrow> 'o dyn_request"
  WatchFunc :: "'o \<Rightarrow> 'o dyn_request"

definition createUnstructuredListWatch ::
    "(GroupVersionKind \<Rightarrow> go_error + rest_mapping) \<Rightarrow> go_error option \<Rightarrow> ('o \<Rightarrow> 'o) \<Rightarrow> GroupVersionKind \<Rightarrow> map_settings \<Rightarrow>
     go_error + 'o list_watch" where
  "createUnstructuredListWatch RESTMapping newForConfig setWatch gvk ip =
     (case RESTMapping gvk of
        Inl err \<Rightarrow> Inl err
      | Inr mapping \<Rightarrow>
     (case newForConfig of
        Some err \<Rightarrow> Inl err
      | None \<Rightarrow>
          Inr \<lparr>ListFunc = (\<lambda>opts.
                 if msNamespace ip \<noteq> [] \<and> \<not> rmRootScope mapping
                 then \<lparr>dqResource = rmResource mapping, dqNamespace = Some (msNamespace ip), dqWatch = False, dqOptions = opts\<rparr>
                 else \<lparr>dqResource = rmResource mapping, dqNamespace = None, dqWatch = False, dqOptions = opts\<rparr>),
               WatchFunc = (\<lambda>opts.
                 let opts' = setWatch opts in
                 if msNamespace ip \<noteq> [] \<and> \<not> rmRootScope mapping
                 then \<lparr>dqResource = rmResource mapping, dqNamespace = Some (msNamespace ip), dqWatch = True, dqOptions = opts'\<rparr>
                 else \<lparr>dqResource = rmResource mapping, dqNamespace = None, dqWatch = True, dqOptions = opts'\<rparr>)\<rparr>))"

text \<open>An informer watches what it has listed: nothing can change unseen between the two.\<close>

lemma list_watch_same:
  assumes "createUnstructuredListWatch RESTMapping newForConfig setWatch gvk ip = Inr lw"
  shows "dqResource (ListFunc lw a) = dqResource (WatchFunc lw b) \<and> dqNamespace (ListFunc lw a) = dqNamespace (WatchFunc lw b)"
  using assms by (auto simp: createUnstructuredListWatch_def Let_def split: sum.splits option.splits)

lemma list_watch_namespace:
  assumes "createUnstructuredListWatch RESTMapping newForConfig setWatch gvk ip = Inr lw" and "RESTMapping gvk = Inr mapping"
  shows "dqNamespace (ListFunc lw a) = Some ns \<longleftrightarrow> ns \<noteq> [] \<and> msNamespace ip = ns \<and> \<not> rmRootScope mapping"
  using assms by (auto simp: createUnstructuredListWatch_def Let_def split: option.splits if_splits)

section \<open>The resync period\<close>

text \<open>\<open>factor\<close> is the draw of \<open>rand.Float64\<close>; a conversion to \<open>Duration\<close> cuts off the fraction.\<close>

definition resyncPeriod :: "int \<Rightarrow> real \<Rightarrow> int" where
  "resyncPeriod resync draw = (let factor = draw / 5 + 9 / 10 in \<lfloor>of_int resync * factor\<rfloor>)"

lemma resyncPeriod_bounds:
  assumes "0 \<le> draw" and "draw < 1" and "0 < resync"
  shows "9 * resync - 10 < 10 * resyncPeriod resync draw" and "10 * resyncPeriod resync draw < 11 * resync"
proof -
  define x where "x = of_int resync * (draw / 5 + 9 / 10)"
  have r: "resyncPeriod resync draw = \<lfloor>x\<rfloor>" by (simp add: resyncPeriod_def Let_def x_def)
  have "of_int resync * (9 / 10) \<le> x" "x < of_int resync * (11 / 10)"
    unfolding x_def using assms by (simp_all add: mult_left_mono mult_strict_left_mono)
  then have x: "9 * of_int resync \<le> 10 * x" "10 * x < 11 * of_int resync" by linarith+
  show "10 * resyncPeriod resync draw < 11 * resync" and "9 * resync - 10 < 10 * resyncPeriod resync draw"
    unfolding r using x by linarith+
qed

section \<open>The first sync\<close>

text \<open>The informers of the map, by their numbers; Go's map iteration gives the kinds in some order.\<close>

definition HasSyncedFuncs :: "GroupVersionKind list \<Rightarrow> informer_cache \<Rightarrow> nat list" where
  "HasSyncedFuncs gvks c = List.map_filter (\<lambda>g. map_option meId (informersByGVK c g)) gvks"

text \<open>
  \<open>WaitForCacheSync\<close> takes the informers that are there, then waits for the start, then for those informers.
  \<open>started\<close> and \<open>synced\<close> are what the two waits find before the context ends.
\<close>

definition WaitForCacheSync :: "GroupVersionKind list \<Rightarrow> informer_cache \<Rightarrow> bool \<Rightarrow> (nat \<Rightarrow> bool) \<Rightarrow> bool" where
  "WaitForCacheSync gvks c started synced =
     (let syncedFuncs = HasSyncedFuncs gvks c in
      if \<not> started then False else \<forall>i \<in> set syncedFuncs. synced i)"

lemma HasSyncedFuncs_set:
  "set gvks = dom (informersByGVK c) \<Longrightarrow> set (HasSyncedFuncs gvks c) = meId ` ran (informersByGVK c)"
  by (force simp: HasSyncedFuncs_def List.map_filter_def ran_def dom_def image_iff)

text \<open>A cache that has not been asked for a kind yet, as \<open>main\<close>'s, is synced as soon as it is started.\<close>

lemma WaitForCacheSync_iff:
  assumes "set gvks = dom (informersByGVK c)"
  shows "WaitForCacheSync gvks c started synced \<longleftrightarrow> started \<and> (\<forall>i \<in> ran (informersByGVK c). synced (meId i))"
  by (simp add: WaitForCacheSync_def Let_def HasSyncedFuncs_set [OF assms])

section \<open>Informers for objects\<close>

definition GetInformer ::
    "go_error + GroupVersionKind \<Rightarrow> go_error option \<Rightarrow> bool \<Rightarrow> informer_cache \<Rightarrow> (go_error + map_entry) \<times> informer_cache" where
  "GetInformer gvkForObject mapping synced c =
     (case gvkForObject of
        Inl err \<Rightarrow> (Inl err, c)
      | Inr gvk \<Rightarrow>
          (case map_Get mapping synced gvk c of
             (Inl err, c1) \<Rightarrow> (Inl err, c1)
           | (Inr (started, i), c1) \<Rightarrow> (Inr i, c1)))"

text \<open>\<open>AddIndexers\<close> of client-go refuses an informer that has started.\<close>

definition IndexField ::
    "go_error + GroupVersionKind \<Rightarrow> go_error option \<Rightarrow> bool \<Rightarrow> (map_entry \<Rightarrow> string \<Rightarrow> go_error option) \<Rightarrow> string \<Rightarrow>
     informer_cache \<Rightarrow> go_error option \<times> informer_cache" where
  "IndexField gvkForObject mapping synced addIndexers field c =
     (case GetInformer gvkForObject mapping synced c of
        (Inl err, c1) \<Rightarrow> (Some err, c1)
      | (Inr informer, c1) \<Rightarrow> (addIndexers informer (FieldIndexName field), c1))"

definition NeedLeaderElection :: bool where
  "NeedLeaderElection = False"

lemma GetInformer_for_kind:
  "GetInformer (Inr gvk) mapping synced c = GetInformerForKind mapping synced gvk c"
  by (simp add: GetInformer_def GetInformerForKind_def)

end
