(* ===== verification/GoMemory.thy ===== *)
theory GoMemory
  imports Prelude "HOL-Library.AList"
begin

text \<open>
  Memory as Go has it, for the code whose point is what it shares: values of the types that occur in the API
  objects, cells that hold a variable, an array or a map, what a value reads as, which cells it
  reaches, and the statements that generated deep-copy functions are made of. \<open>Time\<close> is a
  scalar: its pointer to a time zone is never written through.
\<close>

section \<open>Types, values and cells\<close>

datatype scalar = Str string | Boolean bool | Int8 "8 word" | Int32 "32 word" | Int64 "64 word" | Float64 "64 word" | Time int

datatype scalar_kind = StrK | BooleanK | Int8K | Int32K | Int64K | Float64K | TimeK

fun kind_of :: "scalar \<Rightarrow> scalar_kind" where
  "kind_of (Str _) = StrK"
| "kind_of (Boolean _) = BooleanK"
| "kind_of (Int8 _) = Int8K"
| "kind_of (Int32 _) = Int32K"
| "kind_of (Int64 _) = Int64K"
| "kind_of (Float64 _) = Float64K"
| "kind_of (Time _) = TimeK"

text \<open>
  \<open>AnyT\<close> is \<open>interface{}\<close> as decoded JSON uses it: \<open>nil\<close>, a string, a number, a truth value, a
  \<open>map[string]interface{}\<close> (\<open>AnyMapT\<close>) or a \<open>[]interface{}\<close>. A float is its bits.
\<close>

datatype gtype =
  ScalarT scalar_kind | StructT "(string \<times> gtype) list" | PtrT gtype | SliceT gtype | StringMapT | AnyMapT | AnyT

text \<open>A slice is an array, an offset into it and a length; \<open>None\<close> is \<open>nil\<close>.\<close>

datatype gval =
  ScalarV scalar
| StructV "(string \<times> gval) list"
| PtrV "nat option"
| SliceV "(nat \<times> nat \<times> nat) option"
| MapV "nat option"
| AnyMapV "nat option"
| NilV

datatype cell =
  Variable gval | Array "gval list" | StringMap "(string \<times> string) list" | AnyMap "(string \<times> gval) list"

type_synonym memory = "cell list"

abbreviation StringT :: gtype where "StringT \<equiv> ScalarT StrK"
abbreviation TimeT :: gtype where "TimeT \<equiv> ScalarT TimeK"

definition alloc :: "cell \<Rightarrow> memory \<Rightarrow> nat \<times> memory" where
  "alloc c m = (length m, m @ [c])"

definition extends :: "memory \<Rightarrow> memory \<Rightarrow> bool" where
  "extends m m' \<longleftrightarrow> (\<exists>xs. m' = m @ xs)"

lemma extends_refl [simp]: "extends m m"
  by (simp add: extends_def)

lemma extends_trans: "extends m1 m2 \<Longrightarrow> extends m2 m3 \<Longrightarrow> extends m1 m3"
  by (auto simp: extends_def)

lemma extends_append [simp]: "extends m (m @ xs)"
  by (simp add: extends_def)

lemma extends_length: "extends m m' \<Longrightarrow> length m \<le> length m'"
  by (auto simp: extends_def)

lemma extends_nth: "extends m m' \<Longrightarrow> a < length m \<Longrightarrow> m' ! a = m ! a"
  by (auto simp: extends_def nth_append)

text \<open>Cells that were allocated later can be written.\<close>

lemma extends_update: "extends m m' \<Longrightarrow> length m \<le> a \<Longrightarrow> extends m (m'[a := c])"
  by (auto simp: extends_def list_update_append)

text \<open>The fields of a struct.\<close>

definition field :: "string \<Rightarrow> gval \<Rightarrow> gval option" where
  "field f v = (case v of StructV vs \<Rightarrow> map_of vs f | _ \<Rightarrow> None)"

definition put_field :: "string \<Rightarrow> gval \<Rightarrow> gval \<Rightarrow> gval" where
  "put_field f x v = (case v of StructV vs \<Rightarrow> StructV (AList.update f x vs) | _ \<Rightarrow> v)"

lemma map_of_AList_update: "map_of (AList.update f x vs) g = (if g = f then Some x else map_of vs g)"
  by (simp add: AList.update_conv')

text \<open>Go's zero values.\<close>

fun zero :: "gtype \<Rightarrow> gval" where
  "zero (ScalarT StrK) = ScalarV (Str [])"
| "zero (ScalarT BooleanK) = ScalarV (Boolean False)"
| "zero (ScalarT Int8K) = ScalarV (Int8 0)"
| "zero (ScalarT Int32K) = ScalarV (Int32 0)"
| "zero (ScalarT Int64K) = ScalarV (Int64 0)"
| "zero (ScalarT Float64K) = ScalarV (Float64 0)"
| "zero (ScalarT TimeK) = ScalarV (Time (- 62135596800))"
| "zero (StructT Ts) = StructV (map (\<lambda>(f, T). (f, zero T)) Ts)"
| "zero (PtrT T) = PtrV None"
| "zero (SliceT T) = SliceV None"
| "zero StringMapT = MapV None"
| "zero AnyMapT = AnyMapV None"
| "zero AnyT = NilV"

section \<open>What a value reads as\<close>

text \<open>The value without its addresses: what \<open>reflect.DeepEqual\<close> compares.\<close>

datatype contents =
  Is scalar
| Fields "(string \<times> contents) list"
| Nil
| To contents
| Elems "contents list"
| Entries "(string \<times> string) list"
| Object "(string \<times> contents) list"
| Null

text \<open>
  \<open>reads m T v t A\<close>: in the memory \<open>m\<close> the value \<open>v\<close> has the type \<open>T\<close>, its contents are \<open>t\<close>, and \<open>A\<close> are the
  addresses that can be reached from it.
\<close>

inductive reads :: "memory \<Rightarrow> gtype \<Rightarrow> gval \<Rightarrow> contents \<Rightarrow> nat set \<Rightarrow> bool"
  and reads_fields :: "memory \<Rightarrow> (string \<times> gtype) list \<Rightarrow> (string \<times> gval) list \<Rightarrow> (string \<times> contents) list \<Rightarrow> nat set \<Rightarrow> bool"
  and reads_elems :: "memory \<Rightarrow> gtype \<Rightarrow> gval list \<Rightarrow> contents list \<Rightarrow> nat set \<Rightarrow> bool"
  for m where
  scalar: "kind_of s = k \<Longrightarrow> reads m (ScalarT k) (ScalarV s) (Is s) {}"
| struct: "reads_fields m Ts vs ts A \<Longrightarrow> reads m (StructT Ts) (StructV vs) (Fields ts) A"
| ptr_nil: "reads m (PtrT T) (PtrV None) Nil {}"
| ptr: "a < length m \<Longrightarrow> m ! a = Variable v \<Longrightarrow> reads m T v t A \<Longrightarrow> reads m (PtrT T) (PtrV (Some a)) (To t) (insert a A)"
| slice_nil: "reads m (SliceT T) (SliceV None) Nil {}"
| slice: "a < length m \<Longrightarrow> m ! a = Array vs \<Longrightarrow> off + n \<le> length vs \<Longrightarrow> reads_elems m T (take n (drop off vs)) ts A \<Longrightarrow>
    reads m (SliceT T) (SliceV (Some (a, off, n))) (Elems ts) (insert a A)"
| map_nil: "reads m StringMapT (MapV None) Nil {}"
| map: "a < length m \<Longrightarrow> m ! a = StringMap kvs \<Longrightarrow> distinct (map fst kvs) \<Longrightarrow>
    reads m StringMapT (MapV (Some a)) (Entries kvs) {a}"
| any_nil: "reads m AnyT NilV Null {}"
| any_scalar: "kind_of s \<in> {StrK, BooleanK, Int64K, Float64K} \<Longrightarrow> reads m AnyT (ScalarV s) (Is s) {}"
| any_slice: "reads m (SliceT AnyT) (SliceV x) t A \<Longrightarrow> reads m AnyT (SliceV x) t A"
| any_map: "reads m AnyMapT (AnyMapV x) t A \<Longrightarrow> reads m AnyT (AnyMapV x) t A"
| anymap_nil: "reads m AnyMapT (AnyMapV None) Nil {}"
| anymap: "a < length m \<Longrightarrow> m ! a = AnyMap kvs \<Longrightarrow> distinct (map fst kvs) \<Longrightarrow>
    reads_fields m (map (\<lambda>(k, v). (k, AnyT)) kvs) kvs ts A \<Longrightarrow>
    reads m AnyMapT (AnyMapV (Some a)) (Object ts) (insert a A)"
| no_fields: "reads_fields m [] [] [] {}"
| fields: "reads m T v t A \<Longrightarrow> reads_fields m Ts vs ts B \<Longrightarrow> reads_fields m ((f, T) # Ts) ((f, v) # vs) ((f, t) # ts) (A \<union> B)"
| no_elems: "reads_elems m T [] [] {}"
| elems: "reads m T v t A \<Longrightarrow> reads_elems m T vs ts B \<Longrightarrow> reads_elems m T (v # vs) (t # ts) (A \<union> B)"

inductive_cases reads_ptrE: "reads m (PtrT T) v t A"
inductive_cases reads_sliceE: "reads m (SliceT T) v t A"
inductive_cases reads_mapE: "reads m StringMapT v t A"
inductive_cases reads_anymapE: "reads m AnyMapT v t A"
inductive_cases reads_structE: "reads m (StructT Ts) v t A"
inductive_cases reads_scalarE: "reads m (ScalarT k) v t A"

text \<open>What can be reached is there.\<close>

lemma reads_bounded:
  shows "reads m T v t A \<Longrightarrow> A \<subseteq> {..<length m}"
    and "reads_fields m Ts vs ts A \<Longrightarrow> A \<subseteq> {..<length m}"
    and "reads_elems m T us ss A \<Longrightarrow> A \<subseteq> {..<length m}"
  by (induction rule: reads_reads_fields_reads_elems.inducts) auto

text \<open>A value reads the same in every memory that agrees on what it reaches.\<close>

definition agrees :: "nat set \<Rightarrow> memory \<Rightarrow> memory \<Rightarrow> bool" where
  "agrees A m m' \<longleftrightarrow> (\<forall>a\<in>A. a < length m' \<and> m' ! a = m ! a)"

lemma agrees_Un [simp]: "agrees (A \<union> B) m m' \<longleftrightarrow> agrees A m m' \<and> agrees B m m'"
  by (auto simp: agrees_def)

lemma agrees_insert [simp]: "agrees (insert a A) m m' \<longleftrightarrow> a < length m' \<and> m' ! a = m ! a \<and> agrees A m m'"
  by (auto simp: agrees_def)

lemma agrees_subset: "agrees A m m' \<Longrightarrow> B \<subseteq> A \<Longrightarrow> agrees B m m'"
  by (auto simp: agrees_def)

lemma reads_frame:
  shows "reads m T v t A \<Longrightarrow> agrees A m m' \<Longrightarrow> reads m' T v t A"
    and "reads_fields m Ts vs ts A \<Longrightarrow> agrees A m m' \<Longrightarrow> reads_fields m' Ts vs ts A"
    and "reads_elems m T us ss A \<Longrightarrow> agrees A m m' \<Longrightarrow> reads_elems m' T us ss A"
  by (induction rule: reads_reads_fields_reads_elems.inducts)
    (auto intro!: reads_reads_fields_reads_elems.intros)

lemma agrees_extends: "extends m m' \<Longrightarrow> A \<subseteq> {..<length m} \<Longrightarrow> agrees A m m'"
  using extends_length [of m m'] extends_nth [of m m'] by (auto simp: agrees_def)

lemma reads_extends:
  shows "reads m T v t A \<Longrightarrow> extends m m' \<Longrightarrow> reads m' T v t A"
    and "reads_fields m Ts vs ts A \<Longrightarrow> extends m m' \<Longrightarrow> reads_fields m' Ts vs ts A"
    and "reads_elems m T us ss A \<Longrightarrow> extends m m' \<Longrightarrow> reads_elems m' T us ss A"
  using reads_frame reads_bounded agrees_extends by metis+

text \<open>A zero value reaches nothing.\<close>

lemma reads_zero: "\<exists>t. reads m T (zero T) t {}"
proof (induction T rule: zero.induct)
  case (8 Ts)
  then have "\<exists>ts. reads_fields m Ts (map (\<lambda>(f, T). (f, zero T)) Ts) ts {}"
  proof (induction Ts)
    case Nil
    then show ?case using no_fields by auto
  next
    case (Cons x Ts)
    obtain f T where x: "x = (f, T)" by (cases x)
    obtain t ts where "reads m T (zero T) t {}" "reads_fields m Ts (map (\<lambda>(f, T). (f, zero T)) Ts) ts {}"
      using Cons x by fastforce
    from fields [OF this, of f] show ?case by (auto simp: x)
  qed
  then show ?case by (auto intro: struct)
qed (simp_all, (rule exI, rule scalar, simp)+, (rule exI, rule ptr_nil slice_nil map_nil anymap_nil any_nil)+)

end
