(* ===== verification/DeepCopy.thy ===== *)
theory DeepCopy
  imports GoMemory
begin

text \<open>
  The deep copies of the API objects: the types of \<open>pkg/apis\<close> field by field, and the functions that
  \<open>deepcopy-gen\<close> has generated for them (\<open>zz_generated.deepcopy.go\<close>), with those of
  \<open>k8s.io/apimachinery\<close> that they call. A reader of a cache may write to a copy; these theorems say that
  nobody else sees it.
\<close>

section \<open>The statements of the generated functions\<close>

text \<open>From the value that \<open>in\<close> points to, the value that is left where \<open>out\<close> points to.\<close>

type_synonym copier = "gval \<Rightarrow> memory \<Rightarrow> gval \<times> memory"

text \<open>\<open>*out = *in\<close>\<close>

definition plain :: copier where
  "plain v m = (v, m)"

text \<open>
  \<open>*out = *in\<close>, then a statement for each of some fields. The generator emits them in the order of the
  fields of the struct.
\<close>

fun copy_fields :: "(string \<times> copier) list \<Rightarrow> (string \<times> gval) list \<Rightarrow> memory \<Rightarrow> (string \<times> gval) list \<times> memory" where
  "copy_fields cs [] m = ([], m)"
| "copy_fields cs ((f, v) # vs) m =
     (let (v', m1) = (case map_of cs f of None \<Rightarrow> (v, m) | Some c \<Rightarrow> c v m);
          (vs', m2) = copy_fields cs vs m1
      in ((f, v') # vs', m2))"

definition struct_into :: "(string \<times> copier) list \<Rightarrow> copier" where
  "struct_into cs v m =
     (case v of StructV vs \<Rightarrow> apfst StructV (copy_fields cs vs m) | _ \<Rightarrow> (v, m))"

text \<open>\<open>if in.F != nil { in, out := &in.F, &out.F; *out = new(T); (*in).DeepCopyInto(*out) }\<close>\<close>

definition copy_ptr :: "copier \<Rightarrow> copier" where
  "copy_ptr c v m =
     (case v of
        PtrV (Some a) \<Rightarrow>
          (case m ! a of
             Variable x \<Rightarrow>
               (let (new, m1) = alloc (Variable x) m;
                    (x', m2) = c x m1
                in (PtrV (Some new), m2[new := Variable x']))
           | _ \<Rightarrow> (v, m))
      | _ \<Rightarrow> (v, m))"

text \<open>
  \<open>if in.F != nil { in, out := &in.F, &out.F; *out = make([]T, len(*in)); for i := range *in { ... } }\<close>.
  What \<open>make\<close> puts there is overwritten before it is read.
\<close>

fun copy_elems :: "copier \<Rightarrow> gval list \<Rightarrow> memory \<Rightarrow> gval list \<times> memory" where
  "copy_elems c [] m = ([], m)"
| "copy_elems c (v # vs) m =
     (let (v', m1) = c v m; (vs', m2) = copy_elems c vs m1 in (v' # vs', m2))"

definition copy_slice :: "copier \<Rightarrow> copier" where
  "copy_slice c v m =
     (case v of
        SliceV (Some (a, off, n)) \<Rightarrow>
          (case m ! a of
             Array xs \<Rightarrow>
               (let vs = take n (drop off xs);
                    (new, m1) = alloc (Array vs) m;
                    (vs', m2) = copy_elems c vs m1
                in (SliceV (Some (new, 0, length vs)), m2[new := Array vs']))
           | _ \<Rightarrow> (v, m))
      | _ \<Rightarrow> (v, m))"

text \<open>\<open>*out = make(map[string]string, len(*in)); for key, val := range *in { (*out)[key] = val }\<close>\<close>

definition copy_map :: copier where
  "copy_map v m =
     (case v of
        MapV (Some a) \<Rightarrow>
          (case m ! a of
             StringMap kvs \<Rightarrow>
               (let (new, m1) = alloc (StringMap []) m
                in (MapV (Some new), m1[new := StringMap (fold (\<lambda>(k, x). AList.update k x) kvs [])]))
           | _ \<Rightarrow> (v, m))
      | _ \<Rightarrow> (v, m))"

section \<open>The contract of a deep copy\<close>

text \<open>
  The copy reads as the original did, and everything it reaches has been allocated by the copier, which has
  written to nothing else.
\<close>

locale deep_copier =
  fixes c :: copier
    and T :: gtype
  assumes copies: "reads m T v t A \<Longrightarrow>
    \<exists>v' m' B. c v m = (v', m') \<and> extends m m' \<and> reads m' T v' t B \<and> B \<subseteq> {length m..<length m'}"
begin

text \<open>
  Whatever is then written to cells of the copy, the original reads as before, and whatever is written to
  cells of the original, the copy does.
\<close>

lemma independent:
  assumes "reads m T v t A" and "c v m = (v', m')"
  shows "\<exists>B. reads m' T v' t B \<and> A \<inter> B = {} \<and>
    (\<forall>m''. agrees (- B \<inter> {..<length m'}) m' m'' \<longrightarrow> reads m'' T v t A) \<and>
    (\<forall>m''. agrees (- A \<inter> {..<length m'}) m' m'' \<longrightarrow> reads m'' T v' t B)"
proof -
  obtain B where B: "extends m m'" "reads m' T v' t B" "B \<subseteq> {length m..<length m'}"
    using copies [OF assms(1)] assms(2) by auto
  have A: "A \<subseteq> {..<length m}" by (rule reads_bounded(1) [OF assms(1)])
  have disj: "A \<inter> B = {}" and bounds: "A \<subseteq> {..<length m'}" "B \<subseteq> {..<length m'}"
    using A B(3) extends_length [OF B(1)] by fastforce+
  have old: "reads m' T v t A" by (rule reads_extends(1) [OF assms(1) B(1)])
  have "reads m'' T v t A" if "agrees (- B \<inter> {..<length m'}) m' m''" for m''
    using reads_frame(1) [OF old agrees_subset [OF that]] disj bounds by blast
  moreover have "reads m'' T v' t B" if "agrees (- A \<inter> {..<length m'}) m' m''" for m''
    using reads_frame(1) [OF B(2) agrees_subset [OF that]] disj bounds by blast
  ultimately show ?thesis using B(2) disj by blast
qed

end

section \<open>Why the statements keep it\<close>

text \<open>A type without references is copied by the assignment.\<close>

fun flat :: "gtype \<Rightarrow> bool" where
  "flat (ScalarT k) \<longleftrightarrow> True"
| "flat (StructT Ts) \<longleftrightarrow> (\<forall>x\<in>set Ts. flat (snd x))"
| "flat _ \<longleftrightarrow> False"

lemma reads_flat:
  shows "reads m T v t A \<Longrightarrow> flat T \<Longrightarrow> A = {}"
    and "reads_fields m Ts vs ts A \<Longrightarrow> \<forall>x\<in>set Ts. flat (snd x) \<Longrightarrow> A = {}"
    and "reads_elems m U us ss A \<Longrightarrow> flat U \<Longrightarrow> A = {}"
  by (induction rule: reads_reads_fields_reads_elems.inducts) auto

lemma deep_plain: "flat T \<Longrightarrow> deep_copier plain T"
  by unfold_locales (auto simp: plain_def dest: reads_flat(1))

text \<open>The fields that are not mentioned have to be flat, and the others copied.\<close>

definition deep_fields :: "(string \<times> copier) list \<Rightarrow> (string \<times> gtype) list \<Rightarrow> bool" where
  "deep_fields cs Ts \<longleftrightarrow>
     (\<forall>(f, T)\<in>set Ts. case map_of cs f of None \<Rightarrow> flat T | Some c \<Rightarrow> deep_copier c T)"

lemma deep_fields_Nil: "deep_fields cs []"
  by (simp add: deep_fields_def)

lemma deep_fields_Cons:
  "deep_fields cs ((f, T) # Ts) \<longleftrightarrow> (case map_of cs f of None \<Rightarrow> flat T | Some c \<Rightarrow> deep_copier c T) \<and> deep_fields cs Ts"
  by (simp add: deep_fields_def)

lemma field_copied:
  assumes "case map_of cs f of None \<Rightarrow> flat T | Some c \<Rightarrow> deep_copier c T" and "reads m T v t A"
  obtains v' m' B where "(case map_of cs f of None \<Rightarrow> (v, m) | Some c \<Rightarrow> c v m) = (v', m')" "extends m m'"
    "reads m' T v' t B" "B \<subseteq> {length m..<length m'}"
proof (cases "map_of cs f")
  case None
  then show thesis using that [of v m "{}"] assms reads_flat(1) by fastforce
next
  case (Some c)
  then show thesis using that deep_copier.copies [of c T, OF _ assms(2)] assms(1) by fastforce
qed

lemma copy_fields_deep:
  assumes "deep_fields cs Ts" and "reads_fields m Ts vs ts A"
  shows "\<exists>vs' m' B. copy_fields cs vs m = (vs', m') \<and> extends m m' \<and> reads_fields m' Ts vs' ts B \<and>
    B \<subseteq> {length m..<length m'}"
  using assms
proof (induction vs arbitrary: m Ts ts A)
  case Nil
  then show ?case by (auto elim: reads_fields.cases intro: no_fields)
next
  case (Cons fv vs)
  obtain f v T Ts' t ts' A1 A2 where c: "fv = (f, v)" "Ts = (f, T) # Ts'" "ts = (f, t) # ts'"
    "reads m T v t A1" "reads_fields m Ts' vs ts' A2"
    using Cons.prems(2) by (auto elim: reads_fields.cases)
  obtain v' m1 B1 where 1: "(case map_of cs f of None \<Rightarrow> (v, m) | Some c \<Rightarrow> c v m) = (v', m1)" "extends m m1"
    "reads m1 T v' t B1" "B1 \<subseteq> {length m..<length m1}"
    using field_copied [OF _ c(4)] Cons.prems(1) unfolding c deep_fields_Cons by metis
  obtain vs' m2 B2 where 2: "copy_fields cs vs m1 = (vs', m2)" "extends m1 m2" "reads_fields m2 Ts' vs' ts' B2"
    "B2 \<subseteq> {length m1..<length m2}"
    using Cons.IH [OF _ reads_extends(2) [OF c(5) 1(2)]] Cons.prems(1) unfolding c deep_fields_Cons by blast
  have "reads_fields m2 Ts ((f, v') # vs') ts (B1 \<union> B2)"
    unfolding c by (rule fields [OF reads_extends(1) [OF 1(3) 2(2)] 2(3)])
  moreover have "copy_fields cs (fv # vs) m = ((f, v') # vs', m2)" by (simp add: c 1 2)
  moreover have "B1 \<union> B2 \<subseteq> {length m..<length m2}"
    using 1(4) 2(4) extends_length [OF 1(2)] extends_length [OF 2(2)] by auto
  ultimately show ?case using extends_trans [OF 1(2) 2(2)] by blast
qed

lemma deep_struct: "deep_fields cs Ts \<Longrightarrow> deep_copier (struct_into cs) (StructT Ts)"
proof (unfold_locales, erule reads_structE)
  fix m v t A vs ts
  assume d: "deep_fields cs Ts" and r: "v = StructV vs" "t = Fields ts" "reads_fields m Ts vs ts A"
  obtain vs' m' B where "copy_fields cs vs m = (vs', m')" "extends m m'" "reads_fields m' Ts vs' ts B"
    "B \<subseteq> {length m..<length m'}" using copy_fields_deep [OF d r(3)] by blast
  then show "\<exists>v' m' B. struct_into cs v m = (v', m') \<and> extends m m' \<and> reads m' (StructT Ts) v' t B \<and>
      B \<subseteq> {length m..<length m'}"
    by (auto simp: struct_into_def r intro!: struct)
qed

text \<open>What was copied into the new cell survives that the cell is written.\<close>

lemma fresh_agrees: "B \<subseteq> {Suc a..<length m} \<Longrightarrow> agrees B m (m[a := x])"
  by (auto simp: agrees_def)

lemma deep_ptr:
  assumes "deep_copier c T"
  shows "deep_copier (copy_ptr c) (PtrT T)"
proof (unfold_locales, erule reads_ptrE)
  fix m v t A a x u C
  assume r: "v = PtrV (Some a)" "t = To u" "a < length m" "m ! a = Variable x" "reads m T x u C"
  let ?m1 = "m @ [Variable x]"
  obtain x' m2 B where 2: "c x ?m1 = (x', m2)" "extends ?m1 m2" "reads m2 T x' u B" "B \<subseteq> {length ?m1..<length m2}"
    using deep_copier.copies [OF assms reads_extends(1) [OF r(5) extends_append]] by blast
  let ?m3 = "m2[length m := Variable x']"
  have len: "length m < length m2" using extends_length [OF 2(2)] by simp
  have "reads ?m3 T x' u B" by (rule reads_frame(1) [OF 2(3) fresh_agrees]) (use 2(4) in simp)
  then have "reads ?m3 (PtrT T) (PtrV (Some (length m))) t (insert (length m) B)"
    unfolding r(2) by (intro ptr) (use len in simp_all)
  moreover have "extends m ?m3" by (rule extends_update [OF extends_trans [OF extends_append 2(2)]]) simp
  moreover have "insert (length m) B \<subseteq> {length m..<length ?m3}" using 2(4) len by auto
  moreover have "copy_ptr c v m = (PtrV (Some (length m)), ?m3)" by (simp add: copy_ptr_def r alloc_def 2(1))
  ultimately show "\<exists>v' m' B. copy_ptr c v m = (v', m') \<and> extends m m' \<and> reads m' (PtrT T) v' t B \<and>
      B \<subseteq> {length m..<length m'}" by blast
qed (auto simp: copy_ptr_def intro: ptr_nil)

lemma copy_elems_deep:
  assumes "deep_copier c T" and "reads_elems m T vs ts A"
  shows "\<exists>vs' m' B. copy_elems c vs m = (vs', m') \<and> extends m m' \<and> reads_elems m' T vs' ts B \<and>
    B \<subseteq> {length m..<length m'} \<and> length vs' = length vs"
  using assms(2)
proof (induction vs arbitrary: m ts A)
  case Nil
  then show ?case by (auto elim: reads_elems.cases intro: no_elems)
next
  case (Cons v vs)
  obtain t ts' A1 A2 where e: "ts = t # ts'" "reads m T v t A1" "reads_elems m T vs ts' A2"
    using Cons.prems by (auto elim: reads_elems.cases)
  obtain v' m1 B1 where 1: "c v m = (v', m1)" "extends m m1" "reads m1 T v' t B1" "B1 \<subseteq> {length m..<length m1}"
    using deep_copier.copies [OF assms(1) e(2)] by blast
  obtain vs' m2 B2 where 2: "copy_elems c vs m1 = (vs', m2)" "extends m1 m2" "reads_elems m2 T vs' ts' B2"
    "B2 \<subseteq> {length m1..<length m2}" "length vs' = length vs"
    using Cons.IH [OF reads_extends(3) [OF e(3) 1(2)]] by blast
  have "reads_elems m2 T (v' # vs') ts (B1 \<union> B2)"
    unfolding e(1) by (rule elems [OF reads_extends(1) [OF 1(3) 2(2)] 2(3)])
  moreover have "copy_elems c (v # vs) m = (v' # vs', m2)" by (simp add: 1 2)
  moreover have "B1 \<union> B2 \<subseteq> {length m..<length m2}"
    using 1(4) 2(4) extends_length [OF 1(2)] extends_length [OF 2(2)] by auto
  ultimately show ?case using extends_trans [OF 1(2) 2(2)] 2(5) by (metis length_Cons)
qed

lemma deep_slice:
  assumes "deep_copier c T"
  shows "deep_copier (copy_slice c) (SliceT T)"
proof (unfold_locales, erule reads_sliceE)
  fix m v t A a xs off n us C
  assume r: "v = SliceV (Some (a, off, n))" "t = Elems us" "a < length m" "m ! a = Array xs"
    "reads_elems m T (take n (drop off xs)) us C"
  define vs where "vs = take n (drop off xs)"
  let ?m1 = "m @ [Array vs]"
  obtain vs' m2 B where 2: "copy_elems c vs ?m1 = (vs', m2)" "extends ?m1 m2" "reads_elems m2 T vs' us B"
    "B \<subseteq> {length ?m1..<length m2}" "length vs' = length vs"
    using copy_elems_deep [OF assms reads_extends(3) [OF r(5) extends_append]] unfolding vs_def by blast
  let ?m3 = "m2[length m := Array vs']"
  have len: "length m < length m2" using extends_length [OF 2(2)] by simp
  have "reads_elems ?m3 T vs' us B" by (rule reads_frame(3) [OF 2(3) fresh_agrees]) (use 2(4) in simp)
  then have "reads ?m3 (SliceT T) (SliceV (Some (length m, 0, length vs))) t (insert (length m) B)"
    using slice [of "length m" ?m3 vs' 0 "length vs'" T us B] len 2(5) r(2) by simp
  moreover have "extends m ?m3" by (rule extends_update [OF extends_trans [OF extends_append 2(2)]]) simp
  moreover have "insert (length m) B \<subseteq> {length m..<length ?m3}" using 2(4) len by auto
  moreover have "copy_slice c v m = (SliceV (Some (length m, 0, length vs)), ?m3)"
    using 2(1) by (simp add: copy_slice_def r alloc_def vs_def)
  ultimately show "\<exists>v' m' B. copy_slice c v m = (v', m') \<and> extends m m' \<and> reads m' (SliceT T) v' t B \<and>
      B \<subseteq> {length m..<length m'}" by blast
qed (auto simp: copy_slice_def intro: slice_nil)

lemma AList_update_new: "k \<notin> fst ` set al \<Longrightarrow> AList.update k x al = al @ [(k, x)]"
  by (induction al) auto

text \<open>The order in which Go ranges over the map is the one in which the cell is written down.\<close>

lemma fold_update_distinct:
  "distinct (map fst kvs) \<Longrightarrow> fst ` set kvs \<inter> fst ` set al = {} \<Longrightarrow> fold (\<lambda>(k, x). AList.update k x) kvs al = al @ kvs"
  by (induction kvs arbitrary: al) (auto simp: AList_update_new)

lemma deep_map: "deep_copier copy_map StringMapT"
proof (unfold_locales, erule reads_mapE)
  fix m v t A a kvs
  assume r: "v = MapV (Some a)" "t = Entries kvs" "a < length m" "m ! a = StringMap kvs" "distinct (map fst kvs)"
  let ?m' = "m @ [StringMap kvs]"
  have "copy_map v m = (MapV (Some (length m)), ?m')"
    using fold_update_distinct [OF r(5), of "[]"] by (simp add: copy_map_def r alloc_def)
  moreover have "reads ?m' StringMapT (MapV (Some (length m))) t {length m}"
    unfolding r(2) by (rule map) (use r(5) in simp_all)
  ultimately show "\<exists>v' m' B. copy_map v m = (v', m') \<and> extends m m' \<and> reads m' StringMapT v' t B \<and>
      B \<subseteq> {length m..<length m'}" by fastforce
qed (auto simp: copy_map_def intro: map_nil)

end
