(* ===== verification/Unstructured.thy ===== *)
theory Unstructured
  imports DeepCopy
begin

text \<open>
  Unstructured objects in memory: maps and slices of \<open>interface{}\<close>, which hold further maps and slices. The
  vendored \<open>runtime.DeepCopyJSONValue\<close> and the functions of \<open>unstructured\<close> that the program calls are translated
  from \<open>k8s.io/apimachinery\<close>. The copy follows references, so it is a partial function, whose
  value \<open>None\<close> is divergence (a map that contains itself); an \<open>Inl\<close> is a panic.
\<close>

section \<open>Copying decoded JSON\<close>

definition go_on :: "(string + 'a) option \<Rightarrow> ('a \<Rightarrow> (string + 'b) option) \<Rightarrow> (string + 'b) option" where
  "go_on r f = Option.bind r (\<lambda>x. case x of Inl panic \<Rightarrow> Some (Inl panic) | Inr y \<Rightarrow> f y)"

lemma go_on_simps [simp]:
  "go_on (Some (Inr x)) f = f x"
  "go_on (Some (Inl p)) f = Some (Inl p)"
  "go_on None f = None"
  by (simp_all add: go_on_def)

lemma go_on_mono [partial_function_mono]:
  assumes "mono_option B" and "\<And>y. mono_option (\<lambda>f. C y f)"
  shows "mono_option (\<lambda>f. go_on (B f) (\<lambda>y. C y f))"
  unfolding go_on_def
proof (intro bind_mono assms(1))
  show "mono_option (\<lambda>f. case y of Inl panic \<Rightarrow> Some (Inl panic) | Inr y \<Rightarrow> C y f)" for y
    by (cases y) (simp_all add: option.const_mono assms(2))
qed

text \<open>The copies of the elements in turn, in a memory that grows.\<close>

fun copy_each :: "(gval \<Rightarrow> memory \<Rightarrow> (string + gval \<times> memory) option) \<Rightarrow> gval list \<Rightarrow> memory \<Rightarrow>
    (string + gval list \<times> memory) option" where
  "copy_each f [] m = Some (Inr ([], m))"
| "copy_each f (v # vs) m =
     go_on (f v m) (\<lambda>(v', m1). go_on (copy_each f vs m1) (\<lambda>(vs', m2). Some (Inr (v' # vs', m2))))"

lemma copy_each_mono [partial_function_mono]:
  assumes "\<And>v m. mono_option (\<lambda>f. F f v m)"
  shows "mono_option (\<lambda>f. copy_each (F f) vs m)"
proof (induction vs arbitrary: m)
  case Nil
  then show ?case by (simp add: option.const_mono)
next
  case (Cons v vs)
  have "mono_option (\<lambda>f. case y of (v', m1) \<Rightarrow> go_on (copy_each (F f) vs m1) (\<lambda>(vs', m2). Some (Inr (v' # vs', m2))))"
    for y :: "gval \<times> memory"
    by (cases y) (auto intro!: go_on_mono option.const_mono Cons.IH simp: case_prod_beta)
  from go_on_mono [OF assms [of v m] this] show ?case by simp
qed

definition json_kinds :: "scalar_kind set" where
  "json_kinds = {StrK, BooleanK, Int64K, Float64K}"

partial_function (option) DeepCopyJSONValue :: "gval \<Rightarrow> memory \<Rightarrow> (string + gval \<times> memory) option" where
  "DeepCopyJSONValue x m =
     (case x of
        AnyMapV None \<Rightarrow> Some (Inr (x, m))
      | AnyMapV (Some a) \<Rightarrow>
          (case m ! a of
             AnyMap kvs \<Rightarrow>
               (let (clone, m1) = alloc (AnyMap []) m in
                go_on (copy_each (\<lambda>v m. DeepCopyJSONValue v m) (map snd kvs) m1) (\<lambda>(vs, m2).
                  Some (Inr (AnyMapV (Some clone), m2[clone := AnyMap (zip (map fst kvs) vs)]))))
           | _ \<Rightarrow> Some (Inl ''not a map''))
      | SliceV None \<Rightarrow> Some (Inr (x, m))
      | SliceV (Some (a, off, n)) \<Rightarrow>
          (case m ! a of
             Array xs \<Rightarrow>
               (let (clone, m1) = alloc (Array (replicate n NilV)) m in
                go_on (copy_each (\<lambda>v m. DeepCopyJSONValue v m) (take n (drop off xs)) m1) (\<lambda>(vs, m2).
                  Some (Inr (SliceV (Some (clone, 0, n)), m2[clone := Array vs]))))
           | _ \<Rightarrow> Some (Inl ''not an array''))
      | ScalarV s \<Rightarrow> if kind_of s \<in> json_kinds then Some (Inr (x, m)) else Some (Inl ''cannot deep copy'')
      | NilV \<Rightarrow> Some (Inr (x, m))
      | _ \<Rightarrow> Some (Inl ''cannot deep copy''))"

lemmas DeepCopyJSONValue_simps [simp] =
  DeepCopyJSONValue.simps [of NilV] DeepCopyJSONValue.simps [of "ScalarV s"] DeepCopyJSONValue.simps [of "AnyMapV None"]
  DeepCopyJSONValue.simps [of "SliceV None"] for s

section \<open>The copy is deep, and there is one\<close>

text \<open>What a copier that need not return promises for a value.\<close>

definition copied :: "(gval \<Rightarrow> memory \<Rightarrow> (string + gval \<times> memory) option) \<Rightarrow> gtype \<Rightarrow> gval \<Rightarrow> contents \<Rightarrow> memory \<Rightarrow> bool" where
  "copied c T v t m \<longleftrightarrow>
     (\<exists>v' m' B. c v m = Some (Inr (v', m')) \<and> extends m m' \<and> reads m' T v' t B \<and> B \<subseteq> {length m..<length m'})"

lemma copied_same: "c v m = Some (Inr (v, m)) \<Longrightarrow> reads m T v t {} \<Longrightarrow> copied c T v t m"
  unfolding copied_def by fastforce

text \<open>Of a list of values: as elements, and as the entries of a map.\<close>

definition each_copied :: "gval list \<Rightarrow> contents list \<Rightarrow> memory \<Rightarrow> bool" where
  "each_copied vs ts m \<longleftrightarrow>
     (\<exists>vs' m' B. copy_each DeepCopyJSONValue vs m = Some (Inr (vs', m')) \<and> extends m m' \<and> length vs' = length vs \<and>
        reads_elems m' AnyT vs' ts B \<and> B \<subseteq> {length m..<length m'})"

lemma each_copied_Cons:
  assumes "copied DeepCopyJSONValue AnyT v t m" and "\<And>m'. extends m m' \<Longrightarrow> each_copied vs ts m'"
  shows "each_copied (v # vs) (t # ts) m"
proof -
  obtain v' m1 B where 1: "DeepCopyJSONValue v m = Some (Inr (v', m1))" "extends m m1" "reads m1 AnyT v' t B"
    "B \<subseteq> {length m..<length m1}" using assms(1) by (auto simp: copied_def)
  obtain vs' m2 C where 2: "copy_each DeepCopyJSONValue vs m1 = Some (Inr (vs', m2))" "extends m1 m2"
    "length vs' = length vs" "reads_elems m2 AnyT vs' ts C" "C \<subseteq> {length m1..<length m2}"
    using assms(2) [OF 1(2)] by (auto simp: each_copied_def)
  have "reads_elems m2 AnyT (v' # vs') (t # ts) (B \<union> C)"
    by (rule elems [OF reads_extends(1) [OF 1(3) 2(2)] 2(4)])
  moreover have "B \<union> C \<subseteq> {length m..<length m2}"
    using 1(4) 2(5) extends_length [OF 1(2)] extends_length [OF 2(2)] by auto
  moreover have "copy_each DeepCopyJSONValue (v # vs) m = Some (Inr (v' # vs', m2))" by (simp add: 1 2)
  ultimately show ?thesis unfolding each_copied_def using extends_trans [OF 1(2) 2(2)] 2(3) by (metis length_Cons)
qed

text \<open>The entries of a map of \<open>interface{}\<close> are elements with names.\<close>

lemma reads_entries_elems:
  "reads_fields m (map (\<lambda>(k, v). (k, AnyT)) kvs) kvs ts A \<Longrightarrow>
   reads_elems m AnyT (map snd kvs) (map snd ts) A \<and> map fst ts = map fst kvs"
proof (induction kvs arbitrary: ts A)
  case Nil
  then have "ts = []" "A = {}" by (auto elim: reads_fields.cases)
  then show ?case by (simp add: no_elems)
next
  case (Cons kv kvs)
  obtain k v where kv: "kv = (k, v)" by fastforce
  from Cons.prems obtain t ts' B C where "ts = (k, t) # ts'" "A = B \<union> C" "reads m AnyT v t B"
    "reads_fields m (map (\<lambda>(k, v). (k, AnyT)) kvs) kvs ts' C" by (auto simp: kv elim: reads_fields.cases)
  then show ?case using Cons.IH by (auto simp: kv intro: elems)
qed

lemma reads_elems_entries:
  "reads_elems m AnyT vs ts A \<Longrightarrow> length ks = length vs \<Longrightarrow>
   reads_fields m (map (\<lambda>(k, v). (k, AnyT)) (zip ks vs)) (zip ks vs) (zip ks ts) A"
proof (induction vs arbitrary: ks ts A)
  case Nil
  then show ?case by (auto elim: reads_elems.cases intro: no_fields)
next
  case (Cons v vs)
  obtain k ks' where ks: "ks = k # ks'" using Cons.prems(2) by (cases ks) auto
  from Cons.prems(1) obtain t ts' B C where "ts = t # ts'" "A = B \<union> C" "reads m AnyT v t B"
    "reads_elems m AnyT vs ts' C" by (auto elim: reads_elems.cases)
  then show ?case using Cons.IH Cons.prems(2) by (auto simp: ks intro: fields)
qed

lemma each_copied_Nil: "each_copied [] [] m"
  unfolding each_copied_def using no_elems by fastforce

text \<open>A clone of a slice or of a map is written once its elements are there.\<close>

lemma copied_slice:
  assumes "m ! a = Array xs" and "off + n \<le> length xs" and "each_copied (take n (drop off xs)) ts (m @ [Array (replicate n NilV)])"
  shows "copied DeepCopyJSONValue (SliceT AnyT) (SliceV (Some (a, off, n))) (Elems ts) m"
proof -
  let ?m1 = "m @ [Array (replicate n NilV)]"
  obtain vs' m2 B where 2: "copy_each DeepCopyJSONValue (take n (drop off xs)) ?m1 = Some (Inr (vs', m2))" "extends ?m1 m2"
    "length vs' = n" "reads_elems m2 AnyT vs' ts B" "B \<subseteq> {length ?m1..<length m2}"
    using assms(2,3) by (auto simp: each_copied_def)
  let ?m3 = "m2[length m := Array vs']"
  have len: "length m < length m2" using extends_length [OF 2(2)] by simp
  have "reads_elems ?m3 AnyT vs' ts B" by (rule reads_frame(3) [OF 2(4) fresh_agrees]) (use 2(5) in simp)
  then have "reads ?m3 (SliceT AnyT) (SliceV (Some (length m, 0, n))) (Elems ts) (insert (length m) B)"
    using slice [of "length m" ?m3 vs' 0 n AnyT ts B] len 2(3) by simp
  moreover have "DeepCopyJSONValue (SliceV (Some (a, off, n))) m = Some (Inr (SliceV (Some (length m, 0, n)), ?m3))"
    by (subst DeepCopyJSONValue.simps) (simp add: assms(1) alloc_def 2(1))
  moreover have "extends m ?m3" by (rule extends_update [OF extends_trans [OF extends_append 2(2)]]) simp
  moreover have "insert (length m) B \<subseteq> {length m..<length ?m3}" using 2(5) len by auto
  ultimately show ?thesis unfolding copied_def by blast
qed

lemma copied_map_cell:
  assumes "m ! a = AnyMap kvs" and "distinct (map fst kvs)" and "map fst ts = map fst kvs"
    and "each_copied (map snd kvs) (map snd ts) (m @ [AnyMap []])"
  obtains m' kvs' B where "DeepCopyJSONValue (AnyMapV (Some a)) m = Some (Inr (AnyMapV (Some (length m)), m'))" "extends m m'"
    "length m < length m'" "m' ! length m = AnyMap kvs'" "distinct (map fst kvs')"
    "reads_fields m' (map (\<lambda>(k, v). (k, AnyT)) kvs') kvs' ts B" "B \<subseteq> {Suc (length m)..<length m'}"
proof -
  let ?m1 = "m @ [AnyMap []]"
  obtain vs' m2 B where 2: "copy_each DeepCopyJSONValue (map snd kvs) ?m1 = Some (Inr (vs', m2))" "extends ?m1 m2"
    "length vs' = length kvs" "reads_elems m2 AnyT vs' (map snd ts) B" "B \<subseteq> {length ?m1..<length m2}"
    using assms(4) by (auto simp: each_copied_def)
  let ?kvs = "zip (map fst kvs) vs'" and ?m3 = "m2[length m := AnyMap (zip (map fst kvs) vs')]"
  have len: "length m < length m2" using extends_length [OF 2(2)] by simp
  have "reads_elems ?m3 AnyT vs' (map snd ts) B" by (rule reads_frame(3) [OF 2(4) fresh_agrees]) (use 2(5) in simp)
  then have "reads_fields ?m3 (map (\<lambda>(k, v). (k, AnyT)) ?kvs) ?kvs (zip (map fst kvs) (map snd ts)) B"
    by (rule reads_elems_entries) (simp add: 2(3))
  moreover have "zip (map fst kvs) (map snd ts) = ts" unfolding assms(3) [symmetric] by (rule zip_map_fst_snd)
  moreover have "distinct (map fst ?kvs)" using assms(2) by (simp add: 2(3) map_fst_zip)
  moreover have "DeepCopyJSONValue (AnyMapV (Some a)) m = Some (Inr (AnyMapV (Some (length m)), ?m3))"
    by (subst DeepCopyJSONValue.simps) (simp add: assms(1) alloc_def 2(1))
  moreover have "extends m ?m3" by (rule extends_update [OF extends_trans [OF extends_append 2(2)]]) simp
  ultimately show thesis using that [of ?m3 ?kvs B] 2(5) len by simp
qed

lemma copied_map:
  assumes "m ! a = AnyMap kvs" and "distinct (map fst kvs)" and "map fst ts = map fst kvs"
    and "each_copied (map snd kvs) (map snd ts) (m @ [AnyMap []])"
  shows "copied DeepCopyJSONValue AnyMapT (AnyMapV (Some a)) (Object ts) m"
proof -
  obtain m' kvs' B where c: "DeepCopyJSONValue (AnyMapV (Some a)) m = Some (Inr (AnyMapV (Some (length m)), m'))" "extends m m'"
    "length m < length m'" "m' ! length m = AnyMap kvs'" "distinct (map fst kvs')"
    "reads_fields m' (map (\<lambda>(k, v). (k, AnyT)) kvs') kvs' ts B" "B \<subseteq> {Suc (length m)..<length m'}"
    by (rule copied_map_cell [OF assms])
  have "insert (length m) B \<subseteq> {length m..<length m'}" using c(3,7) by auto
  with anymap [OF c(3,4,5,6)] show ?thesis unfolding copied_def using c(1,2) by blast
qed

lemma reads_any_slice: "reads m (SliceT AnyT) v t A \<Longrightarrow> reads m AnyT v t A"
  by (erule reads_sliceE) (metis any_slice slice slice_nil)+

lemma reads_any_map: "reads m AnyMapT v t A \<Longrightarrow> reads m AnyT v t A"
  by (erule reads_anymapE) (metis any_map anymap anymap_nil)+

lemma copied_any_slice: "copied DeepCopyJSONValue (SliceT AnyT) (SliceV x) t m \<Longrightarrow> copied DeepCopyJSONValue AnyT (SliceV x) t m"
  unfolding copied_def using reads_any_slice by blast

lemma copied_any_map: "copied DeepCopyJSONValue AnyMapT (AnyMapV x) t m \<Longrightarrow> copied DeepCopyJSONValue AnyT (AnyMapV x) t m"
  unfolding copied_def using reads_any_map by blast

text \<open>
  Every value that can be read is copied, in any memory that has grown since: the recursion ends because what can be
  read is not cyclic.
\<close>

lemma json_copied:
  shows "reads m T v t A \<Longrightarrow> T \<in> {AnyT, AnyMapT, SliceT AnyT} \<Longrightarrow> extends m m0 \<Longrightarrow> copied DeepCopyJSONValue T v t m0"
    and "reads_fields m Ts ws us A \<Longrightarrow> snd ` set Ts \<subseteq> {AnyT} \<Longrightarrow> extends m m0 \<Longrightarrow>
      each_copied (map snd ws) (map snd us) m0"
    and "reads_elems m U vs ts A \<Longrightarrow> U = AnyT \<Longrightarrow> extends m m0 \<Longrightarrow> each_copied vs ts m0"
proof (induction arbitrary: m0 and m0 and m0 rule: reads_reads_fields_reads_elems.inducts)
  case (slice a vs off n T ts A)
  have "m0 ! a = Array vs" using extends_nth [OF slice(7) slice(1)] slice(2) by simp
  moreover have "each_copied (take n (drop off vs)) ts (m0 @ [Array (replicate n NilV)])"
    using slice(4,6) extends_trans [OF slice(7) extends_append] by simp
  ultimately show ?case using copied_slice [OF _ slice(5)] slice(6) by auto
next
  case (anymap a kvs ts A)
  have "m0 ! a = AnyMap kvs" using extends_nth [OF anymap(7) anymap(1)] anymap(2) by simp
  moreover have "each_copied (map snd kvs) (map snd ts) (m0 @ [AnyMap []])"
    by (rule anymap(4)) (auto intro: extends_trans [OF anymap(7) extends_append])
  ultimately show ?case
    by (rule copied_map [OF _ anymap(5) conjunct2 [OF reads_entries_elems [OF anymap(3)]]])
next
  case (any_slice x t A)
  then have "copied DeepCopyJSONValue (SliceT AnyT) (SliceV x) t m0" by simp
  then show ?case using copied_any_slice by blast
next
  case (any_map x t A)
  then have "copied DeepCopyJSONValue AnyMapT (AnyMapV x) t m0" by simp
  then show ?case using copied_any_map by blast
next
  case (fields T v t A Ts vs ts B f)
  then show ?case by (auto intro: each_copied_Cons extends_trans)
next
  case (elems T v t A vs ts B)
  then show ?case by (auto intro: each_copied_Cons extends_trans)
qed (auto simp: json_kinds_def intro: copied_same slice_nil anymap_nil any_nil any_scalar each_copied_Nil)

section \<open>Unstructured objects\<close>

text \<open>\<open>type Unstructured struct { Object map[string]interface{} }\<close>\<close>

definition struct_Unstructured :: gtype where
  "struct_Unstructured = StructT [(''Object'', AnyMapT)]"

definition object_of :: "gval \<Rightarrow> gval" where
  "object_of u = (case field ''Object'' u of Some x \<Rightarrow> x | None \<Rightarrow> AnyMapV None)"

definition Unstructured_DeepCopy :: "gval \<Rightarrow> memory \<Rightarrow> (string + gval \<times> memory) option" where
  "Unstructured_DeepCopy v m =
     (case v of
        PtrV (Some a) \<Rightarrow>
          (case m ! a of
             Variable u \<Rightarrow>
               (let (out, m1) = alloc (Variable u) m in
                go_on (DeepCopyJSONValue (object_of u) m1) (\<lambda>(x, m2).
                  Some (Inr (PtrV (Some out), m2[out := Variable (put_field ''Object'' x u)]))))
           | _ \<Rightarrow> Some (Inl ''invalid memory address or nil pointer dereference''))
      | _ \<Rightarrow> Some (Inr (v, m)))"

lemma reads_unstructuredE:
  assumes "reads m (PtrT struct_Unstructured) (PtrV (Some p)) t A"
  obtains x u B where "p < length m" "m ! p = Variable (StructV [(''Object'', x)])" "t = To (Fields [(''Object'', u)])"
    "reads m AnyMapT x u B" "A = insert p B"
proof -
  obtain v w B where p: "p < length m" "m ! p = Variable v" "reads m struct_Unstructured v w B" "t = To w" "A = insert p B"
    using assms by (auto elim: reads_ptrE)
  obtain vs ws where v: "v = StructV vs" "w = Fields ws" "reads_fields m [(''Object'', AnyMapT)] vs ws B"
    using p(3) unfolding struct_Unstructured_def by (auto elim: reads_structE)
  from v(3) obtain x u C D ts vs' where "vs = (''Object'', x) # vs'" "ws = (''Object'', u) # ts" "reads m AnyMapT x u C"
    "reads_fields m [] vs' ts D" "B = C \<union> D" by (cases rule: reads_fields.cases) auto
  moreover from this(4) have "vs' = []" "ts = []" "D = {}" by (auto elim: reads_fields.cases)
  ultimately show thesis using that p v by simp
qed

lemma reads_unstructured:
  "p < length m \<Longrightarrow> m ! p = Variable (StructV [(''Object'', x)]) \<Longrightarrow> reads m AnyMapT x u B \<Longrightarrow>
   reads m (PtrT struct_Unstructured) (PtrV (Some p)) (To (Fields [(''Object'', u)])) (insert p B)"
  unfolding struct_Unstructured_def by (rule ptr, assumption+) (metis struct fields no_fields Un_empty_right)

lemma object_of_simp [simp]: "object_of (StructV [(''Object'', x)]) = x"
  by (simp add: object_of_def field_def)

text \<open>
  The copy of a readable object: a new variable, and after it a clone of its map, which nothing that
  the map holds leads back to.
\<close>

definition new_object :: "memory \<Rightarrow> nat \<Rightarrow> (string \<times> contents) list \<Rightarrow> nat set \<Rightarrow> bool" where
  "new_object m p ts B \<longleftrightarrow>
     (\<exists>a kvs. p < length m \<and> m ! p = Variable (StructV [(''Object'', AnyMapV (Some a))]) \<and>
        a < length m \<and> m ! a = AnyMap kvs \<and> distinct (map fst kvs) \<and> a \<notin> B \<and> p \<notin> B \<and>
        reads_fields m (map (\<lambda>(k, v). (k, AnyT)) kvs) kvs ts B)"

lemma new_object_reads:
  "new_object m p ts B \<Longrightarrow> m ! p = Variable (StructV [(''Object'', AnyMapV (Some a))]) \<Longrightarrow>
   reads m (PtrT struct_Unstructured) (PtrV (Some p)) (To (Fields [(''Object'', Object ts)])) (insert p (insert a B))"
  unfolding new_object_def by (auto intro!: reads_unstructured anymap)

lemma Unstructured_DeepCopy_reads:
  assumes "reads m (PtrT struct_Unstructured) (PtrV (Some p)) (To (Fields [(''Object'', Object ts)])) A"
  obtains m' kvs B where "Unstructured_DeepCopy (PtrV (Some p)) m = Some (Inr (PtrV (Some (length m)), m'))" "extends m m'"
    "Suc (length m) < length m'" "m' ! length m = Variable (StructV [(''Object'', AnyMapV (Some (Suc (length m))))])"
    "m' ! Suc (length m) = AnyMap kvs" "distinct (map fst kvs)"
    "reads_fields m' (map (\<lambda>(k, v). (k, AnyT)) kvs) kvs ts B" "B \<subseteq> {Suc (Suc (length m))..<length m'}"
proof -
  obtain x u B where x: "p < length m" "m ! p = Variable (StructV [(''Object'', x)])" "u = Object ts"
    "reads m AnyMapT x u B" by (rule reads_unstructuredE [OF assms]) simp
  obtain a kvs C where a: "x = AnyMapV (Some a)" "a < length m" "m ! a = AnyMap kvs" "distinct (map fst kvs)"
    "reads_fields m (map (\<lambda>(k, v). (k, AnyT)) kvs) kvs ts C" using x(3,4) by (auto elim: reads_anymapE)
  let ?m1 = "m @ [Variable (StructV [(''Object'', x)])]"
  have ext: "extends m (?m1 @ [AnyMap []])" by (simp add: extends_def)
  have each: "each_copied (map snd kvs) (map snd ts) (?m1 @ [AnyMap []])"
    by (rule json_copied(2) [OF a(5) _ ext]) auto
  have cell: "?m1 ! a = AnyMap kvs" using a(2,3) by (simp add: nth_append)
  obtain m2 kvs' D where 2: "DeepCopyJSONValue (AnyMapV (Some a)) ?m1 = Some (Inr (AnyMapV (Some (length ?m1)), m2))"
    "extends ?m1 m2" "length ?m1 < length m2" "m2 ! length ?m1 = AnyMap kvs'" "distinct (map fst kvs')"
    "reads_fields m2 (map (\<lambda>(k, v). (k, AnyT)) kvs') kvs' ts D" "D \<subseteq> {Suc (length ?m1)..<length m2}"
    by (rule copied_map_cell [OF cell a(4) conjunct2 [OF reads_entries_elems [OF a(5)]] each])
  let ?m3 = "m2[length m := Variable (StructV [(''Object'', AnyMapV (Some (length ?m1)))])]"
  have "Unstructured_DeepCopy (PtrV (Some p)) m = Some (Inr (PtrV (Some (length m)), ?m3))"
    using 2(1) by (simp add: Unstructured_DeepCopy_def x(2) alloc_def put_field_def a(1))
  moreover have "extends m ?m3" by (rule extends_update [OF extends_trans [OF extends_append 2(2)]]) simp
  moreover have "reads_fields ?m3 (map (\<lambda>(k, v). (k, AnyT)) kvs') kvs' ts D"
    by (rule reads_frame(2) [OF 2(6)]) (use 2(7) in \<open>auto simp: agrees_def\<close>)
  ultimately show thesis using that [of ?m3 kvs' D] 2(3,4,5,7) by simp
qed

section \<open>Fields of an object\<close>

text \<open>\<open>u.setNestedField(value, field)\<close> of a string at the top of the object.\<close>

definition set_string_in :: "string \<Rightarrow> string \<Rightarrow> nat \<Rightarrow> memory \<Rightarrow> memory" where
  "set_string_in key value p m =
     (case m ! p of
        Variable u \<Rightarrow>
          (let (a, m1) = (case object_of u of
               AnyMapV (Some a) \<Rightarrow> (a, m)
             | _ \<Rightarrow> (let (a, m1) = alloc (AnyMap []) m in (a, m1[p := Variable (put_field ''Object'' (AnyMapV (Some a)) u)])))
           in case m1 ! a of
                AnyMap kvs \<Rightarrow> m1[a := AnyMap (AList.update key (ScalarV (Str value)) kvs)]
              | _ \<Rightarrow> m1)
      | _ \<Rightarrow> m)"

lemma reads_entries_update:
  assumes "reads_fields m (map (\<lambda>(k, v). (k, AnyT)) kvs) kvs ts A"
  shows "\<exists>B. reads_fields m (map (\<lambda>(k, v). (k, AnyT)) (AList.update key (ScalarV (Str s)) kvs))
     (AList.update key (ScalarV (Str s)) kvs) (AList.update key (Is (Str s)) ts) B \<and> B \<subseteq> A"
  using assms
proof (induction kvs arbitrary: ts A)
  case Nil
  then have "ts = []" by (auto elim: reads_fields.cases)
  then show ?case using fields [OF any_scalar no_fields, of "Str s" m key] by auto
next
  case (Cons kv kvs)
  obtain k v where kv: "kv = (k, v)" by fastforce
  from Cons.prems obtain t ts' B C where c: "ts = (k, t) # ts'" "A = B \<union> C" "reads m AnyT v t B"
    "reads_fields m (map (\<lambda>(k, v). (k, AnyT)) kvs) kvs ts' C" by (auto simp: kv elim: reads_fields.cases)
  show ?case
  proof (cases "k = key")
    case True
    then show ?thesis using fields [OF any_scalar c(4), of "Str s" key] by (auto simp: kv c(1,2))
  next
    case False
    obtain D where "reads_fields m (map (\<lambda>(k, v). (k, AnyT)) (AList.update key (ScalarV (Str s)) kvs))
      (AList.update key (ScalarV (Str s)) kvs) (AList.update key (Is (Str s)) ts') D" "D \<subseteq> C"
      using Cons.IH [OF c(4)] by blast
    then show ?thesis using fields [OF c(3), of _ _ _ D k] False
      by (intro exI [of _ "B \<union> D"]) (auto simp: kv c(1,2))
  qed
qed

text \<open>A new object keeps being one while strings are set in it, and nothing but its map is written.\<close>

lemma new_object_set_string:
  assumes "new_object m p ts B"
  shows "\<exists>C. new_object (set_string_in key value p m) p (AList.update key (Is (Str value)) ts) C \<and> C \<subseteq> B \<and>
    length (set_string_in key value p m) = length m \<and>
    (\<exists>a. m ! p = Variable (StructV [(''Object'', AnyMapV (Some a))]) \<and>
       set_string_in key value p m ! p = m ! p \<and> (\<forall>b. b \<noteq> a \<longrightarrow> set_string_in key value p m ! b = m ! b))"
proof -
  obtain a kvs where o: "p < length m" "m ! p = Variable (StructV [(''Object'', AnyMapV (Some a))])" "a < length m"
    "m ! a = AnyMap kvs" "distinct (map fst kvs)" "a \<notin> B" "p \<notin> B" "reads_fields m (map (\<lambda>(k, v). (k, AnyT)) kvs) kvs ts B"
    using assms by (auto simp: new_object_def)
  let ?kvs = "AList.update key (ScalarV (Str value)) kvs"
  let ?m = "m[a := AnyMap ?kvs]"
  have set: "set_string_in key value p m = ?m" by (simp add: set_string_in_def o)
  obtain C where C: "reads_fields m (map (\<lambda>(k, v). (k, AnyT)) ?kvs) ?kvs (AList.update key (Is (Str value)) ts) C" "C \<subseteq> B"
    using reads_entries_update [OF o(8)] by blast
  have "agrees C m ?m" using C(2) o(6) reads_bounded(2) [OF o(8)]
    by (auto simp: agrees_def) (metis nth_list_update_neq subsetD)
  from reads_frame(2) [OF C(1) this] have "new_object ?m p (AList.update key (Is (Str value)) ts) C"
    unfolding new_object_def using o C(2)
    by (intro exI [of _ a] exI [of _ ?kvs]) (auto simp: AList.distinct_update nth_list_update)
  then show ?thesis unfolding set using o C(2) by (auto simp: nth_list_update)
qed

end
