(* ===== verification/CacheMemory.thy ===== *)
theory CacheMemory
  imports Unstructured Cache
begin

text \<open>
  The reader of the informer cache (\<open>pkg/cache/cache_reader.go\<close>) as it runs in memory. The index holds the
  addresses of unstructured objects that all readers share; what a reader is given is copied into memory of its
  own, in which it may write. Theory \<open>Cache\<close> has which objects are found and listed; here it is what
  the readers can do to each other.
\<close>

section \<open>The reader in memory\<close>

text \<open>\<open>SetGroupVersionKind\<close> of an unstructured object.\<close>

definition SetGroupVersionKind :: "GroupVersionKind \<Rightarrow> nat \<Rightarrow> memory \<Rightarrow> memory" where
  "SetGroupVersionKind gvk p m = set_string_in ''kind'' (gvkKind gvk) p (set_string_in ''apiVersion'' (GroupVersion_String (gvkGroup gvk) (gvkVersion gvk)) p m)"

text \<open>
  \<open>Get\<close> writes the copy to the variable that \<open>out\<close> points to; \<open>asked\<close> is the type of \<open>out\<close>, and a pointer
  is assignable to its own type only.
\<close>

definition Get_in :: "cache_reader \<Rightarrow> nat indexer \<Rightarrow> string \<Rightarrow> string \<Rightarrow> string \<Rightarrow> nat \<Rightarrow> memory \<Rightarrow>
    (string + go_error option \<times> memory) option" where
  "Get_in c ix asked namespace name out m =
     (case reader_Get c ix namespace name of
        Inl err \<Rightarrow> Some (Inr (Some err, m))
      | Inr obj \<Rightarrow>
          go_on (Unstructured_DeepCopy (PtrV (Some obj)) m) (\<lambda>(v, m1).
            if ixTypeName ix obj \<noteq> asked
            then Some (Inr (Some (Errorf (''cache had type '' @ ixTypeName ix obj @ '', but '' @ asked @ '' was asked for'')), m1))
            else case v of
                   PtrV (Some a) \<Rightarrow> Some (Inr (None, SetGroupVersionKind (crGVK c) out (m1[out := m1 ! a])))
                 | _ \<Rightarrow> Some (Inl ''invalid memory address or nil pointer dereference'')))"

text \<open>\<open>List\<close> gives the copies, which \<open>SetList\<close> then puts into the list of the caller.\<close>

fun copy_objects :: "GroupVersionKind \<Rightarrow> nat list \<Rightarrow> memory \<Rightarrow> (string + nat list \<times> memory) option" where
  "copy_objects gvk [] m = Some (Inr ([], m))"
| "copy_objects gvk (obj # objs) m =
     go_on (Unstructured_DeepCopy (PtrV (Some obj)) m) (\<lambda>(v, m1). case v of
         PtrV (Some a) \<Rightarrow>
           go_on (copy_objects gvk objs (SetGroupVersionKind gvk a m1)) (\<lambda>(as, m2). Some (Inr (a # as, m2)))
       | _ \<Rightarrow> Some (Inl ''invalid memory address or nil pointer dereference''))"

definition List_in :: "cache_reader \<Rightarrow> nat indexer \<Rightarrow> list_options \<Rightarrow> memory \<Rightarrow>
    (string + (go_error + nat list) \<times> memory) option" where
  "List_in c ix opts m =
     (case reader_List ix opts of
        Inl err \<Rightarrow> Some (Inr (Inl err, m))
      | Inr objs \<Rightarrow> go_on (copy_objects (crGVK c) objs m) (\<lambda>(as, m'). Some (Inr (Inr as, m'))))"

section \<open>What it writes\<close>

definition with_kind :: "GroupVersionKind \<Rightarrow> (string \<times> contents) list \<Rightarrow> (string \<times> contents) list" where
  "with_kind gvk ts = AList.update ''kind'' (Is (Str (gvkKind gvk))) (AList.update ''apiVersion'' (Is (Str (GroupVersion_String (gvkGroup gvk) (gvkVersion gvk)))) ts)"

lemma extendsI: "length m \<le> length m' \<Longrightarrow> (\<And>b. b < length m \<Longrightarrow> m' ! b = m ! b) \<Longrightarrow> extends m m'"
  unfolding extends_def by (rule exI [of _ "drop (length m) m'"]) (auto intro: nth_equalityI simp: nth_append)

abbreviation object_contents :: "(string \<times> contents) list \<Rightarrow> contents" where
  "object_contents ts \<equiv> To (Fields [(''Object'', Object ts)])"

abbreviation readable :: "memory \<Rightarrow> nat \<Rightarrow> (string \<times> contents) list \<Rightarrow> nat set \<Rightarrow> bool" where
  "readable m obj ts A \<equiv> reads m (PtrT struct_Unstructured) (PtrV (Some obj)) (object_contents ts) A"

lemma new_object_kind:
  assumes "new_object m p ts B" and "m ! p = Variable (StructV [(''Object'', AnyMapV (Some a))])"
  shows "\<exists>C. readable (SetGroupVersionKind gvk p m) p (with_kind gvk ts) (insert p (insert a C)) \<and> C \<subseteq> B"
    and "length (SetGroupVersionKind gvk p m) = length m"
    and "b \<noteq> a \<Longrightarrow> SetGroupVersionKind gvk p m ! b = m ! b"
proof -
  let ?m1 = "set_string_in ''apiVersion'' (GroupVersion_String (gvkGroup gvk) (gvkVersion gvk)) p m"
  obtain C where 1: "new_object ?m1 p (AList.update ''apiVersion'' (Is (Str (GroupVersion_String (gvkGroup gvk) (gvkVersion gvk)))) ts) C" "C \<subseteq> B" "length ?m1 = length m"
    "?m1 ! p = m ! p" "\<forall>b. b \<noteq> a \<longrightarrow> ?m1 ! b = m ! b"
    using new_object_set_string [OF assms(1), of "''apiVersion''" "GroupVersion_String (gvkGroup gvk) (gvkVersion gvk)"] assms(2) by auto
  obtain D where 2: "new_object (SetGroupVersionKind gvk p m) p (with_kind gvk ts) D" "D \<subseteq> C"
    "SetGroupVersionKind gvk p m ! p = ?m1 ! p" "length (SetGroupVersionKind gvk p m) = length ?m1" "\<forall>b. b \<noteq> a \<longrightarrow> SetGroupVersionKind gvk p m ! b = ?m1 ! b"
    using new_object_set_string [OF 1(1), of "''kind''" "gvkKind gvk"] assms(2) 1(4)
    unfolding SetGroupVersionKind_def with_kind_def by auto
  have "readable (SetGroupVersionKind gvk p m) p (with_kind gvk ts) (insert p (insert a D))"
    by (rule new_object_reads [OF 2(1)]) (simp add: 2(3) 1(4) assms(2))
  then show "\<exists>C. readable (SetGroupVersionKind gvk p m) p (with_kind gvk ts) (insert p (insert a C)) \<and> C \<subseteq> B"
    using 1(2) 2(2) by blast
  show "length (SetGroupVersionKind gvk p m) = length m" using 1(3) 2(4) by simp
  show "SetGroupVersionKind gvk p m ! b = m ! b" if "b \<noteq> a" using that 1(5) 2(5) by simp
qed

text \<open>A copied object is a new object, wherever its variable is.\<close>

lemma copied_new_object:
  assumes "reads m (PtrT struct_Unstructured) (PtrV (Some obj)) (object_contents ts) A" and "out \<le> length m"
  obtains m1 B where "Unstructured_DeepCopy (PtrV (Some obj)) m = Some (Inr (PtrV (Some (length m)), m1))" "extends m m1"
    "length m < length m1" "new_object (m1[out := m1 ! length m]) out ts B"
    "m1[out := m1 ! length m] ! out = Variable (StructV [(''Object'', AnyMapV (Some (Suc (length m))))])"
    "B \<subseteq> {Suc (Suc (length m))..}"
proof -
  obtain m1 kvs B where c: "Unstructured_DeepCopy (PtrV (Some obj)) m = Some (Inr (PtrV (Some (length m)), m1))" "extends m m1"
    "Suc (length m) < length m1" "m1 ! length m = Variable (StructV [(''Object'', AnyMapV (Some (Suc (length m))))])"
    "m1 ! Suc (length m) = AnyMap kvs" "distinct (map fst kvs)"
    "reads_fields m1 (map (\<lambda>(k, v). (k, AnyT)) kvs) kvs ts B" "B \<subseteq> {Suc (Suc (length m))..<length m1}"
    by (rule Unstructured_DeepCopy_reads [OF assms(1)])
  let ?m2 = "m1[out := m1 ! length m]"
  have "reads_fields ?m2 (map (\<lambda>(k, v). (k, AnyT)) kvs) kvs ts B"
    by (rule reads_frame(2) [OF c(7)]) (use c(8) assms(2) in \<open>auto simp: agrees_def\<close>)
  moreover have "?m2 ! Suc (length m) = AnyMap kvs" using assms(2) c(5) by simp
  moreover have "?m2 ! out = Variable (StructV [(''Object'', AnyMapV (Some (Suc (length m))))])"
    using assms(2) c(3,4) by simp
  moreover have "out \<notin> B" "Suc (length m) \<notin> B" "out < length m1" using assms(2) c(3,8) by auto
  ultimately have "new_object ?m2 out ts B" unfolding new_object_def using c(3,6) by auto
  moreover have "B \<subseteq> {Suc (Suc (length m))..}" using c(8) by auto
  ultimately show thesis using that c(1,2,3) \<open>?m2 ! out = _\<close> by simp
qed

text \<open>What a read does to the memory of the others.\<close>

lemma Get_in_found:
  assumes "readable m obj ts A" and "reader_Get c ix namespace name = Inr obj" and "ixTypeName ix obj = asked"
    and "out < length m"
  obtains m' C where "Get_in c ix asked namespace name out m = Some (Inr (None, m'))" "length m \<le> length m'"
    "\<forall>b < length m. b \<noteq> out \<longrightarrow> m' ! b = m ! b" "readable m' out (with_kind (crGVK c) ts) C"
    "C \<subseteq> insert out {length m..}"
proof -
  let ?a = "Suc (length m)"
  obtain m1 B where 1: "Unstructured_DeepCopy (PtrV (Some obj)) m = Some (Inr (PtrV (Some (length m)), m1))" "extends m m1"
    "length m < length m1" "new_object (m1[out := m1 ! length m]) out ts B"
    "m1[out := m1 ! length m] ! out = Variable (StructV [(''Object'', AnyMapV (Some ?a))])" "B \<subseteq> {Suc ?a..}"
    by (rule copied_new_object [OF assms(1) less_imp_le [OF assms(4)]])
  let ?m' = "SetGroupVersionKind (crGVK c) out (m1[out := m1 ! length m])"
  obtain D where D: "readable ?m' out (with_kind (crGVK c) ts) (insert out (insert ?a D))" "D \<subseteq> B"
    using new_object_kind(1) [OF 1(4,5)] by blast
  have "insert out (insert ?a D) \<subseteq> insert out {length m..}" using D(2) 1(6) by fastforce
  moreover have "Get_in c ix asked namespace name out m = Some (Inr (None, ?m'))"
    by (simp add: Get_in_def assms(2,3) 1(1))
  moreover have "length m \<le> length ?m'" using new_object_kind(2) [OF 1(4,5)] 1(3) by simp
  moreover have "?m' ! b = m ! b" if "b < length m" "b \<noteq> out" for b
    using new_object_kind(3) [OF 1(4,5), of b] extends_nth [OF 1(2) that(1)] that by simp
  ultimately show thesis using that D(1) by blast
qed

text \<open>Every outcome of a \<open>Get\<close>: at most the variable of the caller and new cells are written.\<close>

lemma Get_in_frame:
  assumes "\<And>obj. reader_Get c ix namespace name = Inr obj \<Longrightarrow> \<exists>ts A. readable m obj ts A" and "out < length m"
  obtains r m' where "Get_in c ix asked namespace name out m = Some (Inr (r, m'))" "length m \<le> length m'"
    "\<And>b. b < length m \<Longrightarrow> b \<noteq> out \<Longrightarrow> m' ! b = m ! b"
proof (cases "reader_Get c ix namespace name")
  case (Inl err)
  then show thesis using that by (simp add: Get_in_def)
next
  case (Inr obj)
  then obtain ts A where r: "readable m obj ts A" using assms(1) by blast
  show thesis
  proof (cases "ixTypeName ix obj = asked")
    case True
    then show thesis using that by (metis Get_in_found [OF r Inr True assms(2)])
  next
    case False
    obtain m1 where "Unstructured_DeepCopy (PtrV (Some obj)) m = Some (Inr (PtrV (Some (length m)), m1))" "extends m m1"
      using copied_new_object [OF r less_imp_le [OF assms(2)]] by metis
    then show thesis using that False Inr extends_length extends_nth by (simp add: Get_in_def)
  qed
qed

lemma copy_objects_reads:
  assumes "list_all2 (\<lambda>obj ts. \<exists>A. readable m obj ts A) objs tss"
  shows "\<exists>as m'. copy_objects gvk objs m = Some (Inr (as, m')) \<and> extends m m' \<and>
    list_all2 (\<lambda>a ts. length m \<le> a \<and> (\<exists>C. readable m' a ts C)) as (map (with_kind gvk) tss)"
  using assms
proof (induction objs arbitrary: m tss)
  case Nil
  then show ?case by simp
next
  case (Cons obj objs)
  obtain ts tss' A where ts: "tss = ts # tss'" "readable m obj ts A" "list_all2 (\<lambda>obj ts. \<exists>A. readable m obj ts A) objs tss'"
    using Cons.prems by (auto simp: list_all2_Cons1)
  obtain m1 B where 1: "Unstructured_DeepCopy (PtrV (Some obj)) m = Some (Inr (PtrV (Some (length m)), m1))" "extends m m1"
    "new_object m1 (length m) ts B" "m1 ! length m = Variable (StructV [(''Object'', AnyMapV (Some (Suc (length m))))])"
    by (rule copied_new_object [OF ts(2) le_refl]) simp
  let ?m2 = "SetGroupVersionKind gvk (length m) m1"
  obtain C where C: "readable ?m2 (length m) (with_kind gvk ts) C" using new_object_kind(1) [OF 1(3,4)] by blast
  have 2: "extends m ?m2"
    by (rule extendsI) (use new_object_kind(2,3) [OF 1(3,4)] extends_length [OF 1(2)] extends_nth [OF 1(2)] in simp_all)
  have "list_all2 (\<lambda>obj ts. \<exists>A. readable ?m2 obj ts A) objs tss'"
    using ts(3) by (rule list_all2_mono) (use reads_extends(1) [OF _ 2] in blast)
  from Cons.IH [OF this] obtain as m' where 3: "copy_objects gvk objs ?m2 = Some (Inr (as, m'))" "extends ?m2 m'"
    "list_all2 (\<lambda>a ts. length ?m2 \<le> a \<and> (\<exists>C. readable m' a ts C)) as (map (with_kind gvk) tss')" by blast
  have "list_all2 (\<lambda>a ts. length m \<le> a \<and> (\<exists>C. readable m' a ts C)) as (map (with_kind gvk) tss')"
    using 3(3) by (rule list_all2_mono) (use extends_length [OF 2] in auto)
  then show ?case using 1(1) 3(1) extends_trans [OF 2 3(2)] reads_extends(1) [OF C 3(2)] by (auto simp: ts(1))
qed

section \<open>The readers and the informer\<close>

text \<open>
  Everything that runs with one reader: the memory, the index of the informer and the cells that the callers
  of the reader may write (their own variables, and what the reader has given them).
\<close>

record reader_state =
  rdMemory :: memory
  rdIndex :: "nat indexer"
  rdOwned :: "nat set"

definition stored_object :: "nat indexer \<Rightarrow> nat \<Rightarrow> bool" where
  "stored_object ix obj \<longleftrightarrow> (\<exists>key. ixGetByKey ix key = Inr (Some obj)) \<or> obj \<in> set (ixList ix) \<or>
     (\<exists>index val objs. ixByIndex ix index val = Inr objs \<and> obj \<in> set objs)"

definition store_ok :: "reader_state \<Rightarrow> bool" where
  "store_ok s \<longleftrightarrow> rdOwned s \<subseteq> {..<length (rdMemory s)} \<and>
     (\<forall>obj. stored_object (rdIndex s) obj \<longrightarrow> (\<exists>ts A. readable (rdMemory s) obj ts A \<and> A \<inter> rdOwned s = {}))"

text \<open>
  A read, a write of a caller to what it may write, an allocation of a caller, and a change of the index by the
  informer, which stores objects that it has decoded into memory of its own and writes to none.
\<close>

abbreviation given :: "memory \<Rightarrow> memory \<Rightarrow> nat set" where
  "given m m' \<equiv> {length m..<length m'}"

inductive reader_step :: "cache_reader \<Rightarrow> reader_state \<Rightarrow> reader_state \<Rightarrow> bool" for c where
  step_get: "out \<in> rdOwned s \<Longrightarrow> Get_in c (rdIndex s) asked namespace name out (rdMemory s) = Some (Inr (r, m')) \<Longrightarrow>
    reader_step c s (s\<lparr>rdMemory := m', rdOwned := rdOwned s \<union> given (rdMemory s) m'\<rparr>)"
| step_list: "List_in c (rdIndex s) opts (rdMemory s) = Some (Inr (r, m')) \<Longrightarrow>
    reader_step c s (s\<lparr>rdMemory := m', rdOwned := rdOwned s \<union> given (rdMemory s) m'\<rparr>)"
| step_write: "b \<in> rdOwned s \<Longrightarrow> reader_step c s (s\<lparr>rdMemory := (rdMemory s)[b := x]\<rparr>)"
| step_alloc: "alloc x (rdMemory s) = (b, m') \<Longrightarrow> reader_step c s (s\<lparr>rdMemory := m', rdOwned := insert b (rdOwned s)\<rparr>)"
| step_inform: "s' = s\<lparr>rdMemory := rdMemory s @ xs, rdIndex := ix\<rparr> \<Longrightarrow>
    (\<And>obj. stored_object ix obj \<Longrightarrow> stored_object (rdIndex s) obj \<or> (\<exists>ts A. readable (rdMemory s') obj ts A \<and> A \<subseteq> given (rdMemory s) (rdMemory s'))) \<Longrightarrow>
    reader_step c s s'"

definition reader_run :: "cache_reader \<Rightarrow> reader_state \<Rightarrow> reader_state \<Rightarrow> bool" where
  "reader_run c = (reader_step c)\<^sup>*\<^sup>*"

text \<open>What is not owned is not written, and only what is new is owned anew.\<close>

definition undisturbed :: "reader_state \<Rightarrow> reader_state \<Rightarrow> bool" where
  "undisturbed s s' \<longleftrightarrow> length (rdMemory s) \<le> length (rdMemory s') \<and>
     (\<forall>b < length (rdMemory s). b \<notin> rdOwned s \<longrightarrow> rdMemory s' ! b = rdMemory s ! b) \<and>
     rdOwned s' \<subseteq> rdOwned s \<union> {length (rdMemory s)..}"

lemma undisturbed_trans:
  assumes "undisturbed s1 s2" and "undisturbed s2 s3"
  shows "undisturbed s1 s3"
proof -
  have len: "length (rdMemory s1) \<le> length (rdMemory s2)" "length (rdMemory s2) \<le> length (rdMemory s3)"
    and owned: "rdOwned s2 \<subseteq> rdOwned s1 \<union> {length (rdMemory s1)..}" "rdOwned s3 \<subseteq> rdOwned s2 \<union> {length (rdMemory s2)..}"
    using assms by (simp_all add: undisturbed_def)
  have "rdMemory s3 ! b = rdMemory s1 ! b" if b: "b < length (rdMemory s1)" "b \<notin> rdOwned s1" for b
  proof -
    have "b \<notin> rdOwned s2" using owned(1) b by auto
    then show ?thesis using assms b len by (simp add: undisturbed_def)
  qed
  moreover have "rdOwned s3 \<subseteq> rdOwned s1 \<union> {length (rdMemory s1)..}" using owned len by fastforce
  ultimately show ?thesis using len by (simp add: undisturbed_def)
qed

lemma undisturbed_reads:
  assumes "undisturbed s s'" and "reads (rdMemory s) T v t A" and "A \<inter> rdOwned s = {}"
  shows "reads (rdMemory s') T v t A" and "A \<inter> rdOwned s' = {}"
proof -
  have "agrees A (rdMemory s) (rdMemory s')"
    unfolding agrees_def
  proof
    fix b assume "b \<in> A"
    then have "b < length (rdMemory s)" "b \<notin> rdOwned s" using assms(3) reads_bounded(1) [OF assms(2)] by auto
    then show "b < length (rdMemory s') \<and> rdMemory s' ! b = rdMemory s ! b"
      using assms(1) by (simp add: undisturbed_def)
  qed
  then show "reads (rdMemory s') T v t A" by (rule reads_frame(1) [OF assms(2)])
  show "A \<inter> rdOwned s' = {}"
    using assms(1,3) reads_bounded(1) [OF assms(2)] unfolding undisturbed_def by fastforce
qed

lemma reader_Get_stored: "reader_Get c ix namespace name = Inr obj \<Longrightarrow> stored_object ix obj"
  unfolding reader_Get_def stored_object_def by (auto split: sum.splits option.splits if_splits)

lemma keep_labelled_subset: "keep_labelled ix opts objs = Inr kept \<Longrightarrow> set kept \<subseteq> set objs"
proof (induction objs arbitrary: kept)
  case (Cons item items)
  then show ?case by (cases "keep_labelled ix opts items") (auto split: if_splits option.splits)
qed simp

lemma reader_List_stored: "reader_List ix opts = Inr objs \<Longrightarrow> obj \<in> set objs \<Longrightarrow> stored_object ix obj"
  unfolding reader_List_def listed_objects_def stored_object_def
  by (auto split: sum.splits option.splits prod.splits if_splits dest!: keep_labelled_subset)

lemma store_okD:
  "store_ok s \<Longrightarrow> stored_object (rdIndex s) obj \<Longrightarrow> \<exists>ts A. readable (rdMemory s) obj ts A \<and> A \<inter> rdOwned s = {}"
  by (simp add: store_ok_def)

lemma List_in_frame:
  assumes "store_ok s" and "List_in c (rdIndex s) opts (rdMemory s) = Some (Inr (r, m'))"
  shows "extends (rdMemory s) m'"
proof (cases "reader_List (rdIndex s) opts")
  case (Inl err)
  then show ?thesis using assms(2) by (simp add: List_in_def)
next
  case (Inr objs)
  have "\<forall>obj\<in>set objs. \<exists>ts A. readable (rdMemory s) obj ts A"
    using store_okD [OF assms(1) reader_List_stored [OF Inr]] by blast
  then obtain f where "\<forall>obj\<in>set objs. \<exists>A. readable (rdMemory s) obj (f obj) A" by metis
  then have "list_all2 (\<lambda>obj ts. \<exists>A. readable (rdMemory s) obj ts A) objs (map f objs)"
    by (simp add: list_all2_map2 list_all2_same)
  from copy_objects_reads [OF this, of "crGVK c"] show ?thesis
    using assms(2) by (auto simp: List_in_def Inr)
qed

lemma step_undisturbed:
  assumes "reader_step c s s'" and "store_ok s"
  shows "undisturbed s s'" and "rdOwned s' \<subseteq> {..<length (rdMemory s')}"
proof -
  have owned: "rdOwned s \<subseteq> {..<length (rdMemory s)}" using assms(2) by (simp add: store_ok_def)
  from assms(1) have "undisturbed s s' \<and> rdOwned s' \<subseteq> {..<length (rdMemory s')}"
  proof cases
    case (step_get out asked namespace name r m')
    have "out < length (rdMemory s)" using step_get(2) owned by auto
    moreover have "\<exists>ts A. readable (rdMemory s) obj ts A" if "reader_Get c (rdIndex s) namespace name = Inr obj" for obj
      using store_okD [OF assms(2) reader_Get_stored [OF that]] by blast
    ultimately have "length (rdMemory s) \<le> length m'" "\<forall>b < length (rdMemory s). b \<noteq> out \<longrightarrow> m' ! b = rdMemory s ! b"
      using step_get(3) by (metis Get_in_frame [of c "rdIndex s" namespace name "rdMemory s" out asked] option.inject sum.inject(2) prod.inject)+
    then show ?thesis using step_get(1,2) owned unfolding undisturbed_def by auto
  next
    case (step_list opts r m')
    then show ?thesis using List_in_frame [OF assms(2) step_list(2)] owned extends_length [of "rdMemory s" m'] extends_nth [of "rdMemory s" m']
      unfolding undisturbed_def by auto
  next
    case (step_write b x)
    then show ?thesis using owned unfolding undisturbed_def by (auto simp: nth_list_update)
  next
    case (step_alloc x b m')
    then show ?thesis using owned unfolding undisturbed_def alloc_def by (auto simp: nth_append)
  next
    case (step_inform xs ix)
    then show ?thesis using owned unfolding undisturbed_def by (auto simp: nth_append)
  qed
  then show "undisturbed s s'" and "rdOwned s' \<subseteq> {..<length (rdMemory s')}" by blast+
qed

lemma step_store_ok:
  assumes "reader_step c s s'" and "store_ok s"
  shows "store_ok s'"
proof -
  note u = step_undisturbed [OF assms]
  have keep: "\<exists>ts A. readable (rdMemory s') obj ts A \<and> A \<inter> rdOwned s' = {}" if "stored_object (rdIndex s) obj" for obj
    using undisturbed_reads [OF u(1)] store_okD [OF assms(2) that] by blast
  have "\<exists>ts A. readable (rdMemory s') obj ts A \<and> A \<inter> rdOwned s' = {}" if o: "stored_object (rdIndex s') obj" for obj
    using assms(1)
  proof cases
    case (step_inform xs ix)
    have "rdOwned s' = rdOwned s" "rdOwned s \<subseteq> {..<length (rdMemory s)}"
      using step_inform(1) assms(2) by (simp_all add: store_ok_def)
    then show ?thesis using step_inform(2) [of obj] keep o step_inform(1) by fastforce
  qed (use keep o in auto)
  then show ?thesis using u(2) by (simp add: store_ok_def)
qed

lemma run_store_ok:
  assumes "reader_run c s s'" and "store_ok s"
  shows "store_ok s' \<and> undisturbed s s'"
  using assms unfolding reader_run_def
proof (induction rule: rtranclp_induct)
  case base
  then show ?case by (simp add: undisturbed_def)
next
  case (step s1 s2)
  then show ?case using step_store_ok step_undisturbed(1) undisturbed_trans by blast
qed


abbreviation example_kind :: GroupVersionKind where
  "example_kind \<equiv> \<lparr>gvkGroup = ''policy.jspolicy.com'', gvkVersion = ''v1beta1'', gvkKind = ''JsPolicy''\<rparr>"

definition example_index :: "nat indexer" where
  "example_index = \<lparr>ixGetByKey = (\<lambda>key. if key = ''p'' then Inr (Some 0) else Inr None), ixByIndex = (\<lambda>_ _. Inr []),
     ixList = [0], ixNamespace = (\<lambda>_. []), ixLabels = (\<lambda>_. []), ixIsObject = (\<lambda>_. True), ixTypeName = (\<lambda>_. ''u'')\<rparr>"

definition example_readers :: reader_state where
  "example_readers = \<lparr>rdMemory = [Variable (StructV [(''Object'', AnyMapV (Some 1))]), AnyMap [(''x'', ScalarV (Boolean True))],
     Variable (StructV [(''Object'', AnyMapV None)])], rdIndex = example_index, rdOwned = {2}\<rparr>"

lemma example_readable: "readable (rdMemory example_readers) 0 [(''x'', Is (Boolean True))] {0, 1}"
proof -
  have "reads_fields (rdMemory example_readers) [(''x'', AnyT)] [(''x'', ScalarV (Boolean True))] [(''x'', Is (Boolean True))] {}"
    using fields [OF any_scalar no_fields, of "Boolean True" "rdMemory example_readers" "''x''"] by simp
  then have "reads (rdMemory example_readers) AnyMapT (AnyMapV (Some 1)) (Object [(''x'', Is (Boolean True))]) {1}"
    using anymap [of 1 "rdMemory example_readers" "[(''x'', ScalarV (Boolean True))]" "[(''x'', Is (Boolean True))]" "{}"]
    by (simp add: example_readers_def)
  then show ?thesis
    using reads_unstructured [of 0 "rdMemory example_readers" "AnyMapV (Some 1)" "Object [(''x'', Is (Boolean True))]" "{1}"]
    by (simp add: example_readers_def)
qed

lemma example_stored: "stored_object (rdIndex example_readers) obj \<longleftrightarrow> obj = 0"
  by (auto simp: stored_object_def example_readers_def example_index_def)


end
