(* ===== verification/BlockingClient.thy ===== *)
theory BlockingClient
  imports Api
begin

text \<open>
  \<open>pkg/blockingcacheclient/client.go\<close>: the manager's client, whose writes return only once the local
  cache shows them. The client it wraps, its cache and the scheme are parameters over the object type
  \<open>'o\<close> and the world \<open>'w\<close>.
\<close>

record ('o, 'w) raw_client =
  rwIsUnstructured :: "'o \<Rightarrow> bool"
  rwAccessor :: "'o \<Rightarrow> go_error option" \<comment> \<open>whether \<open>meta.Accessor\<close> fails\<close>
  rwHasType :: "'o \<Rightarrow> bool" \<comment> \<open>the scheme knows the object's kind and can make a new one\<close>
  rwNamespace :: "'o \<Rightarrow> string"
  rwName :: "'o \<Rightarrow> string"
  rwUID :: "'o \<Rightarrow> string"
  rwResourceVersion :: "'o \<Rightarrow> string"
  rwDeleted :: "'o \<Rightarrow> bool" \<comment> \<open>has a deletion timestamp\<close>
  rwGetCached :: "string \<Rightarrow> string \<Rightarrow> 'w \<Rightarrow> (go_error + 'o) \<times> 'w"
  rwCreate :: "'o \<Rightarrow> 'w \<Rightarrow> (go_error + 'o) \<times> 'w" \<comment> \<open>a write fills the object in\<close>
  rwPatch :: "'o \<Rightarrow> 'w \<Rightarrow> (go_error + 'o) \<times> 'w"
  rwUpdate :: "'o \<Rightarrow> 'w \<Rightarrow> (go_error + 'o) \<times> 'w"
  rwDelete :: "'o \<Rightarrow> 'w \<Rightarrow> (go_error + 'o) \<times> 'w"
  rwStatusUpdate :: "'o \<Rightarrow> 'w \<Rightarrow> (go_error + 'o) \<times> 'w"
  rwStatusPatch :: "'o \<Rightarrow> 'w \<Rightarrow> (go_error + 'o) \<times> 'w"
  rwPolls :: nat \<comment> \<open>how often a poll of two seconds looks again after its first look\<close>

text \<open>\<open>wait.PollImmediate\<close> with its remaining looks: \<open>None\<close> is success.\<close>

fun poll_loop :: "('w \<Rightarrow> (go_error + bool) \<times> 'w) \<Rightarrow> nat \<Rightarrow> 'w \<Rightarrow> go_error option \<times> 'w" where
  "poll_loop condition 0 w = (Some (Errorf ''timed out waiting for the condition''), w)"
| "poll_loop condition (Suc n) w =
     (case condition w of
        (Inl err, w1) \<Rightarrow> (Some err, w1)
      | (Inr True, w1) \<Rightarrow> (None, w1)
      | (Inr False, w1) \<Rightarrow> poll_loop condition n w1)"

definition client_poll ::
    "('o, 'w) raw_client \<Rightarrow> 'o \<Rightarrow> ('w \<Rightarrow> (go_error + bool) \<times> 'w) \<Rightarrow> 'w \<Rightarrow> go_error option \<times> 'w" where
  "client_poll c obj condition w =
     (if rwIsUnstructured c obj then (None, w)
      else case rwAccessor c obj of
             Some err \<Rightarrow> (Some err, w)
           | None \<Rightarrow> if \<not> rwHasType c obj then (None, w) else poll_loop condition (Suc (rwPolls c)) w)"

text \<open>The three conditions, on what the cache answers.\<close>

definition created_seen :: "go_error + 'o \<Rightarrow> go_error + bool" where
  "created_seen res =
     (case res of
        Inl err \<Rightarrow>
          if IsNotRegisteredError err then Inr True else if \<not> IsNotFound err then Inl err else Inr False
      | Inr newObj \<Rightarrow> Inr True)"

definition write_seen :: "('o, 'w) raw_client \<Rightarrow> ('o \<Rightarrow> bool) \<Rightarrow> go_error + 'o \<Rightarrow> go_error + bool" where
  "write_seen c seen res =
     (case res of
        Inl err \<Rightarrow>
          if IsNotRegisteredError err then Inr True else if \<not> IsNotFound err then Inl err else Inr True
      | Inr newObj \<Rightarrow> (case rwAccessor c newObj of Some err \<Rightarrow> Inl err | None \<Rightarrow> Inr (seen newObj)))"

text \<open>Go compares strings byte by byte.\<close>

definition update_seen :: "('o, 'w) raw_client \<Rightarrow> 'o \<Rightarrow> 'o \<Rightarrow> bool" where
  "update_seen c old newObj \<longleftrightarrow>
     rwUID c old \<noteq> rwUID c newObj \<or> rwResourceVersion c newObj \<ge> rwResourceVersion c old"

definition delete_seen :: "('o, 'w) raw_client \<Rightarrow> 'o \<Rightarrow> 'o \<Rightarrow> bool" where
  "delete_seen c old newObj \<longleftrightarrow> rwUID c old \<noteq> rwUID c newObj \<or> rwDeleted c newObj"

definition cached :: "('o, 'w) raw_client \<Rightarrow> 'o \<Rightarrow> 'w \<Rightarrow> (go_error + 'o) \<times> 'w" where
  "cached c obj w = rwGetCached c (rwNamespace c obj) (rwName c obj) w"

definition blockCreate :: "('o, 'w) raw_client \<Rightarrow> 'o \<Rightarrow> 'w \<Rightarrow> go_error option \<times> 'w" where
  "blockCreate c obj = client_poll c obj (\<lambda>w. apfst created_seen (cached c obj w))"

definition blockUpdate :: "('o, 'w) raw_client \<Rightarrow> 'o \<Rightarrow> 'w \<Rightarrow> go_error option \<times> 'w" where
  "blockUpdate c obj = client_poll c obj (\<lambda>w. apfst (write_seen c (update_seen c obj)) (cached c obj w))"

definition blockDelete :: "('o, 'w) raw_client \<Rightarrow> 'o \<Rightarrow> 'w \<Rightarrow> go_error option \<times> 'w" where
  "blockDelete c obj = client_poll c obj (\<lambda>w. apfst (write_seen c (delete_seen c obj)) (cached c obj w))"

text \<open>A write, then the wait for the object as the write returned it.\<close>

definition write_and_block ::
    "('o \<Rightarrow> 'w \<Rightarrow> (go_error + 'o) \<times> 'w) \<Rightarrow> ('o \<Rightarrow> 'w \<Rightarrow> go_error option \<times> 'w) \<Rightarrow> 'o \<Rightarrow> 'w \<Rightarrow> go_error option \<times> 'w" where
  "write_and_block write block obj w =
     (case write obj w of
        (Inl err, w1) \<Rightarrow> (Some err, w1)
      | (Inr obj', w1) \<Rightarrow> block obj' w1)"

definition cache_Create :: "('o, 'w) raw_client \<Rightarrow> 'o \<Rightarrow> 'w \<Rightarrow> go_error option \<times> 'w" where
  "cache_Create c = write_and_block (rwCreate c) (blockCreate c)"

definition cache_Patch :: "('o, 'w) raw_client \<Rightarrow> 'o \<Rightarrow> 'w \<Rightarrow> go_error option \<times> 'w" where
  "cache_Patch c = write_and_block (rwPatch c) (blockUpdate c)"

definition cache_Update :: "('o, 'w) raw_client \<Rightarrow> 'o \<Rightarrow> 'w \<Rightarrow> go_error option \<times> 'w" where
  "cache_Update c = write_and_block (rwUpdate c) (blockUpdate c)"

definition cache_Delete :: "('o, 'w) raw_client \<Rightarrow> 'o \<Rightarrow> 'w \<Rightarrow> go_error option \<times> 'w" where
  "cache_Delete c = write_and_block (rwDelete c) (blockDelete c)"

definition cache_StatusUpdate :: "('o, 'w) raw_client \<Rightarrow> 'o \<Rightarrow> 'w \<Rightarrow> go_error option \<times> 'w" where
  "cache_StatusUpdate c = write_and_block (rwStatusUpdate c) (blockUpdate c)"

definition cache_StatusPatch :: "('o, 'w) raw_client \<Rightarrow> 'o \<Rightarrow> 'w \<Rightarrow> go_error option \<times> 'w" where
  "cache_StatusPatch c = write_and_block (rwStatusPatch c) (blockUpdate c)"

section \<open>What a successful wait saw\<close>

lemma poll_loop_seen:
  "poll_loop condition n w = (None, w') \<Longrightarrow> \<exists>w0. condition w0 = (Inr True, w')"
proof (induction n arbitrary: w)
  case 0
  then show ?case by simp
next
  case (Suc n)
  obtain r w1 where c: "condition w = (r, w1)" by fastforce
  show ?case
  proof (cases r)
    case (Inl err)
    then show ?thesis using Suc.prems c by simp
  next
    case (Inr b)
    then show ?thesis using Suc c by (cases b) auto
  qed
qed

text \<open>A resource version as etcd counts it: decimal digits without leading zeros.\<close>

definition decimal :: "string \<Rightarrow> bool" where
  "decimal s \<longleftrightarrow> (\<forall>c \<in> set s. CHR ''0'' \<le> c \<and> c \<le> CHR ''9'')"

definition version_value :: "string \<Rightarrow> nat" where
  "version_value s = foldl (\<lambda>n c. 10 * n + (of_char c - 48)) 0 s"

lemma foldl_digits:
  "foldl (\<lambda>n c. 10 * n + (of_char c - 48)) a s =
   a * 10 ^ length s + foldl (\<lambda>n c. 10 * n + (of_char c - 48 :: nat)) 0 s"
proof (induction s arbitrary: a)
  case Nil
  show ?case by simp
next
  case (Cons c s)
  show ?case
    using Cons [of "10 * a + (of_char c - 48)"] Cons [of "of_char c - 48"] by (simp add: algebra_simps)
qed

lemma version_value_Cons: "version_value (c # s) = (of_char c - 48) * 10 ^ length s + version_value s"
  using foldl_digits [of "of_char c - 48" s] by (simp add: version_value_def)

lemma char_digit:
  assumes "CHR ''0'' \<le> c" and "c \<le> CHR ''9''"
  shows "48 \<le> (of_char c :: nat) \<and> (of_char c :: nat) \<le> 57"
  using assms by (simp add: less_eq_char_def)

lemma version_value_bound: "decimal s \<Longrightarrow> version_value s < 10 ^ length s"
proof (induction s)
  case Nil
  show ?case by (simp add: version_value_def)
next
  case (Cons c s)
  have "decimal s" and d: "48 \<le> (of_char c :: nat) \<and> (of_char c :: nat) \<le> 57"
    using Cons.prems char_digit [of c] by (simp_all add: decimal_def)
  then have "version_value s < 10 ^ length s" using Cons.IH by blast
  moreover have "(of_char c - 48 :: nat) * 10 ^ length s \<le> 9 * 10 ^ length s"
    using d by (intro mult_le_mono1) arith
  ultimately have "(of_char c - 48) * 10 ^ length s + version_value s < 9 * 10 ^ length s + 10 ^ length s"
    by (rule add_le_less_mono [rotated])
  then show ?case by (simp add: version_value_Cons)
qed

lemma version_order:
  assumes "decimal a" and "decimal b" and "length a = length b"
  shows "a \<le> b \<longleftrightarrow> version_value a \<le> version_value b"
  using assms
proof (induction a arbitrary: b)
  case Nil
  then show ?case by simp
next
  case (Cons x a)
  then obtain y b' where b: "b = y # b'" by (cases b) auto
  have dec: "decimal a" "decimal b'" and len: "length a = length b'"
    and dx: "48 \<le> (of_char x :: nat)" and dy: "48 \<le> (of_char y :: nat)"
    using Cons.prems char_digit [of x] char_digit [of y] by (simp_all add: b decimal_def)
  note IH = Cons.IH [OF dec len]
  note ba = version_value_bound [OF dec(1)] and bb = version_value_bound [OF dec(2), folded len]
  have lt: "version_value (c # s) < version_value (d # t)"
    if "(of_char c :: nat) < of_char d" "48 \<le> (of_char c :: nat)" "version_value s < 10 ^ n" "length s = n" "length t = n"
    for c d s t n
  proof -
    have "Suc (of_char c - 48) \<le> (of_char d - 48 :: nat)" using that(1,2) by simp
    from mult_le_mono1 [OF this, of "10 ^ n"]
    have "(of_char c - 48) * 10 ^ n + 10 ^ n \<le> (of_char d - 48 :: nat) * 10 ^ n" by (simp add: add.commute)
    then show ?thesis using that(3) by (simp add: version_value_Cons that(4,5))
  qed
  consider "x = y" | "x < y" | "y < x" by force
  then show ?case
  proof cases
    case 1
    then show ?thesis using IH by (simp add: b version_value_Cons len)
  next
    case 2
    then have "(of_char x :: nat) < of_char y" by (simp add: less_char_def)
    then show ?thesis using lt [OF _ dx ba refl len [symmetric]] 2 by (simp add: b less_imp_le)
  next
    case 3
    then have "(of_char y :: nat) < of_char x" by (simp add: less_char_def)
    then have "version_value (y # b') < version_value (x # a)" using lt [OF _ dy bb len [symmetric] refl, of x] by simp
    moreover have "\<not> x < y \<and> x \<noteq> y" using 3 by auto
    ultimately show ?thesis by (simp add: b)
  qed
qed

section \<open>Properties\<close>

text \<open>
  C35: an update of a typed object that reports success has last seen in the cache that the object is
  gone or unknown, or another object under its name, or a version not older than its own, as long as
  both versions have the same number of digits; between versions of different lengths the comparison
  is of strings and can take an old version for a new one.
\<close>

theorem cache_Update_sees_write:
  assumes "cache_Update c obj w = (None, w')" and "rwUpdate c obj w = (Inr obj', w1)"
    and "\<not> rwIsUnstructured c obj'" and "rwHasType c obj'"
  shows "\<exists>w0 res. cached c obj' w0 = (res, w') \<and>
    (case res of
       Inl err \<Rightarrow> IsNotFound err \<or> IsNotRegisteredError err
     | Inr newObj \<Rightarrow> rwUID c newObj \<noteq> rwUID c obj' \<or>
         (if decimal (rwResourceVersion c newObj) \<and> decimal (rwResourceVersion c obj') \<and>
             length (rwResourceVersion c newObj) = length (rwResourceVersion c obj')
          then version_value (rwResourceVersion c obj') \<le> version_value (rwResourceVersion c newObj)
          else rwResourceVersion c obj' \<le> rwResourceVersion c newObj))"
proof -
  have b: "blockUpdate c obj' w1 = (None, w')" using assms(1,2) by (simp add: cache_Update_def write_and_block_def)
  then have "poll_loop (\<lambda>w. apfst (write_seen c (update_seen c obj')) (cached c obj' w)) (Suc (rwPolls c)) w1 = (None, w')"
    using assms(3,4) by (auto simp: blockUpdate_def client_poll_def split: option.splits)
  from poll_loop_seen [OF this] obtain w0 res where res: "cached c obj' w0 = (res, w')" "write_seen c (update_seen c obj') res = Inr True"
    by (metis apfst_conv old.prod.exhaust prod.inject)
  have order: "rwResourceVersion c obj' \<le> rwResourceVersion c newObj \<Longrightarrow>
      (if decimal (rwResourceVersion c newObj) \<and> decimal (rwResourceVersion c obj') \<and>
          length (rwResourceVersion c newObj) = length (rwResourceVersion c obj')
       then version_value (rwResourceVersion c obj') \<le> version_value (rwResourceVersion c newObj)
       else rwResourceVersion c obj' \<le> rwResourceVersion c newObj)" for newObj
    using version_order [of "rwResourceVersion c obj'" "rwResourceVersion c newObj"] by simp
  show ?thesis
  proof (intro exI [of _ w0] exI [of _ res] conjI res(1))
    show "case res of Inl err \<Rightarrow> IsNotFound err \<or> IsNotRegisteredError err
     | Inr newObj \<Rightarrow> rwUID c newObj \<noteq> rwUID c obj' \<or>
         (if decimal (rwResourceVersion c newObj) \<and> decimal (rwResourceVersion c obj') \<and>
             length (rwResourceVersion c newObj) = length (rwResourceVersion c obj')
          then version_value (rwResourceVersion c obj') \<le> version_value (rwResourceVersion c newObj)
          else rwResourceVersion c obj' \<le> rwResourceVersion c newObj)"
    proof (cases res)
      case (Inl err)
      then show ?thesis using res(2) by (auto simp: write_seen_def split: if_splits)
    next
      case (Inr newObj)
      then have "update_seen c obj' newObj" using res(2) by (auto simp: write_seen_def split: option.splits)
      then show ?thesis using order [of newObj] Inr by (auto simp: update_seen_def)
    qed
  qed
qed

text \<open>A cache that still holds version 9 when version 10 is written.\<close>

definition stale_client :: "(string, unit) raw_client" where
  "stale_client =
     \<lparr>rwIsUnstructured = (\<lambda>_. False), rwAccessor = (\<lambda>_. None), rwHasType = (\<lambda>_. True), rwNamespace = (\<lambda>_. []),
      rwName = (\<lambda>_. ''x''), rwUID = (\<lambda>_. ''u''), rwResourceVersion = (\<lambda>v. v), rwDeleted = (\<lambda>_. False),
      rwGetCached = (\<lambda>ns n w. (Inr ''9'', w)), rwCreate = (\<lambda>o1 w. (Inr ''10'', w)), rwPatch = (\<lambda>o1 w. (Inr ''10'', w)),
      rwUpdate = (\<lambda>o1 w. (Inr ''10'', w)), rwDelete = (\<lambda>o1 w. (Inr ''10'', w)), rwStatusUpdate = (\<lambda>o1 w. (Inr ''10'', w)),
      rwStatusPatch = (\<lambda>o1 w. (Inr ''10'', w)), rwPolls = 200\<rparr>"

theorem cache_Update_sees_write_witness:
  "cache_Update stale_client ''9'' () = (None, ()) \<and> (\<exists>w0. cached stale_client ''10'' w0 = (Inr ''9'', ())) \<and>
   version_value ''9'' < version_value ''10''"
proof -
  have upd: "cache_Update stale_client ''9'' () = (None, ())"
    by (simp add: cache_Update_def write_and_block_def blockUpdate_def client_poll_def stale_client_def cached_def
        write_seen_def update_seen_def numeral_eq_Suc less_eq_char_def less_char_def)
  have raw: "rwUpdate stale_client ''9'' () = (Inr ''10'', ())" "\<not> rwIsUnstructured stale_client ''10''"
    "rwHasType stale_client ''10''" "cached stale_client ''10'' w0 = (Inr ''9'', ())" for w0
    by (simp_all add: stale_client_def cached_def)
  obtain w0 res where "cached stale_client ''10'' w0 = (res, ())"
    using cache_Update_sees_write [OF upd raw(1-3)] by blast
  then have "\<exists>w0. cached stale_client ''10'' w0 = (Inr ''9'', ())" using raw(4) by blast
  moreover have "version_value ''9'' < version_value ''10''" by (simp add: version_value_def)
  ultimately show ?thesis using upd by blast
qed

end
