(* ===== verification/ApiObjects.thy ===== *)
theory ApiObjects
  imports DeepCopy
begin

text \<open>
  The types of \<open>pkg/apis\<close> with all their fields, in the order of the source, and their generated deep
  copies, each proved to meet the contract of theory \<open>DeepCopy\<close>: a field that the generated code had
  forgotten, or a type that was changed without generating again, would break one of these proofs.
\<close>

named_theorems deep_copiers \<open>what is a deep copy of which type\<close>

declare deep_plain [deep_copiers] deep_ptr [deep_copiers] deep_slice [deep_copiers] deep_map [deep_copiers]

section \<open>The types of apimachinery\<close>

definition struct_TypeMeta :: gtype where
  "struct_TypeMeta = StructT
    [(''Kind'', StringT), (''APIVersion'', StringT)]"

lemma flat_TypeMeta [simp]: "flat struct_TypeMeta"
  by (simp add: struct_TypeMeta_def)

definition struct_ListMeta :: gtype where
  "struct_ListMeta = StructT
    [(''SelfLink'', StringT), (''ResourceVersion'', StringT), (''Continue'', StringT),
     (''RemainingItemCount'', PtrT (ScalarT Int64K))]"

definition ListMeta_DeepCopyInto :: copier where
  "ListMeta_DeepCopyInto = struct_into
    [(''RemainingItemCount'', copy_ptr plain)]"

lemma deep_ListMeta [deep_copiers]: "deep_copier ListMeta_DeepCopyInto struct_ListMeta"
  unfolding ListMeta_DeepCopyInto_def struct_ListMeta_def 
  by (rule deep_struct) (simp add: deep_fields_Cons deep_fields_Nil deep_copiers)

definition struct_OwnerReference :: gtype where
  "struct_OwnerReference = StructT
    [(''APIVersion'', StringT), (''Kind'', StringT), (''Name'', StringT), (''UID'', StringT),
     (''Controller'', PtrT (ScalarT BooleanK)), (''BlockOwnerDeletion'', PtrT (ScalarT BooleanK))]"

definition OwnerReference_DeepCopyInto :: copier where
  "OwnerReference_DeepCopyInto = struct_into
    [(''Controller'', copy_ptr plain), (''BlockOwnerDeletion'', copy_ptr plain)]"

lemma deep_OwnerReference [deep_copiers]: "deep_copier OwnerReference_DeepCopyInto struct_OwnerReference"
  unfolding OwnerReference_DeepCopyInto_def struct_OwnerReference_def 
  by (rule deep_struct) (simp add: deep_fields_Cons deep_fields_Nil deep_copiers)

definition struct_FieldsV1 :: gtype where
  "struct_FieldsV1 = StructT
    [(''Raw'', SliceT (ScalarT Int8K))]"

definition FieldsV1_DeepCopyInto :: copier where
  "FieldsV1_DeepCopyInto = struct_into
    [(''Raw'', copy_slice plain)]"

lemma deep_FieldsV1 [deep_copiers]: "deep_copier FieldsV1_DeepCopyInto struct_FieldsV1"
  unfolding FieldsV1_DeepCopyInto_def struct_FieldsV1_def 
  by (rule deep_struct) (simp add: deep_fields_Cons deep_fields_Nil deep_copiers)

definition struct_ManagedFieldsEntry :: gtype where
  "struct_ManagedFieldsEntry = StructT
    [(''Manager'', StringT), (''Operation'', StringT), (''APIVersion'', StringT), (''Time'', PtrT TimeT),
     (''FieldsType'', StringT), (''FieldsV1'', PtrT struct_FieldsV1), (''Subresource'', StringT)]"

definition ManagedFieldsEntry_DeepCopyInto :: copier where
  "ManagedFieldsEntry_DeepCopyInto = struct_into
    [(''Time'', copy_ptr plain), (''FieldsV1'', copy_ptr FieldsV1_DeepCopyInto)]"

lemma deep_ManagedFieldsEntry [deep_copiers]: "deep_copier ManagedFieldsEntry_DeepCopyInto struct_ManagedFieldsEntry"
  unfolding ManagedFieldsEntry_DeepCopyInto_def struct_ManagedFieldsEntry_def 
  by (rule deep_struct) (simp add: deep_fields_Cons deep_fields_Nil deep_copiers)

definition struct_ObjectMeta :: gtype where
  "struct_ObjectMeta = StructT
    [(''Name'', StringT), (''GenerateName'', StringT), (''Namespace'', StringT), (''SelfLink'', StringT),
     (''UID'', StringT), (''ResourceVersion'', StringT), (''Generation'', ScalarT Int64K),
     (''CreationTimestamp'', TimeT), (''DeletionTimestamp'', PtrT TimeT),
     (''DeletionGracePeriodSeconds'', PtrT (ScalarT Int64K)), (''Labels'', StringMapT),
     (''Annotations'', StringMapT), (''OwnerReferences'', SliceT struct_OwnerReference),
     (''Finalizers'', SliceT StringT), (''ClusterName'', StringT),
     (''ManagedFields'', SliceT struct_ManagedFieldsEntry)]"

definition ObjectMeta_DeepCopyInto :: copier where
  "ObjectMeta_DeepCopyInto = struct_into
    [(''CreationTimestamp'', plain), (''DeletionTimestamp'', copy_ptr plain),
     (''DeletionGracePeriodSeconds'', copy_ptr plain), (''Labels'', copy_map), (''Annotations'', copy_map),
     (''OwnerReferences'', copy_slice OwnerReference_DeepCopyInto), (''Finalizers'', copy_slice plain),
     (''ManagedFields'', copy_slice ManagedFieldsEntry_DeepCopyInto)]"

lemma deep_ObjectMeta [deep_copiers]: "deep_copier ObjectMeta_DeepCopyInto struct_ObjectMeta"
  unfolding ObjectMeta_DeepCopyInto_def struct_ObjectMeta_def 
  by (rule deep_struct) (simp add: deep_fields_Cons deep_fields_Nil deep_copiers)

definition struct_LabelSelectorRequirement :: gtype where
  "struct_LabelSelectorRequirement = StructT
    [(''Key'', StringT), (''Operator'', StringT), (''Values'', SliceT StringT)]"

definition LabelSelectorRequirement_DeepCopyInto :: copier where
  "LabelSelectorRequirement_DeepCopyInto = struct_into
    [(''Values'', copy_slice plain)]"

lemma deep_LabelSelectorRequirement [deep_copiers]: "deep_copier LabelSelectorRequirement_DeepCopyInto struct_LabelSelectorRequirement"
  unfolding LabelSelectorRequirement_DeepCopyInto_def struct_LabelSelectorRequirement_def 
  by (rule deep_struct) (simp add: deep_fields_Cons deep_fields_Nil deep_copiers)

definition struct_LabelSelector :: gtype where
  "struct_LabelSelector = StructT
    [(''MatchLabels'', StringMapT), (''MatchExpressions'', SliceT struct_LabelSelectorRequirement)]"

definition LabelSelector_DeepCopyInto :: copier where
  "LabelSelector_DeepCopyInto = struct_into
    [(''MatchLabels'', copy_map), (''MatchExpressions'', copy_slice LabelSelectorRequirement_DeepCopyInto)]"

lemma deep_LabelSelector [deep_copiers]: "deep_copier LabelSelector_DeepCopyInto struct_LabelSelector"
  unfolding LabelSelector_DeepCopyInto_def struct_LabelSelector_def 
  by (rule deep_struct) (simp add: deep_fields_Cons deep_fields_Nil deep_copiers)

definition struct_ObjectReference :: gtype where
  "struct_ObjectReference = StructT
    [(''Kind'', StringT), (''Namespace'', StringT), (''Name'', StringT), (''UID'', StringT),
     (''APIVersion'', StringT), (''ResourceVersion'', StringT), (''FieldPath'', StringT)]"

lemma flat_ObjectReference [simp]: "flat struct_ObjectReference"
  by (simp add: struct_ObjectReference_def)

definition struct_Timestamp :: gtype where
  "struct_Timestamp = StructT
    [(''Seconds'', ScalarT Int64K), (''Nanos'', ScalarT Int32K)]"

lemma flat_Timestamp [simp]: "flat struct_Timestamp"
  by (simp add: struct_Timestamp_def)

section \<open>Policies (pkg/apis/policy/v1beta1)\<close>

text \<open>\<open>DeepCopyObject\<close> gives an interface, which is \<open>nil\<close> for a \<open>nil\<close> pointer.\<close>

definition as_object :: "gval \<times> memory \<Rightarrow> gval option \<times> memory" where
  "as_object r = (if fst r \<noteq> PtrV None then (Some (fst r), snd r) else (None, snd r))"

definition struct_Condition :: gtype where
  "struct_Condition = StructT
    [(''Type'', StringT), (''Status'', StringT), (''Severity'', StringT), (''LastTransitionTime'', TimeT),
     (''Reason'', StringT), (''Message'', StringT)]"

definition Condition_DeepCopyInto :: copier where
  "Condition_DeepCopyInto = struct_into
    [(''LastTransitionTime'', plain)]"

definition Condition_DeepCopy :: copier where
  "Condition_DeepCopy = copy_ptr Condition_DeepCopyInto"

lemma flat_Condition [simp]: "flat struct_Condition"
  by (simp add: struct_Condition_def)

lemma deep_Condition [deep_copiers]: "deep_copier Condition_DeepCopyInto struct_Condition"
  unfolding Condition_DeepCopyInto_def struct_Condition_def 
  by (rule deep_struct) (simp add: deep_fields_Cons deep_fields_Nil deep_copiers)

definition slice_Conditions :: gtype where
  "slice_Conditions = SliceT struct_Condition"

text \<open>Without the check for \<open>nil\<close>, which the callers make.\<close>

definition Conditions_DeepCopyInto :: copier where
  "Conditions_DeepCopyInto v m =
     (case v of
        SliceV None \<Rightarrow> (let (new, m1) = alloc (Array []) m in (SliceV (Some (new, 0, 0)), m1))
      | _ \<Rightarrow> copy_slice Condition_DeepCopyInto v m)"

definition Conditions_DeepCopy :: copier where
  "Conditions_DeepCopy v m = (if v = SliceV None then (v, m) else Conditions_DeepCopyInto v m)"

lemma deep_slice_Conditions [deep_copiers]: "deep_copier (copy_slice Condition_DeepCopyInto) slice_Conditions"
  unfolding slice_Conditions_def by (rule deep_slice [OF deep_Condition])

lemma Conditions_DeepCopy_slice: "Conditions_DeepCopy = copy_slice Condition_DeepCopyInto"
  proof (intro ext)
  fix v m
  show "Conditions_DeepCopy v m = copy_slice Condition_DeepCopyInto v m"
  proof (cases "v = SliceV None")
    case True
    then show ?thesis by (simp add: Conditions_DeepCopy_def copy_slice_def)
  next
    case False
    then show ?thesis
      by (simp add: Conditions_DeepCopy_def Conditions_DeepCopyInto_def split: gval.split option.split)
  qed
qed

definition struct_JsPolicySpec :: gtype where
  "struct_JsPolicySpec = StructT
    [(''Operations'', SliceT StringT), (''Resources'', SliceT StringT), (''APIGroups'', SliceT StringT),
     (''APIVersions'', SliceT StringT), (''Scope'', PtrT StringT), (''ReinvocationPolicy'', PtrT StringT),
     (''FailurePolicy'', PtrT StringT), (''MatchPolicy'', PtrT StringT),
     (''NamespaceSelector'', PtrT struct_LabelSelector), (''ObjectSelector'', PtrT struct_LabelSelector),
     (''TimeoutSeconds'', PtrT (ScalarT Int32K)), (''ViolationPolicy'', PtrT StringT),
     (''AuditPolicy'', PtrT StringT), (''AuditLogSize'', PtrT (ScalarT Int32K)), (''Type'', StringT),
     (''Dependencies'', StringMapT), (''JavaScript'', StringT)]"

definition JsPolicySpec_DeepCopyInto :: copier where
  "JsPolicySpec_DeepCopyInto = struct_into
    [(''Operations'', copy_slice plain), (''Resources'', copy_slice plain), (''APIGroups'', copy_slice plain),
     (''APIVersions'', copy_slice plain), (''Scope'', copy_ptr plain),
     (''ReinvocationPolicy'', copy_ptr plain), (''FailurePolicy'', copy_ptr plain),
     (''MatchPolicy'', copy_ptr plain), (''NamespaceSelector'', copy_ptr LabelSelector_DeepCopyInto),
     (''ObjectSelector'', copy_ptr LabelSelector_DeepCopyInto), (''TimeoutSeconds'', copy_ptr plain),
     (''ViolationPolicy'', copy_ptr plain), (''AuditPolicy'', copy_ptr plain),
     (''AuditLogSize'', copy_ptr plain), (''Dependencies'', copy_map)]"

definition JsPolicySpec_DeepCopy :: copier where
  "JsPolicySpec_DeepCopy = copy_ptr JsPolicySpec_DeepCopyInto"

lemma deep_JsPolicySpec [deep_copiers]: "deep_copier JsPolicySpec_DeepCopyInto struct_JsPolicySpec"
  unfolding JsPolicySpec_DeepCopyInto_def struct_JsPolicySpec_def 
  by (rule deep_struct) (simp add: deep_fields_Cons deep_fields_Nil deep_copiers)

definition struct_JsPolicyStatus :: gtype where
  "struct_JsPolicyStatus = StructT
    [(''Phase'', StringT), (''Reason'', StringT), (''Message'', StringT), (''Conditions'', slice_Conditions),
     (''ObservedGeneration'', ScalarT Int64K), (''BundleHash'', StringT)]"

definition JsPolicyStatus_DeepCopyInto :: copier where
  "JsPolicyStatus_DeepCopyInto = struct_into
    [(''Conditions'', copy_slice Condition_DeepCopyInto)]"

definition JsPolicyStatus_DeepCopy :: copier where
  "JsPolicyStatus_DeepCopy = copy_ptr JsPolicyStatus_DeepCopyInto"

lemma deep_JsPolicyStatus [deep_copiers]: "deep_copier JsPolicyStatus_DeepCopyInto struct_JsPolicyStatus"
  unfolding JsPolicyStatus_DeepCopyInto_def struct_JsPolicyStatus_def 
  by (rule deep_struct) (simp add: deep_fields_Cons deep_fields_Nil deep_copiers)

definition struct_JsPolicy :: gtype where
  "struct_JsPolicy = StructT
    [(''TypeMeta'', struct_TypeMeta), (''ObjectMeta'', struct_ObjectMeta), (''Spec'', struct_JsPolicySpec),
     (''Status'', struct_JsPolicyStatus)]"

definition JsPolicy_DeepCopyInto :: copier where
  "JsPolicy_DeepCopyInto = struct_into
    [(''ObjectMeta'', ObjectMeta_DeepCopyInto), (''Spec'', JsPolicySpec_DeepCopyInto),
     (''Status'', JsPolicyStatus_DeepCopyInto)]"

definition JsPolicy_DeepCopy :: copier where
  "JsPolicy_DeepCopy = copy_ptr JsPolicy_DeepCopyInto"

definition JsPolicy_DeepCopyObject :: "gval \<Rightarrow> memory \<Rightarrow> gval option \<times> memory" where
  "JsPolicy_DeepCopyObject v m = as_object (JsPolicy_DeepCopy v m)"

lemma deep_JsPolicy [deep_copiers]: "deep_copier JsPolicy_DeepCopyInto struct_JsPolicy"
  unfolding JsPolicy_DeepCopyInto_def struct_JsPolicy_def 
  by (rule deep_struct) (simp add: deep_fields_Cons deep_fields_Nil deep_copiers)

definition struct_JsPolicyList :: gtype where
  "struct_JsPolicyList = StructT
    [(''TypeMeta'', struct_TypeMeta), (''ListMeta'', struct_ListMeta), (''Items'', SliceT struct_JsPolicy)]"

definition JsPolicyList_DeepCopyInto :: copier where
  "JsPolicyList_DeepCopyInto = struct_into
    [(''ListMeta'', ListMeta_DeepCopyInto), (''Items'', copy_slice JsPolicy_DeepCopyInto)]"

definition JsPolicyList_DeepCopy :: copier where
  "JsPolicyList_DeepCopy = copy_ptr JsPolicyList_DeepCopyInto"

definition JsPolicyList_DeepCopyObject :: "gval \<Rightarrow> memory \<Rightarrow> gval option \<times> memory" where
  "JsPolicyList_DeepCopyObject v m = as_object (JsPolicyList_DeepCopy v m)"

lemma deep_JsPolicyList [deep_copiers]: "deep_copier JsPolicyList_DeepCopyInto struct_JsPolicyList"
  unfolding JsPolicyList_DeepCopyInto_def struct_JsPolicyList_def 
  by (rule deep_struct) (simp add: deep_fields_Cons deep_fields_Nil deep_copiers)

definition struct_JsPolicyBundleSpec :: gtype where
  "struct_JsPolicyBundleSpec = StructT
    [(''Bundle'', SliceT (ScalarT Int8K))]"

definition JsPolicyBundleSpec_DeepCopyInto :: copier where
  "JsPolicyBundleSpec_DeepCopyInto = struct_into
    [(''Bundle'', copy_slice plain)]"

definition JsPolicyBundleSpec_DeepCopy :: copier where
  "JsPolicyBundleSpec_DeepCopy = copy_ptr JsPolicyBundleSpec_DeepCopyInto"

lemma deep_JsPolicyBundleSpec [deep_copiers]: "deep_copier JsPolicyBundleSpec_DeepCopyInto struct_JsPolicyBundleSpec"
  unfolding JsPolicyBundleSpec_DeepCopyInto_def struct_JsPolicyBundleSpec_def 
  by (rule deep_struct) (simp add: deep_fields_Cons deep_fields_Nil deep_copiers)

definition struct_JsPolicyBundleStatus :: gtype where
  "struct_JsPolicyBundleStatus = StructT
    []"

definition JsPolicyBundleStatus_DeepCopyInto :: copier where
  "JsPolicyBundleStatus_DeepCopyInto = plain"

definition JsPolicyBundleStatus_DeepCopy :: copier where
  "JsPolicyBundleStatus_DeepCopy = copy_ptr JsPolicyBundleStatus_DeepCopyInto"

lemma flat_JsPolicyBundleStatus [simp]: "flat struct_JsPolicyBundleStatus"
  by (simp add: struct_JsPolicyBundleStatus_def)

lemma deep_JsPolicyBundleStatus [deep_copiers]: "deep_copier JsPolicyBundleStatus_DeepCopyInto struct_JsPolicyBundleStatus"
  by (simp add: JsPolicyBundleStatus_DeepCopyInto_def deep_plain)

definition struct_JsPolicyBundle :: gtype where
  "struct_JsPolicyBundle = StructT
    [(''TypeMeta'', struct_TypeMeta), (''ObjectMeta'', struct_ObjectMeta),
     (''Spec'', struct_JsPolicyBundleSpec), (''Status'', struct_JsPolicyBundleStatus)]"

definition JsPolicyBundle_DeepCopyInto :: copier where
  "JsPolicyBundle_DeepCopyInto = struct_into
    [(''ObjectMeta'', ObjectMeta_DeepCopyInto), (''Spec'', JsPolicyBundleSpec_DeepCopyInto)]"

definition JsPolicyBundle_DeepCopy :: copier where
  "JsPolicyBundle_DeepCopy = copy_ptr JsPolicyBundle_DeepCopyInto"

definition JsPolicyBundle_DeepCopyObject :: "gval \<Rightarrow> memory \<Rightarrow> gval option \<times> memory" where
  "JsPolicyBundle_DeepCopyObject v m = as_object (JsPolicyBundle_DeepCopy v m)"

lemma deep_JsPolicyBundle [deep_copiers]: "deep_copier JsPolicyBundle_DeepCopyInto struct_JsPolicyBundle"
  unfolding JsPolicyBundle_DeepCopyInto_def struct_JsPolicyBundle_def 
  by (rule deep_struct) (simp add: deep_fields_Cons deep_fields_Nil deep_copiers)

definition struct_JsPolicyBundleList :: gtype where
  "struct_JsPolicyBundleList = StructT
    [(''TypeMeta'', struct_TypeMeta), (''ListMeta'', struct_ListMeta), (''Items'', SliceT struct_JsPolicyBundle)]"

definition JsPolicyBundleList_DeepCopyInto :: copier where
  "JsPolicyBundleList_DeepCopyInto = struct_into
    [(''ListMeta'', ListMeta_DeepCopyInto), (''Items'', copy_slice JsPolicyBundle_DeepCopyInto)]"

definition JsPolicyBundleList_DeepCopy :: copier where
  "JsPolicyBundleList_DeepCopy = copy_ptr JsPolicyBundleList_DeepCopyInto"

definition JsPolicyBundleList_DeepCopyObject :: "gval \<Rightarrow> memory \<Rightarrow> gval option \<times> memory" where
  "JsPolicyBundleList_DeepCopyObject v m = as_object (JsPolicyBundleList_DeepCopy v m)"

lemma deep_JsPolicyBundleList [deep_copiers]: "deep_copier JsPolicyBundleList_DeepCopyInto struct_JsPolicyBundleList"
  unfolding JsPolicyBundleList_DeepCopyInto_def struct_JsPolicyBundleList_def 
  by (rule deep_struct) (simp add: deep_fields_Cons deep_fields_Nil deep_copiers)

definition struct_RequestInfo :: gtype where
  "struct_RequestInfo = StructT
    [(''Name'', StringT), (''Namespace'', StringT), (''Kind'', StringT), (''APIVersion'', StringT),
     (''Operation'', StringT)]"

definition RequestInfo_DeepCopyInto :: copier where
  "RequestInfo_DeepCopyInto = plain"

definition RequestInfo_DeepCopy :: copier where
  "RequestInfo_DeepCopy = copy_ptr RequestInfo_DeepCopyInto"

lemma flat_RequestInfo [simp]: "flat struct_RequestInfo"
  by (simp add: struct_RequestInfo_def)

lemma deep_RequestInfo [deep_copiers]: "deep_copier RequestInfo_DeepCopyInto struct_RequestInfo"
  by (simp add: RequestInfo_DeepCopyInto_def deep_plain)

definition struct_UserInfo :: gtype where
  "struct_UserInfo = StructT
    [(''Username'', StringT), (''UID'', StringT)]"

definition UserInfo_DeepCopyInto :: copier where
  "UserInfo_DeepCopyInto = plain"

definition UserInfo_DeepCopy :: copier where
  "UserInfo_DeepCopy = copy_ptr UserInfo_DeepCopyInto"

lemma flat_UserInfo [simp]: "flat struct_UserInfo"
  by (simp add: struct_UserInfo_def)

lemma deep_UserInfo [deep_copiers]: "deep_copier UserInfo_DeepCopyInto struct_UserInfo"
  by (simp add: UserInfo_DeepCopyInto_def deep_plain)

definition struct_PolicyViolation :: gtype where
  "struct_PolicyViolation = StructT
    [(''Action'', StringT), (''Code'', ScalarT Int32K), (''Reason'', StringT), (''Message'', StringT),
     (''RequestInfo'', PtrT struct_RequestInfo), (''UserInfo'', PtrT struct_UserInfo), (''Timestamp'', TimeT)]"

definition PolicyViolation_DeepCopyInto :: copier where
  "PolicyViolation_DeepCopyInto = struct_into
    [(''RequestInfo'', copy_ptr plain), (''UserInfo'', copy_ptr plain), (''Timestamp'', plain)]"

definition PolicyViolation_DeepCopy :: copier where
  "PolicyViolation_DeepCopy = copy_ptr PolicyViolation_DeepCopyInto"

lemma deep_PolicyViolation [deep_copiers]: "deep_copier PolicyViolation_DeepCopyInto struct_PolicyViolation"
  unfolding PolicyViolation_DeepCopyInto_def struct_PolicyViolation_def 
  by (rule deep_struct) (simp add: deep_fields_Cons deep_fields_Nil deep_copiers)

definition struct_JsPolicyViolationsSpec :: gtype where
  "struct_JsPolicyViolationsSpec = StructT
    []"

definition JsPolicyViolationsSpec_DeepCopyInto :: copier where
  "JsPolicyViolationsSpec_DeepCopyInto = plain"

definition JsPolicyViolationsSpec_DeepCopy :: copier where
  "JsPolicyViolationsSpec_DeepCopy = copy_ptr JsPolicyViolationsSpec_DeepCopyInto"

lemma flat_JsPolicyViolationsSpec [simp]: "flat struct_JsPolicyViolationsSpec"
  by (simp add: struct_JsPolicyViolationsSpec_def)

lemma deep_JsPolicyViolationsSpec [deep_copiers]: "deep_copier JsPolicyViolationsSpec_DeepCopyInto struct_JsPolicyViolationsSpec"
  by (simp add: JsPolicyViolationsSpec_DeepCopyInto_def deep_plain)

definition struct_JsPolicyViolationsStatus :: gtype where
  "struct_JsPolicyViolationsStatus = StructT
    [(''Violations'', SliceT struct_PolicyViolation)]"

definition JsPolicyViolationsStatus_DeepCopyInto :: copier where
  "JsPolicyViolationsStatus_DeepCopyInto = struct_into
    [(''Violations'', copy_slice PolicyViolation_DeepCopyInto)]"

definition JsPolicyViolationsStatus_DeepCopy :: copier where
  "JsPolicyViolationsStatus_DeepCopy = copy_ptr JsPolicyViolationsStatus_DeepCopyInto"

lemma deep_JsPolicyViolationsStatus [deep_copiers]: "deep_copier JsPolicyViolationsStatus_DeepCopyInto struct_JsPolicyViolationsStatus"
  unfolding JsPolicyViolationsStatus_DeepCopyInto_def struct_JsPolicyViolationsStatus_def 
  by (rule deep_struct) (simp add: deep_fields_Cons deep_fields_Nil deep_copiers)

definition struct_JsPolicyViolations :: gtype where
  "struct_JsPolicyViolations = StructT
    [(''TypeMeta'', struct_TypeMeta), (''ObjectMeta'', struct_ObjectMeta),
     (''Spec'', struct_JsPolicyViolationsSpec), (''Status'', struct_JsPolicyViolationsStatus)]"

definition JsPolicyViolations_DeepCopyInto :: copier where
  "JsPolicyViolations_DeepCopyInto = struct_into
    [(''ObjectMeta'', ObjectMeta_DeepCopyInto), (''Status'', JsPolicyViolationsStatus_DeepCopyInto)]"

definition JsPolicyViolations_DeepCopy :: copier where
  "JsPolicyViolations_DeepCopy = copy_ptr JsPolicyViolations_DeepCopyInto"

definition JsPolicyViolations_DeepCopyObject :: "gval \<Rightarrow> memory \<Rightarrow> gval option \<times> memory" where
  "JsPolicyViolations_DeepCopyObject v m = as_object (JsPolicyViolations_DeepCopy v m)"

lemma deep_JsPolicyViolations [deep_copiers]: "deep_copier JsPolicyViolations_DeepCopyInto struct_JsPolicyViolations"
  unfolding JsPolicyViolations_DeepCopyInto_def struct_JsPolicyViolations_def 
  by (rule deep_struct) (simp add: deep_fields_Cons deep_fields_Nil deep_copiers)

definition struct_JsPolicyViolationsList :: gtype where
  "struct_JsPolicyViolationsList = StructT
    [(''TypeMeta'', struct_TypeMeta), (''ListMeta'', struct_ListMeta),
     (''Items'', SliceT struct_JsPolicyViolations)]"

definition JsPolicyViolationsList_DeepCopyInto :: copier where
  "JsPolicyViolationsList_DeepCopyInto = struct_into
    [(''ListMeta'', ListMeta_DeepCopyInto), (''Items'', copy_slice JsPolicyViolations_DeepCopyInto)]"

definition JsPolicyViolationsList_DeepCopy :: copier where
  "JsPolicyViolationsList_DeepCopy = copy_ptr JsPolicyViolationsList_DeepCopyInto"

definition JsPolicyViolationsList_DeepCopyObject :: "gval \<Rightarrow> memory \<Rightarrow> gval option \<times> memory" where
  "JsPolicyViolationsList_DeepCopyObject v m = as_object (JsPolicyViolationsList_DeepCopy v m)"

lemma deep_JsPolicyViolationsList [deep_copiers]: "deep_copier JsPolicyViolationsList_DeepCopyInto struct_JsPolicyViolationsList"
  unfolding JsPolicyViolationsList_DeepCopyInto_def struct_JsPolicyViolationsList_def 
  by (rule deep_struct) (simp add: deep_fields_Cons deep_fields_Nil deep_copiers)

section \<open>Policy reports (pkg/apis/policyreport/v1alpha2)\<close>

definition struct_PolicyReportSummary :: gtype where
  "struct_PolicyReportSummary = StructT
    [(''Pass'', ScalarT Int64K), (''Fail'', ScalarT Int64K), (''Warn'', ScalarT Int64K),
     (''Error'', ScalarT Int64K), (''Skip'', ScalarT Int64K)]"

definition PolicyReportSummary_DeepCopyInto :: copier where
  "PolicyReportSummary_DeepCopyInto = plain"

definition PolicyReportSummary_DeepCopy :: copier where
  "PolicyReportSummary_DeepCopy = copy_ptr PolicyReportSummary_DeepCopyInto"

lemma flat_PolicyReportSummary [simp]: "flat struct_PolicyReportSummary"
  by (simp add: struct_PolicyReportSummary_def)

lemma deep_PolicyReportSummary [deep_copiers]: "deep_copier PolicyReportSummary_DeepCopyInto struct_PolicyReportSummary"
  by (simp add: PolicyReportSummary_DeepCopyInto_def deep_plain)

definition struct_PolicyReportResult :: gtype where
  "struct_PolicyReportResult = StructT
    [(''Source'', StringT), (''Policy'', StringT), (''Rule'', StringT),
     (''Resources'', SliceT (PtrT struct_ObjectReference)), (''ResourceSelector'', PtrT struct_LabelSelector),
     (''Message'', StringT), (''Result'', StringT), (''Scored'', ScalarT BooleanK),
     (''Properties'', StringMapT), (''Timestamp'', struct_Timestamp), (''Category'', StringT),
     (''Severity'', StringT)]"

definition PolicyReportResult_DeepCopyInto :: copier where
  "PolicyReportResult_DeepCopyInto = struct_into
    [(''Resources'', copy_slice (copy_ptr plain)), (''ResourceSelector'', copy_ptr LabelSelector_DeepCopyInto),
     (''Properties'', copy_map)]"

definition PolicyReportResult_DeepCopy :: copier where
  "PolicyReportResult_DeepCopy = copy_ptr PolicyReportResult_DeepCopyInto"

lemma deep_PolicyReportResult [deep_copiers]: "deep_copier PolicyReportResult_DeepCopyInto struct_PolicyReportResult"
  unfolding PolicyReportResult_DeepCopyInto_def struct_PolicyReportResult_def 
  by (rule deep_struct) (simp add: deep_fields_Cons deep_fields_Nil deep_copiers)

definition struct_PolicyReport :: gtype where
  "struct_PolicyReport = StructT
    [(''TypeMeta'', struct_TypeMeta), (''ObjectMeta'', struct_ObjectMeta),
     (''Scope'', PtrT struct_ObjectReference), (''ScopeSelector'', PtrT struct_LabelSelector),
     (''Summary'', struct_PolicyReportSummary), (''Results'', SliceT (PtrT struct_PolicyReportResult))]"

definition PolicyReport_DeepCopyInto :: copier where
  "PolicyReport_DeepCopyInto = struct_into
    [(''ObjectMeta'', ObjectMeta_DeepCopyInto), (''Scope'', copy_ptr plain),
     (''ScopeSelector'', copy_ptr LabelSelector_DeepCopyInto),
     (''Results'', copy_slice (copy_ptr PolicyReportResult_DeepCopyInto))]"

definition PolicyReport_DeepCopy :: copier where
  "PolicyReport_DeepCopy = copy_ptr PolicyReport_DeepCopyInto"

definition PolicyReport_DeepCopyObject :: "gval \<Rightarrow> memory \<Rightarrow> gval option \<times> memory" where
  "PolicyReport_DeepCopyObject v m = as_object (PolicyReport_DeepCopy v m)"

lemma deep_PolicyReport [deep_copiers]: "deep_copier PolicyReport_DeepCopyInto struct_PolicyReport"
  unfolding PolicyReport_DeepCopyInto_def struct_PolicyReport_def 
  by (rule deep_struct) (simp add: deep_fields_Cons deep_fields_Nil deep_copiers)

definition struct_PolicyReportList :: gtype where
  "struct_PolicyReportList = StructT
    [(''TypeMeta'', struct_TypeMeta), (''ListMeta'', struct_ListMeta), (''Items'', SliceT struct_PolicyReport)]"

definition PolicyReportList_DeepCopyInto :: copier where
  "PolicyReportList_DeepCopyInto = struct_into
    [(''ListMeta'', ListMeta_DeepCopyInto), (''Items'', copy_slice PolicyReport_DeepCopyInto)]"

definition PolicyReportList_DeepCopy :: copier where
  "PolicyReportList_DeepCopy = copy_ptr PolicyReportList_DeepCopyInto"

definition PolicyReportList_DeepCopyObject :: "gval \<Rightarrow> memory \<Rightarrow> gval option \<times> memory" where
  "PolicyReportList_DeepCopyObject v m = as_object (PolicyReportList_DeepCopy v m)"

lemma deep_PolicyReportList [deep_copiers]: "deep_copier PolicyReportList_DeepCopyInto struct_PolicyReportList"
  unfolding PolicyReportList_DeepCopyInto_def struct_PolicyReportList_def 
  by (rule deep_struct) (simp add: deep_fields_Cons deep_fields_Nil deep_copiers)

definition struct_ClusterPolicyReport :: gtype where
  "struct_ClusterPolicyReport = StructT
    [(''TypeMeta'', struct_TypeMeta), (''ObjectMeta'', struct_ObjectMeta),
     (''Scope'', PtrT struct_ObjectReference), (''ScopeSelector'', PtrT struct_LabelSelector),
     (''Summary'', struct_PolicyReportSummary), (''Results'', SliceT (PtrT struct_PolicyReportResult))]"

definition ClusterPolicyReport_DeepCopyInto :: copier where
  "ClusterPolicyReport_DeepCopyInto = struct_into
    [(''ObjectMeta'', ObjectMeta_DeepCopyInto), (''Scope'', copy_ptr plain),
     (''ScopeSelector'', copy_ptr LabelSelector_DeepCopyInto),
     (''Results'', copy_slice (copy_ptr PolicyReportResult_DeepCopyInto))]"

definition ClusterPolicyReport_DeepCopy :: copier where
  "ClusterPolicyReport_DeepCopy = copy_ptr ClusterPolicyReport_DeepCopyInto"

definition ClusterPolicyReport_DeepCopyObject :: "gval \<Rightarrow> memory \<Rightarrow> gval option \<times> memory" where
  "ClusterPolicyReport_DeepCopyObject v m = as_object (ClusterPolicyReport_DeepCopy v m)"

lemma deep_ClusterPolicyReport [deep_copiers]: "deep_copier ClusterPolicyReport_DeepCopyInto struct_ClusterPolicyReport"
  unfolding ClusterPolicyReport_DeepCopyInto_def struct_ClusterPolicyReport_def 
  by (rule deep_struct) (simp add: deep_fields_Cons deep_fields_Nil deep_copiers)

definition struct_ClusterPolicyReportList :: gtype where
  "struct_ClusterPolicyReportList = StructT
    [(''TypeMeta'', struct_TypeMeta), (''ListMeta'', struct_ListMeta),
     (''Items'', SliceT struct_ClusterPolicyReport)]"

definition ClusterPolicyReportList_DeepCopyInto :: copier where
  "ClusterPolicyReportList_DeepCopyInto = struct_into
    [(''ListMeta'', ListMeta_DeepCopyInto), (''Items'', copy_slice ClusterPolicyReport_DeepCopyInto)]"

definition ClusterPolicyReportList_DeepCopy :: copier where
  "ClusterPolicyReportList_DeepCopy = copy_ptr ClusterPolicyReportList_DeepCopyInto"

definition ClusterPolicyReportList_DeepCopyObject :: "gval \<Rightarrow> memory \<Rightarrow> gval option \<times> memory" where
  "ClusterPolicyReportList_DeepCopyObject v m = as_object (ClusterPolicyReportList_DeepCopy v m)"

lemma deep_ClusterPolicyReportList [deep_copiers]: "deep_copier ClusterPolicyReportList_DeepCopyInto struct_ClusterPolicyReportList"
  unfolding ClusterPolicyReportList_DeepCopyInto_def struct_ClusterPolicyReportList_def 
  by (rule deep_struct) (simp add: deep_fields_Cons deep_fields_Nil deep_copiers)

section \<open>Properties\<close>

interpretation jsPolicy: deep_copier JsPolicy_DeepCopyInto struct_JsPolicy
  by (rule deep_JsPolicy)

interpretation jsPolicyList: deep_copier JsPolicyList_DeepCopyInto struct_JsPolicyList
  by (rule deep_JsPolicyList)

interpretation jsPolicyBundle: deep_copier JsPolicyBundle_DeepCopyInto struct_JsPolicyBundle
  by (rule deep_JsPolicyBundle)

interpretation jsPolicyBundleList: deep_copier JsPolicyBundleList_DeepCopyInto struct_JsPolicyBundleList
  by (rule deep_JsPolicyBundleList)

interpretation jsPolicyViolations: deep_copier JsPolicyViolations_DeepCopyInto struct_JsPolicyViolations
  by (rule deep_JsPolicyViolations)

interpretation jsPolicyViolationsList: deep_copier JsPolicyViolationsList_DeepCopyInto struct_JsPolicyViolationsList
  by (rule deep_JsPolicyViolationsList)

interpretation policyReport: deep_copier PolicyReport_DeepCopyInto struct_PolicyReport
  by (rule deep_PolicyReport)

interpretation policyReportList: deep_copier PolicyReportList_DeepCopyInto struct_PolicyReportList
  by (rule deep_PolicyReportList)

interpretation clusterPolicyReport: deep_copier ClusterPolicyReport_DeepCopyInto struct_ClusterPolicyReport
  by (rule deep_ClusterPolicyReport)

interpretation clusterPolicyReportList: deep_copier ClusterPolicyReportList_DeepCopyInto struct_ClusterPolicyReportList
  by (rule deep_ClusterPolicyReportList)

definition api_objects :: "(copier \<times> gtype) list" where
  "api_objects =
     [(JsPolicy_DeepCopy, struct_JsPolicy),
      (JsPolicyList_DeepCopy, struct_JsPolicyList),
      (JsPolicyBundle_DeepCopy, struct_JsPolicyBundle),
      (JsPolicyBundleList_DeepCopy, struct_JsPolicyBundleList),
      (JsPolicyViolations_DeepCopy, struct_JsPolicyViolations),
      (JsPolicyViolationsList_DeepCopy, struct_JsPolicyViolationsList),
      (PolicyReport_DeepCopy, struct_PolicyReport),
      (PolicyReportList_DeepCopy, struct_PolicyReportList),
      (ClusterPolicyReport_DeepCopy, struct_ClusterPolicyReport),
      (ClusterPolicyReportList_DeepCopy, struct_ClusterPolicyReportList)]"

lemma api_objects_deep: "(copy, T) \<in> set api_objects \<Longrightarrow> deep_copier copy (PtrT T)"
  by (auto simp: api_objects_def JsPolicy_DeepCopy_def JsPolicyList_DeepCopy_def JsPolicyBundle_DeepCopy_def
      JsPolicyBundleList_DeepCopy_def JsPolicyViolations_DeepCopy_def JsPolicyViolationsList_DeepCopy_def
      PolicyReport_DeepCopy_def PolicyReportList_DeepCopy_def ClusterPolicyReport_DeepCopy_def
      ClusterPolicyReportList_DeepCopy_def intro: deep_copiers)

text \<open>
  C33: the deep copy of an API object, of any of the ten kinds, whatever it contains and however its own parts share
  memory, has the same contents as the object and shares no memory with it: whatever is written afterwards to
  the cells of the one, the other is still read as it was.
\<close>

theorem deep_copies_are_independent:
  assumes "(copy, T) \<in> set api_objects" and "reads m (PtrT T) v t A" and "copy v m = (v', m')"
  shows "\<exists>B. reads m' (PtrT T) v' t B \<and> A \<inter> B = {} \<and>
    (\<forall>m''. agrees (- B \<inter> {..<length m'}) m' m'' \<longrightarrow> reads m'' (PtrT T) v t A) \<and>
    (\<forall>m''. agrees (- A \<inter> {..<length m'}) m' m'' \<longrightarrow> reads m'' (PtrT T) v' t B)"
  by (rule deep_copier.independent [OF api_objects_deep [OF assms(1)] assms(2,3)])

text \<open>A bundle with a label, whose payload is part of a longer array.\<close>

definition example_memory :: memory where
  "example_memory =
     [StringMap [(''team'', ''a'')], Array [ScalarV (Int8 1), ScalarV (Int8 2), ScalarV (Int8 3)],
      Variable (StructV
        [(''TypeMeta'', zero struct_TypeMeta),
         (''ObjectMeta'', case zero struct_ObjectMeta of StructV vs \<Rightarrow> StructV (AList.update ''Labels'' (MapV (Some 0)) vs)),
         (''Spec'', StructV [(''Bundle'', SliceV (Some (1, 1, 2)))]),
         (''Status'', StructV [])])]"

lemma example_memory_reads: "\<exists>t A. reads example_memory (PtrT struct_JsPolicyBundle) (PtrV (Some 2)) t A \<and> 1 \<in> A"
  unfolding example_memory_def struct_JsPolicyBundle_def struct_TypeMeta_def struct_ObjectMeta_def
    struct_JsPolicyBundleSpec_def struct_JsPolicyBundleStatus_def
  by (intro exI conjI) (rule reads_reads_fields_reads_elems.intros | simp)+

theorem deep_copies_are_independent_witness:
  "\<exists>t v' m' B. JsPolicyBundle_DeepCopy (PtrV (Some 2)) example_memory = (v', m') \<and>
     reads m' (PtrT struct_JsPolicyBundle) v' t B \<and>
     reads (m'[1 := Array []]) (PtrT struct_JsPolicyBundle) v' t B \<and>
     (\<exists>A. reads example_memory (PtrT struct_JsPolicyBundle) (PtrV (Some 2)) t A)"
proof -
  obtain t A where r: "reads example_memory (PtrT struct_JsPolicyBundle) (PtrV (Some 2)) t A" "1 \<in> A"
    using example_memory_reads by blast
  obtain v' m' where c: "JsPolicyBundle_DeepCopy (PtrV (Some 2)) example_memory = (v', m')" by fastforce
  have "(JsPolicyBundle_DeepCopy, struct_JsPolicyBundle) \<in> set api_objects" by (simp add: api_objects_def)
  from deep_copies_are_independent [OF this r(1) c] obtain B where B: "reads m' (PtrT struct_JsPolicyBundle) v' t B"
    "\<forall>m''. agrees (- A \<inter> {..<length m'}) m' m'' \<longrightarrow> reads m'' (PtrT struct_JsPolicyBundle) v' t B" by blast
  have "agrees (- A \<inter> {..<length m'}) m' (m'[1 := Array []])" using r(2) by (auto simp: agrees_def) (metis nth_list_update_neq)
  then show ?thesis using c r(1) B by blast
qed

end
