(* ===== verification/SharedConditions.thy ===== *)
theory SharedConditions
  imports ApiObjects Conditions
begin

text \<open>
  \<open>conditions.Set\<close> (\<open>pkg/util/conditions/setter.go\<close>) as it runs in memory: it writes into the array of the
  object's conditions, appends in place where the array has room, sorts in place and puts the slice header
  back. Theory \<open>Conditions\<close> has the same function on lists; here it is shown to be what happens in
  memory, and that a deep copy taken before does not notice.
\<close>

section \<open>Conditions as values\<close>

definition encode :: "Condition \<Rightarrow> gval" where
  "encode c = StructV
     [(''Type'', ScalarV (Str (cType c))), (''Status'', ScalarV (Str (cStatus c))),
      (''Severity'', ScalarV (Str (cSeverity c))), (''LastTransitionTime'', ScalarV (Time (cLastTransitionTime c))),
      (''Reason'', ScalarV (Str (cReason c))), (''Message'', ScalarV (Str (cMessage c)))]"

definition string_of :: "gval option \<Rightarrow> string" where
  "string_of v = (case v of Some (ScalarV (Str s)) \<Rightarrow> s | _ \<Rightarrow> [])"

definition time_of :: "gval option \<Rightarrow> gotime" where
  "time_of v = (case v of Some (ScalarV (Time t)) \<Rightarrow> t | _ \<Rightarrow> zeroTime)"

definition decode :: "gval \<Rightarrow> Condition" where
  "decode v =
     \<lparr>cType = string_of (field ''Type'' v), cStatus = string_of (field ''Status'' v),
      cSeverity = string_of (field ''Severity'' v), cLastTransitionTime = time_of (field ''LastTransitionTime'' v),
      cReason = string_of (field ''Reason'' v), cMessage = string_of (field ''Message'' v)\<rparr>"

lemma decode_encode [simp]: "decode (encode c) = c"
  by (simp add: decode_def encode_def field_def string_of_def time_of_def)

lemma map_decode_encode [simp]: "map (decode \<circ> encode) cs = cs"
  by (simp add: comp_def)

section \<open>Set in memory\<close>

definition elem :: "memory \<Rightarrow> nat \<Rightarrow> nat \<Rightarrow> gval" where
  "elem m a i = (case m ! a of Array xs \<Rightarrow> xs ! i | _ \<Rightarrow> PtrV None)"

definition put_elem :: "nat \<Rightarrow> nat \<Rightarrow> gval \<Rightarrow> memory \<Rightarrow> memory" where
  "put_elem a i v m = (case m ! a of Array xs \<Rightarrow> m[a := Array (xs[i := v])] | _ \<Rightarrow> m)"

text \<open>\<open>for i := range conditions\<close>, over the places of the slice in its array.\<close>

fun set_loop_in :: "gotime \<Rightarrow> nat \<Rightarrow> nat list \<Rightarrow> Condition \<Rightarrow> memory \<Rightarrow> memory \<times> Condition \<times> bool" where
  "set_loop_in now a [] condition m = (m, condition, False)"
| "set_loop_in now a (i # is) condition m =
     (let existingCondition = decode (elem m a i) in
      if cType existingCondition = cType condition then
        (if \<not> hasSameState existingCondition condition then
           let condition' = condition\<lparr>cLastTransitionTime := now\<rparr>
           in (put_elem a i (encode condition') m, condition', True)
         else (m, condition\<lparr>cLastTransitionTime := cLastTransitionTime existingCondition\<rparr>, True))
      else set_loop_in now a is condition m)"

text \<open>
  Go's \<open>append\<close> of one element: into the array if it goes on after the slice, else into a new array, which may
  have \<open>spare\<close> further places.
\<close>

definition append_one :: "nat \<Rightarrow> gval \<Rightarrow> gval \<Rightarrow> memory \<Rightarrow> gval \<times> memory" where
  "append_one spare x s m =
     (case s of
        SliceV (Some (a, off, n)) \<Rightarrow>
          (case m ! a of
             Array xs \<Rightarrow>
               if off + n < length xs
               then (SliceV (Some (a, off, Suc n)), m[a := Array (xs[off + n := x])])
               else (let (new, m1) = alloc (Array (take n (drop off xs) @ [x] @ replicate spare (zero struct_Condition))) m
                     in (SliceV (Some (new, 0, Suc n)), m1))
           | _ \<Rightarrow> (s, m))
      | _ \<Rightarrow> (let (new, m1) = alloc (Array ([x] @ replicate spare (zero struct_Condition))) m in (SliceV (Some (new, 0, 1)), m1)))"

definition sort_in :: "gval \<Rightarrow> memory \<Rightarrow> memory" where
  "sort_in s m =
     (case s of
        SliceV (Some (a, off, n)) \<Rightarrow>
          (case m ! a of
             Array xs \<Rightarrow>
               m[a := Array (take off xs @
                  map encode (sort_slice lexicographicLess (map decode (take n (drop off xs)))) @ drop (off + n) xs)]
           | _ \<Rightarrow> m)
      | _ \<Rightarrow> m)"

definition set_in :: "gotime \<Rightarrow> nat \<Rightarrow> Condition \<Rightarrow> gval \<Rightarrow> memory \<Rightarrow> gval \<times> memory" where
  "set_in now spare condition conditions m =
     (let (m1, condition', exist) =
        (case conditions of SliceV (Some (a, off, n)) \<Rightarrow> set_loop_in now a [off..<off + n] condition m
         | _ \<Rightarrow> (m, condition, False));
          (conditions', m2) =
        (if exist then (conditions, m1)
         else append_one spare
                (encode (if IsZero (cLastTransitionTime condition') then condition'\<lparr>cLastTransitionTime := now\<rparr> else condition'))
                conditions m1)
      in (conditions', sort_in conditions' m2))"

section \<open>It is the function on lists\<close>

text \<open>The conditions that a slice holds, and its array.\<close>

definition holds :: "memory \<Rightarrow> gval \<Rightarrow> Conditions \<Rightarrow> nat set \<Rightarrow> bool" where
  "holds m s cs A \<longleftrightarrow>
     (s = SliceV None \<and> cs = [] \<and> A = {}) \<or>
     (\<exists>a off n xs. s = SliceV (Some (a, off, n)) \<and> a < length m \<and> m ! a = Array xs \<and> off + n \<le> length xs \<and>
        take n (drop off xs) = map encode cs \<and> A = {a})"

lemma holds_cases:
  assumes "holds m s cs A"
  obtains "s = SliceV None" "cs = []" "A = {}"
  | a pre post where "s = SliceV (Some (a, length pre, length cs))" "a < length m"
      "m ! a = Array (pre @ map encode cs @ post)" "A = {a}"
proof -
  have "\<exists>a pre post. s = SliceV (Some (a, length pre, length cs)) \<and> a < length m \<and>
      m ! a = Array (pre @ map encode cs @ post) \<and> A = {a}" if ne: "s \<noteq> SliceV None"
  proof -
    obtain a off n xs where s: "s = SliceV (Some (a, off, n))" "a < length m" "m ! a = Array xs" "off + n \<le> length xs"
      "take n (drop off xs) = map encode cs" "A = {a}" using assms ne unfolding holds_def by blast
    have "n = length cs" using arg_cong [OF s(5), of length] s(4) by simp
    moreover have "xs = take off xs @ map encode cs @ drop (off + n) xs"
      using s(5) by (metis append_take_drop_id drop_drop add.commute)
    moreover have "length (take off xs) = off" using s(4) by simp
    ultimately show ?thesis using s by metis
  qed
  then show thesis using assms that unfolding holds_def by (cases "s = SliceV None") blast+
qed

lemma holds_array:
  "a < length m \<Longrightarrow> m ! a = Array (pre @ map encode cs @ post) \<Longrightarrow> off = length pre \<Longrightarrow> n = length cs \<Longrightarrow>
   holds m (SliceV (Some (a, off, n))) cs {a}"
  by (auto simp: holds_def)

lemma set_loop_in_list:
  assumes "a < length m" and "m ! a = Array (pre @ map encode cs @ post)" and "off = length pre" and "n = length cs"
  shows "set_loop_in now a [off..<off + n] c m =
    (case set_loop now cs c of (cs', c', ex) \<Rightarrow> (m[a := Array (pre @ map encode cs' @ post)], c', ex))"
  using assms
proof (induction cs arbitrary: pre off n)
  case Nil
  then show ?case by simp (metis list_update_id)
next
  case (Cons e cs)
  have el: "elem m a (length pre) = encode e" by (simp add: elem_def Cons.prems nth_append)
  have IH: "set_loop_in now a [Suc (length pre)..<Suc (length pre) + length cs] c m =
    (case set_loop now cs c of (cs', c', ex) \<Rightarrow> (m[a := Array ((pre @ [encode e]) @ map encode cs' @ post)], c', ex))"
    by (rule Cons.IH) (use Cons.prems in simp_all)
  have same: "m[a := Array (pre @ encode e # map encode cs @ post)] = m"
    using Cons.prems(2) by (metis list_update_id append_Cons list.simps(9))
  have upt: "[off..<off + n] = length pre # [Suc (length pre)..<Suc (length pre) + length cs]"
    unfolding Cons.prems(3,4) by (subst upt_conv_Cons) simp_all
  have put: "put_elem a (length pre) v m = m[a := Array (pre @ v # map encode cs @ post)]" for v
    by (simp add: put_elem_def Cons.prems)
  show ?case
  proof (cases "cType e = cType c")
    case True
    then show ?thesis unfolding upt by (simp add: el Let_def same put)
  next
    case False
    then show ?thesis unfolding upt set_loop_in.simps el decode_encode Let_def using IH by (simp split: prod.splits)
  qed
qed

lemma holds_sort_in:
  assumes "holds m s cs A"
  shows "holds (sort_in s m) s (sort_slice lexicographicLess cs) A \<and> length (sort_in s m) = length m \<and>
    (\<forall>b. b \<notin> A \<longrightarrow> sort_in s m ! b = m ! b)"
  using assms
proof (cases rule: holds_cases)
  case 1
  then show ?thesis using assms by (simp add: sort_in_def sort_slice_def)
next
  case (2 a pre post)
  let ?m = "m[a := Array (pre @ map encode (sort_slice lexicographicLess cs) @ post)]"
  have "sort_in s m = ?m" by (simp add: sort_in_def 2)
  moreover have "holds ?m s (sort_slice lexicographicLess cs) A"
    unfolding 2(1,4) by (rule holds_array [of _ _ pre _ post]) (use 2(2) in \<open>simp_all add: cond_order.length_sort\<close>)
  ultimately show ?thesis by (simp add: 2(4))
qed

text \<open>Appending writes behind the slice in its own array, or to a new one.\<close>

lemma holds_append_one:
  assumes "holds m s cs A"
  shows "\<exists>s' m' A'. append_one spare (encode c) s m = (s', m') \<and> holds m' s' (cs @ [c]) A' \<and>
    length m \<le> length m' \<and> A' \<subseteq> A \<union> {length m..} \<and> (\<forall>b < length m. b \<notin> A \<longrightarrow> m' ! b = m ! b)"
  using assms
proof (cases rule: holds_cases)
  case 1
  let ?m = "m @ [Array (encode c # replicate spare (zero struct_Condition))]"
  have "append_one spare (encode c) s m = (SliceV (Some (length m, 0, 1)), ?m)" by (simp add: append_one_def alloc_def 1)
  moreover have "holds ?m (SliceV (Some (length m, 0, 1))) (cs @ [c]) {length m}"
    by (rule holds_array [of _ _ "[]" _ "replicate spare (zero struct_Condition)"]) (simp_all add: 1)
  ultimately show ?thesis by (intro exI [of _ "SliceV (Some (length m, 0, 1))"] exI [of _ ?m] exI [of _ "{length m}"])
      (simp add: nth_append)
next
  case (2 a pre post)
  show ?thesis
  proof (cases post)
    case Nil
    let ?m = "m @ [Array (map encode cs @ [encode c] @ replicate spare (zero struct_Condition))]"
    let ?s = "SliceV (Some (length m, 0, Suc (length cs)))"
    have "append_one spare (encode c) s m = (?s, ?m)" by (simp add: append_one_def alloc_def 2 Nil Let_def)
    moreover have "holds ?m ?s (cs @ [c]) {length m}"
      by (rule holds_array [of _ _ "[]" _ "replicate spare (zero struct_Condition)"]) simp_all
    ultimately show ?thesis by (intro exI [of _ ?s] exI [of _ ?m] exI [of _ "{length m}"]) (simp add: nth_append)
  next
    case (Cons y ys)
    let ?m = "m[a := Array (pre @ map encode (cs @ [c]) @ ys)]"
    let ?s = "SliceV (Some (a, length pre, Suc (length cs)))"
    have "append_one spare (encode c) s m = (?s, ?m)"
      by (simp add: append_one_def 2 Cons list_update_append)
    moreover have "holds ?m ?s (cs @ [c]) {a}"
      by (rule holds_array [of _ _ pre _ ys]) (use 2(2) in simp_all)
    ultimately show ?thesis by (intro exI [of _ ?s] exI [of _ ?m] exI [of _ "{a}"]) (simp add: 2(4))
  qed
qed

text \<open>
  The slice header and the memory that \<open>Set\<close> leaves hold what \<open>SetCondition\<close> gives, and nothing that was
  there before has been written except the array of the slice.
\<close>

lemma set_in_list:
  assumes "holds m s cs A"
  shows "\<exists>s' m' A'. set_in now spare c s m = (s', m') \<and> holds m' s' (fst (SetCondition now cs c)) A' \<and>
    length m \<le> length m' \<and> A' \<subseteq> A \<union> {length m..} \<and> (\<forall>b < length m. b \<notin> A \<longrightarrow> m' ! b = m ! b)"
proof -
  obtain cs1 c1 ex where loop: "set_loop now cs c = (cs1, c1, ex)" by (metis prod_cases3)
  have "\<exists>m1. (case s of SliceV (Some (a, off, n)) \<Rightarrow> set_loop_in now a [off..<off + n] c m | _ \<Rightarrow> (m, c, False)) = (m1, c1, ex) \<and>
      holds m1 s cs1 A \<and> length m1 = length m \<and> (\<forall>b. b \<notin> A \<longrightarrow> m1 ! b = m ! b)"
    using assms
  proof (cases rule: holds_cases)
    case 1
    then show ?thesis using assms loop by simp
  next
    case (2 a pre post)
    have len: "length cs1 = length cs" using arg_cong [OF set_loop_types [OF loop], of length] by simp
    have "holds (m[a := Array (pre @ map encode cs1 @ post)]) s cs1 A"
      unfolding 2(1,4) by (rule holds_array [of _ _ pre _ post]) (use 2(2) len in simp_all)
    then show ?thesis using set_loop_in_list [OF 2(2,3) refl refl] by (auto simp: 2(1,4) loop)
  qed
  then obtain m1 where 1: "(case s of SliceV (Some (a, off, n)) \<Rightarrow> set_loop_in now a [off..<off + n] c m | _ \<Rightarrow> (m, c, False)) = (m1, c1, ex)"
    "holds m1 s cs1 A" "length m1 = length m" "\<forall>b. b \<notin> A \<longrightarrow> m1 ! b = m ! b" by blast
  let ?c2 = "if IsZero (cLastTransitionTime c1) then c1\<lparr>cLastTransitionTime := now\<rparr> else c1"
  let ?cs2 = "if ex then cs1 else cs1 @ [?c2]"
  obtain s2 m2 A2 where 2: "(if ex then (s, m1) else append_one spare (encode ?c2) s m1) = (s2, m2)" "holds m2 s2 ?cs2 A2"
    "length m \<le> length m2" "A2 \<subseteq> A \<union> {length m..}" "\<forall>b < length m. b \<notin> A \<longrightarrow> m2 ! b = m ! b"
  proof (cases ex)
    case True
    then show thesis using that [of s m1 A] 1 by simp
  next
    case False
    then show thesis using that holds_append_one [OF 1(2), of spare ?c2] 1(3,4) by fastforce
  qed
  have "set_in now spare c s m = (s2, sort_in s2 m2)"
    unfolding set_in_def 1(1) Let_def using 2(1) by (simp split: prod.splits)
  moreover have "fst (SetCondition now cs c) = sort_slice lexicographicLess ?cs2"
    by (simp add: SetCondition_def loop Let_def)
  moreover have "\<forall>b < length m. b \<notin> A \<longrightarrow> sort_in s2 m2 ! b = m ! b"
    using holds_sort_in [OF 2(2)] 2(4,5) by (metis UnE atLeast_iff not_less subsetD)
  ultimately show ?thesis using holds_sort_in [OF 2(2)] 2(3,4) by auto
qed

section \<open>The conditions of a policy\<close>

definition status_of :: "nat \<Rightarrow> memory \<Rightarrow> gval" where
  "status_of p m =
     (case m ! p of Variable v \<Rightarrow> (case field ''Status'' v of Some st \<Rightarrow> st | None \<Rightarrow> PtrV None) | _ \<Rightarrow> PtrV None)"

definition GetConditions_in :: "nat \<Rightarrow> memory \<Rightarrow> gval" where
  "GetConditions_in p m = (case field ''Conditions'' (status_of p m) of Some s \<Rightarrow> s | None \<Rightarrow> SliceV None)"

definition SetConditions_in :: "nat \<Rightarrow> gval \<Rightarrow> memory \<Rightarrow> memory" where
  "SetConditions_in p conditions m =
     (case m ! p of
        Variable v \<Rightarrow> m[p := Variable (put_field ''Status'' (put_field ''Conditions'' conditions (status_of p m)) v)]
      | _ \<Rightarrow> m)"

definition Set_in :: "gotime \<Rightarrow> nat \<Rightarrow> Condition \<Rightarrow> nat \<Rightarrow> memory \<Rightarrow> memory" where
  "Set_in now spare condition p m =
     (let (conditions, m1) = set_in now spare condition (GetConditions_in p m) m
      in SetConditions_in p conditions m1)"

text \<open>The conditions that are read from the policy at an address.\<close>

definition conditions_of :: "nat \<Rightarrow> memory \<Rightarrow> Conditions" where
  "conditions_of p m =
     (case GetConditions_in p m of
        SliceV (Some (a, off, n)) \<Rightarrow> (case m ! a of Array xs \<Rightarrow> map decode (take n (drop off xs)) | _ \<Rightarrow> [])
      | _ \<Rightarrow> [])"

definition policy_holds :: "memory \<Rightarrow> nat \<Rightarrow> Conditions \<Rightarrow> nat set \<Rightarrow> bool" where
  "policy_holds m p cs A \<longleftrightarrow>
     p < length m \<and> (\<exists>vs ss s. m ! p = Variable (StructV vs) \<and> map_of vs ''Status'' = Some (StructV ss) \<and>
       map_of ss ''Conditions'' = Some s \<and> holds m s cs A)"

lemma policy_holds_conditions:
  assumes "policy_holds m p cs A"
  shows "conditions_of p m = cs"
proof -
  obtain vs ss s where p: "m ! p = Variable (StructV vs)" "map_of vs ''Status'' = Some (StructV ss)"
    "map_of ss ''Conditions'' = Some s" "holds m s cs A" using assms by (auto simp: policy_holds_def)
  have get: "GetConditions_in p m = s" by (simp add: GetConditions_in_def status_of_def field_def p)
  show ?thesis using p(4) by (cases rule: holds_cases) (simp_all add: conditions_of_def get)
qed

lemma policy_holds_Set_in:
  assumes "policy_holds m p cs A"
  shows "\<exists>A'. policy_holds (Set_in now spare c p m) p (fst (SetCondition now cs c)) A' \<and>
    length m \<le> length (Set_in now spare c p m) \<and> A' \<subseteq> A \<union> {length m..} \<and>
    (\<forall>b < length m. b \<notin> insert p A \<longrightarrow> Set_in now spare c p m ! b = m ! b)"
proof -
  obtain vs ss s where p: "p < length m" "m ! p = Variable (StructV vs)" "map_of vs ''Status'' = Some (StructV ss)"
    "map_of ss ''Conditions'' = Some s" "holds m s cs A" using assms by (auto simp: policy_holds_def)
  obtain s' m' A' where s: "set_in now spare c s m = (s', m')" "holds m' s' (fst (SetCondition now cs c)) A'"
    "length m \<le> length m'" "A' \<subseteq> A \<union> {length m..}" "\<forall>b < length m. b \<notin> A \<longrightarrow> m' ! b = m ! b"
    using set_in_list [OF p(5)] by blast
  have "p \<notin> A" using p(5) by (cases rule: holds_cases) (auto simp: p(2))
  then have mp: "m' ! p = Variable (StructV vs)" "p \<notin> A'" using s(4,5) p(1,2) by auto
  have get: "GetConditions_in p m = s" by (simp add: GetConditions_in_def status_of_def field_def p)
  let ?v = "StructV (AList.update ''Status'' (StructV (AList.update ''Conditions'' s' ss)) vs)"
  have set: "Set_in now spare c p m = m'[p := Variable ?v]"
    by (simp add: Set_in_def get s(1) SetConditions_in_def mp(1) put_field_def status_of_def field_def p(3))
  have "holds (m'[p := Variable ?v]) s' (fst (SetCondition now cs c)) A'"
    using s(2) mp(2) by (auto simp: holds_def)
  then have "policy_holds (m'[p := Variable ?v]) p (fst (SetCondition now cs c)) A'"
    using p(1) s(3) by (simp add: policy_holds_def map_of_AList_update)
  then show ?thesis unfolding set using s(3,4,5) by auto
qed

lemma policy_holds_Sets_in:
  assumes "policy_holds m p cs A"
  shows "\<exists>A'. policy_holds (fold (\<lambda>(now, spare, c). Set_in now spare c p) sets m) p
      (fold (\<lambda>(now, spare, c) cs. fst (SetCondition now cs c)) sets cs) A' \<and>
    length m \<le> length (fold (\<lambda>(now, spare, c). Set_in now spare c p) sets m) \<and> A' \<subseteq> A \<union> {length m..} \<and>
    (\<forall>b < length m. b \<notin> insert p A \<longrightarrow> fold (\<lambda>(now, spare, c). Set_in now spare c p) sets m ! b = m ! b)"
  using assms
proof (induction sets arbitrary: m cs A)
  case Nil
  then show ?case by auto
next
  case (Cons x sets)
  obtain now spare c where x: "x = (now, spare, c)" by (metis prod_cases3)
  obtain A1 where 1: "policy_holds (Set_in now spare c p m) p (fst (SetCondition now cs c)) A1"
    "length m \<le> length (Set_in now spare c p m)" "A1 \<subseteq> A \<union> {length m..}"
    "\<forall>b < length m. b \<notin> insert p A \<longrightarrow> Set_in now spare c p m ! b = m ! b"
    using policy_holds_Set_in [OF Cons.prems] by blast
  let ?m' = "fold (\<lambda>(now, spare, c). Set_in now spare c p) sets (Set_in now spare c p m)"
  obtain A2 where 2: "policy_holds ?m' p (fold (\<lambda>(now, spare, c) cs. fst (SetCondition now cs c)) sets (fst (SetCondition now cs c))) A2"
    "length (Set_in now spare c p m) \<le> length ?m'" "A2 \<subseteq> A1 \<union> {length (Set_in now spare c p m)..}"
    "\<forall>b < length (Set_in now spare c p m). b \<notin> insert p A1 \<longrightarrow> ?m' ! b = Set_in now spare c p m ! b"
    using Cons.IH [OF 1(1)] by blast
  have "?m' ! b = m ! b" if "b < length m" "b \<notin> insert p A" for b
  proof -
    have "b \<notin> insert p A1" "b < length (Set_in now spare c p m)" using that 1(2,3) by auto
    then show ?thesis using 1(4) 2(4) that by simp
  qed
  moreover have "A2 \<subseteq> A \<union> {length m..}"
  proof
    fix b assume "b \<in> A2"
    then have "b \<in> A1 \<or> length (Set_in now spare c p m) \<le> b" using 2(3) by auto
    then show "b \<in> A \<union> {length m..}" using 1(2,3) by auto
  qed
  ultimately show ?case using 2(1,2) 1(2) by (auto simp: x)
qed

text \<open>A policy that can be read has its conditions in an array that it reaches.\<close>

lemma reads_fields_lookup:
  "reads_fields m Ts vs ts A \<Longrightarrow> map_of Ts f = Some T \<Longrightarrow>
   \<exists>v t B. map_of vs f = Some v \<and> reads m T v t B \<and> B \<subseteq> A"
proof (induction Ts arbitrary: vs ts A)
  case Nil
  then show ?case by simp
next
  case (Cons x Ts)
  from Cons.prems(1) obtain g U v vs' t ts' B C where x: "x = (g, U)" "vs = (g, v) # vs'" "ts = (g, t) # ts'" "A = B \<union> C"
    "reads m U v t B" "reads_fields m Ts vs' ts' C" by (auto elim: reads_fields.cases)
  show ?case
  proof (cases "g = f")
    case True
    then show ?thesis using Cons.prems(2) x by auto
  next
    case False
    then show ?thesis using Cons.IH [OF x(6)] Cons.prems(2) x by fastforce
  qed
qed

lemma reads_fields_shape:
  "reads_fields m Ts vs ts A \<Longrightarrow> list_all2 (\<lambda>(f, T) (g, v). g = f \<and> (\<exists>t B. reads m T v t B)) Ts vs"
proof (induction Ts arbitrary: vs ts A)
  case Nil
  then show ?case by (auto elim: reads_fields.cases)
next
  case (Cons x Ts)
  from Cons.prems obtain g U v vs' t ts' B C where "x = (g, U)" "vs = (g, v) # vs'" "reads m U v t B"
    "reads_fields m Ts vs' ts' C" by (auto elim: reads_fields.cases)
  then show ?case using Cons.IH by auto
qed

lemma reads_condition:
  assumes "reads m struct_Condition v t A"
  obtains c where "v = encode c"
proof -
  have str: "\<exists>s. x = ScalarV (Str s)" if "reads m StringT x u B" for x u B
    using that by (cases rule: reads_scalarE) (auto elim: kind_of.elims)
  have time: "\<exists>s. x = ScalarV (Time s)" if "reads m TimeT x u B" for x u B
    using that by (cases rule: reads_scalarE) (auto elim: kind_of.elims)
  obtain v1 v2 v3 v4 v5 v6 where v: "v = StructV
      [(''Type'', v1), (''Status'', v2), (''Severity'', v3), (''LastTransitionTime'', v4), (''Reason'', v5), (''Message'', v6)]"
    and r: "\<exists>u B. reads m StringT v1 u B" "\<exists>u B. reads m StringT v2 u B" "\<exists>u B. reads m StringT v3 u B"
      "\<exists>u B. reads m TimeT v4 u B" "\<exists>u B. reads m StringT v5 u B" "\<exists>u B. reads m StringT v6 u B"
  proof -
    obtain vs us where "v = StructV vs" and "reads_fields m
        [(''Type'', StringT), (''Status'', StringT), (''Severity'', StringT), (''LastTransitionTime'', TimeT),
         (''Reason'', StringT), (''Message'', StringT)] vs us A"
      using assms unfolding struct_Condition_def by (auto elim: reads_structE)
    from this(1) reads_fields_shape [OF this(2)] show thesis
      by (clarsimp simp: list_all2_Cons1) (rule that, simp, blast+)
  qed
  obtain s1 s2 s3 s4 s5 s6 where "v1 = ScalarV (Str s1)" "v2 = ScalarV (Str s2)" "v3 = ScalarV (Str s3)"
    "v4 = ScalarV (Time s4)" "v5 = ScalarV (Str s5)" "v6 = ScalarV (Str s6)"
    using r str time by metis
  then have "v = encode \<lparr>cType = s1, cStatus = s2, cSeverity = s3, cLastTransitionTime = s4, cReason = s5, cMessage = s6\<rparr>"
    by (simp add: v encode_def)
  then show thesis by (rule that)
qed

lemma reads_conditions:
  "reads_elems m struct_Condition vs ts A \<Longrightarrow> \<exists>cs. vs = map encode cs"
proof (induction vs arbitrary: ts A)
  case (Cons v vs)
  then obtain t B ts' C where "reads m struct_Condition v t B" "reads_elems m struct_Condition vs ts' C"
    by (auto elim: reads_elems.cases)
  then show ?case using Cons.IH reads_condition by (metis list.simps(9))
qed simp

lemma reads_policy_holds:
  assumes "reads m (PtrT struct_JsPolicy) (PtrV (Some p)) t A"
  obtains cs A' where "policy_holds m p cs A'" "insert p A' \<subseteq> A"
proof -
  obtain v u B where p: "p < length m" "m ! p = Variable v" "reads m struct_JsPolicy v u B" "A = insert p B"
    using assms by (auto elim: reads_ptrE)
  obtain vs us where v: "v = StructV vs" "reads_fields m
      [(''TypeMeta'', struct_TypeMeta), (''ObjectMeta'', struct_ObjectMeta), (''Spec'', struct_JsPolicySpec),
       (''Status'', struct_JsPolicyStatus)] vs us B"
    using p(3) unfolding struct_JsPolicy_def by (auto elim: reads_structE)
  obtain st w C where st: "map_of vs ''Status'' = Some st" "reads m struct_JsPolicyStatus st w C" "C \<subseteq> B"
    using reads_fields_lookup [OF v(2), of "''Status''"] by auto
  obtain ss ws where ss: "st = StructV ss" "reads_fields m
      [(''Phase'', StringT), (''Reason'', StringT), (''Message'', StringT), (''Conditions'', slice_Conditions),
       (''ObservedGeneration'', ScalarT Int64K), (''BundleHash'', StringT)] ss ws C"
    using st(2) unfolding struct_JsPolicyStatus_def by (auto elim: reads_structE)
  obtain s x D where s: "map_of ss ''Conditions'' = Some s" "reads m slice_Conditions s x D" "D \<subseteq> C"
    using reads_fields_lookup [OF ss(2), of "''Conditions''"] by auto
  have "\<exists>cs A'. holds m s cs A' \<and> A' \<subseteq> D"
    using s(2) unfolding slice_Conditions_def
    by (cases rule: reads_sliceE) (auto simp: holds_def dest: reads_conditions)
  then obtain cs A' where "holds m s cs A'" "A' \<subseteq> D" by blast
  then show thesis using that [of cs A'] p st s ss v by (auto simp: policy_holds_def)
qed

section \<open>Properties\<close>

text \<open>
  C8: setting conditions on a policy in memory, any number of times, gives the conditions that the function on
  lists gives, and a deep copy of the policy taken before is still read as the policy was, although \<open>Set\<close>
  writes to, appends to and sorts the array that the policy had when it was copied.
\<close>

theorem snapshot_survives_Set:
  assumes "reads m (PtrT struct_JsPolicy) (PtrV (Some p)) t A" and "JsPolicy_DeepCopy (PtrV (Some p)) m = (before, m1)"
  shows "conditions_of p (fold (\<lambda>(now, spare, c). Set_in now spare c p) sets m1) =
      fold (\<lambda>(now, spare, c) cs. fst (SetCondition now cs c)) sets (conditions_of p m) \<and>
    (\<exists>B. reads (fold (\<lambda>(now, spare, c). Set_in now spare c p) sets m1) (PtrT struct_JsPolicy) before t B)"
proof -
  have deep: "deep_copier JsPolicy_DeepCopy (PtrT struct_JsPolicy)"
    unfolding JsPolicy_DeepCopy_def by (intro deep_copiers)
  obtain B where B: "extends m m1" "reads m1 (PtrT struct_JsPolicy) before t B" "B \<subseteq> {length m..<length m1}"
    using deep_copier.copies [OF deep assms(1)] assms(2) by auto
  obtain cs A' where h: "policy_holds m p cs A'" "insert p A' \<subseteq> A" by (rule reads_policy_holds [OF assms(1)])
  have bound: "A \<subseteq> {..<length m}" by (rule reads_bounded(1) [OF assms(1)])
  have h1: "policy_holds m1 p cs A'"
    using h(1) extends_nth [OF B(1)] extends_length [OF B(1)] by (fastforce simp: policy_holds_def holds_def)
  obtain A2 where 2: "policy_holds (fold (\<lambda>(now, spare, c). Set_in now spare c p) sets m1) p
      (fold (\<lambda>(now, spare, c) cs. fst (SetCondition now cs c)) sets cs) A2"
    "length m1 \<le> length (fold (\<lambda>(now, spare, c). Set_in now spare c p) sets m1)"
    "\<forall>b < length m1. b \<notin> insert p A' \<longrightarrow> fold (\<lambda>(now, spare, c). Set_in now spare c p) sets m1 ! b = m1 ! b"
    using policy_holds_Sets_in [OF h1] by blast
  have "agrees B m1 (fold (\<lambda>(now, spare, c). Set_in now spare c p) sets m1)"
    unfolding agrees_def
  proof
    fix b assume "b \<in> B"
    then have "length m \<le> b" "b < length m1" using B(3) by auto
    moreover have "b \<notin> insert p A'" using calculation h(2) bound by auto
    ultimately show "b < length (fold (\<lambda>(now, spare, c). Set_in now spare c p) sets m1) \<and>
        fold (\<lambda>(now, spare, c). Set_in now spare c p) sets m1 ! b = m1 ! b" using 2(2,3) by simp
  qed
  then have "reads (fold (\<lambda>(now, spare, c). Set_in now spare c p) sets m1) (PtrT struct_JsPolicy) before t B"
    by (rule reads_frame(1) [OF B(2)])
  then show ?thesis
    unfolding policy_holds_conditions [OF 2(1)] policy_holds_conditions [OF h(1)] by blast
qed

text \<open>A policy with one condition, in an array with room for another.\<close>

definition example_shared :: memory where
  "example_shared =
     [Array [encode (TrueCondition ''Ready''), zero struct_Condition],
      Variable (StructV
        [(''TypeMeta'', zero struct_TypeMeta), (''ObjectMeta'', zero struct_ObjectMeta), (''Spec'', zero struct_JsPolicySpec),
         (''Status'', put_field ''Conditions'' (SliceV (Some (0, 0, 1))) (zero struct_JsPolicyStatus))])]"

lemma example_shared_reads: "\<exists>t A. reads example_shared (PtrT struct_JsPolicy) (PtrV (Some 1)) t A"
  unfolding example_shared_def struct_JsPolicy_def struct_TypeMeta_def struct_ObjectMeta_def struct_JsPolicySpec_def
    struct_JsPolicyStatus_def slice_Conditions_def struct_Condition_def encode_def put_field_def
  by (intro exI) (rule reads_reads_fields_reads_elems.intros | simp)+

theorem snapshot_survives_Set_witness:
  "\<exists>t before m1 B. JsPolicy_DeepCopy (PtrV (Some 1)) example_shared = (before, m1) \<and>
     conditions_of 1 (Set_in 9 0 (TrueCondition ''WebhookReady'') 1 m1) =
       [TrueCondition ''Ready'', (TrueCondition ''WebhookReady'')\<lparr>cLastTransitionTime := 9\<rparr>] \<and>
     reads (Set_in 9 0 (TrueCondition ''WebhookReady'') 1 m1) (PtrT struct_JsPolicy) before t B"
proof -
  obtain t A where r: "reads example_shared (PtrT struct_JsPolicy) (PtrV (Some 1)) t A" using example_shared_reads by blast
  obtain before m1 where c: "JsPolicy_DeepCopy (PtrV (Some 1)) example_shared = (before, m1)" by fastforce
  have "conditions_of 1 example_shared = [TrueCondition ''Ready'']"
    by (simp add: conditions_of_def GetConditions_in_def status_of_def field_def example_shared_def put_field_def
        struct_JsPolicyStatus_def slice_Conditions_def)
  moreover have "fst (SetCondition 9 [TrueCondition ''Ready''] (TrueCondition ''WebhookReady'')) =
      [TrueCondition ''Ready'', (TrueCondition ''WebhookReady'')\<lparr>cLastTransitionTime := 9\<rparr>]"
    by (simp add: SetCondition_def TrueCondition_def IsZero_def sort_slice_def lexicographicLess_def Let_def)
  ultimately show ?thesis
    using snapshot_survives_Set [OF r c, of "[(9, 0, TrueCondition ''WebhookReady'')]"] c by auto
qed

end
