(* ===== verification/RestRequest.thy ===== *)
theory RestRequest
  imports Complex_Main Api Strconv
begin

text \<open>
  The requests that a typed client sends: \<open>rest.Request\<close> of the vendored \<open>k8s.io/client-go\<close>, with the parts that the
  generated client of \<open>pkg/client\<close> uses. A request is put together by a chain of calls that keeps the
  first error, its path is joined from checked segments, and it is sent until it need not be
  repeated. The network, the codecs and the rate limiter are parameters of the client.
\<close>

section \<open>Package path\<close>

text \<open>\<open>path.Clean\<close>: the segments in turn, with the ones that are kept on a stack.\<close>

fun clean_segments :: "bool \<Rightarrow> string list \<Rightarrow> string list \<Rightarrow> string list" where
  "clean_segments rooted st [] = rev st"
| "clean_segments rooted st (s # ss) =
     (if s = [] \<or> s = ''.'' then clean_segments rooted st ss
      else if s = ''..'' then
        (case st of
           [] \<Rightarrow> clean_segments rooted (if rooted then [] else [s]) ss
         | x # st' \<Rightarrow> clean_segments rooted (if x = ''..'' then s # st else st') ss)
      else clean_segments rooted (s # st) ss)"

definition path_Clean :: "string \<Rightarrow> string" where
  "path_Clean p =
     (if p = [] then ''.''
      else if hd p = CHR ''/'' then ''/'' @ join_with ''/'' (clean_segments True [] (split_on (CHR ''/'') p))
      else let ss = clean_segments False [] (split_on (CHR ''/'') p)
           in if ss = [] then ''.'' else join_with ''/'' ss)"

definition path_JoinAll :: "string list \<Rightarrow> string" where
  "path_JoinAll elems =
     (case dropWhile (\<lambda>e. e = []) elems of [] \<Rightarrow> [] | es \<Rightarrow> path_Clean (join_with ''/'' es))"

text \<open>A path is its segments.\<close>

definition pieces :: "string \<Rightarrow> string list" where
  "pieces s = filter (\<lambda>x. x \<noteq> []) (split_on (CHR ''/'') s)"

definition dot_free :: "string list \<Rightarrow> bool" where
  "dot_free ss \<longleftrightarrow> ''.'' \<notin> set ss \<and> ''..'' \<notin> set ss"

definition plain_segments :: "string list \<Rightarrow> bool" where
  "plain_segments ss \<longleftrightarrow> dot_free ss \<and> (\<forall>s\<in>set ss. s \<noteq> [] \<and> CHR ''/'' \<notin> set s)"

definition abs_path :: "string list \<Rightarrow> string" where
  "abs_path ss = ''/'' @ join_with ''/'' ss"

lemma dot_free_simps [simp]:
  "dot_free []" "dot_free (s # ss) \<longleftrightarrow> s \<noteq> ''.'' \<and> s \<noteq> ''..'' \<and> dot_free ss"
  "dot_free (ss @ us) \<longleftrightarrow> dot_free ss \<and> dot_free us"
  by (auto simp: dot_free_def)

lemma plain_simps [simp]:
  "plain_segments []" "plain_segments (s # ss) \<longleftrightarrow> s \<noteq> [] \<and> CHR ''/'' \<notin> set s \<and> s \<noteq> ''.'' \<and> s \<noteq> ''..'' \<and> plain_segments ss"
  "plain_segments (ss @ us) \<longleftrightarrow> plain_segments ss \<and> plain_segments us"
  by (auto simp: plain_segments_def)

lemma split_on_append: "split_on c (a @ c # b) = split_on c a @ split_on c b"
  by (induction a) (auto split: list.splits)

lemma split_on_join: "es \<noteq> [] \<Longrightarrow> split_on (CHR ''/'') (join_with ''/'' es) = concat (map (split_on (CHR ''/'')) es)"
proof (induction es)
  case (Cons e es)
  then show ?case by (cases es) (simp_all add: split_on_append)
qed simp

lemma split_on_sep: "s \<in> set (split_on c xs) \<Longrightarrow> c \<notin> set s"
  by (induction xs arbitrary: s) (auto split: list.splits if_splits)

lemma pieces_simps [simp]:
  "pieces [] = []" "pieces (CHR ''/'' # s) = pieces s"
  by (simp_all add: pieces_def)

lemma pieces_join: "pieces (join_with ''/'' es) = concat (map pieces es)"
  by (cases "es = []") (simp_all add: pieces_def [abs_def] split_on_join filter_concat comp_def)

lemma pieces_segment: "CHR ''/'' \<notin> set s \<Longrightarrow> pieces s = (if s = [] then [] else [s])"
  by (simp add: pieces_def split_on_no_sep)

lemma pieces_plain: "plain_segments ss \<Longrightarrow> concat (map pieces ss) = ss"
  by (induction ss) (simp_all add: pieces_segment)

lemma plain_pieces: "dot_free (pieces s) \<Longrightarrow> plain_segments (pieces s)"
  by (auto simp: plain_segments_def pieces_def dest: split_on_sep)

lemma pieces_abs [simp]: "plain_segments ss \<Longrightarrow> pieces (abs_path ss) = ss"
  by (simp add: abs_path_def pieces_join pieces_plain)

lemma clean_segments_dot_free:
  "dot_free (filter (\<lambda>x. x \<noteq> []) ss) \<Longrightarrow> clean_segments rooted st ss = rev st @ filter (\<lambda>x. x \<noteq> []) ss"
  by (induction ss arbitrary: st) auto

lemma path_Clean_dot_free:
  "dot_free (pieces p) \<Longrightarrow> path_Clean p = (if p \<noteq> [] \<and> hd p = CHR ''/'' then abs_path (pieces p)
     else if pieces p = [] then ''.'' else join_with ''/'' (pieces p))"
  by (auto simp: path_Clean_def pieces_def clean_segments_dot_free abs_path_def)

lemma path_JoinAll_abs:
  assumes "dot_free (pieces p)" and "p \<noteq> []" and "hd p = CHR ''/''" and "dot_free (concat (map pieces es))"
  shows "path_JoinAll (p # es) = abs_path (pieces p @ concat (map pieces es))"
proof -
  have "join_with ''/'' (p # es) \<noteq> [] \<and> hd (join_with ''/'' (p # es)) = CHR ''/''"
    using assms(2,3) by (cases es) auto
  moreover have "pieces (join_with ''/'' (p # es)) = pieces p @ concat (map pieces es)"
    using pieces_join [of "p # es"] by simp
  ultimately show ?thesis using assms path_Clean_dot_free [of "join_with ''/'' (p # es)"] by (simp add: path_JoinAll_def)
qed

lemma path_JoinAll_under:
  "plain_segments ss \<Longrightarrow> dot_free (concat (map pieces es)) \<Longrightarrow> path_JoinAll (abs_path ss # es) = abs_path (ss @ concat (map pieces es))"
  using path_JoinAll_abs [of "abs_path ss" es] by (simp add: plain_segments_def) (simp add: abs_path_def)

lemma pieces_path_Join:
  assumes "plain_segments (filter (\<lambda>x. x \<noteq> []) es)"
  shows "pieces (path_JoinAll es) = filter (\<lambda>x. x \<noteq> []) es"
proof (cases "dropWhile (\<lambda>e. e = []) es")
  case Nil
  then have "filter (\<lambda>x. x \<noteq> []) es = []" by (simp add: dropWhile_eq_Nil_conv)
  moreover have "path_JoinAll es = []" by (simp only: path_JoinAll_def Nil list.case)
  ultimately show ?thesis by simp
next
  case (Cons f fs)
  define j where "j = join_with ''/'' (f # fs)"
  have e: "es = takeWhile (\<lambda>e. e = []) es @ f # fs" using Cons by (metis takeWhile_dropWhile_id)
  have n: "filter (\<lambda>x. x \<noteq> []) (takeWhile (\<lambda>e. e = []) es) = []" by (auto simp: filter_empty_conv dest: set_takeWhileD)
  have f2: "f \<noteq> []" using hd_dropWhile [of "\<lambda>e. e = []" es] Cons by simp
  have f1: "filter (\<lambda>x. x \<noteq> []) es = f # filter (\<lambda>x. x \<noteq> []) fs"
    by (subst e) (simp only: filter_append n append_Nil filter.simps f2 not_False_eq_True if_True)
  note f = f1 f2
  have ps: "plain_segments (f # filter (\<lambda>x. x \<noteq> []) fs)" using assms f(1) by simp
  have p: "pieces j = f # filter (\<lambda>x. x \<noteq> []) fs"
  proof -
    have "concat (map pieces gs) = filter (\<lambda>x. x \<noteq> []) gs" if "plain_segments (filter (\<lambda>x. x \<noteq> []) gs)" for gs
      using that by (induction gs) (auto simp: pieces_segment split: if_splits)
    from this [of "f # fs"] show ?thesis using ps f(2) unfolding j_def pieces_join by simp
  qed
  have "j \<noteq> [] \<and> hd j \<noteq> CHR ''/''" using ps unfolding j_def by (cases f; cases fs) auto
  moreover have "dot_free (pieces j)" using ps p by (simp add: plain_segments_def)
  ultimately have "path_Clean j = join_with ''/'' (pieces j)" using path_Clean_dot_free [of j] p by simp
  moreover have "path_JoinAll es = path_Clean j" by (simp add: path_JoinAll_def Cons j_def)
  ultimately have "path_JoinAll es = join_with ''/'' (f # filter (\<lambda>x. x \<noteq> []) fs)" by (simp only: p)
  then show ?thesis using pieces_plain [OF ps] f(1) by (simp only: pieces_join)
qed

section \<open>What a client is given\<close>

text \<open>The options of a call, as \<open>metav1\<close> has them.\<close>

record list_opts =
  lsLabelSelector :: string
  lsFieldSelector :: string
  lsWatch :: bool
  lsAllowWatchBookmarks :: bool
  lsResourceVersion :: string
  lsResourceVersionMatch :: string
  lsTimeoutSeconds :: "int64 option"
  lsLimit :: int64
  lsContinue :: string

record write_opts =
  woDryRun :: "string list"
  woFieldManager :: string
  woFieldValidation :: string

record delete_opts =
  doGracePeriodSeconds :: "int64 option"
  doPreconditions :: "(string option \<times> string option) option"
  doOrphanDependents :: "bool option"
  doPropagationPolicy :: "string option"
  doDryRun :: "string list"

datatype call_options =
  GetOptions string \<comment> \<open>the resource version\<close>
| ListOptions list_opts
| CreateOptions write_opts
| UpdateOptions write_opts
| PatchOptions write_opts "bool option"

record status_object =
  msStatus :: string
  msReason :: string
  msMessage :: string
  msCode :: int

text \<open>What the scheme of the client knows (\<open>runtime.Object\<close>).\<close>

datatype runtime_object =
  JsPolicyObject JsPolicy
| JsPolicyListObject "JsPolicy list"
| JsPolicyBundleObject JsPolicyBundle
| JsPolicyBundleListObject "JsPolicyBundle list"
| JsPolicyViolationsObject JsPolicyViolations
| JsPolicyViolationsListObject "JsPolicyViolations list"
| PolicyReportObject PolicyReport
| PolicyReportListObject "PolicyReport list"
| ClusterPolicyReportObject PolicyReport
| ClusterPolicyReportListObject "PolicyReport list"
| DeleteOptionsObject delete_opts
| StatusObject status_object

record base_url =
  buScheme :: string
  buHost :: string
  buPath :: string

text \<open>A URL before it is encoded; \<open>time.Duration.String\<close> of the timeout is its parameter \<open>timeout\<close>.\<close>

record rest_url =
  ruBase :: "base_url option"
  ruPath :: string
  ruQuery :: "(string \<times> string list) list"
  ruTimeout :: "int64 option"

record http_request =
  hqMethod :: string
  hqURL :: rest_url
  hqHeaders :: "(string \<times> string list) list"
  hqBody :: "string option"

record http_response =
  rsStatus :: int
  rsHeaders :: "(string \<times> string) list"
  rsBody :: "go_error + string" \<comment> \<open>what reading it gives\<close>

text \<open>An error of \<open>http.Client.Do\<close>, with what \<open>net.IsConnectionReset\<close>, \<open>IsProbableEOF\<close> and \<open>IsTimeout\<close> say of it.\<close>

record transport_error =
  teError :: go_error
  teConnectionReset :: bool
  teProbableEOF :: bool
  teTimeout :: bool

type_synonym answer = "transport_error + http_response"

text \<open>The network: what has been sent and answered, and the state of everything else.\<close>

record 's net =
  netSent :: "(http_request \<times> answer) list"
  netState :: 's

type_synonym 's ctx = "'s \<Rightarrow> go_error option" \<comment> \<open>\<open>ctx.Err()\<close>\<close>

text \<open>
  A rate limiter: the one that the configuration has, or a bucket of the number it was made with, its rate and its
  burst. A rate is a rational number, as every finite \<open>float32\<close> is.
\<close>

datatype limiter = ConfiguredLimiter | TokenBucket nat rat int

record 's rest_client =
  rcBase :: "base_url option"
  rcVersionedAPIPath :: string
  rcContentType :: string
  rcAcceptContentTypes :: string
  rcGroup :: string
  rcVersion :: string
  rcTimeout :: int64
  rcEncodeParameters :: "call_options \<Rightarrow> go_error + (string \<times> string list) list"
  rcEncode :: "runtime_object \<Rightarrow> go_error + string"
  rcParseMediaType :: "string \<Rightarrow> go_error + string"
  rcDecoder :: "string \<Rightarrow> go_error + (string \<Rightarrow> go_error + runtime_object)"
  rcStreamDecoder :: "string \<Rightarrow> go_error option"
  rcURLString :: "rest_url \<Rightarrow> string"
  rcRateLimiter :: "limiter option"
  rcWait :: "limiter \<Rightarrow> 's ctx \<Rightarrow> 's \<Rightarrow> go_error option \<times> 's"
  rcWithTimeout :: "int64 \<Rightarrow> 's ctx \<Rightarrow> 's ctx"
  rcSend :: "'s ctx \<Rightarrow> http_request \<Rightarrow> 's \<Rightarrow> answer \<times> 's"

section \<open>Putting a request together\<close>

record rest_request =
  rqTimeout :: int64
  rqVerb :: string
  rqPathPrefix :: string
  rqSubpath :: string
  rqParams :: "(string \<times> string list) list"
  rqHeaders :: "(string \<times> string list) list"
  rqNamespace :: string
  rqNamespaceSet :: bool
  rqResource :: string
  rqResourceName :: string
  rqSubresource :: string
  rqErr :: "go_error option"
  rqBody :: "string option"
  rqMaxRetries :: nat

definition SetHeader :: "string \<Rightarrow> string list \<Rightarrow> rest_request \<Rightarrow> rest_request" where
  "SetHeader key values r = r\<lparr>rqHeaders := map_put key values (rqHeaders r)\<rparr>"

definition NewRequest :: "'s rest_client \<Rightarrow> rest_request" where
  "NewRequest c =
     (let prefix = (case rcBase c of
          Some base \<Rightarrow> path_JoinAll [''/'', buPath base, rcVersionedAPIPath c]
        | None \<Rightarrow> path_JoinAll [''/'', rcVersionedAPIPath c]);
          r = \<lparr>rqTimeout = rcTimeout c, rqVerb = [], rqPathPrefix = prefix, rqSubpath = [], rqParams = [], rqHeaders = [],
               rqNamespace = [], rqNamespaceSet = False, rqResource = [], rqResourceName = [], rqSubresource = [],
               rqErr = None, rqBody = None, rqMaxRetries = 10\<rparr>
      in if length (rcAcceptContentTypes c) > 0 then SetHeader ''Accept'' [rcAcceptContentTypes c] r
         else if length (rcContentType c) > 0 then SetHeader ''Accept'' [rcContentType c @ '', */*''] r
         else r)"

definition Verb :: "string \<Rightarrow> rest_request \<Rightarrow> rest_request" where
  "Verb verb r = r\<lparr>rqVerb := verb\<rparr>"

definition rest_Verb :: "'s rest_client \<Rightarrow> string \<Rightarrow> rest_request" where
  "rest_Verb c verb = Verb verb (NewRequest c)"

definition rest_Post :: "'s rest_client \<Rightarrow> rest_request" where "rest_Post c = rest_Verb c ''POST''"
definition rest_Put :: "'s rest_client \<Rightarrow> rest_request" where "rest_Put c = rest_Verb c ''PUT''"
definition rest_Get :: "'s rest_client \<Rightarrow> rest_request" where "rest_Get c = rest_Verb c ''GET''"
definition rest_Delete :: "'s rest_client \<Rightarrow> rest_request" where "rest_Delete c = rest_Verb c ''DELETE''"
definition rest_Patch :: "'s rest_client \<Rightarrow> string \<Rightarrow> rest_request" where
  "rest_Patch c pt = SetHeader ''Content-Type'' [pt] (rest_Verb c ''PATCH'')"

text \<open>\<open>IsValidPathSegmentName\<close>: the complaints.\<close>

definition IsValidPathSegmentName :: "string \<Rightarrow> string list" where
  "IsValidPathSegmentName name =
     (if name = ''.'' then [''may not be '' @ [CHR 0x27] @ ''.'' @ [CHR 0x27]]
      else if name = ''..'' then [''may not be '' @ [CHR 0x27] @ ''..'' @ [CHR 0x27]]
      else (if CHR ''/'' \<in> set name then [''may not contain '' @ [CHR 0x27] @ ''/'' @ [CHR 0x27]] else []) @
           (if CHR ''%'' \<in> set name then [''may not contain '' @ [CHR 0x27] @ ''%'' @ [CHR 0x27]] else []))"

text \<open>\<open>%v\<close> of the complaints.\<close>

definition show_msgs :: "string list \<Rightarrow> string" where
  "show_msgs msgs = ''['' @ join_with '' '' msgs @ '']''"

definition fail :: "string \<Rightarrow> rest_request \<Rightarrow> rest_request" where
  "fail msg r = r\<lparr>rqErr := Some (Errorf msg)\<rparr>"

definition Resource :: "string \<Rightarrow> rest_request \<Rightarrow> rest_request" where
  "Resource resource r =
     (if rqErr r \<noteq> None then r
      else if length (rqResource r) \<noteq> 0
      then fail (''resource already set to '' @ quoted (rqResource r) @ '', cannot change to '' @ quoted resource) r
      else let msgs = IsValidPathSegmentName resource in
           if length msgs \<noteq> 0 then fail (''invalid resource '' @ quoted resource @ '': '' @ show_msgs msgs) r
           else r\<lparr>rqResource := resource\<rparr>)"

definition invalid_subresource :: "string list \<Rightarrow> string option" where
  "invalid_subresource ss = List.find (\<lambda>s. length (IsValidPathSegmentName s) \<noteq> 0) ss"

definition SubResource :: "string list \<Rightarrow> rest_request \<Rightarrow> rest_request" where
  "SubResource subresources r =
     (if rqErr r \<noteq> None then r
      else let subresource = path_JoinAll subresources in
           if length (rqSubresource r) \<noteq> 0
           then fail (''subresource already set to '' @ quoted (rqSubresource r) @ '', cannot change to '' @ quoted subresource) r
           else case invalid_subresource subresources of
                  Some s \<Rightarrow> fail (''invalid subresource '' @ quoted s @ '': '' @ show_msgs (IsValidPathSegmentName s)) r
                | None \<Rightarrow> r\<lparr>rqSubresource := subresource\<rparr>)"

definition Name :: "string \<Rightarrow> rest_request \<Rightarrow> rest_request" where
  "Name resourceName r =
     (if rqErr r \<noteq> None then r
      else if length resourceName = 0 then fail ''resource name may not be empty'' r
      else if length (rqResourceName r) \<noteq> 0
      then fail (''resource name already set to '' @ quoted (rqResourceName r) @ '', cannot change to '' @ quoted resourceName) r
      else let msgs = IsValidPathSegmentName resourceName in
           if length msgs \<noteq> 0 then fail (''invalid resource name '' @ quoted resourceName @ '': '' @ show_msgs msgs) r
           else r\<lparr>rqResourceName := resourceName\<rparr>)"

definition Namespace :: "string \<Rightarrow> rest_request \<Rightarrow> rest_request" where
  "Namespace namespace r =
     (if rqErr r \<noteq> None then r
      else if rqNamespaceSet r
      then fail (''namespace already set to '' @ quoted (rqNamespace r) @ '', cannot change to '' @ quoted namespace) r
      else let msgs = IsValidPathSegmentName namespace in
           if length msgs \<noteq> 0 then fail (''invalid namespace '' @ quoted namespace @ '': '' @ show_msgs msgs) r
           else r\<lparr>rqNamespaceSet := True, rqNamespace := namespace\<rparr>)"

text \<open>A parameter that is there already is appended to.\<close>

definition add_params :: "(string \<times> string list) list \<Rightarrow> (string \<times> string list) list \<Rightarrow> (string \<times> string list) list" where
  "add_params new = fold (\<lambda>(k, v) params. map_put k ((case map_of params k of Some vs \<Rightarrow> vs | None \<Rightarrow> []) @ v) params) new"

definition VersionedParams :: "'s rest_client \<Rightarrow> call_options \<Rightarrow> rest_request \<Rightarrow> rest_request" where
  "VersionedParams c obj r =
     (if rqErr r \<noteq> None then r
      else case rcEncodeParameters c obj of
             Inl err \<Rightarrow> r\<lparr>rqErr := Some err\<rparr>
           | Inr params \<Rightarrow> r\<lparr>rqParams := add_params params (rqParams r)\<rparr>)"

definition Timeout :: "int64 \<Rightarrow> rest_request \<Rightarrow> rest_request" where
  "Timeout d r = (if rqErr r \<noteq> None then r else r\<lparr>rqTimeout := d\<rparr>)"

text \<open>\<open>Body\<close>, of bytes and of a \<open>runtime.Object\<close> that is not nil: what the generated client hands it.\<close>

datatype body_value = BodyBytes string | BodyObject runtime_object

definition Body :: "'s rest_client \<Rightarrow> body_value \<Rightarrow> rest_request \<Rightarrow> rest_request" where
  "Body c obj r =
     (if rqErr r \<noteq> None then r
      else case obj of
             BodyBytes t \<Rightarrow> r\<lparr>rqBody := Some t\<rparr>
           | BodyObject t \<Rightarrow>
               (case rcEncode c t of
                  Inl err \<Rightarrow> r\<lparr>rqErr := Some err\<rparr>
                | Inr data \<Rightarrow> SetHeader ''Content-Type'' [rcContentType c] (r\<lparr>rqBody := Some data\<rparr>)))"

definition ToLower :: "string \<Rightarrow> string" where
  "ToLower s = map (\<lambda>c. let n = of_char c :: nat in if 65 \<le> n \<and> n \<le> 90 then char_of (n + 32) else c) s"

definition URL_path :: "rest_request \<Rightarrow> string" where
  "URL_path r =
     (let p0 = rqPathPrefix r;
          p1 = (if rqNamespaceSet r \<and> length (rqNamespace r) > 0 then path_JoinAll [p0, ''namespaces'', rqNamespace r] else p0);
          p2 = (if length (rqResource r) \<noteq> 0 then path_JoinAll [p1, ToLower (rqResource r)] else p1)
      in if length (rqResourceName r) \<noteq> 0 \<or> length (rqSubpath r) \<noteq> 0 \<or> length (rqSubresource r) \<noteq> 0
         then path_JoinAll [p2, rqResourceName r, rqSubresource r, rqSubpath r] else p2)"

definition request_URL :: "'s rest_client \<Rightarrow> rest_request \<Rightarrow> rest_url" where
  "request_URL c r =
     \<lparr>ruBase = rcBase c, ruPath = URL_path r, ruQuery = rqParams r,
      ruTimeout = (if rqTimeout r \<noteq> 0 then Some (rqTimeout r) else None)\<rparr>"

section \<open>Sending it\<close>

definition newHTTPRequest :: "'s rest_client \<Rightarrow> rest_request \<Rightarrow> http_request" where
  "newHTTPRequest c r =
     \<lparr>hqMethod = rqVerb r, hqURL = request_URL c r, hqHeaders = rqHeaders r, hqBody = rqBody r\<rparr>"

text \<open>\<open>client.Do\<close>, kept on record.\<close>

definition send :: "'s rest_client \<Rightarrow> 's ctx \<Rightarrow> http_request \<Rightarrow> 's net \<Rightarrow> answer \<times> 's net" where
  "send c ctx q w =
     (let (a, s) = rcSend c ctx q (netState w) in (a, \<lparr>netSent = netSent w @ [(q, a)], netState = s\<rparr>))"

definition tryThrottle :: "'s rest_client \<Rightarrow> 's ctx \<Rightarrow> 's net \<Rightarrow> go_error option \<times> 's net" where
  "tryThrottle c ctx w =
     (case rcRateLimiter c of
        None \<Rightarrow> (None, w)
      | Some limiter \<Rightarrow> (let (err, s) = rcWait c limiter ctx (netState w) in (err, w\<lparr>netState := s\<rparr>)))"

definition header :: "string \<Rightarrow> http_response \<Rightarrow> string" where
  "header k resp = (case map_of (rsHeaders resp) k of Some v \<Rightarrow> v | None \<Rightarrow> [])"

definition retryAfterSeconds :: "http_response \<Rightarrow> int option" where
  "retryAfterSeconds resp =
     (let h = header ''Retry-After'' resp in
      if length h > 0 then (case Atoi h of Inl _ \<Rightarrow> None | Inr i \<Rightarrow> Some i) else None)"

definition checkWait :: "http_response \<Rightarrow> int option" where
  "checkWait resp = (if rsStatus resp = 429 \<or> rsStatus resp \<ge> 500 then retryAfterSeconds resp else None)"

definition retryAfterResponse :: http_response where
  "retryAfterResponse = \<lparr>rsStatus = 500, rsHeaders = [(''Retry-After'', ''1'')], rsBody = Inr []\<rparr>"

text \<open>The number of attempts, and the seconds to wait if there is to be another.\<close>

definition NextRetry :: "nat \<Rightarrow> nat \<Rightarrow> answer \<Rightarrow> (transport_error \<Rightarrow> bool) \<Rightarrow> nat \<times> int option" where
  "NextRetry maxRetries attempts a isErrRetryable =
     (Suc attempts,
      if Suc attempts > maxRetries then None
      else case a of
             Inl err \<Rightarrow> if isErrRetryable err then checkWait retryAfterResponse else None
           | Inr resp \<Rightarrow> checkWait resp)"

text \<open>\<open>requestPreflightCheck\<close>\<close>

definition requestPreflightCheck :: "rest_request \<Rightarrow> go_error option" where
  "requestPreflightCheck r =
     (if \<not> rqNamespaceSet r then None
      else if length (rqNamespace r) > 0 then None
      else if rqVerb r = ''POST'' then Some (Errorf ''an empty namespace may not be set during creation'')
      else if rqVerb r \<in> {''GET'', ''PUT'', ''DELETE''}
      then if length (rqResourceName r) > 0
           then Some (Errorf ''an empty namespace may not be set when a resource name is provided'') else None
      else None)"

definition retryable :: "rest_request \<Rightarrow> transport_error \<Rightarrow> bool" where
  "retryable r err \<longleftrightarrow> rqVerb r = ''GET'' \<and> (teConnectionReset err \<or> teProbableEOF err)"

text \<open>
  The loop of \<open>request\<close>; \<open>again\<close> is whether \<open>retryAfter\<close> is set. Reading the body of a repeated request starts over
  (\<open>Seek\<close> of a \<open>bytes.Reader\<close>), and what it sleeps is not modelled.
\<close>

function request_loop :: "'s rest_client \<Rightarrow> 's ctx \<Rightarrow> rest_request \<Rightarrow> nat \<Rightarrow> bool \<Rightarrow> 's net \<Rightarrow>
    (go_error + http_response) \<times> 's net" where
  "request_loop c ctx r attempts again w =
     (case (if again then tryThrottle c ctx w else (None, w)) of
        (Some err, w1) \<Rightarrow> (Inl err, w1)
      | (None, w1) \<Rightarrow>
          (case send c ctx (newHTTPRequest c r) w1 of
             (a, w2) \<Rightarrow>
               if snd (NextRetry (rqMaxRetries r) attempts a (retryable r)) \<noteq> None \<and> ctx (netState w2) = None
               then request_loop c ctx r (fst (NextRetry (rqMaxRetries r) attempts a (retryable r))) True w2
               else (map_sum teError id a, w2)))"
  by pat_completeness auto
termination
  by (relation "measure (\<lambda>(c, ctx, r, attempts, again, w). Suc (rqMaxRetries r) - attempts)")
    (auto simp: NextRetry_def split: if_splits)

declare request_loop.simps [simp del]

definition request :: "'s rest_client \<Rightarrow> 's ctx \<Rightarrow> rest_request \<Rightarrow> 's net \<Rightarrow> (go_error + http_response) \<times> 's net" where
  "request c ctx r w =
     (case rqErr r of
        Some err \<Rightarrow> (Inl err, w)
      | None \<Rightarrow>
          (case requestPreflightCheck r of
             Some err \<Rightarrow> (Inl err, w)
           | None \<Rightarrow>
               (case tryThrottle c ctx w of
                  (Some err, w1) \<Rightarrow> (Inl err, w1)
                | (None, w1) \<Rightarrow>
                    request_loop c (if word_sless 0 (rqTimeout r) then rcWithTimeout c (rqTimeout r) ctx else ctx) r 0 False w1)))"

section \<open>What comes back\<close>

definition knownReasons :: "string list" where
  "knownReasons = [''Unauthorized'', ''Forbidden'', ''NotFound'', ''AlreadyExists'', ''Conflict'', ''Gone'', ''Invalid'',
     ''ServerTimeout'', ''Timeout'', ''TooManyRequests'', ''BadRequest'', ''MethodNotAllowed'', ''NotAcceptable'',
     ''RequestEntityTooLarge'', ''UnsupportedMediaType'', ''InternalError'', ''Expired'', ''ServiceUnavailable'']"

text \<open>What \<open>IsNotFound\<close>, \<open>IsAlreadyExists\<close>, \<open>IsConflict\<close> and \<open>IsInvalid\<close> say of a status.\<close>

definition class_of_status :: "string \<Rightarrow> int \<Rightarrow> err_class" where
  "class_of_status reason code =
     (if reason = ''NotFound'' then NotFound
      else if reason = ''AlreadyExists'' then AlreadyExists
      else if reason = ''Conflict'' then Conflict
      else if reason = ''Invalid'' then Invalid
      else if reason \<in> set knownReasons then Unclassified
      else if code = 404 then NotFound
      else if code = 409 then Conflict
      else if code = 422 then Invalid
      else Unclassified)"

definition FromStatus :: "status_object \<Rightarrow> go_error" where
  "FromStatus t = GoError (class_of_status (msReason t) (msCode t)) (msMessage t)"

definition generic_reason :: "int \<Rightarrow> string \<Rightarrow> string \<Rightarrow> string \<times> string" where
  "generic_reason code verb serverMessage =
     (if code = 409 then (if verb = ''POST'' then ''AlreadyExists'' else ''Conflict'', ''the server reported a conflict'')
      else if code = 404 then (''NotFound'', ''the server could not find the requested resource'')
      else if code = 400 then (''BadRequest'', ''the server rejected our request for an unknown reason'')
      else if code = 401 then (''Unauthorized'', ''the server has asked for the client to provide credentials'')
      else if code = 403 then (''Forbidden'', serverMessage)
      else if code = 406 then
        (''NotAcceptable'', if length serverMessage = 0 \<or> serverMessage = ''unknown''
           then ''the server was unable to respond with a content type that the client supports'' else serverMessage)
      else if code = 415 then (''UnsupportedMediaType'', serverMessage)
      else if code = 405 then (''MethodNotAllowed'', ''the server does not allow this method on the requested resource'')
      else if code = 422 then (''Invalid'', ''the server rejected our request due to an error in our request'')
      else if code = 503 then (''ServiceUnavailable'', ''the server is currently unable to handle the request'')
      else if code = 504 then
        (''Timeout'', ''the server was unable to return a response in the time allotted, but may still be processing the request'')
      else if code = 429 then
        (''TooManyRequests'', ''the server has received too many requests and has asked us to try again later'')
      else if code \<ge> 500 then
        (''InternalError'', ''an error on the server ('' @ quoted serverMessage @ '') has prevented the request from succeeding'')
      else ([], ''the server responded with the status code '' @ itoa code @ '' but did not return more information''))"

definition NewGenericServerResponse :: "int \<Rightarrow> string \<Rightarrow> string \<Rightarrow> string \<Rightarrow> string \<Rightarrow> string \<Rightarrow> go_error" where
  "NewGenericServerResponse code verb grp resource name serverMessage =
     (let (reason, message) = generic_reason code verb serverMessage;
          qualified = (if grp = [] then resource else resource @ ''.'' @ grp)
      in GoError (class_of_status reason code)
           (if grp = [] \<and> resource = [] then message
            else if length name > 0 then message @ '' ('' @ ToLower verb @ '' '' @ qualified @ '' '' @ name @ '')''
            else message @ '' ('' @ ToLower verb @ '' '' @ qualified @ '')''))"

text \<open>\<open>Result\<close>; \<open>rtUnexpected\<close> is \<open>IsUnexpectedServerError\<close> of its error.\<close>

record rest_result =
  rtBody :: string
  rtContentType :: string
  rtErr :: "go_error option"
  rtUnexpected :: bool
  rtStatusCode :: int
  rtDecoder :: "(string \<Rightarrow> go_error + runtime_object) option"

definition failed_result :: "go_error \<Rightarrow> rest_result" where
  "failed_result err =
     \<lparr>rtBody = [], rtContentType = [], rtErr = Some err, rtUnexpected = False, rtStatusCode = 0, rtDecoder = None\<rparr>"

definition starts_with :: "string \<Rightarrow> string \<Rightarrow> bool" where
  "starts_with s pre \<longleftrightarrow> take (length pre) s = pre"

definition isTextResponse :: "'s rest_client \<Rightarrow> http_response \<Rightarrow> bool" where
  "isTextResponse c resp =
     (if length (header ''Content-Type'' resp) = 0 then True
      else case rcParseMediaType c (header ''Content-Type'' resp) of
             Inl _ \<Rightarrow> False
           | Inr media \<Rightarrow> starts_with media ''text/'')"

text \<open>\<open>newUnstructuredResponseError\<close>; \<open>strings.TrimSpace\<close> of ASCII text.\<close>

definition is_space :: "char \<Rightarrow> bool" where
  "is_space ch \<longleftrightarrow> of_char ch \<in> {9, 10, 11, 12, 13, 32 :: nat}"

definition TrimSpace :: "string \<Rightarrow> string" where
  "TrimSpace s = rev (dropWhile is_space (rev (dropWhile is_space s)))"

definition newUnstructuredResponseError :: "'s rest_client \<Rightarrow> rest_request \<Rightarrow> string \<Rightarrow> http_response \<Rightarrow> string \<Rightarrow> go_error" where
  "newUnstructuredResponseError c r body resp method =
     NewGenericServerResponse (rsStatus resp) method (if length (rqResource r) > 0 then rcGroup c else []) (rqResource r)
       (rqResourceName r) (if isTextResponse c resp then TrimSpace (take 2048 body) else ''unknown'')"

text \<open>\<open>transformResponse\<close>, of a response that is not an upgrade (101), which no call here asks for.\<close>

definition transformResponse :: "'s rest_client \<Rightarrow> rest_request \<Rightarrow> http_response \<Rightarrow> rest_result" where
  "transformResponse c r resp =
     (case rsBody resp of
        Inl err \<Rightarrow> failed_result (err_wrap err ''unexpected error when reading response body. Please retry. Original error'')
      | Inr body \<Rightarrow>
          (let h = header ''Content-Type'' resp;
               contentType = (if length h = 0 then rcContentType c else h);
               bad = (rsStatus resp < 200 \<or> rsStatus resp > 206);
               res = \<lparr>rtBody = body, rtContentType = contentType, rtErr = None, rtUnexpected = False,
                      rtStatusCode = rsStatus resp, rtDecoder = None\<rparr>;
               unstructured = newUnstructuredResponseError c r body resp (rqVerb r)
           in if length contentType > 0 then
                (case rcParseMediaType c contentType of
                   Inl err \<Rightarrow> failed_result (Errorf (''Internal error occurred: '' @ err_text err))
                 | Inr media \<Rightarrow>
                     (case rcDecoder c media of
                        Inl err \<Rightarrow>
                          if bad then (failed_result unstructured)\<lparr>rtUnexpected := True\<rparr> else res
                      | Inr decoder \<Rightarrow>
                          if bad then res\<lparr>rtErr := Some unstructured, rtUnexpected := True, rtDecoder := Some decoder\<rparr>
                          else res\<lparr>rtDecoder := Some decoder\<rparr>))
              else if bad then res\<lparr>rtErr := Some unstructured, rtUnexpected := True\<rparr>
              else res))"

definition Do :: "'s rest_client \<Rightarrow> 's ctx \<Rightarrow> rest_request \<Rightarrow> 's net \<Rightarrow> rest_result \<times> 's net" where
  "Do c ctx r w =
     (case request c ctx r w of
        (Inl err, w') \<Rightarrow> (failed_result err, w')
      | (Inr resp, w') \<Rightarrow> (transformResponse c r resp, w'))"

text \<open>\<open>Result.Error\<close>: the status in the body says more, if there is one.\<close>

definition result_Error :: "rest_result \<Rightarrow> go_error option" where
  "result_Error res =
     (if rtErr res = None \<or> \<not> rtUnexpected res \<or> length (rtBody res) = 0 then rtErr res
      else case rtDecoder res of
             None \<Rightarrow> rtErr res
           | Some decode \<Rightarrow>
               (case decode (rtBody res) of
                  Inl err \<Rightarrow> rtErr res
                | Inr (StatusObject t) \<Rightarrow> if msStatus t = ''Failure'' then Some (FromStatus t) else rtErr res
                | Inr _ \<Rightarrow> rtErr res))"

text \<open>
  \<open>Result.Into\<close> of a new object of the type that \<open>proj\<close> tells; \<open>None\<close> is that object left as it was.
  What is decoded is put there if it is of that type.
\<close>

definition Into :: "(runtime_object \<Rightarrow> 'a option) \<Rightarrow> rest_result \<Rightarrow> 'a option \<times> go_error option" where
  "Into proj res =
     (if rtErr res \<noteq> None then (None, result_Error res)
      else case rtDecoder res of
             None \<Rightarrow> (None, Some (Errorf (''serializer for '' @ rtContentType res @ '' doesn'' @ [CHR 0x27] @ ''t exist'')))
           | Some decode \<Rightarrow>
               if length (rtBody res) = 0
               then (None, Some (Errorf (''0-length response with status code: '' @ itoa (rtStatusCode res) @
                        '' and content type: '' @ rtContentType res)))
               else (case decode (rtBody res) of
                       Inl err \<Rightarrow> (None, Some err)
                     | Inr out \<Rightarrow>
                         (case proj out of
                            Some obj \<Rightarrow> (Some obj, None)
                          | None \<Rightarrow>
                              (case out of
                                 StatusObject t \<Rightarrow> if msStatus t \<noteq> ''Success'' then (None, Some (FromStatus t)) else (None, None)
                               | _ \<Rightarrow> (None, None)))))"

section \<open>Watching\<close>

datatype watcher = EmptyWatch | StreamWatcher http_response

definition watch_retryable :: "transport_error \<Rightarrow> bool" where
  "watch_retryable err \<longleftrightarrow> teProbableEOF err \<or> teTimeout err"

text \<open>The media type of a stream that cannot be parsed is only logged, and is then empty.\<close>

definition newStreamWatcher :: "'s rest_client \<Rightarrow> http_response \<Rightarrow> go_error + watcher" where
  "newStreamWatcher c resp =
     (case rcStreamDecoder c (case rcParseMediaType c (header ''Content-Type'' resp) of Inl _ \<Rightarrow> [] | Inr media \<Rightarrow> media) of
        Some err \<Rightarrow> Inl err
      | None \<Rightarrow> Inr (StreamWatcher resp))"

definition watch_answer :: "'s rest_client \<Rightarrow> rest_request \<Rightarrow> answer \<Rightarrow> go_error + watcher" where
  "watch_answer c r a =
     (case a of
        Inl err \<Rightarrow> if watch_retryable err then Inr EmptyWatch else Inl (teError err)
      | Inr resp \<Rightarrow>
          (case rtErr (transformResponse c r resp) of
             Some err \<Rightarrow> Inl err
           | None \<Rightarrow> Inl (Errorf (''for request '' @ rcURLString c (request_URL c r) @ '', got status: '' @ itoa (rsStatus resp)))))"

function watch_loop :: "'s rest_client \<Rightarrow> 's ctx \<Rightarrow> rest_request \<Rightarrow> nat \<Rightarrow> bool \<Rightarrow> 's net \<Rightarrow> (go_error + watcher) \<times> 's net" where
  "watch_loop c ctx r attempts again w =
     (case (if again then tryThrottle c ctx w else (None, w)) of
        (Some err, w1) \<Rightarrow> (Inl err, w1)
      | (None, w1) \<Rightarrow>
          (case send c ctx (newHTTPRequest c r) w1 of
             (a, w2) \<Rightarrow>
               (case a of
                  Inr resp \<Rightarrow>
                    if rsStatus resp = 200 then (newStreamWatcher c resp, w2)
                    else if snd (NextRetry (rqMaxRetries r) attempts a watch_retryable) \<noteq> None \<and> ctx (netState w2) = None
                    then watch_loop c ctx r (fst (NextRetry (rqMaxRetries r) attempts a watch_retryable)) True w2
                    else (watch_answer c r a, w2)
                | Inl err \<Rightarrow>
                    if snd (NextRetry (rqMaxRetries r) attempts a watch_retryable) \<noteq> None \<and> ctx (netState w2) = None
                    then watch_loop c ctx r (fst (NextRetry (rqMaxRetries r) attempts a watch_retryable)) True w2
                    else (watch_answer c r a, w2))))"
  by pat_completeness auto
termination
  by (relation "measure (\<lambda>(c, ctx, r, attempts, again, w). Suc (rqMaxRetries r) - attempts)")
    (auto simp: NextRetry_def split: if_splits)

declare watch_loop.simps [simp del]

definition Watch :: "'s rest_client \<Rightarrow> 's ctx \<Rightarrow> rest_request \<Rightarrow> 's net \<Rightarrow> (go_error + watcher) \<times> 's net" where
  "Watch c ctx r w =
     (case rqErr r of
        Some err \<Rightarrow> (Inl err, w)
      | None \<Rightarrow> watch_loop c ctx r 0 False w)"

section \<open>The path of a request\<close>

text \<open>What \<open>Name\<close>, \<open>Namespace\<close> and \<open>SubResource\<close> let through.\<close>

definition segment_ok :: "string \<Rightarrow> bool" where
  "segment_ok s \<longleftrightarrow> s \<noteq> ''.'' \<and> s \<noteq> ''..'' \<and> CHR ''/'' \<notin> set s \<and> CHR ''%'' \<notin> set s"

lemma IsValidPathSegmentName_iff: "IsValidPathSegmentName s = [] \<longleftrightarrow> segment_ok s"
  by (simp add: IsValidPathSegmentName_def segment_ok_def)

lemma segment_ok_pieces: "segment_ok s \<Longrightarrow> pieces s = (if s = [] then [] else [s]) \<and> dot_free (pieces s)"
  by (simp add: segment_ok_def pieces_segment)

lemma invalid_subresource_None: "invalid_subresource ss = None \<longleftrightarrow> (\<forall>s\<in>set ss. segment_ok s)"
  by (auto simp: invalid_subresource_def find_None_iff IsValidPathSegmentName_iff)

lemma segments_ok_plain: "\<forall>s\<in>set ss. segment_ok s \<Longrightarrow> plain_segments (filter (\<lambda>x. x \<noteq> []) ss)"
  by (induction ss) (auto simp: segment_ok_def)

lemma subresource_pieces:
  "\<forall>s\<in>set ss. segment_ok s \<Longrightarrow> pieces (path_JoinAll ss) = filter (\<lambda>x. x \<noteq> []) ss"
  by (rule pieces_path_Join [OF segments_ok_plain])

lemma URL_path_segments:
  assumes "rqPathPrefix r = abs_path pre" and "plain_segments pre" and "segment_ok (rqNamespace r)"
    and "pieces (ToLower (rqResource r)) = [ToLower (rqResource r)]" and "dot_free [ToLower (rqResource r)]" and "rqResource r \<noteq> []"
    and "segment_ok (rqResourceName r)" and "plain_segments (pieces (rqSubresource r))" and "rqSubpath r = []"
  shows "URL_path r = abs_path (pre @ (if rqNamespaceSet r \<and> rqNamespace r \<noteq> [] then [''namespaces'', rqNamespace r] else []) @
    [ToLower (rqResource r)] @ pieces (rqResourceName r) @ pieces (rqSubresource r))"
proof -
  define ns where "ns = (if rqNamespaceSet r \<and> rqNamespace r \<noteq> [] then [''namespaces'', rqNamespace r] else [])"
  have ns: "plain_segments (pre @ ns)" using assms(2,3) by (auto simp: ns_def segment_ok_def)
  have p1: "(if rqNamespaceSet r \<and> length (rqNamespace r) > 0 then path_JoinAll [rqPathPrefix r, ''namespaces'', rqNamespace r]
      else rqPathPrefix r) = abs_path (pre @ ns)"
    using path_JoinAll_under [OF assms(2), of "[''namespaces'', rqNamespace r]"] assms(3)
    by (simp add: assms(1) ns_def pieces_segment segment_ok_def split: if_splits)
  have p2: "path_JoinAll [abs_path (pre @ ns), ToLower (rqResource r)] = abs_path (pre @ ns @ [ToLower (rqResource r)])"
    using path_JoinAll_under [OF ns, of "[ToLower (rqResource r)]"] assms(4,5) by simp
  have res: "plain_segments (pre @ ns @ [ToLower (rqResource r)])"
    using ns plain_pieces [of "ToLower (rqResource r)"] assms(4,5) by simp
  have "path_JoinAll [abs_path (pre @ ns @ [ToLower (rqResource r)]), rqResourceName r, rqSubresource r, rqSubpath r] =
      abs_path (pre @ ns @ [ToLower (rqResource r)] @ pieces (rqResourceName r) @ pieces (rqSubresource r))"
    using path_JoinAll_under [OF res, of "[rqResourceName r, rqSubresource r, rqSubpath r]"] conjunct2 [OF segment_ok_pieces [OF assms(7)]]
      assms(8,9) by (simp add: plain_segments_def)
  then show ?thesis unfolding URL_path_def Let_def p1 ns_def [symmetric] by (simp add: p2 assms(6,9))
qed

section \<open>How often a request is sent\<close>

text \<open>The answers after which it is sent again.\<close>

definition repeats :: "(transport_error \<Rightarrow> bool) \<Rightarrow> answer \<Rightarrow> bool" where
  "repeats f a \<longleftrightarrow> (case a of Inl err \<Rightarrow> f err | Inr resp \<Rightarrow> checkWait resp \<noteq> None)"

definition sends :: "'s rest_client \<Rightarrow> rest_request \<Rightarrow> (transport_error \<Rightarrow> bool) \<Rightarrow> nat \<Rightarrow> 's net \<Rightarrow> answer list \<Rightarrow> 's net \<Rightarrow> bool" where
  "sends c r f n w as w' \<longleftrightarrow>
     netSent w' = netSent w @ map (Pair (newHTTPRequest c r)) as \<and> length as \<le> n \<and> (\<forall>a\<in>set (butlast as). repeats f a)"

lemma NextRetry_repeats: "snd (NextRetry n k a f) \<noteq> None \<Longrightarrow> repeats f a \<and> Suc k \<le> n"
  by (auto simp: NextRetry_def repeats_def split: if_splits sum.splits)

lemma tryThrottle_sent: "tryThrottle c ctx w = (e, w') \<Longrightarrow> netSent w' = netSent w"
  by (auto simp: tryThrottle_def split: option.splits prod.splits)

lemma send_sent: "send c ctx q w = (a, w') \<Longrightarrow> netSent w' = netSent w @ [(q, a)]"
  by (auto simp: send_def split: prod.splits)

lemma sends_none: "netSent w' = netSent w \<Longrightarrow> sends c r f n w [] w'"
  by (simp add: sends_def)

lemma sends_one: "netSent w' = netSent w @ [(newHTTPRequest c r, a)] \<Longrightarrow> 0 < n \<Longrightarrow> sends c r f n w [a] w'"
  by (simp add: sends_def)

lemma sends_more:
  "netSent w1 = netSent w @ [(newHTTPRequest c r, a)] \<Longrightarrow> repeats f a \<Longrightarrow> sends c r f n w1 as w2 \<Longrightarrow>
   sends c r f (Suc n) w (a # as) w2"
  by (auto simp: sends_def)

text \<open>
  How the loop of a request ends: with what the last answer is, or without another one because the rate limiter gave up.
\<close>

lemma request_loop_sends:
  "request_loop c ctx r k again w = (res, w') \<Longrightarrow>
   \<exists>as. sends c r (retryable r) (Suc (rqMaxRetries r - k)) w as w' \<and> (as = [] \<longrightarrow> again) \<and>
     (isl res \<or> (as \<noteq> [] \<and> last as = Inr (projr res)))"
proof (induction c ctx r k again w arbitrary: res w' rule: request_loop.induct)
  case (1 c ctx r k again w)
  obtain e w1 where t: "(if again then tryThrottle c ctx w else (None, w)) = (e, w1)" by fastforce
  have sent: "netSent w1 = netSent w" using t tryThrottle_sent by (auto split: if_splits)
  show ?case
  proof (cases e)
    case (Some err)
    then have "again" "res = Inl err" "w' = w1"
      using 1(2) t by (auto simp: request_loop.simps [of c ctx r k again w] split: if_splits)
    then show ?thesis using sends_none [of w1 w c r "retryable r"] sent by auto
  next
    case None
    obtain a w2 where s: "send c ctx (newHTTPRequest c r) w1 = (a, w2)" by fastforce
    have sent2: "netSent w2 = netSent w @ [(newHTTPRequest c r, a)]" using send_sent [OF s] sent by simp
    show ?thesis
    proof (cases "snd (NextRetry (rqMaxRetries r) k a (retryable r)) \<noteq> None \<and> ctx (netState w2) = None")
      case True
      have n: "repeats (retryable r) a" "Suc k \<le> rqMaxRetries r" using NextRetry_repeats True by blast+
      have k: "fst (NextRetry (rqMaxRetries r) k a (retryable r)) = Suc k" by (simp add: NextRetry_def)
      have loop: "request_loop c ctx r (Suc k) True w2 = (res, w')"
        using 1(2) True k by (simp add: request_loop.simps [of c ctx r k again w] t None s)
      have "\<exists>as. sends c r (retryable r) (Suc (rqMaxRetries r - Suc k)) w2 as w' \<and> (isl res \<or> (as \<noteq> [] \<and> last as = Inr (projr res)))"
        using 1(1) [OF t [symmetric] None s [symmetric] True] loop unfolding k by blast
      then obtain as where as: "sends c r (retryable r) (Suc (rqMaxRetries r - Suc k)) w2 as w'"
        "isl res \<or> (as \<noteq> [] \<and> last as = Inr (projr res))" by blast
      have "Suc (Suc (rqMaxRetries r - Suc k)) = Suc (rqMaxRetries r - k)" using n(2) by simp
      then have "sends c r (retryable r) (Suc (rqMaxRetries r - k)) w (a # as) w'"
        using sends_more [OF sent2 n(1) as(1)] by simp
      then show ?thesis using as(2) by (intro exI [of _ "a # as"]) auto
    next
      case False
      then have "res = map_sum teError id a" "w' = w2"
        using 1(2) by (auto simp: request_loop.simps [of c ctx r k again w] t None s)
      then show ?thesis using sends_one [OF sent2, of "Suc (rqMaxRetries r - k)"] by (intro exI [of _ "[a]"]) (cases a; simp)
    qed
  qed
qed

lemma watch_loop_sends:
  "watch_loop c ctx r k again w = (res, w') \<Longrightarrow> \<exists>as. sends c r watch_retryable (Suc (rqMaxRetries r - k)) w as w' \<and> (as = [] \<longrightarrow> again)"
proof (induction c ctx r k again w arbitrary: res w' rule: watch_loop.induct)
  case (1 c ctx r k again w)
  obtain e w1 where t: "(if again then tryThrottle c ctx w else (None, w)) = (e, w1)" by fastforce
  have sent: "netSent w1 = netSent w" using t tryThrottle_sent by (auto split: if_splits)
  show ?case
  proof (cases e)
    case (Some err)
    then have "again" "w' = w1" using 1(3) t by (auto simp: watch_loop.simps [of c ctx r k again w] split: if_splits)
    then show ?thesis using sends_none [of w1 w c r watch_retryable] sent by auto
  next
    case None
    obtain a w2 where s: "send c ctx (newHTTPRequest c r) w1 = (a, w2)" by fastforce
    have sent2: "netSent w2 = netSent w @ [(newHTTPRequest c r, a)]" using send_sent [OF s] sent by simp
    have k: "fst (NextRetry (rqMaxRetries r) k a watch_retryable) = Suc k" by (simp add: NextRetry_def)
    show ?thesis
    proof (cases "snd (NextRetry (rqMaxRetries r) k a watch_retryable) \<noteq> None \<and> ctx (netState w2) = None \<and>
        (\<forall>resp. a = Inr resp \<longrightarrow> rsStatus resp \<noteq> 200)")
      case True
      then have n: "repeats watch_retryable a" "Suc k \<le> rqMaxRetries r" using NextRetry_repeats by blast+
      have loop: "watch_loop c ctx r (Suc k) True w2 = (res, w')"
        using 1(3) True k by (cases a) (auto simp: watch_loop.simps [of c ctx r k again w] t None s)
      have more: "\<exists>as. sends c r watch_retryable (Suc (rqMaxRetries r - Suc k)) w2 as w'"
      proof (cases a)
        case (Inl err)
        then show ?thesis using 1(1) [OF t [symmetric] None s [symmetric] Inl] True loop unfolding k by blast
      next
        case (Inr resp)
        then show ?thesis using 1(2) [OF t [symmetric] None s [symmetric] Inr] True loop unfolding k by blast
      qed
      have "Suc (Suc (rqMaxRetries r - Suc k)) = Suc (rqMaxRetries r - k)" using n(2) by simp
      then show ?thesis using sends_more [OF sent2 n(1)] more by (metis list.distinct(1))
    next
      case False
      then have "w' = w2"
        using 1(3) by (cases a) (auto simp: watch_loop.simps [of c ctx r k again w] t None s split: if_splits)
      then show ?thesis using sends_one [OF sent2, of "Suc (rqMaxRetries r - k)"] by (intro exI [of _ "[a]"]) simp
    qed
  qed
qed

lemma request_sends:
  "\<exists>as. sends c r (retryable r) (Suc (rqMaxRetries r)) w as (snd (request c ctx r w)) \<and>
     (as \<noteq> [] \<longrightarrow> rqErr r = None \<and> requestPreflightCheck r = None) \<and>
     (rqErr r = None \<and> requestPreflightCheck r = None \<and> rcRateLimiter c = None \<longrightarrow> as \<noteq> []) \<and>
     (isl (fst (request c ctx r w)) \<or> (as \<noteq> [] \<and> last as = Inr (projr (fst (request c ctx r w)))))"
proof -
  have stop: ?thesis if "isl (fst (request c ctx r w))" "netSent (snd (request c ctx r w)) = netSent w"
    "rqErr r \<noteq> None \<or> requestPreflightCheck r \<noteq> None \<or> rcRateLimiter c \<noteq> None"
    using sends_none [OF that(2)] that(1,3) by (intro exI [of _ "[]"]) auto
  show ?thesis
  proof (cases "rqErr r")
    case (Some err)
    then show ?thesis by (intro stop) (simp_all add: request_def)
  next
    case ok: None
    show ?thesis
    proof (cases "requestPreflightCheck r")
      case (Some err)
      then show ?thesis using ok by (intro stop) (simp_all add: request_def)
    next
      case pre: None
      obtain e w1 where t: "tryThrottle c ctx w = (e, w1)" by fastforce
      note sent = tryThrottle_sent [OF t]
      show ?thesis
      proof (cases e)
        case (Some err)
        then have "rcRateLimiter c \<noteq> None" using t by (auto simp: tryThrottle_def split: option.splits)
        then show ?thesis using Some ok pre t sent by (intro stop) (simp_all add: request_def)
      next
        case None
        define ctx' where "ctx' = (if word_sless 0 (rqTimeout r) then rcWithTimeout c (rqTimeout r) ctx else ctx)"
        obtain res w' where l: "request_loop c ctx' r 0 False w1 = (res, w')" by fastforce
        have req: "request c ctx r w = (res, w')" using ok pre t None l by (simp add: request_def ctx'_def)
        obtain as where as: "sends c r (retryable r) (Suc (rqMaxRetries r)) w1 as w'" "as \<noteq> []"
          "isl res \<or> (as \<noteq> [] \<and> last as = Inr (projr res))" using request_loop_sends [OF l] by auto
        have "sends c r (retryable r) (Suc (rqMaxRetries r)) w as w'" using as(1) by (simp add: sends_def sent)
        then show ?thesis using as(2,3) ok pre unfolding req fst_conv snd_conv by blast
      qed
    qed
  qed
qed

lemma Watch_sends:
  "\<exists>as. sends c r watch_retryable (Suc (rqMaxRetries r)) w as (snd (Watch c ctx r w)) \<and>
     (as \<noteq> [] \<longleftrightarrow> rqErr r = None)"
proof (cases "rqErr r")
  case None
  obtain res w' where l: "watch_loop c ctx r 0 False w = (res, w')" by fastforce
  show ?thesis using watch_loop_sends [OF l] None by (simp add: Watch_def l)
next
  case (Some err)
  then show ?thesis using sends_none [of w w] by (auto simp: Watch_def)
qed

lemma snd_Do [simp]: "snd (Do c ctx r w) = snd (request c ctx r w)"
  by (auto simp: Do_def split: prod.splits sum.splits)

section \<open>What the chain of calls has put together\<close>

named_theorems request_simps \<open>fields of a request after a step of the chain\<close>

lemma length_zero [simp]: "length s \<noteq> 0 \<longleftrightarrow> s \<noteq> []" for s :: string
  by simp

lemma NewRequest_simps [request_simps]:
  "rqErr (NewRequest c) = None" "rqMaxRetries (NewRequest c) = 10" "rqSubpath (NewRequest c) = []"
  "rqNamespaceSet (NewRequest c) = False" "rqNamespace (NewRequest c) = []" "rqResource (NewRequest c) = []"
  "rqResourceName (NewRequest c) = []" "rqSubresource (NewRequest c) = []"
  by (simp_all add: NewRequest_def SetHeader_def Let_def)

lemma SetHeader_simps [request_simps]:
  "rqErr (SetHeader k vs r) = rqErr r" "rqVerb (SetHeader k vs r) = rqVerb r" "rqMaxRetries (SetHeader k vs r) = rqMaxRetries r"
  "rqSubpath (SetHeader k vs r) = rqSubpath r" "rqPathPrefix (SetHeader k vs r) = rqPathPrefix r" "rqNamespaceSet (SetHeader k vs r) = rqNamespaceSet r"
  "rqNamespace (SetHeader k vs r) = rqNamespace r" "rqResource (SetHeader k vs r) = rqResource r" "rqResourceName (SetHeader k vs r) = rqResourceName r"
  "rqSubresource (SetHeader k vs r) = rqSubresource r"
  by (auto simp: SetHeader_def Let_def split: if_splits option.splits sum.splits body_value.splits)

lemma Verb_simps [request_simps]:
  "rqVerb (Verb v r) = v"
  "rqErr (Verb v r) = rqErr r" "rqMaxRetries (Verb v r) = rqMaxRetries r" "rqSubpath (Verb v r) = rqSubpath r"
  "rqPathPrefix (Verb v r) = rqPathPrefix r" "rqNamespaceSet (Verb v r) = rqNamespaceSet r" "rqNamespace (Verb v r) = rqNamespace r"
  "rqResource (Verb v r) = rqResource r" "rqResourceName (Verb v r) = rqResourceName r" "rqSubresource (Verb v r) = rqSubresource r"
  by (auto simp: Verb_def Let_def split: if_splits option.splits sum.splits body_value.splits)

lemma Resource_simps [request_simps]:
  "rqErr (Resource x r) = None \<longleftrightarrow> rqErr r = None \<and> rqResource r = [] \<and> segment_ok x"
  "rqErr (Resource x r) = None \<Longrightarrow> rqResource (Resource x r) = x"
  "rqVerb (Resource x r) = rqVerb r" "rqMaxRetries (Resource x r) = rqMaxRetries r" "rqSubpath (Resource x r) = rqSubpath r"
  "rqPathPrefix (Resource x r) = rqPathPrefix r" "rqNamespaceSet (Resource x r) = rqNamespaceSet r" "rqNamespace (Resource x r) = rqNamespace r"
  "rqResourceName (Resource x r) = rqResourceName r" "rqSubresource (Resource x r) = rqSubresource r"
  by (auto simp: Resource_def fail_def IsValidPathSegmentName_iff Let_def split: if_splits option.splits sum.splits body_value.splits)

lemma Name_simps [request_simps]:
  "rqErr (Name x r) = None \<longleftrightarrow> rqErr r = None \<and> rqResourceName r = [] \<and> x \<noteq> [] \<and> segment_ok x"
  "rqErr (Name x r) = None \<Longrightarrow> rqResourceName (Name x r) = x"
  "rqVerb (Name x r) = rqVerb r" "rqMaxRetries (Name x r) = rqMaxRetries r" "rqSubpath (Name x r) = rqSubpath r"
  "rqPathPrefix (Name x r) = rqPathPrefix r" "rqNamespaceSet (Name x r) = rqNamespaceSet r" "rqNamespace (Name x r) = rqNamespace r"
  "rqResource (Name x r) = rqResource r" "rqSubresource (Name x r) = rqSubresource r"
  by (auto simp: Name_def fail_def IsValidPathSegmentName_iff Let_def split: if_splits option.splits sum.splits body_value.splits)

lemma Namespace_simps [request_simps]:
  "rqErr (Namespace x r) = None \<longleftrightarrow> rqErr r = None \<and> \<not> rqNamespaceSet r \<and> segment_ok x"
  "rqErr (Namespace x r) = None \<Longrightarrow> rqNamespace (Namespace x r) = x \<and> rqNamespaceSet (Namespace x r)"
  "rqVerb (Namespace x r) = rqVerb r" "rqMaxRetries (Namespace x r) = rqMaxRetries r" "rqSubpath (Namespace x r) = rqSubpath r"
  "rqPathPrefix (Namespace x r) = rqPathPrefix r" "rqResource (Namespace x r) = rqResource r" "rqResourceName (Namespace x r) = rqResourceName r"
  "rqSubresource (Namespace x r) = rqSubresource r"
  by (auto simp: Namespace_def fail_def IsValidPathSegmentName_iff Let_def split: if_splits option.splits sum.splits body_value.splits)

lemma SubResource_simps [request_simps]:
  "rqErr (SubResource xs r) = None \<longleftrightarrow> rqErr r = None \<and> rqSubresource r = [] \<and> (\<forall>x\<in>set xs. segment_ok x)"
  "rqErr (SubResource xs r) = None \<Longrightarrow> rqSubresource (SubResource xs r) = path_JoinAll xs"
  "rqVerb (SubResource xs r) = rqVerb r" "rqMaxRetries (SubResource xs r) = rqMaxRetries r" "rqSubpath (SubResource xs r) = rqSubpath r"
  "rqPathPrefix (SubResource xs r) = rqPathPrefix r" "rqNamespaceSet (SubResource xs r) = rqNamespaceSet r" "rqNamespace (SubResource xs r) = rqNamespace r"
  "rqResource (SubResource xs r) = rqResource r" "rqResourceName (SubResource xs r) = rqResourceName r"
  by (auto simp: SubResource_def fail_def invalid_subresource_None [symmetric] Let_def split: if_splits option.splits sum.splits body_value.splits)

lemma VersionedParams_simps [request_simps]:
  "rqErr (VersionedParams c obj r) = None \<longleftrightarrow> rqErr r = None \<and> \<not> isl (rcEncodeParameters c obj)"
  "rqVerb (VersionedParams c obj r) = rqVerb r" "rqMaxRetries (VersionedParams c obj r) = rqMaxRetries r" "rqSubpath (VersionedParams c obj r) = rqSubpath r"
  "rqPathPrefix (VersionedParams c obj r) = rqPathPrefix r" "rqNamespaceSet (VersionedParams c obj r) = rqNamespaceSet r" "rqNamespace (VersionedParams c obj r) = rqNamespace r"
  "rqResource (VersionedParams c obj r) = rqResource r" "rqResourceName (VersionedParams c obj r) = rqResourceName r" "rqSubresource (VersionedParams c obj r) = rqSubresource r"
  by (auto simp: VersionedParams_def Let_def split: if_splits option.splits sum.splits body_value.splits)

lemma Timeout_simps [request_simps]:
  "rqErr (Timeout d r) = rqErr r" "rqVerb (Timeout d r) = rqVerb r" "rqMaxRetries (Timeout d r) = rqMaxRetries r"
  "rqSubpath (Timeout d r) = rqSubpath r" "rqPathPrefix (Timeout d r) = rqPathPrefix r" "rqNamespaceSet (Timeout d r) = rqNamespaceSet r"
  "rqNamespace (Timeout d r) = rqNamespace r" "rqResource (Timeout d r) = rqResource r" "rqResourceName (Timeout d r) = rqResourceName r"
  "rqSubresource (Timeout d r) = rqSubresource r"
  by (auto simp: Timeout_def Let_def split: if_splits option.splits sum.splits body_value.splits)

lemma Body_simps [request_simps]:
  "rqErr (Body c (BodyBytes data) r) = rqErr r"
  "rqErr (Body c (BodyObject t) r) = None \<longleftrightarrow> rqErr r = None \<and> \<not> isl (rcEncode c t)"
  "rqVerb (Body c obj r) = rqVerb r" "rqMaxRetries (Body c obj r) = rqMaxRetries r" "rqSubpath (Body c obj r) = rqSubpath r"
  "rqPathPrefix (Body c obj r) = rqPathPrefix r" "rqNamespaceSet (Body c obj r) = rqNamespaceSet r" "rqNamespace (Body c obj r) = rqNamespace r"
  "rqResource (Body c obj r) = rqResource r" "rqResourceName (Body c obj r) = rqResourceName r" "rqSubresource (Body c obj r) = rqSubresource r"
  by (auto simp: Body_def SetHeader_def Let_def split: if_splits option.splits sum.splits body_value.splits)

section \<open>One call of a typed client\<close>

text \<open>
  What a call is about: a verb, the namespace and the name, if it has them, the resource and the subresources; and the segments
  of the path that this is on the server.
\<close>

record target =
  tgVerb :: string
  tgNamespace :: "string option"
  tgResource :: string
  tgName :: "string option"
  tgSubresources :: "string list"

definition target_segments :: "target \<Rightarrow> string list" where
  "target_segments t =
     (case tgNamespace t of Some ns \<Rightarrow> (if ns \<noteq> [] then [''namespaces'', ns] else []) | None \<Rightarrow> []) @ [tgResource t] @
     (case tgName t of Some n \<Rightarrow> [n] | None \<Rightarrow> []) @ filter (\<lambda>s. s \<noteq> []) (tgSubresources t)"

definition target_ok :: "target \<Rightarrow> bool" where
  "target_ok t \<longleftrightarrow>
     (case tgNamespace t of Some ns \<Rightarrow> segment_ok ns \<and> (ns = [] \<longrightarrow> tgVerb t \<noteq> ''POST'' \<and>
          (tgVerb t \<in> {''GET'', ''PUT'', ''DELETE''} \<longrightarrow> tgName t = None)) | None \<Rightarrow> True) \<and>
     (case tgName t of Some n \<Rightarrow> n \<noteq> [] \<and> segment_ok n | None \<Rightarrow> True) \<and> (\<forall>s\<in>set (tgSubresources t). segment_ok s)"

text \<open>A resource that the generated client names: one segment, in lower case.\<close>

definition resource_ok :: "string \<Rightarrow> bool" where
  "resource_ok res \<longleftrightarrow> ToLower res = res \<and> res \<noteq> [] \<and> segment_ok res"

definition codecs_ok :: "'s rest_client \<Rightarrow> bool" where
  "codecs_ok c \<longleftrightarrow> (\<forall>x. \<not> isl (rcEncodeParameters c x)) \<and> (\<forall>x. \<not> isl (rcEncode c x))"

text \<open>The chain of calls has put together the request for a target.\<close>

definition built :: "'s rest_client \<Rightarrow> target \<Rightarrow> rest_request \<Rightarrow> bool" where
  "built c t r \<longleftrightarrow> rqVerb r = tgVerb t \<and> rqMaxRetries r = 10 \<and> rqSubpath r = [] \<and>
     rqPathPrefix r = rqPathPrefix (NewRequest c) \<and>
     (rqErr r = None \<longrightarrow> rqResource r = tgResource t \<and> rqNamespaceSet r = (tgNamespace t \<noteq> None) \<and>
        rqNamespace r = (case tgNamespace t of Some ns \<Rightarrow> ns | None \<Rightarrow> []) \<and>
        rqResourceName r = (case tgName t of Some n \<Rightarrow> n | None \<Rightarrow> []) \<and> rqSubresource r = path_JoinAll (tgSubresources t) \<and>
        (case tgNamespace t of Some ns \<Rightarrow> segment_ok ns | None \<Rightarrow> True) \<and>
        (case tgName t of Some n \<Rightarrow> n \<noteq> [] \<and> segment_ok n | None \<Rightarrow> True) \<and> (\<forall>s\<in>set (tgSubresources t). segment_ok s)) \<and>
     (target_ok t \<and> codecs_ok c \<longrightarrow> rqErr r = None)"

text \<open>
  What a call does to the network: requests for its target and no other are sent, at most eleven times, and again only
  after an answer that asks for it; nothing is sent for a target that would not be one on the server, and something is
  for any other, if it can be encoded and nothing limits the rate.
\<close>

definition reaches_target :: "'s rest_client \<Rightarrow> string list \<Rightarrow> target \<Rightarrow> 's net \<Rightarrow> 's net \<Rightarrow> bool" where
  "reaches_target c pre t w w' \<longleftrightarrow>
     (\<exists>q as. netSent w' = netSent w @ map (Pair q) as \<and> length as \<le> 11 \<and>
        (as \<noteq> [] \<longrightarrow> target_ok t \<and> hqMethod q = tgVerb t \<and> ruPath (hqURL q) = abs_path (pre @ target_segments t) \<and> ruBase (hqURL q) = rcBase c) \<and>
        (target_ok t \<and> codecs_ok c \<and> rcRateLimiter c = None \<longrightarrow> as \<noteq> []) \<and>
        (\<forall>a\<in>set (butlast as). case a of
            Inl err \<Rightarrow> tgVerb t = ''GET'' \<and> (teConnectionReset err \<or> teProbableEOF err \<or> teTimeout err)
          | Inr resp \<Rightarrow> (rsStatus resp = 429 \<or> rsStatus resp \<ge> 500) \<and> retryAfterSeconds resp \<noteq> None))"

lemma built_path:
  assumes "built c t r" and "rqErr r = None" and "rqPathPrefix (NewRequest c) = abs_path pre" and "plain_segments pre"
    and "resource_ok (tgResource t)"
  shows "URL_path r = abs_path (pre @ target_segments t)"
proof -
  note b = assms(1) [unfolded built_def] 
  have f: "rqResource r = tgResource t" "rqNamespaceSet r = (tgNamespace t \<noteq> None)"
    "rqNamespace r = (case tgNamespace t of Some ns \<Rightarrow> ns | None \<Rightarrow> [])"
    "rqResourceName r = (case tgName t of Some n \<Rightarrow> n | None \<Rightarrow> [])" "rqSubresource r = path_JoinAll (tgSubresources t)"
    and ok: "case tgNamespace t of Some ns \<Rightarrow> segment_ok ns | None \<Rightarrow> True"
      "case tgName t of Some n \<Rightarrow> n \<noteq> [] \<and> segment_ok n | None \<Rightarrow> True" "\<forall>s\<in>set (tgSubresources t). segment_ok s"
    and p: "rqPathPrefix r = abs_path pre" "rqSubpath r = []"
    using b assms(2,3) by simp_all
  note subs = subresource_pieces [OF ok(3)] segments_ok_plain [OF ok(3)]
  have res: "pieces (ToLower (rqResource r)) = [ToLower (rqResource r)]" "dot_free [ToLower (rqResource r)]" "rqResource r \<noteq> []"
    using assms(5) segment_ok_pieces [of "tgResource t"] by (auto simp: resource_ok_def f(1) segment_ok_def)
  have names: "segment_ok (rqNamespace r)" "segment_ok (rqResourceName r)"
    using ok(1,2) by (auto simp: f(3,4) segment_ok_def split: option.splits)
  have "URL_path r = abs_path (pre @ (if rqNamespaceSet r \<and> rqNamespace r \<noteq> [] then [''namespaces'', rqNamespace r] else []) @
      [ToLower (rqResource r)] @ pieces (rqResourceName r) @ pieces (rqSubresource r))"
    by (rule URL_path_segments [OF p(1) assms(4) names(1) res names(2) _ p(2)]) (simp add: f(5) subs)
  moreover have "pieces (rqResourceName r) = (case tgName t of Some n \<Rightarrow> [n] | None \<Rightarrow> [])"
    using ok(2) segment_ok_pieces by (auto simp: f(4) split: option.splits)
  moreover have "ToLower (rqResource r) = tgResource t" using assms(5) by (simp add: resource_ok_def f(1))
  ultimately show ?thesis unfolding f(5) subs(1) target_segments_def by (cases "tgNamespace t") (simp_all add: f(2,3))
qed

lemma built_target_ok:
  assumes "built c t r" and "rqErr r = None"
  shows "requestPreflightCheck r = None \<longleftrightarrow> target_ok t"
proof -
  have "rqVerb r = tgVerb t" "rqNamespaceSet r = (tgNamespace t \<noteq> None)"
    "rqNamespace r = (case tgNamespace t of Some ns \<Rightarrow> ns | None \<Rightarrow> [])"
    "rqResourceName r = (case tgName t of Some n \<Rightarrow> n | None \<Rightarrow> [])"
    "case tgNamespace t of Some ns \<Rightarrow> segment_ok ns | None \<Rightarrow> True"
    "case tgName t of Some n \<Rightarrow> n \<noteq> [] \<and> segment_ok n | None \<Rightarrow> True" "\<forall>s\<in>set (tgSubresources t). segment_ok s"
    using assms by (simp_all add: built_def)
  then show ?thesis
    by (cases "tgNamespace t"; cases "tgName t") (auto simp: requestPreflightCheck_def target_ok_def)
qed

lemma sends_reaches:
  assumes "built c t r" and "sends c r f (Suc (rqMaxRetries r)) w as w'" and "as \<noteq> [] \<Longrightarrow> rqErr r = None \<and> target_ok t"
    and "target_ok t \<Longrightarrow> codecs_ok c \<Longrightarrow> rcRateLimiter c = None \<Longrightarrow> as \<noteq> []"
    and "\<And>err. f err \<Longrightarrow> rqVerb r = ''GET'' \<and> (teConnectionReset err \<or> teProbableEOF err \<or> teTimeout err)"
    and "rqPathPrefix (NewRequest c) = abs_path pre" and "plain_segments pre" and "resource_ok (tgResource t)"
  shows "reaches_target c pre t w w'"
proof -
  have v: "rqVerb r = tgVerb t" "rqMaxRetries r = 10" using assms(1) by (simp_all add: built_def)
  have "ruPath (hqURL (newHTTPRequest c r)) = abs_path (pre @ target_segments t)" if "as \<noteq> []"
    using built_path [OF assms(1) conjunct1 [OF assms(3) [OF that]] assms(6-8)] by (simp add: newHTTPRequest_def request_URL_def)
  moreover have "case a of Inl err \<Rightarrow> tgVerb t = ''GET'' \<and> (teConnectionReset err \<or> teProbableEOF err \<or> teTimeout err)
      | Inr resp \<Rightarrow> (rsStatus resp = 429 \<or> rsStatus resp \<ge> 500) \<and> retryAfterSeconds resp \<noteq> None" if "repeats f a" for a
    using that assms(5) by (auto simp: repeats_def checkWait_def v(1) split: sum.splits if_splits)
  ultimately show ?thesis using assms(2-4) unfolding reaches_target_def sends_def v(2)
    by (intro exI [of _ "newHTTPRequest c r"] exI [of _ as]) (auto simp: newHTTPRequest_def request_URL_def v(1))
qed

lemma Do_reaches:
  assumes "built c t r" and "rqPathPrefix (NewRequest c) = abs_path pre" and "plain_segments pre" and "resource_ok (tgResource t)"
  shows "reaches_target c pre t w (snd (Do c ctx r w))"
proof -
  obtain as where as: "sends c r (retryable r) (Suc (rqMaxRetries r)) w as (snd (request c ctx r w))"
    "as \<noteq> [] \<longrightarrow> rqErr r = None \<and> requestPreflightCheck r = None"
    "rqErr r = None \<and> requestPreflightCheck r = None \<and> rcRateLimiter c = None \<longrightarrow> as \<noteq> []" using request_sends [of c r w ctx] by auto
  have ok: "target_ok t \<Longrightarrow> codecs_ok c \<Longrightarrow> rqErr r = None" using assms(1) by (simp add: built_def)
  have 1: "as \<noteq> [] \<Longrightarrow> rqErr r = None \<and> target_ok t" using as(2) built_target_ok [OF assms(1)] by blast
  have 2: "target_ok t \<Longrightarrow> codecs_ok c \<Longrightarrow> rcRateLimiter c = None \<Longrightarrow> as \<noteq> []"
    using as(3) ok built_target_ok [OF assms(1)] by simp
  have f: "rqVerb r = ''GET'' \<and> (teConnectionReset err \<or> teProbableEOF err \<or> teTimeout err)" if "retryable r err" for err
    using that by (auto simp: retryable_def)
  show ?thesis unfolding snd_Do
    by (rule sends_reaches [OF assms(1) as(1) _ _ _ assms(2-4)], erule 1, (rule 2; assumption), erule f)
qed

lemma Watch_reaches:
  assumes "built c t r" and "tgVerb t = ''GET'' \<and> tgName t = None" and "rqPathPrefix (NewRequest c) = abs_path pre" and "plain_segments pre"
    and "resource_ok (tgResource t)"
  shows "reaches_target c pre t w (snd (Watch c ctx r w))"
proof -
  obtain as where as: "sends c r watch_retryable (Suc (rqMaxRetries r)) w as (snd (Watch c ctx r w))" "as \<noteq> [] \<longleftrightarrow> rqErr r = None"
    using Watch_sends by blast
  have ok: "target_ok t \<Longrightarrow> codecs_ok c \<Longrightarrow> rqErr r = None" using assms(1) by (simp add: built_def)
  have "requestPreflightCheck r = None" if "rqErr r = None"
  proof -
    have "rqVerb r = ''GET''" "rqResourceName r = []" using assms(1,2) that by (simp_all add: built_def)
    then show ?thesis by (simp add: requestPreflightCheck_def)
  qed
  then have 1: "rqErr r = None \<and> target_ok t" if "as \<noteq> []"
    using that as(2) built_target_ok [OF assms(1)] by simp
  have f: "rqVerb r = ''GET'' \<and> (teConnectionReset err \<or> teProbableEOF err \<or> teTimeout err)" if "watch_retryable err" for err
    using that assms(1,2) by (auto simp: watch_retryable_def built_def)
  have 2: "as \<noteq> []" if "target_ok t" "codecs_ok c" using ok [OF that] as(2) by simp
  show ?thesis
    by (rule sends_reaches [OF assms(1) as(1) _ _ _ assms(3-5)], erule 1, (rule 2; assumption), erule f)
qed

end
