(* ===== verification/TypedClient.thy ===== *)
theory TypedClient
  imports RestRequest
begin

text \<open>
  The generated clients of the five kinds (\<open>pkg/client/clientset_generated/clientset/typed\<close>), one definition for
  each method: a chain of calls that puts a request together, and what is done with the answer. What
  a method is called with is a \<open>typed_call\<close>, so that a statement can be about all of them.
\<close>

section \<open>The objects of an answer\<close>

fun as_JsPolicy :: "runtime_object \<Rightarrow> JsPolicy option" where
  "as_JsPolicy (JsPolicyObject x) = Some x"
| "as_JsPolicy _ = None"

fun as_JsPolicyList :: "runtime_object \<Rightarrow> JsPolicy list option" where
  "as_JsPolicyList (JsPolicyListObject xs) = Some xs"
| "as_JsPolicyList _ = None"

fun as_JsPolicyBundle :: "runtime_object \<Rightarrow> JsPolicyBundle option" where
  "as_JsPolicyBundle (JsPolicyBundleObject x) = Some x"
| "as_JsPolicyBundle _ = None"

fun as_JsPolicyBundleList :: "runtime_object \<Rightarrow> JsPolicyBundle list option" where
  "as_JsPolicyBundleList (JsPolicyBundleListObject xs) = Some xs"
| "as_JsPolicyBundleList _ = None"

fun as_JsPolicyViolations :: "runtime_object \<Rightarrow> JsPolicyViolations option" where
  "as_JsPolicyViolations (JsPolicyViolationsObject x) = Some x"
| "as_JsPolicyViolations _ = None"

fun as_JsPolicyViolationsList :: "runtime_object \<Rightarrow> JsPolicyViolations list option" where
  "as_JsPolicyViolationsList (JsPolicyViolationsListObject xs) = Some xs"
| "as_JsPolicyViolationsList _ = None"

fun as_PolicyReport :: "runtime_object \<Rightarrow> PolicyReport option" where
  "as_PolicyReport (PolicyReportObject x) = Some x"
| "as_PolicyReport _ = None"

fun as_PolicyReportList :: "runtime_object \<Rightarrow> PolicyReport list option" where
  "as_PolicyReportList (PolicyReportListObject xs) = Some xs"
| "as_PolicyReportList _ = None"

fun as_ClusterPolicyReport :: "runtime_object \<Rightarrow> PolicyReport option" where
  "as_ClusterPolicyReport (ClusterPolicyReportObject x) = Some x"
| "as_ClusterPolicyReport _ = None"

fun as_ClusterPolicyReportList :: "runtime_object \<Rightarrow> PolicyReport list option" where
  "as_ClusterPolicyReportList (ClusterPolicyReportListObject xs) = Some xs"
| "as_ClusterPolicyReportList _ = None"

section \<open>The methods\<close>

text \<open>\<open>time.Duration(*opts.TimeoutSeconds) * time.Second\<close>, which wraps around.\<close>

definition list_timeout :: "list_opts \<Rightarrow> int64" where
  "list_timeout opts = (case lsTimeoutSeconds opts of Some s \<Rightarrow> s * 1000000000 | None \<Rightarrow> 0)"

text \<open>A call of one of the methods, with its arguments.\<close>

datatype typed_call =
  GetCall string string
| ListCall list_opts
| WatchCall list_opts
| CreateCall runtime_object write_opts
| UpdateCall runtime_object write_opts
| UpdateStatusCall runtime_object write_opts
| DeleteCall string delete_opts
| DeleteCollectionCall delete_opts list_opts
| PatchCall string string string write_opts "bool option" "string list"

record 's PolicyV1beta1Client =
  PolicyV1beta1Client_restClient :: "'s rest_client"

record 's Wgpolicyk8sV1alpha2Client =
  Wgpolicyk8sV1alpha2Client_restClient :: "'s rest_client"

text \<open>\<open>jsPolicies\<close>\<close>

record 's jsPolicies =
  jsPolicies_client :: "'s rest_client"

definition newJsPolicies :: "'s PolicyV1beta1Client \<Rightarrow> 's jsPolicies" where
  "newJsPolicies c = \<lparr>jsPolicies_client = PolicyV1beta1Client_restClient c\<rparr>"

definition jsPolicies_Get ::
  "'s jsPolicies \<Rightarrow> 's ctx \<Rightarrow> string \<Rightarrow> string \<Rightarrow> 's net \<Rightarrow> (JsPolicy option \<times> go_error option) \<times> 's net" where
  "jsPolicies_Get c ctx name options w = apfst (Into as_JsPolicy) (Do (jsPolicies_client c) ctx (
      VersionedParams (jsPolicies_client c) (GetOptions options)
        (Name name (Resource ''jspolicies'' (rest_Get (jsPolicies_client c))))) w)"

definition jsPolicies_List ::
  "'s jsPolicies \<Rightarrow> 's ctx \<Rightarrow> list_opts \<Rightarrow> 's net \<Rightarrow> (JsPolicy list option \<times> go_error option) \<times> 's net" where
  "jsPolicies_List c ctx opts w = apfst (Into as_JsPolicyList) (Do (jsPolicies_client c) ctx (
      Timeout (list_timeout opts)
      (VersionedParams (jsPolicies_client c) (ListOptions opts)
        (Resource ''jspolicies'' (rest_Get (jsPolicies_client c))))) w)"

definition jsPolicies_Watch ::
  "'s jsPolicies \<Rightarrow> 's ctx \<Rightarrow> list_opts \<Rightarrow> 's net \<Rightarrow> (go_error + watcher) \<times> 's net" where
  "jsPolicies_Watch c ctx opts w = (Watch (jsPolicies_client c) ctx (
      Timeout (list_timeout opts)
      (VersionedParams (jsPolicies_client c) (ListOptions (opts\<lparr>lsWatch := True\<rparr>))
        (Resource ''jspolicies'' (rest_Get (jsPolicies_client c))))) w)"

definition jsPolicies_Create ::
  "'s jsPolicies \<Rightarrow> 's ctx \<Rightarrow> JsPolicy \<Rightarrow> write_opts \<Rightarrow> 's net \<Rightarrow> (JsPolicy option \<times> go_error option) \<times> 's net" where
  "jsPolicies_Create c ctx obj opts w = apfst (Into as_JsPolicy) (Do (jsPolicies_client c) ctx (
      Body (jsPolicies_client c) (BodyObject (JsPolicyObject obj))
      (VersionedParams (jsPolicies_client c) (CreateOptions opts)
        (Resource ''jspolicies'' (rest_Post (jsPolicies_client c))))) w)"

definition jsPolicies_Update ::
  "'s jsPolicies \<Rightarrow> 's ctx \<Rightarrow> JsPolicy \<Rightarrow> write_opts \<Rightarrow> 's net \<Rightarrow> (JsPolicy option \<times> go_error option) \<times> 's net" where
  "jsPolicies_Update c ctx obj opts w = apfst (Into as_JsPolicy) (Do (jsPolicies_client c) ctx (
      Body (jsPolicies_client c) (BodyObject (JsPolicyObject obj))
      (VersionedParams (jsPolicies_client c) (UpdateOptions opts)
        (Name (pName obj) (Resource ''jspolicies'' (rest_Put (jsPolicies_client c)))))) w)"

definition jsPolicies_UpdateStatus ::
  "'s jsPolicies \<Rightarrow> 's ctx \<Rightarrow> JsPolicy \<Rightarrow> write_opts \<Rightarrow> 's net \<Rightarrow> (JsPolicy option \<times> go_error option) \<times> 's net" where
  "jsPolicies_UpdateStatus c ctx obj opts w = apfst (Into as_JsPolicy) (Do (jsPolicies_client c) ctx (
      Body (jsPolicies_client c) (BodyObject (JsPolicyObject obj))
      (VersionedParams (jsPolicies_client c) (UpdateOptions opts)
        (SubResource [''status''] (Name (pName obj) (Resource ''jspolicies'' (rest_Put (jsPolicies_client c))))))) w)"

definition jsPolicies_Delete ::
  "'s jsPolicies \<Rightarrow> 's ctx \<Rightarrow> string \<Rightarrow> delete_opts \<Rightarrow> 's net \<Rightarrow> go_error option \<times> 's net" where
  "jsPolicies_Delete c ctx name opts w = apfst result_Error (Do (jsPolicies_client c) ctx (
      Body (jsPolicies_client c) (BodyObject (DeleteOptionsObject opts))
      (Name name (Resource ''jspolicies'' (rest_Delete (jsPolicies_client c))))) w)"

definition jsPolicies_DeleteCollection ::
  "'s jsPolicies \<Rightarrow> 's ctx \<Rightarrow> delete_opts \<Rightarrow> list_opts \<Rightarrow> 's net \<Rightarrow> go_error option \<times> 's net" where
  "jsPolicies_DeleteCollection c ctx opts listOpts w = apfst result_Error (Do (jsPolicies_client c) ctx (
      Body (jsPolicies_client c) (BodyObject (DeleteOptionsObject opts))
      (Timeout (list_timeout listOpts)
        (VersionedParams (jsPolicies_client c) (ListOptions listOpts)
        (Resource ''jspolicies'' (rest_Delete (jsPolicies_client c)))))) w)"

definition jsPolicies_Patch ::
  "'s jsPolicies \<Rightarrow> 's ctx \<Rightarrow> string \<Rightarrow> string \<Rightarrow> string \<Rightarrow> write_opts \<Rightarrow> (bool option) \<Rightarrow> (string list) \<Rightarrow> 's net \<Rightarrow> (JsPolicy option \<times> go_error option) \<times> 's net" where
  "jsPolicies_Patch c ctx name pt data opts force subresources w = apfst (Into as_JsPolicy) (Do (jsPolicies_client c) ctx (
      Body (jsPolicies_client c) (BodyBytes data)
      (VersionedParams (jsPolicies_client c) (PatchOptions opts force)
        (SubResource subresources (Name name (Resource ''jspolicies'' (rest_Patch (jsPolicies_client c) pt)))))) w)"

fun jsPolicies_call :: "'s jsPolicies \<Rightarrow> 's ctx \<Rightarrow> typed_call \<Rightarrow> 's net \<Rightarrow> 's net option" where
  "jsPolicies_call c ctx (GetCall name options) w = Some (snd (jsPolicies_Get c ctx name options w))"
| "jsPolicies_call c ctx (ListCall opts) w = Some (snd (jsPolicies_List c ctx opts w))"
| "jsPolicies_call c ctx (WatchCall opts) w = Some (snd (jsPolicies_Watch c ctx opts w))"
| "jsPolicies_call c ctx (CreateCall (JsPolicyObject obj) opts) w = Some (snd (jsPolicies_Create c ctx obj opts w))"
| "jsPolicies_call c ctx (UpdateCall (JsPolicyObject obj) opts) w = Some (snd (jsPolicies_Update c ctx obj opts w))"
| "jsPolicies_call c ctx (UpdateStatusCall (JsPolicyObject obj) opts) w = Some (snd (jsPolicies_UpdateStatus c ctx obj opts w))"
| "jsPolicies_call c ctx (DeleteCall name opts) w = Some (snd (jsPolicies_Delete c ctx name opts w))"
| "jsPolicies_call c ctx (DeleteCollectionCall opts listOpts) w = Some (snd (jsPolicies_DeleteCollection c ctx opts listOpts w))"
| "jsPolicies_call c ctx (PatchCall name pt data opts force subs) w = Some (snd (jsPolicies_Patch c ctx name pt data opts force subs w))"
| "jsPolicies_call c ctx _ w = None"

text \<open>\<open>jsPolicyBundles\<close>\<close>

record 's jsPolicyBundles =
  jsPolicyBundles_client :: "'s rest_client"

definition newJsPolicyBundles :: "'s PolicyV1beta1Client \<Rightarrow> 's jsPolicyBundles" where
  "newJsPolicyBundles c = \<lparr>jsPolicyBundles_client = PolicyV1beta1Client_restClient c\<rparr>"

definition jsPolicyBundles_Get ::
  "'s jsPolicyBundles \<Rightarrow> 's ctx \<Rightarrow> string \<Rightarrow> string \<Rightarrow> 's net \<Rightarrow> (JsPolicyBundle option \<times> go_error option) \<times> 's net" where
  "jsPolicyBundles_Get c ctx name options w = apfst (Into as_JsPolicyBundle) (Do (jsPolicyBundles_client c) ctx (
      VersionedParams (jsPolicyBundles_client c) (GetOptions options)
        (Name name (Resource ''jspolicybundles'' (rest_Get (jsPolicyBundles_client c))))) w)"

definition jsPolicyBundles_List ::
  "'s jsPolicyBundles \<Rightarrow> 's ctx \<Rightarrow> list_opts \<Rightarrow> 's net \<Rightarrow> (JsPolicyBundle list option \<times> go_error option) \<times> 's net" where
  "jsPolicyBundles_List c ctx opts w = apfst (Into as_JsPolicyBundleList) (Do (jsPolicyBundles_client c) ctx (
      Timeout (list_timeout opts)
      (VersionedParams (jsPolicyBundles_client c) (ListOptions opts)
        (Resource ''jspolicybundles'' (rest_Get (jsPolicyBundles_client c))))) w)"

definition jsPolicyBundles_Watch ::
  "'s jsPolicyBundles \<Rightarrow> 's ctx \<Rightarrow> list_opts \<Rightarrow> 's net \<Rightarrow> (go_error + watcher) \<times> 's net" where
  "jsPolicyBundles_Watch c ctx opts w = (Watch (jsPolicyBundles_client c) ctx (
      Timeout (list_timeout opts)
      (VersionedParams (jsPolicyBundles_client c) (ListOptions (opts\<lparr>lsWatch := True\<rparr>))
        (Resource ''jspolicybundles'' (rest_Get (jsPolicyBundles_client c))))) w)"

definition jsPolicyBundles_Create ::
  "'s jsPolicyBundles \<Rightarrow> 's ctx \<Rightarrow> JsPolicyBundle \<Rightarrow> write_opts \<Rightarrow> 's net \<Rightarrow> (JsPolicyBundle option \<times> go_error option) \<times> 's net" where
  "jsPolicyBundles_Create c ctx obj opts w = apfst (Into as_JsPolicyBundle) (Do (jsPolicyBundles_client c) ctx (
      Body (jsPolicyBundles_client c) (BodyObject (JsPolicyBundleObject obj))
      (VersionedParams (jsPolicyBundles_client c) (CreateOptions opts)
        (Resource ''jspolicybundles'' (rest_Post (jsPolicyBundles_client c))))) w)"

definition jsPolicyBundles_Update ::
  "'s jsPolicyBundles \<Rightarrow> 's ctx \<Rightarrow> JsPolicyBundle \<Rightarrow> write_opts \<Rightarrow> 's net \<Rightarrow> (JsPolicyBundle option \<times> go_error option) \<times> 's net" where
  "jsPolicyBundles_Update c ctx obj opts w = apfst (Into as_JsPolicyBundle) (Do (jsPolicyBundles_client c) ctx (
      Body (jsPolicyBundles_client c) (BodyObject (JsPolicyBundleObject obj))
      (VersionedParams (jsPolicyBundles_client c) (UpdateOptions opts)
        (Name (bName obj) (Resource ''jspolicybundles'' (rest_Put (jsPolicyBundles_client c)))))) w)"

definition jsPolicyBundles_UpdateStatus ::
  "'s jsPolicyBundles \<Rightarrow> 's ctx \<Rightarrow> JsPolicyBundle \<Rightarrow> write_opts \<Rightarrow> 's net \<Rightarrow> (JsPolicyBundle option \<times> go_error option) \<times> 's net" where
  "jsPolicyBundles_UpdateStatus c ctx obj opts w = apfst (Into as_JsPolicyBundle) (Do (jsPolicyBundles_client c) ctx (
      Body (jsPolicyBundles_client c) (BodyObject (JsPolicyBundleObject obj))
      (VersionedParams (jsPolicyBundles_client c) (UpdateOptions opts)
        (SubResource [''status''] (Name (bName obj) (Resource ''jspolicybundles'' (rest_Put (jsPolicyBundles_client c))))))) w)"

definition jsPolicyBundles_Delete ::
  "'s jsPolicyBundles \<Rightarrow> 's ctx \<Rightarrow> string \<Rightarrow> delete_opts \<Rightarrow> 's net \<Rightarrow> go_error option \<times> 's net" where
  "jsPolicyBundles_Delete c ctx name opts w = apfst result_Error (Do (jsPolicyBundles_client c) ctx (
      Body (jsPolicyBundles_client c) (BodyObject (DeleteOptionsObject opts))
      (Name name (Resource ''jspolicybundles'' (rest_Delete (jsPolicyBundles_client c))))) w)"

definition jsPolicyBundles_DeleteCollection ::
  "'s jsPolicyBundles \<Rightarrow> 's ctx \<Rightarrow> delete_opts \<Rightarrow> list_opts \<Rightarrow> 's net \<Rightarrow> go_error option \<times> 's net" where
  "jsPolicyBundles_DeleteCollection c ctx opts listOpts w = apfst result_Error (Do (jsPolicyBundles_client c) ctx (
      Body (jsPolicyBundles_client c) (BodyObject (DeleteOptionsObject opts))
      (Timeout (list_timeout listOpts)
        (VersionedParams (jsPolicyBundles_client c) (ListOptions listOpts)
        (Resource ''jspolicybundles'' (rest_Delete (jsPolicyBundles_client c)))))) w)"

definition jsPolicyBundles_Patch ::
  "'s jsPolicyBundles \<Rightarrow> 's ctx \<Rightarrow> string \<Rightarrow> string \<Rightarrow> string \<Rightarrow> write_opts \<Rightarrow> (bool option) \<Rightarrow> (string list) \<Rightarrow> 's net \<Rightarrow> (JsPolicyBundle option \<times> go_error option) \<times> 's net" where
  "jsPolicyBundles_Patch c ctx name pt data opts force subresources w = apfst (Into as_JsPolicyBundle) (Do (jsPolicyBundles_client c) ctx (
      Body (jsPolicyBundles_client c) (BodyBytes data)
      (VersionedParams (jsPolicyBundles_client c) (PatchOptions opts force)
        (SubResource subresources (Name name (Resource ''jspolicybundles'' (rest_Patch (jsPolicyBundles_client c) pt)))))) w)"

fun jsPolicyBundles_call :: "'s jsPolicyBundles \<Rightarrow> 's ctx \<Rightarrow> typed_call \<Rightarrow> 's net \<Rightarrow> 's net option" where
  "jsPolicyBundles_call c ctx (GetCall name options) w = Some (snd (jsPolicyBundles_Get c ctx name options w))"
| "jsPolicyBundles_call c ctx (ListCall opts) w = Some (snd (jsPolicyBundles_List c ctx opts w))"
| "jsPolicyBundles_call c ctx (WatchCall opts) w = Some (snd (jsPolicyBundles_Watch c ctx opts w))"
| "jsPolicyBundles_call c ctx (CreateCall (JsPolicyBundleObject obj) opts) w = Some (snd (jsPolicyBundles_Create c ctx obj opts w))"
| "jsPolicyBundles_call c ctx (UpdateCall (JsPolicyBundleObject obj) opts) w = Some (snd (jsPolicyBundles_Update c ctx obj opts w))"
| "jsPolicyBundles_call c ctx (UpdateStatusCall (JsPolicyBundleObject obj) opts) w = Some (snd (jsPolicyBundles_UpdateStatus c ctx obj opts w))"
| "jsPolicyBundles_call c ctx (DeleteCall name opts) w = Some (snd (jsPolicyBundles_Delete c ctx name opts w))"
| "jsPolicyBundles_call c ctx (DeleteCollectionCall opts listOpts) w = Some (snd (jsPolicyBundles_DeleteCollection c ctx opts listOpts w))"
| "jsPolicyBundles_call c ctx (PatchCall name pt data opts force subs) w = Some (snd (jsPolicyBundles_Patch c ctx name pt data opts force subs w))"
| "jsPolicyBundles_call c ctx _ w = None"

text \<open>\<open>jsPolicyViolationses\<close>\<close>

record 's jsPolicyViolationses =
  jsPolicyViolationses_client :: "'s rest_client"

definition newJsPolicyViolationses :: "'s PolicyV1beta1Client \<Rightarrow> 's jsPolicyViolationses" where
  "newJsPolicyViolationses c = \<lparr>jsPolicyViolationses_client = PolicyV1beta1Client_restClient c\<rparr>"

definition jsPolicyViolationses_Get ::
  "'s jsPolicyViolationses \<Rightarrow> 's ctx \<Rightarrow> string \<Rightarrow> string \<Rightarrow> 's net \<Rightarrow> (JsPolicyViolations option \<times> go_error option) \<times> 's net" where
  "jsPolicyViolationses_Get c ctx name options w = apfst (Into as_JsPolicyViolations) (Do (jsPolicyViolationses_client c) ctx (
      VersionedParams (jsPolicyViolationses_client c) (GetOptions options)
        (Name name (Resource ''jspolicyviolationses'' (rest_Get (jsPolicyViolationses_client c))))) w)"

definition jsPolicyViolationses_List ::
  "'s jsPolicyViolationses \<Rightarrow> 's ctx \<Rightarrow> list_opts \<Rightarrow> 's net \<Rightarrow> (JsPolicyViolations list option \<times> go_error option) \<times> 's net" where
  "jsPolicyViolationses_List c ctx opts w = apfst (Into as_JsPolicyViolationsList) (Do (jsPolicyViolationses_client c) ctx (
      Timeout (list_timeout opts)
      (VersionedParams (jsPolicyViolationses_client c) (ListOptions opts)
        (Resource ''jspolicyviolationses'' (rest_Get (jsPolicyViolationses_client c))))) w)"

definition jsPolicyViolationses_Watch ::
  "'s jsPolicyViolationses \<Rightarrow> 's ctx \<Rightarrow> list_opts \<Rightarrow> 's net \<Rightarrow> (go_error + watcher) \<times> 's net" where
  "jsPolicyViolationses_Watch c ctx opts w = (Watch (jsPolicyViolationses_client c) ctx (
      Timeout (list_timeout opts)
      (VersionedParams (jsPolicyViolationses_client c) (ListOptions (opts\<lparr>lsWatch := True\<rparr>))
        (Resource ''jspolicyviolationses'' (rest_Get (jsPolicyViolationses_client c))))) w)"

definition jsPolicyViolationses_Create ::
  "'s jsPolicyViolationses \<Rightarrow> 's ctx \<Rightarrow> JsPolicyViolations \<Rightarrow> write_opts \<Rightarrow> 's net \<Rightarrow> (JsPolicyViolations option \<times> go_error option) \<times> 's net" where
  "jsPolicyViolationses_Create c ctx obj opts w = apfst (Into as_JsPolicyViolations) (Do (jsPolicyViolationses_client c) ctx (
      Body (jsPolicyViolationses_client c) (BodyObject (JsPolicyViolationsObject obj))
      (VersionedParams (jsPolicyViolationses_client c) (CreateOptions opts)
        (Resource ''jspolicyviolationses'' (rest_Post (jsPolicyViolationses_client c))))) w)"

definition jsPolicyViolationses_Update ::
  "'s jsPolicyViolationses \<Rightarrow> 's ctx \<Rightarrow> JsPolicyViolations \<Rightarrow> write_opts \<Rightarrow> 's net \<Rightarrow> (JsPolicyViolations option \<times> go_error option) \<times> 's net" where
  "jsPolicyViolationses_Update c ctx obj opts w = apfst (Into as_JsPolicyViolations) (Do (jsPolicyViolationses_client c) ctx (
      Body (jsPolicyViolationses_client c) (BodyObject (JsPolicyViolationsObject obj))
      (VersionedParams (jsPolicyViolationses_client c) (UpdateOptions opts)
        (Name (jvName obj) (Resource ''jspolicyviolationses'' (rest_Put (jsPolicyViolationses_client c)))))) w)"

definition jsPolicyViolationses_UpdateStatus ::
  "'s jsPolicyViolationses \<Rightarrow> 's ctx \<Rightarrow> JsPolicyViolations \<Rightarrow> write_opts \<Rightarrow> 's net \<Rightarrow> (JsPolicyViolations option \<times> go_error option) \<times> 's net" where
  "jsPolicyViolationses_UpdateStatus c ctx obj opts w = apfst (Into as_JsPolicyViolations) (Do (jsPolicyViolationses_client c) ctx (
      Body (jsPolicyViolationses_client c) (BodyObject (JsPolicyViolationsObject obj))
      (VersionedParams (jsPolicyViolationses_client c) (UpdateOptions opts)
        (SubResource [''status''] (Name (jvName obj) (Resource ''jspolicyviolationses'' (rest_Put (jsPolicyViolationses_client c))))))) w)"

definition jsPolicyViolationses_Delete ::
  "'s jsPolicyViolationses \<Rightarrow> 's ctx \<Rightarrow> string \<Rightarrow> delete_opts \<Rightarrow> 's net \<Rightarrow> go_error option \<times> 's net" where
  "jsPolicyViolationses_Delete c ctx name opts w = apfst result_Error (Do (jsPolicyViolationses_client c) ctx (
      Body (jsPolicyViolationses_client c) (BodyObject (DeleteOptionsObject opts))
      (Name name (Resource ''jspolicyviolationses'' (rest_Delete (jsPolicyViolationses_client c))))) w)"

definition jsPolicyViolationses_DeleteCollection ::
  "'s jsPolicyViolationses \<Rightarrow> 's ctx \<Rightarrow> delete_opts \<Rightarrow> list_opts \<Rightarrow> 's net \<Rightarrow> go_error option \<times> 's net" where
  "jsPolicyViolationses_DeleteCollection c ctx opts listOpts w = apfst result_Error (Do (jsPolicyViolationses_client c) ctx (
      Body (jsPolicyViolationses_client c) (BodyObject (DeleteOptionsObject opts))
      (Timeout (list_timeout listOpts)
        (VersionedParams (jsPolicyViolationses_client c) (ListOptions listOpts)
        (Resource ''jspolicyviolationses'' (rest_Delete (jsPolicyViolationses_client c)))))) w)"

definition jsPolicyViolationses_Patch ::
  "'s jsPolicyViolationses \<Rightarrow> 's ctx \<Rightarrow> string \<Rightarrow> string \<Rightarrow> string \<Rightarrow> write_opts \<Rightarrow> (bool option) \<Rightarrow> (string list) \<Rightarrow> 's net \<Rightarrow> (JsPolicyViolations option \<times> go_error option) \<times> 's net" where
  "jsPolicyViolationses_Patch c ctx name pt data opts force subresources w = apfst (Into as_JsPolicyViolations) (Do (jsPolicyViolationses_client c) ctx (
      Body (jsPolicyViolationses_client c) (BodyBytes data)
      (VersionedParams (jsPolicyViolationses_client c) (PatchOptions opts force)
        (SubResource subresources (Name name (Resource ''jspolicyviolationses'' (rest_Patch (jsPolicyViolationses_client c) pt)))))) w)"

fun jsPolicyViolationses_call :: "'s jsPolicyViolationses \<Rightarrow> 's ctx \<Rightarrow> typed_call \<Rightarrow> 's net \<Rightarrow> 's net option" where
  "jsPolicyViolationses_call c ctx (GetCall name options) w = Some (snd (jsPolicyViolationses_Get c ctx name options w))"
| "jsPolicyViolationses_call c ctx (ListCall opts) w = Some (snd (jsPolicyViolationses_List c ctx opts w))"
| "jsPolicyViolationses_call c ctx (WatchCall opts) w = Some (snd (jsPolicyViolationses_Watch c ctx opts w))"
| "jsPolicyViolationses_call c ctx (CreateCall (JsPolicyViolationsObject obj) opts) w = Some (snd (jsPolicyViolationses_Create c ctx obj opts w))"
| "jsPolicyViolationses_call c ctx (UpdateCall (JsPolicyViolationsObject obj) opts) w = Some (snd (jsPolicyViolationses_Update c ctx obj opts w))"
| "jsPolicyViolationses_call c ctx (UpdateStatusCall (JsPolicyViolationsObject obj) opts) w = Some (snd (jsPolicyViolationses_UpdateStatus c ctx obj opts w))"
| "jsPolicyViolationses_call c ctx (DeleteCall name opts) w = Some (snd (jsPolicyViolationses_Delete c ctx name opts w))"
| "jsPolicyViolationses_call c ctx (DeleteCollectionCall opts listOpts) w = Some (snd (jsPolicyViolationses_DeleteCollection c ctx opts listOpts w))"
| "jsPolicyViolationses_call c ctx (PatchCall name pt data opts force subs) w = Some (snd (jsPolicyViolationses_Patch c ctx name pt data opts force subs w))"
| "jsPolicyViolationses_call c ctx _ w = None"

text \<open>\<open>policyReports\<close>\<close>

record 's policyReports =
  policyReports_client :: "'s rest_client"
  policyReports_ns :: string

definition newPolicyReports :: "'s Wgpolicyk8sV1alpha2Client \<Rightarrow> string \<Rightarrow> 's policyReports" where
  "newPolicyReports c namespace = \<lparr>policyReports_client = Wgpolicyk8sV1alpha2Client_restClient c, policyReports_ns = namespace\<rparr>"

definition policyReports_Get ::
  "'s policyReports \<Rightarrow> 's ctx \<Rightarrow> string \<Rightarrow> string \<Rightarrow> 's net \<Rightarrow> (PolicyReport option \<times> go_error option) \<times> 's net" where
  "policyReports_Get c ctx name options w = apfst (Into as_PolicyReport) (Do (policyReports_client c) ctx (
      VersionedParams (policyReports_client c) (GetOptions options)
        (Name name (Resource ''policyreports'' (Namespace (policyReports_ns c) (rest_Get (policyReports_client c)))))) w)"

definition policyReports_List ::
  "'s policyReports \<Rightarrow> 's ctx \<Rightarrow> list_opts \<Rightarrow> 's net \<Rightarrow> (PolicyReport list option \<times> go_error option) \<times> 's net" where
  "policyReports_List c ctx opts w = apfst (Into as_PolicyReportList) (Do (policyReports_client c) ctx (
      Timeout (list_timeout opts)
      (VersionedParams (policyReports_client c) (ListOptions opts)
        (Resource ''policyreports'' (Namespace (policyReports_ns c) (rest_Get (policyReports_client c)))))) w)"

definition policyReports_Watch ::
  "'s policyReports \<Rightarrow> 's ctx \<Rightarrow> list_opts \<Rightarrow> 's net \<Rightarrow> (go_error + watcher) \<times> 's net" where
  "policyReports_Watch c ctx opts w = (Watch (policyReports_client c) ctx (
      Timeout (list_timeout opts)
      (VersionedParams (policyReports_client c) (ListOptions (opts\<lparr>lsWatch := True\<rparr>))
        (Resource ''policyreports'' (Namespace (policyReports_ns c) (rest_Get (policyReports_client c)))))) w)"

definition policyReports_Create ::
  "'s policyReports \<Rightarrow> 's ctx \<Rightarrow> PolicyReport \<Rightarrow> write_opts \<Rightarrow> 's net \<Rightarrow> (PolicyReport option \<times> go_error option) \<times> 's net" where
  "policyReports_Create c ctx obj opts w = apfst (Into as_PolicyReport) (Do (policyReports_client c) ctx (
      Body (policyReports_client c) (BodyObject (PolicyReportObject obj))
      (VersionedParams (policyReports_client c) (CreateOptions opts)
        (Resource ''policyreports'' (Namespace (policyReports_ns c) (rest_Post (policyReports_client c)))))) w)"

definition policyReports_Update ::
  "'s policyReports \<Rightarrow> 's ctx \<Rightarrow> PolicyReport \<Rightarrow> write_opts \<Rightarrow> 's net \<Rightarrow> (PolicyReport option \<times> go_error option) \<times> 's net" where
  "policyReports_Update c ctx obj opts w = apfst (Into as_PolicyReport) (Do (policyReports_client c) ctx (
      Body (policyReports_client c) (BodyObject (PolicyReportObject obj))
      (VersionedParams (policyReports_client c) (UpdateOptions opts)
        (Name (rpName obj) (Resource ''policyreports'' (Namespace (policyReports_ns c) (rest_Put (policyReports_client c))))))) w)"

definition policyReports_Delete ::
  "'s policyReports \<Rightarrow> 's ctx \<Rightarrow> string \<Rightarrow> delete_opts \<Rightarrow> 's net \<Rightarrow> go_error option \<times> 's net" where
  "policyReports_Delete c ctx name opts w = apfst result_Error (Do (policyReports_client c) ctx (
      Body (policyReports_client c) (BodyObject (DeleteOptionsObject opts))
      (Name name (Resource ''policyreports'' (Namespace (policyReports_ns c) (rest_Delete (policyReports_client c)))))) w)"

definition policyReports_DeleteCollection ::
  "'s policyReports \<Rightarrow> 's ctx \<Rightarrow> delete_opts \<Rightarrow> list_opts \<Rightarrow> 's net \<Rightarrow> go_error option \<times> 's net" where
  "policyReports_DeleteCollection c ctx opts listOpts w = apfst result_Error (Do (policyReports_client c) ctx (
      Body (policyReports_client c) (BodyObject (DeleteOptionsObject opts))
      (Timeout (list_timeout listOpts)
        (VersionedParams (policyReports_client c) (ListOptions listOpts)
        (Resource ''policyreports'' (Namespace (policyReports_ns c) (rest_Delete (policyReports_client c))))))) w)"

definition policyReports_Patch ::
  "'s policyReports \<Rightarrow> 's ctx \<Rightarrow> string \<Rightarrow> string \<Rightarrow> string \<Rightarrow> write_opts \<Rightarrow> (bool option) \<Rightarrow> (string list) \<Rightarrow> 's net \<Rightarrow> (PolicyReport option \<times> go_error option) \<times> 's net" where
  "policyReports_Patch c ctx name pt data opts force subresources w = apfst (Into as_PolicyReport) (Do (policyReports_client c) ctx (
      Body (policyReports_client c) (BodyBytes data)
      (VersionedParams (policyReports_client c) (PatchOptions opts force)
        (SubResource subresources (Name name (Resource ''policyreports'' (Namespace (policyReports_ns c) (rest_Patch (policyReports_client c) pt))))))) w)"

fun policyReports_call :: "'s policyReports \<Rightarrow> 's ctx \<Rightarrow> typed_call \<Rightarrow> 's net \<Rightarrow> 's net option" where
  "policyReports_call c ctx (GetCall name options) w = Some (snd (policyReports_Get c ctx name options w))"
| "policyReports_call c ctx (ListCall opts) w = Some (snd (policyReports_List c ctx opts w))"
| "policyReports_call c ctx (WatchCall opts) w = Some (snd (policyReports_Watch c ctx opts w))"
| "policyReports_call c ctx (CreateCall (PolicyReportObject obj) opts) w = Some (snd (policyReports_Create c ctx obj opts w))"
| "policyReports_call c ctx (UpdateCall (PolicyReportObject obj) opts) w = Some (snd (policyReports_Update c ctx obj opts w))"
| "policyReports_call c ctx (DeleteCall name opts) w = Some (snd (policyReports_Delete c ctx name opts w))"
| "policyReports_call c ctx (DeleteCollectionCall opts listOpts) w = Some (snd (policyReports_DeleteCollection c ctx opts listOpts w))"
| "policyReports_call c ctx (PatchCall name pt data opts force subs) w = Some (snd (policyReports_Patch c ctx name pt data opts force subs w))"
| "policyReports_call c ctx _ w = None"

text \<open>\<open>clusterPolicyReports\<close>\<close>

record 's clusterPolicyReports =
  clusterPolicyReports_client :: "'s rest_client"

definition newClusterPolicyReports :: "'s Wgpolicyk8sV1alpha2Client \<Rightarrow> 's clusterPolicyReports" where
  "newClusterPolicyReports c = \<lparr>clusterPolicyReports_client = Wgpolicyk8sV1alpha2Client_restClient c\<rparr>"

definition clusterPolicyReports_Get ::
  "'s clusterPolicyReports \<Rightarrow> 's ctx \<Rightarrow> string \<Rightarrow> string \<Rightarrow> 's net \<Rightarrow> (PolicyReport option \<times> go_error option) \<times> 's net" where
  "clusterPolicyReports_Get c ctx name options w = apfst (Into as_ClusterPolicyReport) (Do (clusterPolicyReports_client c) ctx (
      VersionedParams (clusterPolicyReports_client c) (GetOptions options)
        (Name name (Resource ''clusterpolicyreports'' (rest_Get (clusterPolicyReports_client c))))) w)"

definition clusterPolicyReports_List ::
  "'s clusterPolicyReports \<Rightarrow> 's ctx \<Rightarrow> list_opts \<Rightarrow> 's net \<Rightarrow> (PolicyReport list option \<times> go_error option) \<times> 's net" where
  "clusterPolicyReports_List c ctx opts w = apfst (Into as_ClusterPolicyReportList) (Do (clusterPolicyReports_client c) ctx (
      Timeout (list_timeout opts)
      (VersionedParams (clusterPolicyReports_client c) (ListOptions opts)
        (Resource ''clusterpolicyreports'' (rest_Get (clusterPolicyReports_client c))))) w)"

definition clusterPolicyReports_Watch ::
  "'s clusterPolicyReports \<Rightarrow> 's ctx \<Rightarrow> list_opts \<Rightarrow> 's net \<Rightarrow> (go_error + watcher) \<times> 's net" where
  "clusterPolicyReports_Watch c ctx opts w = (Watch (clusterPolicyReports_client c) ctx (
      Timeout (list_timeout opts)
      (VersionedParams (clusterPolicyReports_client c) (ListOptions (opts\<lparr>lsWatch := True\<rparr>))
        (Resource ''clusterpolicyreports'' (rest_Get (clusterPolicyReports_client c))))) w)"

definition clusterPolicyReports_Create ::
  "'s clusterPolicyReports \<Rightarrow> 's ctx \<Rightarrow> PolicyReport \<Rightarrow> write_opts \<Rightarrow> 's net \<Rightarrow> (PolicyReport option \<times> go_error option) \<times> 's net" where
  "clusterPolicyReports_Create c ctx obj opts w = apfst (Into as_ClusterPolicyReport) (Do (clusterPolicyReports_client c) ctx (
      Body (clusterPolicyReports_client c) (BodyObject (ClusterPolicyReportObject obj))
      (VersionedParams (clusterPolicyReports_client c) (CreateOptions opts)
        (Resource ''clusterpolicyreports'' (rest_Post (clusterPolicyReports_client c))))) w)"

definition clusterPolicyReports_Update ::
  "'s clusterPolicyReports \<Rightarrow> 's ctx \<Rightarrow> PolicyReport \<Rightarrow> write_opts \<Rightarrow> 's net \<Rightarrow> (PolicyReport option \<times> go_error option) \<times> 's net" where
  "clusterPolicyReports_Update c ctx obj opts w = apfst (Into as_ClusterPolicyReport) (Do (clusterPolicyReports_client c) ctx (
      Body (clusterPolicyReports_client c) (BodyObject (ClusterPolicyReportObject obj))
      (VersionedParams (clusterPolicyReports_client c) (UpdateOptions opts)
        (Name (rpName obj) (Resource ''clusterpolicyreports'' (rest_Put (clusterPolicyReports_client c)))))) w)"

definition clusterPolicyReports_Delete ::
  "'s clusterPolicyReports \<Rightarrow> 's ctx \<Rightarrow> string \<Rightarrow> delete_opts \<Rightarrow> 's net \<Rightarrow> go_error option \<times> 's net" where
  "clusterPolicyReports_Delete c ctx name opts w = apfst result_Error (Do (clusterPolicyReports_client c) ctx (
      Body (clusterPolicyReports_client c) (BodyObject (DeleteOptionsObject opts))
      (Name name (Resource ''clusterpolicyreports'' (rest_Delete (clusterPolicyReports_client c))))) w)"

definition clusterPolicyReports_DeleteCollection ::
  "'s clusterPolicyReports \<Rightarrow> 's ctx \<Rightarrow> delete_opts \<Rightarrow> list_opts \<Rightarrow> 's net \<Rightarrow> go_error option \<times> 's net" where
  "clusterPolicyReports_DeleteCollection c ctx opts listOpts w = apfst result_Error (Do (clusterPolicyReports_client c) ctx (
      Body (clusterPolicyReports_client c) (BodyObject (DeleteOptionsObject opts))
      (Timeout (list_timeout listOpts)
        (VersionedParams (clusterPolicyReports_client c) (ListOptions listOpts)
        (Resource ''clusterpolicyreports'' (rest_Delete (clusterPolicyReports_client c)))))) w)"

definition clusterPolicyReports_Patch ::
  "'s clusterPolicyReports \<Rightarrow> 's ctx \<Rightarrow> string \<Rightarrow> string \<Rightarrow> string \<Rightarrow> write_opts \<Rightarrow> (bool option) \<Rightarrow> (string list) \<Rightarrow> 's net \<Rightarrow> (PolicyReport option \<times> go_error option) \<times> 's net" where
  "clusterPolicyReports_Patch c ctx name pt data opts force subresources w = apfst (Into as_ClusterPolicyReport) (Do (clusterPolicyReports_client c) ctx (
      Body (clusterPolicyReports_client c) (BodyBytes data)
      (VersionedParams (clusterPolicyReports_client c) (PatchOptions opts force)
        (SubResource subresources (Name name (Resource ''clusterpolicyreports'' (rest_Patch (clusterPolicyReports_client c) pt)))))) w)"

fun clusterPolicyReports_call :: "'s clusterPolicyReports \<Rightarrow> 's ctx \<Rightarrow> typed_call \<Rightarrow> 's net \<Rightarrow> 's net option" where
  "clusterPolicyReports_call c ctx (GetCall name options) w = Some (snd (clusterPolicyReports_Get c ctx name options w))"
| "clusterPolicyReports_call c ctx (ListCall opts) w = Some (snd (clusterPolicyReports_List c ctx opts w))"
| "clusterPolicyReports_call c ctx (WatchCall opts) w = Some (snd (clusterPolicyReports_Watch c ctx opts w))"
| "clusterPolicyReports_call c ctx (CreateCall (ClusterPolicyReportObject obj) opts) w = Some (snd (clusterPolicyReports_Create c ctx obj opts w))"
| "clusterPolicyReports_call c ctx (UpdateCall (ClusterPolicyReportObject obj) opts) w = Some (snd (clusterPolicyReports_Update c ctx obj opts w))"
| "clusterPolicyReports_call c ctx (DeleteCall name opts) w = Some (snd (clusterPolicyReports_Delete c ctx name opts w))"
| "clusterPolicyReports_call c ctx (DeleteCollectionCall opts listOpts) w = Some (snd (clusterPolicyReports_DeleteCollection c ctx opts listOpts w))"
| "clusterPolicyReports_call c ctx (PatchCall name pt data opts force subs) w = Some (snd (clusterPolicyReports_Patch c ctx name pt data opts force subs w))"
| "clusterPolicyReports_call c ctx _ w = None"

section \<open>What a method asks for\<close>

fun object_name :: "runtime_object \<Rightarrow> string" where
  "object_name (JsPolicyObject p) = pName p"
| "object_name (JsPolicyBundleObject b) = bName b"
| "object_name (JsPolicyViolationsObject v) = jvName v"
| "object_name (PolicyReportObject r) = rpName r"
| "object_name (ClusterPolicyReportObject r) = rpName r"
| "object_name _ = []"

fun target_of :: "string option \<Rightarrow> string \<Rightarrow> typed_call \<Rightarrow> target" where
  "target_of ns res (GetCall name _) = \<lparr>tgVerb = ''GET'', tgNamespace = ns, tgResource = res, tgName = Some name, tgSubresources = []\<rparr>"
| "target_of ns res (ListCall _) = \<lparr>tgVerb = ''GET'', tgNamespace = ns, tgResource = res, tgName = None, tgSubresources = []\<rparr>"
| "target_of ns res (WatchCall _) = \<lparr>tgVerb = ''GET'', tgNamespace = ns, tgResource = res, tgName = None, tgSubresources = []\<rparr>"
| "target_of ns res (CreateCall _ _) = \<lparr>tgVerb = ''POST'', tgNamespace = ns, tgResource = res, tgName = None, tgSubresources = []\<rparr>"
| "target_of ns res (UpdateCall obj _) =
     \<lparr>tgVerb = ''PUT'', tgNamespace = ns, tgResource = res, tgName = Some (object_name obj), tgSubresources = []\<rparr>"
| "target_of ns res (UpdateStatusCall obj _) =
     \<lparr>tgVerb = ''PUT'', tgNamespace = ns, tgResource = res, tgName = Some (object_name obj), tgSubresources = [''status'']\<rparr>"
| "target_of ns res (DeleteCall name _) =
     \<lparr>tgVerb = ''DELETE'', tgNamespace = ns, tgResource = res, tgName = Some name, tgSubresources = []\<rparr>"
| "target_of ns res (DeleteCollectionCall _ _) =
     \<lparr>tgVerb = ''DELETE'', tgNamespace = ns, tgResource = res, tgName = None, tgSubresources = []\<rparr>"
| "target_of ns res (PatchCall name _ _ _ _ subs) =
     \<lparr>tgVerb = ''PATCH'', tgNamespace = ns, tgResource = res, tgName = Some name, tgSubresources = subs\<rparr>"

lemma target_of_resource [simp]: "tgResource (target_of ns res call) = res" "tgNamespace (target_of ns res call) = ns"
  by (cases call; simp)+

lemma target_of_watch [simp]:
  "tgVerb (target_of ns res (WatchCall opts)) = ''GET''" "tgName (target_of ns res (WatchCall opts)) = None"
  by simp_all

text \<open>The chain of calls of each method, in a namespace or in none.\<close>

definition scoped :: "string option \<Rightarrow> rest_request \<Rightarrow> rest_request" where
  "scoped ns r = (case ns of Some n \<Rightarrow> Namespace n r | None \<Rightarrow> r)"

lemma scoped_simps [simp]: "scoped None r = r" "scoped (Some n) r = Namespace n r"
  by (simp_all add: scoped_def)

lemmas chain_defs = built_def target_ok_def codecs_ok_def resource_ok_def rest_Get_def rest_Post_def rest_Put_def rest_Delete_def
  rest_Patch_def rest_Verb_def request_simps

lemma path_JoinAll_Nil [simp]: "path_JoinAll [] = []"
  by (simp add: path_JoinAll_def)

lemma status_segment [simp]: "segment_ok ''status''"
  by (simp add: segment_ok_def)

lemma chain_Get: "resource_ok res \<Longrightarrow>
    built c (target_of ns res (GetCall n opts)) (VersionedParams c p (Name n (Resource res (scoped ns (rest_Get c)))))"
  by (cases ns) (simp_all add: chain_defs)

lemma chain_List: "resource_ok res \<Longrightarrow>
    built c (target_of ns res (ListCall opts)) (Timeout d (VersionedParams c p (Resource res (scoped ns (rest_Get c)))))"
  by (cases ns) (simp_all add: chain_defs)

lemma chain_Watch: "resource_ok res \<Longrightarrow>
    built c (target_of ns res (WatchCall opts)) (Timeout d (VersionedParams c p (Resource res (scoped ns (rest_Get c)))))"
  by (cases ns) (simp_all add: chain_defs)

lemma chain_Create: "resource_ok res \<Longrightarrow>
    built c (target_of ns res (CreateCall obj opts)) (Body c (BodyObject b) (VersionedParams c p (Resource res (scoped ns (rest_Post c)))))"
  by (cases ns) (simp_all add: chain_defs)

lemma chain_Update: "resource_ok res \<Longrightarrow> object_name obj = n \<Longrightarrow>
    built c (target_of ns res (UpdateCall obj opts))
      (Body c (BodyObject b) (VersionedParams c p (Name n (Resource res (scoped ns (rest_Put c))))))"
  by (cases ns) (simp_all add: chain_defs)

lemma chain_UpdateStatus: "resource_ok res \<Longrightarrow> object_name obj = n \<Longrightarrow>
    built c (target_of ns res (UpdateStatusCall obj opts))
      (Body c (BodyObject b) (VersionedParams c p (SubResource [''status''] (Name n (Resource res (scoped ns (rest_Put c)))))))"
  by (cases ns) (simp_all add: chain_defs)

lemma chain_Delete: "resource_ok res \<Longrightarrow>
    built c (target_of ns res (DeleteCall n opts)) (Body c (BodyObject b) (Name n (Resource res (scoped ns (rest_Delete c)))))"
  by (cases ns) (simp_all add: chain_defs)

lemma chain_DeleteCollection: "resource_ok res \<Longrightarrow>
    built c (target_of ns res (DeleteCollectionCall opts listOpts))
      (Body c (BodyObject b) (Timeout d (VersionedParams c p (Resource res (scoped ns (rest_Delete c))))))"
  by (cases ns) (simp_all add: chain_defs)

lemma chain_Patch: "resource_ok res \<Longrightarrow>
    built c (target_of ns res (PatchCall n pt data opts force subs))
      (Body c (BodyBytes b) (VersionedParams c p (SubResource subs (Name n (Resource res (scoped ns (rest_Patch c pt)))))))"
  by (cases ns) (simp_all add: chain_defs)

lemmas chains = chain_Get chain_List chain_Create chain_Update chain_UpdateStatus chain_Delete chain_DeleteCollection chain_Patch

text \<open>Each method of each client reaches the target of its call.\<close>

lemma snd_apfst [simp]: "snd (apfst f p) = snd p"
  by (cases p) simp

lemma jsPolicies_resource [simp]: "resource_ok ''jspolicies''"
  by (simp add: resource_ok_def ToLower_def segment_ok_def)

lemmas jsPolicies_methods = jsPolicies_Get_def jsPolicies_List_def jsPolicies_Watch_def jsPolicies_Create_def jsPolicies_Update_def jsPolicies_UpdateStatus_def jsPolicies_Delete_def jsPolicies_DeleteCollection_def jsPolicies_Patch_def

lemma jsPolicies_reaches:
  assumes "jsPolicies_call c ctx call w = Some w'"
    and "rqPathPrefix (NewRequest (jsPolicies_client c)) = abs_path pre" and "plain_segments pre"
  shows "reaches_target (jsPolicies_client c) pre (target_of None ''jspolicies'' call) w w'"
proof -
  note do = Do_reaches [OF _ assms(2,3)] and watch = Watch_reaches [OF _ _ assms(2,3)]
  note built = chains [OF jsPolicies_resource, where ns = "None", simplified scoped_simps]
    and built_watch = chain_Watch [OF jsPolicies_resource, where ns = "None", simplified scoped_simps]
  show ?thesis using assms(1)
    by (cases rule: jsPolicies_call.cases [of "(c, ctx, call, w)"])
      (auto simp: jsPolicies_methods simp del: target_of.simps snd_Do intro!: do built watch built_watch)
qed

lemma jsPolicyBundles_resource [simp]: "resource_ok ''jspolicybundles''"
  by (simp add: resource_ok_def ToLower_def segment_ok_def)

lemmas jsPolicyBundles_methods = jsPolicyBundles_Get_def jsPolicyBundles_List_def jsPolicyBundles_Watch_def jsPolicyBundles_Create_def jsPolicyBundles_Update_def jsPolicyBundles_UpdateStatus_def jsPolicyBundles_Delete_def jsPolicyBundles_DeleteCollection_def jsPolicyBundles_Patch_def

lemma jsPolicyBundles_reaches:
  assumes "jsPolicyBundles_call c ctx call w = Some w'"
    and "rqPathPrefix (NewRequest (jsPolicyBundles_client c)) = abs_path pre" and "plain_segments pre"
  shows "reaches_target (jsPolicyBundles_client c) pre (target_of None ''jspolicybundles'' call) w w'"
proof -
  note do = Do_reaches [OF _ assms(2,3)] and watch = Watch_reaches [OF _ _ assms(2,3)]
  note built = chains [OF jsPolicyBundles_resource, where ns = "None", simplified scoped_simps]
    and built_watch = chain_Watch [OF jsPolicyBundles_resource, where ns = "None", simplified scoped_simps]
  show ?thesis using assms(1)
    by (cases rule: jsPolicyBundles_call.cases [of "(c, ctx, call, w)"])
      (auto simp: jsPolicyBundles_methods simp del: target_of.simps snd_Do intro!: do built watch built_watch)
qed

lemma jsPolicyViolationses_resource [simp]: "resource_ok ''jspolicyviolationses''"
  by (simp add: resource_ok_def ToLower_def segment_ok_def)

lemmas jsPolicyViolationses_methods = jsPolicyViolationses_Get_def jsPolicyViolationses_List_def jsPolicyViolationses_Watch_def jsPolicyViolationses_Create_def jsPolicyViolationses_Update_def jsPolicyViolationses_UpdateStatus_def jsPolicyViolationses_Delete_def jsPolicyViolationses_DeleteCollection_def jsPolicyViolationses_Patch_def

lemma jsPolicyViolationses_reaches:
  assumes "jsPolicyViolationses_call c ctx call w = Some w'"
    and "rqPathPrefix (NewRequest (jsPolicyViolationses_client c)) = abs_path pre" and "plain_segments pre"
  shows "reaches_target (jsPolicyViolationses_client c) pre (target_of None ''jspolicyviolationses'' call) w w'"
proof -
  note do = Do_reaches [OF _ assms(2,3)] and watch = Watch_reaches [OF _ _ assms(2,3)]
  note built = chains [OF jsPolicyViolationses_resource, where ns = "None", simplified scoped_simps]
    and built_watch = chain_Watch [OF jsPolicyViolationses_resource, where ns = "None", simplified scoped_simps]
  show ?thesis using assms(1)
    by (cases rule: jsPolicyViolationses_call.cases [of "(c, ctx, call, w)"])
      (auto simp: jsPolicyViolationses_methods simp del: target_of.simps snd_Do intro!: do built watch built_watch)
qed

lemma policyReports_resource [simp]: "resource_ok ''policyreports''"
  by (simp add: resource_ok_def ToLower_def segment_ok_def)

lemmas policyReports_methods = policyReports_Get_def policyReports_List_def policyReports_Watch_def policyReports_Create_def policyReports_Update_def policyReports_Delete_def policyReports_DeleteCollection_def policyReports_Patch_def

lemma policyReports_reaches:
  assumes "policyReports_call c ctx call w = Some w'"
    and "rqPathPrefix (NewRequest (policyReports_client c)) = abs_path pre" and "plain_segments pre"
  shows "reaches_target (policyReports_client c) pre (target_of (Some (policyReports_ns c)) ''policyreports'' call) w w'"
proof -
  note do = Do_reaches [OF _ assms(2,3)] and watch = Watch_reaches [OF _ _ assms(2,3)]
  note built = chains [OF policyReports_resource, where ns = "(Some (policyReports_ns c))", simplified scoped_simps]
    and built_watch = chain_Watch [OF policyReports_resource, where ns = "(Some (policyReports_ns c))", simplified scoped_simps]
  show ?thesis using assms(1)
    by (cases rule: policyReports_call.cases [of "(c, ctx, call, w)"])
      (auto simp: policyReports_methods simp del: target_of.simps snd_Do intro!: do built watch built_watch)
qed

lemma clusterPolicyReports_resource [simp]: "resource_ok ''clusterpolicyreports''"
  by (simp add: resource_ok_def ToLower_def segment_ok_def)

lemmas clusterPolicyReports_methods = clusterPolicyReports_Get_def clusterPolicyReports_List_def clusterPolicyReports_Watch_def clusterPolicyReports_Create_def clusterPolicyReports_Update_def clusterPolicyReports_Delete_def clusterPolicyReports_DeleteCollection_def clusterPolicyReports_Patch_def

lemma clusterPolicyReports_reaches:
  assumes "clusterPolicyReports_call c ctx call w = Some w'"
    and "rqPathPrefix (NewRequest (clusterPolicyReports_client c)) = abs_path pre" and "plain_segments pre"
  shows "reaches_target (clusterPolicyReports_client c) pre (target_of None ''clusterpolicyreports'' call) w w'"
proof -
  note do = Do_reaches [OF _ assms(2,3)] and watch = Watch_reaches [OF _ _ assms(2,3)]
  note built = chains [OF clusterPolicyReports_resource, where ns = "None", simplified scoped_simps]
    and built_watch = chain_Watch [OF clusterPolicyReports_resource, where ns = "None", simplified scoped_simps]
  show ?thesis using assms(1)
    by (cases rule: clusterPolicyReports_call.cases [of "(c, ctx, call, w)"])
      (auto simp: clusterPolicyReports_methods simp del: target_of.simps snd_Do intro!: do built watch built_watch)
qed

end
