(* ===== verification/Clientset.thy ===== *)
theory Clientset
  imports TypedClient
begin

text \<open>
  The clientset: how a configuration becomes the clients of the two API groups
  (\<open>pkg/client/clientset_generated/clientset/clientset.go\<close> with \<open>policy_client.go\<close> and \<open>policyreport_client.go\<close>), with the part
  of the vendored \<open>rest\<close> and \<open>discovery\<close> that decides their paths and their rate limits; and where the
  requests of all clients arrive, next to what the resource definitions of the chart make the server serve.
\<close>

section \<open>Configurations\<close>

record rest_config =
  cfHost :: string
  cfAPIPath :: string
  cfGroupVersion :: "(string \<times> string) option"
  cfSerializer :: bool \<comment> \<open>whether there is a \<open>NegotiatedSerializer\<close>\<close>
  cfAcceptContentTypes :: string
  cfContentType :: string
  cfUserAgent :: string
  cfHasCA :: bool
  cfHasCert :: bool
  cfInsecure :: bool
  cfRateLimiter :: "limiter option"
  cfQPS :: rat
  cfBurst :: int
  cfTimeout :: int64

text \<open>\<open>url.Parse\<close>, \<open>TransportFor\<close>, the codecs and the network of a configuration are what the environment gives.\<close>

record 's client_env =
  ceParse :: "string \<Rightarrow> go_error + base_url"
  ceTransportFor :: "rest_config \<Rightarrow> go_error option"
  ceDefaultTransport :: "rest_config \<Rightarrow> bool" \<comment> \<open>whether that is \<open>http.DefaultTransport\<close>\<close>
  ceUserAgent :: string
  ceCodecs :: "rest_config \<Rightarrow> 's rest_client" \<comment> \<open>its codecs and its network\<close>

section \<open>REST clients (rest/config.go, rest/url\_utils.go, rest/client.go)\<close>

definition DefaultVersionedAPIPath :: "string \<Rightarrow> string \<times> string \<Rightarrow> string" where
  "DefaultVersionedAPIPath apiPath gv =
     (let p = path_JoinAll [''/'', apiPath]
      in if length (fst gv) > 0 then path_JoinAll [p, fst gv, snd gv] else path_JoinAll [p, snd gv])"

definition DefaultServerURL :: "'s client_env \<Rightarrow> string \<Rightarrow> string \<Rightarrow> string \<times> string \<Rightarrow> bool \<Rightarrow> go_error + base_url \<times> string" where
  "DefaultServerURL env host apiPath gv defaultTLS =
     (if host = [] then Inl (Errorf ''host must be a URL or a host:port pair'')
      else let withScheme = (case ceParse env ((if defaultTLS then ''https://'' else ''http://'') @ host) of
               Inl err \<Rightarrow> Inl err
             | Inr u \<Rightarrow>
                 if buPath u \<noteq> [] \<and> buPath u \<noteq> ''/''
                 then Inl (Errorf (''host must be a URL or a host:port pair: '' @ quoted host)) else Inr u)
           in map_sum id (\<lambda>u. (u, DefaultVersionedAPIPath apiPath gv))
                (case ceParse env host of
                   Inl _ \<Rightarrow> withScheme
                 | Inr u \<Rightarrow> if buScheme u = [] \<or> buHost u = [] then withScheme else Inr u))"

definition defaultServerUrlFor :: "'s client_env \<Rightarrow> rest_config \<Rightarrow> go_error + base_url \<times> string" where
  "defaultServerUrlFor env config =
     (let defaultTLS = (cfHasCA config \<or> cfHasCert config \<or> cfInsecure config);
          host = (if cfHost config = [] then ''localhost'' else cfHost config)
      in DefaultServerURL env host (cfAPIPath config)
           (case cfGroupVersion config of Some gv \<Rightarrow> gv | None \<Rightarrow> ([], [])) defaultTLS)"

text \<open>The \<open>Timeout\<close> of the \<open>http.Client\<close>.\<close>

definition HTTPClientFor :: "'s client_env \<Rightarrow> rest_config \<Rightarrow> go_error + int64" where
  "HTTPClientFor env config =
     (case ceTransportFor env config of
        Some err \<Rightarrow> Inl err
      | None \<Rightarrow> Inr (if \<not> ceDefaultTransport env config \<or> word_sless 0 (cfTimeout config) then cfTimeout config else 0))"

definition NewRESTClient :: "base_url \<Rightarrow> string \<Rightarrow> rest_config \<Rightarrow> string \<times> string \<Rightarrow> limiter option \<Rightarrow> int64 \<Rightarrow>
    's rest_client \<Rightarrow> 's rest_client" where
  "NewRESTClient baseURL versionedAPIPath config gv rateLimiter timeout c =
     (let contentType = (if length (cfContentType config) = 0 then ''application/json'' else cfContentType config);
          base = (if has_suffix (buPath baseURL) ''/'' then baseURL else baseURL\<lparr>buPath := buPath baseURL @ ''/''\<rparr>)
      in c\<lparr>rcBase := Some base, rcVersionedAPIPath := versionedAPIPath, rcContentType := contentType,
           rcAcceptContentTypes := cfAcceptContentTypes config, rcGroup := fst gv, rcVersion := snd gv,
           rcTimeout := timeout, rcRateLimiter := rateLimiter\<rparr>)"

text \<open>The rate limiter of a client; a bucket that is made takes the next number.\<close>

definition limiter_for :: "rest_config \<Rightarrow> nat \<Rightarrow> limiter option \<times> nat" where
  "limiter_for config n =
     (case cfRateLimiter config of
        Some l \<Rightarrow> (Some l, n)
      | None \<Rightarrow>
          (let qps = (if cfQPS config = 0 then 5 else cfQPS config);
               burst = (if cfBurst config = 0 then 10 else cfBurst config)
           in if qps > 0 then (Some (TokenBucket n qps burst), Suc n) else (None, n)))"

text \<open>
  \<open>RESTClientForConfigAndClient\<close> and its unversioned sibling, which differ in where \<open>gv\<close> comes from; \<open>timeout\<close> is that of
  the HTTP client.
\<close>

definition rest_client_with :: "'s client_env \<Rightarrow> rest_config \<Rightarrow> string \<times> string \<Rightarrow> int64 \<Rightarrow> nat \<Rightarrow> (go_error + 's rest_client) \<times> nat" where
  "rest_client_with env config gv timeout n =
     (if \<not> cfSerializer config then (Inl (Errorf ''NegotiatedSerializer is required when initializing a RESTClient''), n)
      else case defaultServerUrlFor env config of
             Inl err \<Rightarrow> (Inl err, n)
           | Inr (baseURL, versionedAPIPath) \<Rightarrow>
               (let (rateLimiter, n') = limiter_for config n
                in (Inr (NewRESTClient baseURL versionedAPIPath config gv rateLimiter timeout (ceCodecs env config)), n')))"

definition RESTClientFor :: "'s client_env \<Rightarrow> rest_config \<Rightarrow> nat \<Rightarrow> (go_error + 's rest_client) \<times> nat" where
  "RESTClientFor env config n =
     (case cfGroupVersion config of
        None \<Rightarrow> (Inl (Errorf ''GroupVersion is required when initializing a RESTClient''), n)
      | Some gv \<Rightarrow>
          if \<not> cfSerializer config then (Inl (Errorf ''NegotiatedSerializer is required when initializing a RESTClient''), n)
          else case defaultServerUrlFor env config of
                 Inl err \<Rightarrow> (Inl err, n)
               | Inr _ \<Rightarrow>
                   (case HTTPClientFor env config of
                      Inl err \<Rightarrow> (Inl err, n)
                    | Inr timeout \<Rightarrow> rest_client_with env config gv timeout n))"

section \<open>The clients of the groups\<close>

definition policy_setConfigDefaults :: "'s client_env \<Rightarrow> rest_config \<Rightarrow> rest_config" where
  "policy_setConfigDefaults env config =
     config\<lparr>cfGroupVersion := Some (''policy.jspolicy.com'', ''v1beta1''), cfAPIPath := ''/apis'', cfSerializer := True,
       cfUserAgent := (if cfUserAgent config = [] then ceUserAgent env else cfUserAgent config)\<rparr>"

definition policy_NewForConfig :: "'s client_env \<Rightarrow> rest_config \<Rightarrow> nat \<Rightarrow> (go_error + 's PolicyV1beta1Client) \<times> nat" where
  "policy_NewForConfig env config n =
     apfst (map_sum id (\<lambda>c. \<lparr>PolicyV1beta1Client_restClient = c\<rparr>)) (RESTClientFor env (policy_setConfigDefaults env config) n)"

definition report_setConfigDefaults :: "'s client_env \<Rightarrow> rest_config \<Rightarrow> rest_config" where
  "report_setConfigDefaults env config =
     config\<lparr>cfGroupVersion := Some (''wgpolicyk8s.io'', ''v1alpha2''), cfAPIPath := ''/apis'', cfSerializer := True,
       cfUserAgent := (if cfUserAgent config = [] then ceUserAgent env else cfUserAgent config)\<rparr>"

definition report_NewForConfig :: "'s client_env \<Rightarrow> rest_config \<Rightarrow> nat \<Rightarrow> (go_error + 's Wgpolicyk8sV1alpha2Client) \<times> nat" where
  "report_NewForConfig env config n =
     apfst (map_sum id (\<lambda>c. \<lparr>Wgpolicyk8sV1alpha2Client_restClient = c\<rparr>)) (RESTClientFor env (report_setConfigDefaults env config) n)"

text \<open>\<open>NewForConfigOrDie\<close>: the \<open>Inl\<close> is the panic.\<close>

definition policy_NewForConfigOrDie :: "'s client_env \<Rightarrow> rest_config \<Rightarrow> nat \<Rightarrow> (string + 's PolicyV1beta1Client) \<times> nat" where
  "policy_NewForConfigOrDie env config n = apfst (map_sum err_text id) (policy_NewForConfig env config n)"

definition report_NewForConfigOrDie :: "'s client_env \<Rightarrow> rest_config \<Rightarrow> nat \<Rightarrow> (string + 's Wgpolicyk8sV1alpha2Client) \<times> nat" where
  "report_NewForConfigOrDie env config n = apfst (map_sum err_text id) (report_NewForConfig env config n)"

definition policy_New :: "'s rest_client \<Rightarrow> 's PolicyV1beta1Client" where
  "policy_New c = \<lparr>PolicyV1beta1Client_restClient = c\<rparr>"

definition report_New :: "'s rest_client \<Rightarrow> 's Wgpolicyk8sV1alpha2Client" where
  "report_New c = \<lparr>Wgpolicyk8sV1alpha2Client_restClient = c\<rparr>"

definition policy_RESTClient :: "'s PolicyV1beta1Client option \<Rightarrow> 's rest_client option" where
  "policy_RESTClient c = (case c of None \<Rightarrow> None | Some c \<Rightarrow> Some (PolicyV1beta1Client_restClient c))"

definition report_RESTClient :: "'s Wgpolicyk8sV1alpha2Client option \<Rightarrow> 's rest_client option" where
  "report_RESTClient c = (case c of None \<Rightarrow> None | Some c \<Rightarrow> Some (Wgpolicyk8sV1alpha2Client_restClient c))"

section \<open>The clientset\<close>

definition setDiscoveryDefaults :: "'s client_env \<Rightarrow> rest_config \<Rightarrow> rest_config" where
  "setDiscoveryDefaults env config =
     config\<lparr>cfAPIPath := [], cfGroupVersion := None,
       cfTimeout := (if cfTimeout config = 0 then 32000000000 else cfTimeout config),
       cfBurst := (if cfBurst config = 0 \<and> cfQPS config < 100 then 100 else cfBurst config), cfSerializer := True,
       cfUserAgent := (if length (cfUserAgent config) = 0 then ceUserAgent env else cfUserAgent config)\<rparr>"

definition NewDiscoveryClientForConfig :: "'s client_env \<Rightarrow> rest_config \<Rightarrow> nat \<Rightarrow> (go_error + 's rest_client) \<times> nat" where
  "NewDiscoveryClientForConfig env inConfig n =
     (let config = setDiscoveryDefaults env inConfig in
      case HTTPClientFor env config of
        Inl err \<Rightarrow> (Inl err, n)
      | Inr timeout \<Rightarrow>
          rest_client_with env config (case cfGroupVersion config of Some gv \<Rightarrow> gv | None \<Rightarrow> (''meta.k8s.io'', ''v1'')) timeout n)"

record 's Clientset =
  csDiscovery :: "'s rest_client"
  csPolicyV1beta1 :: "'s PolicyV1beta1Client"
  csWgpolicyk8sV1alpha2 :: "'s Wgpolicyk8sV1alpha2Client"

definition clientset_NewForConfig :: "'s client_env \<Rightarrow> rest_config \<Rightarrow> nat \<Rightarrow> (go_error + 's Clientset) \<times> nat" where
  "clientset_NewForConfig env c n =
     (let new_limiter = (cfRateLimiter c = None \<and> cfQPS c > 0) in
      if new_limiter \<and> cfBurst c \<le> 0
      then (Inl (Errorf ''burst is required to be greater than 0 when RateLimiter is not set and QPS is set to greater than 0''), n)
      else let (config, n1) = (if new_limiter then (c\<lparr>cfRateLimiter := Some (TokenBucket n (cfQPS c) (cfBurst c))\<rparr>, Suc n) else (c, n))
           in case policy_NewForConfig env config n1 of
                (Inl err, n2) \<Rightarrow> (Inl err, n2)
              | (Inr policy, n2) \<Rightarrow>
                  (case report_NewForConfig env config n2 of
                     (Inl err, n3) \<Rightarrow> (Inl err, n3)
                   | (Inr report, n3) \<Rightarrow>
                       (case NewDiscoveryClientForConfig env config n3 of
                          (Inl err, n4) \<Rightarrow> (Inl err, n4)
                        | (Inr discovery, n4) \<Rightarrow>
                            (Inr \<lparr>csDiscovery = discovery, csPolicyV1beta1 = policy, csWgpolicyk8sV1alpha2 = report\<rparr>, n4))))"

definition clientset_NewForConfigOrDie :: "'s client_env \<Rightarrow> rest_config \<Rightarrow> nat \<Rightarrow> (string + 's Clientset) \<times> nat" where
  "clientset_NewForConfigOrDie env c n =
     (case policy_NewForConfigOrDie env c n of
        (Inl err, n2) \<Rightarrow> (Inl err, n2)
      | (Inr policy, n2) \<Rightarrow>
          (case report_NewForConfigOrDie env c n2 of
             (Inl err, n3) \<Rightarrow> (Inl err, n3)
           | (Inr report, n3) \<Rightarrow>
               (case NewDiscoveryClientForConfig env c n3 of
                  (Inl err, n4) \<Rightarrow> (Inl (err_text err), n4)
                | (Inr discovery, n4) \<Rightarrow>
                    (Inr \<lparr>csDiscovery = discovery, csPolicyV1beta1 = policy, csWgpolicyk8sV1alpha2 = report\<rparr>, n4))))"

definition clientset_New :: "'s rest_client \<Rightarrow> 's Clientset" where
  "clientset_New c = \<lparr>csDiscovery = c, csPolicyV1beta1 = policy_New c, csWgpolicyk8sV1alpha2 = report_New c\<rparr>"

section \<open>The resource definitions of the chart (chart/crds/crds.yaml)\<close>

record crd =
  crdGroup :: string
  crdVersion :: string
  crdKind :: string
  crdPlural :: string
  crdNamespaced :: bool
  crdStatus :: bool \<comment> \<open>whether it has the subresource \<open>status\<close>\<close>

definition crd_JsPolicy :: crd where
  "crd_JsPolicy = \<lparr>crdGroup = ''policy.jspolicy.com'', crdVersion = ''v1beta1'', crdKind = ''JsPolicy'', crdPlural = ''jspolicies'',
     crdNamespaced = False, crdStatus = True\<rparr>"

definition crd_JsPolicyViolations :: crd where
  "crd_JsPolicyViolations = \<lparr>crdGroup = ''policy.jspolicy.com'', crdVersion = ''v1beta1'', crdKind = ''JsPolicyViolations'',
     crdPlural = ''jspolicyviolations'', crdNamespaced = False, crdStatus = True\<rparr>"

definition crd_JsPolicyBundle :: crd where
  "crd_JsPolicyBundle = \<lparr>crdGroup = ''policy.jspolicy.com'', crdVersion = ''v1beta1'', crdKind = ''JsPolicyBundle'',
     crdPlural = ''jspolicybundles'', crdNamespaced = False, crdStatus = True\<rparr>"

definition crd_PolicyReport :: crd where
  "crd_PolicyReport = \<lparr>crdGroup = ''wgpolicyk8s.io'', crdVersion = ''v1alpha2'', crdKind = ''PolicyReport'',
     crdPlural = ''policyreports'', crdNamespaced = True, crdStatus = False\<rparr>"

definition crd_ClusterPolicyReport :: crd where
  "crd_ClusterPolicyReport = \<lparr>crdGroup = ''wgpolicyk8s.io'', crdVersion = ''v1alpha2'', crdKind = ''ClusterPolicyReport'',
     crdPlural = ''clusterpolicyreports'', crdNamespaced = False, crdStatus = False\<rparr>"

definition crds :: "crd list" where
  "crds = [crd_JsPolicy, crd_JsPolicyViolations, crd_JsPolicyBundle, crd_PolicyReport, crd_ClusterPolicyReport]"

text \<open>
  The paths that the API server serves for a definition: the resource, an object of it and the status of one, in a namespace
  if it has them; the objects of all namespaces can be listed.
\<close>

definition object_path :: "crd \<Rightarrow> string list \<Rightarrow> bool" where
  "object_path d rest \<longleftrightarrow> rest = [] \<or> (\<exists>name. rest = [name]) \<or> (crdStatus d \<and> (\<exists>name. rest = [name, ''status'']))"

definition serves :: "crd \<Rightarrow> string list \<Rightarrow> bool" where
  "serves d ss \<longleftrightarrow> take 3 ss = [''apis'', crdGroup d, crdVersion d] \<and>
     (let rest = drop 3 ss in
      if crdNamespaced d
      then rest = [crdPlural d] \<or> (length rest \<ge> 3 \<and> hd rest = ''namespaces'' \<and> rest ! 2 = crdPlural d \<and> object_path d (drop 3 rest))
      else rest \<noteq> [] \<and> hd rest = crdPlural d \<and> object_path d (tl rest))"

definition served :: "string list \<Rightarrow> bool" where
  "served ss \<longleftrightarrow> (\<exists>d\<in>set crds. serves d ss)"

section \<open>All methods of the clientset\<close>

datatype typed_resource =
  JsPolicies | JsPolicyBundles | JsPolicyViolationses | PolicyReports string | ClusterPolicyReports

text \<open>\<open>cs.PolicyV1beta1().JsPolicies()\<close> and so on; \<open>None\<close> is a call that the client of a resource does not have.\<close>

fun clientset_call :: "'s Clientset \<Rightarrow> typed_resource \<Rightarrow> 's ctx \<Rightarrow> typed_call \<Rightarrow> 's net \<Rightarrow> 's net option" where
  "clientset_call cs JsPolicies = jsPolicies_call (newJsPolicies (csPolicyV1beta1 cs))"
| "clientset_call cs JsPolicyBundles = jsPolicyBundles_call (newJsPolicyBundles (csPolicyV1beta1 cs))"
| "clientset_call cs JsPolicyViolationses = jsPolicyViolationses_call (newJsPolicyViolationses (csPolicyV1beta1 cs))"
| "clientset_call cs (PolicyReports namespace) = policyReports_call (newPolicyReports (csWgpolicyk8sV1alpha2 cs) namespace)"
| "clientset_call cs ClusterPolicyReports = clusterPolicyReports_call (newClusterPolicyReports (csWgpolicyk8sV1alpha2 cs))"

text \<open>What a call is about, from its kind alone: the segments before the resource, the client and the target.\<close>

fun group_segments :: "typed_resource \<Rightarrow> string list" where
  "group_segments (PolicyReports _) = [''apis'', ''wgpolicyk8s.io'', ''v1alpha2'']"
| "group_segments ClusterPolicyReports = [''apis'', ''wgpolicyk8s.io'', ''v1alpha2'']"
| "group_segments _ = [''apis'', ''policy.jspolicy.com'', ''v1beta1'']"

fun client_of :: "'s Clientset \<Rightarrow> typed_resource \<Rightarrow> 's rest_client" where
  "client_of cs (PolicyReports _) = Wgpolicyk8sV1alpha2Client_restClient (csWgpolicyk8sV1alpha2 cs)"
| "client_of cs ClusterPolicyReports = Wgpolicyk8sV1alpha2Client_restClient (csWgpolicyk8sV1alpha2 cs)"
| "client_of cs _ = PolicyV1beta1Client_restClient (csPolicyV1beta1 cs)"

fun call_target :: "typed_resource \<Rightarrow> typed_call \<Rightarrow> target" where
  "call_target JsPolicies call = target_of None ''jspolicies'' call"
| "call_target JsPolicyBundles call = target_of None ''jspolicybundles'' call"
| "call_target JsPolicyViolationses call = target_of None ''jspolicyviolationses'' call"
| "call_target (PolicyReports namespace) call = target_of (Some namespace) ''policyreports'' call"
| "call_target ClusterPolicyReports call = target_of None ''clusterpolicyreports'' call"

lemma clientset_call_reaches:
  assumes "clientset_call cs res ctx call w = Some w'" and "rqPathPrefix (NewRequest (client_of cs res)) = abs_path pre" and "plain_segments pre"
  shows "reaches_target (client_of cs res) pre (call_target res call) w w'"
  using assms jsPolicies_reaches jsPolicyBundles_reaches jsPolicyViolationses_reaches policyReports_reaches clusterPolicyReports_reaches
  by (cases res) (fastforce simp: newJsPolicies_def newJsPolicyBundles_def newJsPolicyViolationses_def newPolicyReports_def
    newClusterPolicyReports_def)+

text \<open>The path under which the client of a group sends, from the path of the base URL.\<close>

lemma NewRequest_prefix:
  assumes "rcBase c = Some base" and "dot_free (pieces (buPath base))" and "rcVersionedAPIPath c = abs_path ss" and "plain_segments ss"
  shows "rqPathPrefix (NewRequest c) = abs_path (pieces (buPath base) @ ss)" and "plain_segments (pieces (buPath base) @ ss)"
proof -
  have "path_JoinAll [''/'', buPath base, abs_path ss] = abs_path (pieces (buPath base) @ ss)"
  proof -
    have "dot_free ss" using assms(4) by (simp add: plain_segments_def)
    then have "path_JoinAll [abs_path [], buPath base, abs_path ss] = abs_path (pieces (buPath base) @ ss)"
      using path_JoinAll_under [of "[]" "[buPath base, abs_path ss]"] assms(2,4) by simp
    then show ?thesis by (simp only: abs_path_def join_with.simps append_Nil2)
  qed
  then show "rqPathPrefix (NewRequest c) = abs_path (pieces (buPath base) @ ss)"
    by (simp add: NewRequest_def SetHeader_def Let_def assms(1,3))
  show "plain_segments (pieces (buPath base) @ ss)" using plain_pieces [OF assms(2)] assms(4) by simp
qed

lemma pieces_slash: "pieces (p @ ''/'') = pieces p"
  using split_on_append [of "CHR ''/''" p "[]"] by (simp add: pieces_def)

lemma map_sum_Inr: "map_sum f g x = Inr y \<longleftrightarrow> (\<exists>z. x = Inr z \<and> y = g z)"
  by (cases x) auto

text \<open>What a client for a group has from its configuration.\<close>

lemma RESTClientFor_fields:
  assumes "RESTClientFor env config n = (Inr c, n')" and "cfGroupVersion config = Some gv"
  obtains base base0 where "rcBase c = Some base" "defaultServerUrlFor env config = Inr (base0, DefaultVersionedAPIPath (cfAPIPath config) gv)"
    "pieces (buPath base) = pieces (buPath base0)" "rcVersionedAPIPath c = DefaultVersionedAPIPath (cfAPIPath config) gv"
    "(rcRateLimiter c, n') = limiter_for config n"
proof -
  obtain base0 v t where u: "defaultServerUrlFor env config = Inr (base0, v)" "HTTPClientFor env config = Inr t"
    "rest_client_with env config gv t n = (Inr c, n')"
    using assms by (auto simp: RESTClientFor_def split: if_splits sum.splits prod.splits)
  obtain l where l: "limiter_for config n = (l, n')"
    and c: "c = NewRESTClient base0 v config gv l t (ceCodecs env config)"
    using u(3) by (auto simp: rest_client_with_def u(1) split: if_splits prod.splits)
  have v: "v = DefaultVersionedAPIPath (cfAPIPath config) gv"
    using u(1) assms(2) by (auto simp: defaultServerUrlFor_def DefaultServerURL_def Let_def map_sum_Inr split: if_splits sum.splits)
  show thesis
    by (rule that [of "if has_suffix (buPath base0) ''/'' then base0 else base0\<lparr>buPath := buPath base0 @ ''/''\<rparr>" base0])
      (auto simp: c NewRESTClient_def Let_def u(1) v l pieces_slash)
qed

lemma api_path: "plain_segments [a, b, v] \<Longrightarrow> DefaultVersionedAPIPath (''/'' @ a) (b, v) = abs_path [a, b, v]"
proof -
  assume p: "plain_segments [a, b, v]"
  have "path_JoinAll [abs_path [], ''/'' @ a] = abs_path [a]"
    using path_JoinAll_under [of "[]" "[''/'' @ a]"] p by (simp add: pieces_segment)
  moreover have "path_JoinAll [abs_path [a], b, v] = abs_path [a, b, v]"
    using path_JoinAll_under [of "[a]" "[b, v]"] p by (simp add: pieces_segment)
  ultimately show ?thesis using p by (simp add: DefaultVersionedAPIPath_def abs_path_def)
qed

lemma RESTClientFor_prefix:
  assumes "RESTClientFor env config n = (Inr c, n')" and "cfGroupVersion config = Some (g, v)" and "cfAPIPath config = ''/'' @ a"
    and "plain_segments [a, g, v]" and "defaultServerUrlFor env config = Inr (base, x)" and "dot_free (pieces (buPath base))"
  shows "rqPathPrefix (NewRequest c) = abs_path (pieces (buPath base) @ [a, g, v])" and "plain_segments (pieces (buPath base) @ [a, g, v])"
    and "(rcRateLimiter c, n') = limiter_for config n"
proof -
  obtain b b0 where b: "rcBase c = Some b" "defaultServerUrlFor env config = Inr (b0, DefaultVersionedAPIPath (cfAPIPath config) (g, v))"
    "pieces (buPath b) = pieces (buPath b0)" "rcVersionedAPIPath c = DefaultVersionedAPIPath (cfAPIPath config) (g, v)"
    "(rcRateLimiter c, n') = limiter_for config n" by (rule RESTClientFor_fields [OF assms(1,2)])
  have "b0 = base" using b(2) assms(5) by simp
  then have base: "pieces (buPath b) = pieces (buPath base)" using b(3) by simp
  have v: "rcVersionedAPIPath c = abs_path [a, g, v]" unfolding b(4) assms(3) by (rule api_path [OF assms(4)])
  show "rqPathPrefix (NewRequest c) = abs_path (pieces (buPath base) @ [a, g, v])" and "plain_segments (pieces (buPath base) @ [a, g, v])"
    using NewRequest_prefix [OF b(1) _ v assms(4)] assms(6) unfolding base by blast+
  show "(rcRateLimiter c, n') = limiter_for config n" by (rule b(5))
qed

lemma apfst_Inr: "apfst (map_sum id f) p = (Inr y, n) \<longleftrightarrow> (\<exists>z. p = (Inr z, n) \<and> y = f z)"
  by (cases p) (auto simp: map_sum_Inr)

lemma policy_NewForConfig_client:
  "policy_NewForConfig env config n = (Inr c, n') \<longleftrightarrow>
   RESTClientFor env (policy_setConfigDefaults env config) n = (Inr (PolicyV1beta1Client_restClient c), n')"
  by (cases c) (auto simp: policy_NewForConfig_def apfst_Inr)

lemma report_NewForConfig_client:
  "report_NewForConfig env config n = (Inr c, n') \<longleftrightarrow>
   RESTClientFor env (report_setConfigDefaults env config) n = (Inr (Wgpolicyk8sV1alpha2Client_restClient c), n')"
  by (cases c) (auto simp: report_NewForConfig_def apfst_Inr)

text \<open>The defaults of a group change neither the server nor the rate limiter.\<close>

lemma defaults_fields:
  "cfGroupVersion (policy_setConfigDefaults env config) = Some (''policy.jspolicy.com'', ''v1beta1'')"
  "cfGroupVersion (report_setConfigDefaults env config) = Some (''wgpolicyk8s.io'', ''v1alpha2'')"
  "cfAPIPath (policy_setConfigDefaults env config) = ''/'' @ ''apis''" "cfAPIPath (report_setConfigDefaults env config) = ''/'' @ ''apis''"
  "cfRateLimiter (policy_setConfigDefaults env config) = cfRateLimiter config"
  "cfRateLimiter (report_setConfigDefaults env config) = cfRateLimiter config"
  "cfQPS (policy_setConfigDefaults env config) = cfQPS config" "cfQPS (report_setConfigDefaults env config) = cfQPS config"
  "cfBurst (policy_setConfigDefaults env config) = cfBurst config" "cfBurst (report_setConfigDefaults env config) = cfBurst config"
  by (simp_all add: policy_setConfigDefaults_def report_setConfigDefaults_def)

lemma limiter_for_defaults:
  "limiter_for (policy_setConfigDefaults env config) n = limiter_for config n"
  "limiter_for (report_setConfigDefaults env config) n = limiter_for config n"
  by (simp_all only: limiter_for_def defaults_fields)

text \<open>The URL of the server that a configuration is for, whatever the API path.\<close>

definition server_URL :: "'s client_env \<Rightarrow> rest_config \<Rightarrow> go_error + base_url" where
  "server_URL env config = map_sum id fst (defaultServerUrlFor env config)"

lemma drop_path [simp]: "map_sum id fst (map_sum id (\<lambda>u. (u, x)) y) = y"
  by (cases y) simp_all

lemma server_URL_DefaultServerURL:
  "map_sum id fst (DefaultServerURL env host path gv tls) = map_sum id fst (DefaultServerURL env host path' gv' tls)"
  by (simp add: DefaultServerURL_def Let_def)

lemma server_URL_cong:
  "cfHost c = cfHost d \<Longrightarrow> cfHasCA c = cfHasCA d \<Longrightarrow> cfHasCert c = cfHasCert d \<Longrightarrow> cfInsecure c = cfInsecure d \<Longrightarrow>
   server_URL env c = server_URL env d"
  unfolding server_URL_def defaultServerUrlFor_def Let_def by (simp only: server_URL_DefaultServerURL [of env _ "cfAPIPath c"])

lemma server_URL_defaults:
  "server_URL env (policy_setConfigDefaults env config) = server_URL env config"
  "server_URL env (report_setConfigDefaults env config) = server_URL env config"
  "server_URL env (config\<lparr>cfRateLimiter := l\<rparr>) = server_URL env config"
  by (rule server_URL_cong; simp add: policy_setConfigDefaults_def report_setConfigDefaults_def)+

lemma server_URL_Inr: "server_URL env config = Inr base \<Longrightarrow> \<exists>x. defaultServerUrlFor env config = Inr (base, x)"
  by (auto simp: server_URL_def map_sum_Inr)

text \<open>What \<open>NewForConfig\<close> gives: clients from one configuration, which has one rate limiter if \<open>QPS\<close> is set.\<close>

definition effective_config :: "rest_config \<Rightarrow> nat \<Rightarrow> rest_config \<times> nat" where
  "effective_config c n =
     (if cfRateLimiter c = None \<and> cfQPS c > 0
      then (c\<lparr>cfRateLimiter := Some (TokenBucket n (cfQPS c) (cfBurst c))\<rparr>, Suc n) else (c, n))"

lemma clientset_NewForConfigE:
  assumes "clientset_NewForConfig env c n = (Inr cs, n')"
  obtains config n1 n2 n3 where "effective_config c n = (config, n1)" "\<not> (cfRateLimiter c = None \<and> cfQPS c > 0 \<and> cfBurst c \<le> 0)"
    "policy_NewForConfig env config n1 = (Inr (csPolicyV1beta1 cs), n2)"
    "report_NewForConfig env config n2 = (Inr (csWgpolicyk8sV1alpha2 cs), n3)"
    "NewDiscoveryClientForConfig env config n3 = (Inr (csDiscovery cs), n')"
proof -
  obtain config n1 where e: "effective_config c n = (config, n1)" by fastforce
  have "\<not> (cfRateLimiter c = None \<and> cfQPS c > 0 \<and> cfBurst c \<le> 0)"
    using assms by (auto simp: clientset_NewForConfig_def)
  moreover have "(case policy_NewForConfig env config n1 of
      (Inl err, n2) \<Rightarrow> (Inl err, n2)
    | (Inr policy, n2) \<Rightarrow>
        (case report_NewForConfig env config n2 of
           (Inl err, n3) \<Rightarrow> (Inl err, n3)
         | (Inr report, n3) \<Rightarrow>
             (case NewDiscoveryClientForConfig env config n3 of
                (Inl err, n4) \<Rightarrow> (Inl err, n4)
              | (Inr discovery, n4) \<Rightarrow>
                  (Inr \<lparr>csDiscovery = discovery, csPolicyV1beta1 = policy, csWgpolicyk8sV1alpha2 = report\<rparr>, n4)))) = (Inr cs, n')"
    using assms e calculation unfolding clientset_NewForConfig_def effective_config_def by (auto simp: Let_def split: if_splits)
  ultimately show thesis using that e by (auto split: prod.splits sum.splits)
qed

lemma effective_server_URL: "effective_config c n = (config, n1) \<Longrightarrow> server_URL env config = server_URL env c"
  by (auto simp: effective_config_def server_URL_defaults split: if_splits)

lemma clientset_prefix:
  assumes "clientset_NewForConfig env c n = (Inr cs, n')" and "server_URL env c = Inr base" and "dot_free (pieces (buPath base))"
  shows "rqPathPrefix (NewRequest (client_of cs res)) = abs_path (pieces (buPath base) @ group_segments res)"
    and "plain_segments (pieces (buPath base) @ group_segments res)"
proof -
  obtain config n1 n2 n3 where e: "effective_config c n = (config, n1)"
    and p: "policy_NewForConfig env config n1 = (Inr (csPolicyV1beta1 cs), n2)"
    and r: "report_NewForConfig env config n2 = (Inr (csWgpolicyk8sV1alpha2 cs), n3)"
    by (rule clientset_NewForConfigE [OF assms(1)])
  have url: "server_URL env config = Inr base" using effective_server_URL [OF e, of env] assms(2) by simp
  obtain x y where x: "defaultServerUrlFor env (policy_setConfigDefaults env config) = Inr (base, x)"
    and y: "defaultServerUrlFor env (report_setConfigDefaults env config) = Inr (base, y)"
    using server_URL_Inr server_URL_defaults(1,2) url by metis
  note policy = RESTClientFor_prefix [OF p [unfolded policy_NewForConfig_client] defaults_fields(1,3) _ x assms(3)]
    and report = RESTClientFor_prefix [OF r [unfolded report_NewForConfig_client] defaults_fields(2,4) _ y assms(3)]
  show "rqPathPrefix (NewRequest (client_of cs res)) = abs_path (pieces (buPath base) @ group_segments res)"
    using policy(1) report(1) by (cases res) auto
  show "plain_segments (pieces (buPath base) @ group_segments res)" using policy(2) report(2) by (cases res) auto
qed

lemma clientset_reaches:
  assumes "clientset_NewForConfig env c n = (Inr cs, n')" and "server_URL env c = Inr base" and "dot_free (pieces (buPath base))"
    and "clientset_call cs res ctx call w = Some w'"
  shows "reaches_target (client_of cs res) (pieces (buPath base) @ group_segments res) (call_target res call) w w'"
  by (rule clientset_call_reaches [OF assms(4) clientset_prefix [OF assms(1-3)]])

text \<open>
  C38: a call of any method of any of the five clients, of a clientset made from a configuration, sends requests to
  one place only: the server of the configuration, with the verb of the method, under the API group and version of the kind, in the
  namespace of the client, and for the object and subresources named. A name, namespace or subresource that would be
  more than one segment of the path, or step out of it, is refused before anything is sent, as is an empty name. The request is
  sent at most eleven times: again after a status 429 or 5xx with a Retry-After, and after a broken connection only if it is a
  GET, so that a write whose fate is unknown is not repeated.
\<close>

theorem typed_calls_reach_their_target:
  assumes "clientset_NewForConfig env c n = (Inr cs, n')" and "server_URL env c = Inr base" and "dot_free (pieces (buPath base))"
    and "clientset_call cs res ctx call w = Some w'"
  shows "\<exists>q as. netSent w' = netSent w @ map (Pair q) as \<and> length as \<le> 11 \<and>
    (as \<noteq> [] \<longrightarrow> target_ok (call_target res call) \<and> hqMethod q = tgVerb (call_target res call) \<and>
       ruPath (hqURL q) = abs_path (pieces (buPath base) @ group_segments res @ target_segments (call_target res call))) \<and>
    (target_ok (call_target res call) \<and> codecs_ok (client_of cs res) \<and> rcRateLimiter (client_of cs res) = None \<longrightarrow> as \<noteq> []) \<and>
    (\<forall>a\<in>set (butlast as). case a of
        Inl err \<Rightarrow> tgVerb (call_target res call) = ''GET'' \<and> (teConnectionReset err \<or> teProbableEOF err \<or> teTimeout err)
      | Inr resp \<Rightarrow> (rsStatus resp = 429 \<or> rsStatus resp \<ge> 500) \<and> retryAfterSeconds resp \<noteq> None)"
  using clientset_reaches [OF assms] unfolding reaches_target_def by (auto simp only: append_assoc)

text \<open>Which of these places the server serves.\<close>

definition whole_object :: "typed_resource \<Rightarrow> typed_call \<Rightarrow> bool" where
  "whole_object res call \<longleftrightarrow> (case call of PatchCall _ _ _ _ _ subs \<Rightarrow> filter (\<lambda>s. s \<noteq> []) subs = [] | _ \<Rightarrow> True) \<and>
     (res = PolicyReports [] \<longrightarrow> tgName (call_target res call) = None)"

lemmas crd_defs = crds_def crd_JsPolicy_def crd_JsPolicyViolations_def crd_JsPolicyBundle_def crd_PolicyReport_def
  crd_ClusterPolicyReport_def

lemma call_served:
  assumes "clientset_call cs res ctx call w = Some w'" and "whole_object res call"
  shows "served (group_segments res @ target_segments (call_target res call)) \<longleftrightarrow> res \<noteq> JsPolicyViolationses"
  using assms
  by (cases res; cases call)
    (auto simp: served_def crd_defs serves_def object_path_def target_segments_def whole_object_def split: if_splits)

text \<open>
  C40: the requests of four of the five clients arrive at resources that the definitions in the chart make the server serve;
  those of the client for violations never do. The generator has made \<open>jspolicyviolationses\<close> of the kind, and the
  definition says \<open>jspolicyviolations\<close>, so that whatever is asked of that client, none of its requests is for the violations
  that the server keeps. A request is sent, in both cases, if nothing in the call is refused.
\<close>

theorem violations_client_is_not_served:
  assumes "clientset_NewForConfig env c n = (Inr cs, n')" and "server_URL env c = Inr base" and "dot_free (pieces (buPath base))"
    and "clientset_call cs res ctx call w = Some w'" and "whole_object res call"
  shows "\<exists>sent. netSent w' = netSent w @ sent \<and>
    (\<forall>(q, a)\<in>set sent. \<exists>ss. ruPath (hqURL q) = abs_path (pieces (buPath base) @ ss) \<and> (served ss \<longleftrightarrow> res \<noteq> JsPolicyViolationses)) \<and>
    (target_ok (call_target res call) \<and> codecs_ok (client_of cs res) \<and> rcRateLimiter (client_of cs res) = None \<longrightarrow> sent \<noteq> [])"
proof -
  obtain q as where "netSent w' = netSent w @ map (Pair q) as"
    "as \<noteq> [] \<longrightarrow> ruPath (hqURL q) = abs_path (pieces (buPath base) @ group_segments res @ target_segments (call_target res call))"
    "target_ok (call_target res call) \<and> codecs_ok (client_of cs res) \<and> rcRateLimiter (client_of cs res) = None \<longrightarrow> as \<noteq> []"
    using clientset_reaches [OF assms(1-4)] unfolding reaches_target_def by auto
  then show ?thesis using call_served [OF assms(4,5)] by (intro exI [of _ "map (Pair q) as"]) auto
qed

text \<open>The rate limiters of the clients: of the two groups, and of discovery.\<close>

definition limiters :: "'s Clientset \<Rightarrow> limiter option list" where
  "limiters cs = [rcRateLimiter (PolicyV1beta1Client_restClient (csPolicyV1beta1 cs)),
     rcRateLimiter (Wgpolicyk8sV1alpha2Client_restClient (csWgpolicyk8sV1alpha2 cs)), rcRateLimiter (csDiscovery cs)]"

lemma rest_client_with_limiter:
  "rest_client_with env config gv t n = (Inr c, n') \<Longrightarrow> (rcRateLimiter c, n') = limiter_for config n"
  by (auto simp: rest_client_with_def NewRESTClient_def Let_def split: if_splits sum.splits prod.splits)

lemma discovery_limiter:
  "NewDiscoveryClientForConfig env c n = (Inr d, n') \<Longrightarrow> (rcRateLimiter d, n') = limiter_for (setDiscoveryDefaults env c) n"
  using rest_client_with_limiter by (fastforce simp: NewDiscoveryClientForConfig_def Let_def split: sum.splits)

lemma group_limiter:
  "policy_NewForConfig env c n = (Inr p, n') \<Longrightarrow> (rcRateLimiter (PolicyV1beta1Client_restClient p), n') = limiter_for c n"
  "report_NewForConfig env c n = (Inr r, n') \<Longrightarrow> (rcRateLimiter (Wgpolicyk8sV1alpha2Client_restClient r), n') = limiter_for c n"
  unfolding policy_NewForConfig_client report_NewForConfig_client
  using RESTClientFor_fields defaults_fields(1,2) limiter_for_defaults by metis+

lemma configured_limiter: "cfRateLimiter c = Some l \<Longrightarrow> limiter_for c n = (Some l, n)"
  by (simp add: limiter_for_def)

lemma discovery_defaults_fields:
  "cfRateLimiter (setDiscoveryDefaults env c) = cfRateLimiter c" "cfQPS (setDiscoveryDefaults env c) = cfQPS c"
  "cfBurst (setDiscoveryDefaults env c) = (if cfBurst c = 0 \<and> cfQPS c < 100 then 100 else cfBurst c)"
  by (simp_all add: setDiscoveryDefaults_def)

lemma NewForConfigOrDieE:
  assumes "clientset_NewForConfigOrDie env c n = (Inr cs, n')"
  obtains n1 n2 where "policy_NewForConfig env c n = (Inr (csPolicyV1beta1 cs), n1)"
    "report_NewForConfig env c n1 = (Inr (csWgpolicyk8sV1alpha2 cs), n2)"
    "NewDiscoveryClientForConfig env c n2 = (Inr (csDiscovery cs), n')"
proof -
  have or_die: "apfst (map_sum err_text id) p = (Inr x, k) \<longleftrightarrow> p = (Inr x, k)" for p :: "(go_error + 'b) \<times> nat" and x k
    by (cases p) (auto simp: map_sum_Inr)
  show thesis using that assms
    unfolding clientset_NewForConfigOrDie_def policy_NewForConfigOrDie_def report_NewForConfigOrDie_def
    by (auto simp: or_die split: prod.splits sum.splits)
qed

text \<open>
  The rate that a configuration sets holds for a clientset of \<open>NewForConfig\<close> as a whole: without a rate limiter in
  the configuration and with a positive \<open>QPS\<close>, the clients of both groups and of discovery draw from one bucket of
  that rate and burst, and a burst that is not positive is an error. \<open>NewForConfigOrDie\<close> does neither: its three
  clients have a bucket each, so that together they may send at three times the rate, and a burst of 0 becomes a default instead of
  a panic.
\<close>

theorem clients_share_one_rate_limit:
  assumes "cfRateLimiter c = None" and "cfQPS c > 0"
  shows "(cfBurst c \<le> 0 \<longrightarrow> isl (fst (clientset_NewForConfig env c n))) \<and>
    (clientset_NewForConfig env c n = (Inr cs, n') \<longrightarrow>
       limiters cs = replicate 3 (Some (TokenBucket n (cfQPS c) (cfBurst c)))) \<and>
    (clientset_NewForConfigOrDie env c n = (Inr cs, n') \<longrightarrow>
       (let burst = (if cfBurst c = 0 then 10 else cfBurst c);
            discovery_burst = (if cfBurst c = 0 then (if cfQPS c < 100 then 100 else 10) else cfBurst c)
        in limiters cs = [Some (TokenBucket n (cfQPS c) burst), Some (TokenBucket (n + 1) (cfQPS c) burst),
             Some (TokenBucket (n + 2) (cfQPS c) discovery_burst)]))"
proof (intro conjI impI)
  show "isl (fst (clientset_NewForConfig env c n))" if "cfBurst c \<le> 0"
    using assms that by (simp add: clientset_NewForConfig_def)
next
  assume "clientset_NewForConfig env c n = (Inr cs, n')"
  then obtain config n1 n2 n3 where e: "effective_config c n = (config, n1)"
    and p: "policy_NewForConfig env config n1 = (Inr (csPolicyV1beta1 cs), n2)"
    and r: "report_NewForConfig env config n2 = (Inr (csWgpolicyk8sV1alpha2 cs), n3)"
    and d: "NewDiscoveryClientForConfig env config n3 = (Inr (csDiscovery cs), n')" by (rule clientset_NewForConfigE)
  have l: "cfRateLimiter config = Some (TokenBucket n (cfQPS c) (cfBurst c))"
    "cfRateLimiter (setDiscoveryDefaults env config) = Some (TokenBucket n (cfQPS c) (cfBurst c))"
    using e assms by (auto simp: effective_config_def discovery_defaults_fields)
  show "limiters cs = replicate 3 (Some (TokenBucket n (cfQPS c) (cfBurst c)))"
    using group_limiter(1) [OF p] group_limiter(2) [OF r] discovery_limiter [OF d]
    by (simp add: limiters_def configured_limiter [OF l(1)] configured_limiter [OF l(2)] numeral_3_eq_3)
next
  assume "clientset_NewForConfigOrDie env c n = (Inr cs, n')"
  then obtain n1 n2 where p: "policy_NewForConfig env c n = (Inr (csPolicyV1beta1 cs), n1)"
    and r: "report_NewForConfig env c n1 = (Inr (csWgpolicyk8sV1alpha2 cs), n2)"
    and d: "NewDiscoveryClientForConfig env c n2 = (Inr (csDiscovery cs), n')" by (rule NewForConfigOrDieE)
  show "let burst = (if cfBurst c = 0 then 10 else cfBurst c);
          discovery_burst = (if cfBurst c = 0 then (if cfQPS c < 100 then 100 else 10) else cfBurst c)
      in limiters cs = [Some (TokenBucket n (cfQPS c) burst), Some (TokenBucket (n + 1) (cfQPS c) burst),
           Some (TokenBucket (n + 2) (cfQPS c) discovery_burst)]"
    using group_limiter(1) [OF p] group_limiter(2) [OF r] discovery_limiter [OF d] assms
    by (simp add: limiters_def limiter_for_def discovery_defaults_fields Let_def)
qed

section \<open>A server with a path\<close>

definition example_codecs :: "unit rest_client" where
  "example_codecs = \<lparr>rcBase = None, rcVersionedAPIPath = [], rcContentType = [], rcAcceptContentTypes = [], rcGroup = [],
     rcVersion = [], rcTimeout = 0, rcEncodeParameters = (\<lambda>_. Inr []), rcEncode = (\<lambda>_. Inr ''{}''), rcParseMediaType = Inr,
     rcDecoder = (\<lambda>_. Inr (\<lambda>_. Inl (Errorf ''not an object''))), rcStreamDecoder = (\<lambda>_. None), rcURLString = ruPath,
     rcRateLimiter = None, rcWait = (\<lambda>_ _ s. (None, s)), rcWithTimeout = (\<lambda>_ ctx. ctx),
     rcSend = (\<lambda>_ _ s. (Inr \<lparr>rsStatus = 404, rsHeaders = [], rsBody = Inr ''404 page not found''\<rparr>, s))\<rparr>"

definition example_client_env :: "unit client_env" where
  "example_client_env = \<lparr>ceParse = (\<lambda>_. Inr \<lparr>buScheme = ''https'', buHost = ''h'', buPath = ''/k8s''\<rparr>), ceTransportFor = (\<lambda>_. None),
     ceDefaultTransport = (\<lambda>_. True), ceUserAgent = ''jspolicy'', ceCodecs = (\<lambda>_. example_codecs)\<rparr>"

definition example_config :: "rat \<Rightarrow> int \<Rightarrow> rest_config" where
  "example_config qps burst = \<lparr>cfHost = ''https://h/k8s'', cfAPIPath = [], cfGroupVersion = None, cfSerializer = False,
     cfAcceptContentTypes = [], cfContentType = [], cfUserAgent = [], cfHasCA = True, cfHasCert = False, cfInsecure = False,
     cfRateLimiter = None, cfQPS = qps, cfBurst = burst, cfTimeout = 0\<rparr>"

lemma example_env [simp]:
  "ceCodecs example_client_env config = example_codecs" "ceTransportFor example_client_env config = None"
  "ceParse example_client_env host = Inr \<lparr>buScheme = ''https'', buHost = ''h'', buPath = ''/k8s''\<rparr>"
  by (simp_all add: example_client_env_def)

lemma example_URL:
  "defaultServerUrlFor example_client_env config =
     Inr (\<lparr>buScheme = ''https'', buHost = ''h'', buPath = ''/k8s''\<rparr>,
       DefaultVersionedAPIPath (cfAPIPath config) (case cfGroupVersion config of Some gv \<Rightarrow> gv | None \<Rightarrow> ([], [])))"
  by (simp add: defaultServerUrlFor_def DefaultServerURL_def Let_def)

lemma example_rest_client:
  assumes "cfSerializer config"
  shows "\<exists>c. rest_client_with example_client_env config gv t n = (Inr c, snd (limiter_for config n)) \<and>
    codecs_ok c \<and> rcRateLimiter c = fst (limiter_for config n)"
  using assms
  by (cases "limiter_for config n")
    (simp add: rest_client_with_def example_URL NewRESTClient_def Let_def codecs_ok_def example_codecs_def)

lemma example_HTTPClientFor: "\<exists>t. HTTPClientFor example_client_env config = Inr t"
  by (simp add: HTTPClientFor_def)

lemma example_group:
  "\<exists>c. policy_NewForConfig example_client_env config n = (Inr c, snd (limiter_for config n)) \<and>
     codecs_ok (PolicyV1beta1Client_restClient c) \<and> rcRateLimiter (PolicyV1beta1Client_restClient c) = fst (limiter_for config n)"
  "\<exists>c. report_NewForConfig example_client_env config n = (Inr c, snd (limiter_for config n)) \<and>
     codecs_ok (Wgpolicyk8sV1alpha2Client_restClient c) \<and>
     rcRateLimiter (Wgpolicyk8sV1alpha2Client_restClient c) = fst (limiter_for config n)"
proof -
  have client: "\<exists>c. RESTClientFor example_client_env config' n = (Inr c, snd (limiter_for config' n)) \<and> codecs_ok c \<and>
      rcRateLimiter c = fst (limiter_for config' n)" if "cfGroupVersion config' = Some gv" "cfSerializer config'" for config' gv
  proof -
    obtain t where "HTTPClientFor example_client_env config' = Inr t" using example_HTTPClientFor by blast
    then show ?thesis using example_rest_client [OF that(2), of gv t n] that by (simp add: RESTClientFor_def example_URL)
  qed
  have "cfSerializer (policy_setConfigDefaults env config)" "cfSerializer (report_setConfigDefaults env config)" for env :: "unit client_env"
    by (simp_all add: policy_setConfigDefaults_def report_setConfigDefaults_def)
  note ps = client [OF defaults_fields(1) this(1)] and rs = client [OF defaults_fields(2) this(2)]
  show "\<exists>c. policy_NewForConfig example_client_env config n = (Inr c, snd (limiter_for config n)) \<and>
     codecs_ok (PolicyV1beta1Client_restClient c) \<and> rcRateLimiter (PolicyV1beta1Client_restClient c) = fst (limiter_for config n)"
    using ps unfolding policy_NewForConfig_client limiter_for_defaults by (metis PolicyV1beta1Client.select_convs(1))
  show "\<exists>c. report_NewForConfig example_client_env config n = (Inr c, snd (limiter_for config n)) \<and>
     codecs_ok (Wgpolicyk8sV1alpha2Client_restClient c) \<and>
     rcRateLimiter (Wgpolicyk8sV1alpha2Client_restClient c) = fst (limiter_for config n)"
    using rs unfolding report_NewForConfig_client limiter_for_defaults by (metis Wgpolicyk8sV1alpha2Client.select_convs(1))
qed

lemma example_discovery: "\<exists>d. NewDiscoveryClientForConfig example_client_env config n =
    (Inr d, snd (limiter_for (setDiscoveryDefaults example_client_env config) n))"
proof -
  let ?config = "setDiscoveryDefaults example_client_env config"
  have s: "cfSerializer ?config" by (simp add: setDiscoveryDefaults_def)
  obtain t where t: "HTTPClientFor example_client_env ?config = Inr t" using example_HTTPClientFor by blast
  show ?thesis
    using example_rest_client [OF s, of "case cfGroupVersion ?config of Some gv \<Rightarrow> gv | None \<Rightarrow> (''meta.k8s.io'', ''v1'')" t n]
    unfolding NewDiscoveryClientForConfig_def Let_def t sum.case by blast
qed

text \<open>Such a clientset: with a bucket that is shared, and without any.\<close>

lemma example_clientset:
  assumes "burst > 0 \<or> qps \<le> 0"
  shows "\<exists>cs n'. clientset_NewForConfig example_client_env (example_config qps burst) 0 = (Inr cs, n') \<and>
    codecs_ok (client_of cs res) \<and> (qps < 0 \<longrightarrow> rcRateLimiter (client_of cs res) = None)"
proof -
  let ?c = "example_config qps burst"
  obtain config n1 where e: "effective_config ?c 0 = (config, n1)" by fastforce
  obtain p where p: "policy_NewForConfig example_client_env config n1 = (Inr p, snd (limiter_for config n1))"
    "codecs_ok (PolicyV1beta1Client_restClient p)" "rcRateLimiter (PolicyV1beta1Client_restClient p) = fst (limiter_for config n1)"
    using example_group(1) by blast
  let ?n2 = "snd (limiter_for config n1)"
  obtain r where r: "report_NewForConfig example_client_env config ?n2 = (Inr r, snd (limiter_for config ?n2))"
    "codecs_ok (Wgpolicyk8sV1alpha2Client_restClient r)" "rcRateLimiter (Wgpolicyk8sV1alpha2Client_restClient r) = fst (limiter_for config ?n2)"
    using example_group(2) by blast
  obtain d n' where d: "NewDiscoveryClientForConfig example_client_env config (snd (limiter_for config ?n2)) = (Inr d, n')"
    using example_discovery by blast
  have new: "clientset_NewForConfig example_client_env ?c 0 =
      (Inr \<lparr>csDiscovery = d, csPolicyV1beta1 = p, csWgpolicyk8sV1alpha2 = r\<rparr>, n')"
    using e assms p(1) r(1) d
    by (auto simp: clientset_NewForConfig_def effective_config_def example_config_def Let_def split: if_splits)
  have none: "fst (limiter_for config n) = None" if "qps < 0" for n
    using e that by (auto simp: effective_config_def example_config_def limiter_for_def split: if_splits)
  show ?thesis
    by (rule exI, rule exI, rule conjI [OF new], cases res) (use p(2,3) r(2,3) none in auto)
qed

lemma example_server_URL: "server_URL example_client_env config = Inr \<lparr>buScheme = ''https'', buHost = ''h'', buPath = ''/k8s''\<rparr>"
  by (simp add: server_URL_def example_URL)

theorem typed_calls_reach_their_target_witness:
  "\<exists>cs n' w' q as. clientset_NewForConfig example_client_env (example_config (- 1) 0) 0 = (Inr cs, n') \<and>
     clientset_call cs (PolicyReports ''default'') (\<lambda>_. None) (GetCall ''report'' []) \<lparr>netSent = [], netState = ()\<rparr> = Some w' \<and>
     netSent w' = map (Pair q) as \<and> as \<noteq> [] \<and> hqMethod q = ''GET'' \<and>
     ruPath (hqURL q) = ''/k8s/apis/wgpolicyk8s.io/v1alpha2/namespaces/default/policyreports/report''"
proof -
  let ?base = "\<lparr>buScheme = ''https'', buHost = ''h'', buPath = ''/k8s''\<rparr>" and ?res = "PolicyReports ''default''"
  let ?call = "GetCall ''report'' []" and ?w = "\<lparr>netSent = [], netState = ()\<rparr>"
  obtain cs n' where cs: "clientset_NewForConfig example_client_env (example_config (- 1) 0) 0 = (Inr cs, n')"
    "codecs_ok (client_of cs ?res)" "rcRateLimiter (client_of cs ?res) = None"
    using example_clientset [of 0 "- 1" ?res] by auto
  obtain w' where w': "clientset_call cs ?res (\<lambda>_. None) ?call ?w = Some w'" by simp
  have pieces: "pieces (buPath ?base) = [''k8s'']" by (simp add: pieces_def)
  have ok: "target_ok (call_target ?res ?call)" by (simp add: target_ok_def segment_ok_def)
  have "dot_free (pieces (buPath ?base))" unfolding pieces by simp
  from typed_calls_reach_their_target [OF cs(1) example_server_URL this w'] obtain q as where
    q: "netSent w' = netSent ?w @ map (Pair q) as"
    "as \<noteq> [] \<longrightarrow> hqMethod q = tgVerb (call_target ?res ?call) \<and>
       ruPath (hqURL q) = abs_path (pieces (buPath ?base) @ group_segments ?res @ target_segments (call_target ?res ?call))"
    "as \<noteq> []" using ok cs(2,3) by auto
  have "hqMethod q = ''GET''" using q(2,3) by simp
  moreover have "ruPath (hqURL q) = ''/k8s/apis/wgpolicyk8s.io/v1alpha2/namespaces/default/policyreports/report''"
    using q(2,3) unfolding pieces by (simp add: abs_path_def target_segments_def)
  moreover have "netSent w' = map (Pair q) as" using q(1) by simp
  ultimately show ?thesis using cs(1) w' q(3) by blast
qed

theorem violations_client_is_not_served_witness:
  "\<exists>cs n' w'. clientset_NewForConfig example_client_env (example_config (- 1) 0) 0 = (Inr cs, n') \<and>
     clientset_call cs JsPolicyViolationses (\<lambda>_. None) (GetCall ''p'' []) \<lparr>netSent = [], netState = ()\<rparr> = Some w' \<and>
     netSent w' \<noteq> [] \<and> (\<forall>(q, a)\<in>set (netSent w'). \<exists>ss. ruPath (hqURL q) = abs_path ([''k8s''] @ ss) \<and> \<not> served ss)"
proof -
  let ?base = "\<lparr>buScheme = ''https'', buHost = ''h'', buPath = ''/k8s''\<rparr>" and ?w = "\<lparr>netSent = [], netState = ()\<rparr>"
  obtain cs n' where cs: "clientset_NewForConfig example_client_env (example_config (- 1) 0) 0 = (Inr cs, n')"
    "codecs_ok (client_of cs JsPolicyViolationses)" "rcRateLimiter (client_of cs JsPolicyViolationses) = None"
    using example_clientset [of 0 "- 1" JsPolicyViolationses] by auto
  obtain w' where w': "clientset_call cs JsPolicyViolationses (\<lambda>_. None) (GetCall ''p'' []) ?w = Some w'" by simp
  have pieces: "pieces (buPath ?base) = [''k8s'']" by (simp add: pieces_def)
  have free: "dot_free (pieces (buPath ?base))" unfolding pieces by simp
  have whole: "whole_object JsPolicyViolationses (GetCall ''p'' [])" by (simp add: whole_object_def)
  have ok: "target_ok (call_target JsPolicyViolationses (GetCall ''p'' []))" by (simp add: target_ok_def segment_ok_def)
  show ?thesis
    using violations_client_is_not_served [OF cs(1) example_server_URL free w' whole] cs w' ok unfolding pieces by auto
qed

theorem clients_share_one_rate_limit_witness:
  "\<exists>cs n'. clientset_NewForConfig example_client_env (example_config 20 30) 0 = (Inr cs, n') \<and>
     limiters cs = replicate 3 (Some (TokenBucket 0 20 30))"
proof -
  obtain cs n' where cs: "clientset_NewForConfig example_client_env (example_config 20 30) 0 = (Inr cs, n')"
    using example_clientset [of 30 20 JsPolicies] by auto
  have "cfRateLimiter (example_config 20 30) = None" "cfQPS (example_config 20 30) > 0" "cfQPS (example_config 20 30) = 20"
    "cfBurst (example_config 20 30) = 30" by (simp_all add: example_config_def)
  then show ?thesis using clients_share_one_rate_limit [of "example_config 20 30" example_client_env 0 cs n'] cs by auto
qed

end
