(* ===== verification/FakeClient.thy ===== *)
theory FakeClient
  imports Clientset Admission
begin

text \<open>
  The generated fake clients (\<open>typed/*/fake\<close> and \<open>clientset/fake\<close>), with the vendored \<open>k8s.io/client-go/testing\<close> under them: actions,
  the chain of reactors, and the object tracker. Selectors, labels and the application of patches are
  parameters; the buffer of a watcher, which panics when a hundred events are unread, is not bounded here. A result of type
  \<open>string + 'a\<close> has a panic to the left.
\<close>

section \<open>Actions (testing/actions.go)\<close>

type_synonym gvr = "string \<times> string \<times> string" \<comment> \<open>group, version, resource\<close>

type_synonym restrictions = "string \<times> string" \<comment> \<open>the text of the selectors of labels and fields\<close>

datatype action_detail =
  GetActionImpl string
| ListActionImpl GroupVersionKind restrictions
| CreateActionImpl string runtime_object
| UpdateActionImpl runtime_object
| DeleteActionImpl string delete_opts
| DeleteCollectionActionImpl restrictions
| WatchActionImpl restrictions string
| PatchActionImpl string string string \<comment> \<open>name, type, patch\<close>

record fake_action =
  faVerb :: string
  faResource :: gvr
  faSubresource :: string
  faNamespace :: string
  faDetail :: action_detail

record fake_env =
  feParseLabels :: "string \<Rightarrow> go_error + ((string \<times> string) list \<Rightarrow> bool)"
  feParseFields :: "string \<Rightarrow> go_error option"
  feLabels :: "runtime_object \<Rightarrow> (string \<times> string) list"
  fePatch :: "string \<Rightarrow> runtime_object \<Rightarrow> string \<Rightarrow> go_error + runtime_object" \<comment> \<open>type, old object, patch\<close>

text \<open>\<open>ExtractFromListOptions\<close>, which panics if a selector cannot be parsed.\<close>

definition ExtractFromListOptions :: "fake_env \<Rightarrow> list_opts \<Rightarrow> string + ((string \<times> string) list \<Rightarrow> bool)" where
  "ExtractFromListOptions env opts =
     (case feParseLabels env (lsLabelSelector opts) of
        Inl err \<Rightarrow> Inl (''invalid selector '' @ quoted (lsLabelSelector opts) @ '': '' @ err_text err)
      | Inr labels \<Rightarrow>
          (case feParseFields env (lsFieldSelector opts) of
             Some err \<Rightarrow> Inl (''invalid selector '' @ quoted (lsFieldSelector opts) @ '': '' @ err_text err)
           | None \<Rightarrow> Inr labels))"

definition restrictions_of :: "list_opts \<Rightarrow> restrictions" where
  "restrictions_of opts = (lsLabelSelector opts, lsFieldSelector opts)"

definition no_delete_opts :: delete_opts where
  "no_delete_opts = \<lparr>doGracePeriodSeconds = None, doPreconditions = None, doOrphanDependents = None, doPropagationPolicy = None,
     doDryRun = []\<rparr>"

definition NewGetAction :: "gvr \<Rightarrow> string \<Rightarrow> string \<Rightarrow> fake_action" where
  "NewGetAction resource namespace name =
     \<lparr>faVerb = ''get'', faResource = resource, faSubresource = [], faNamespace = namespace, faDetail = GetActionImpl name\<rparr>"

definition NewListAction :: "fake_env \<Rightarrow> gvr \<Rightarrow> GroupVersionKind \<Rightarrow> string \<Rightarrow> list_opts \<Rightarrow> string + fake_action" where
  "NewListAction env resource kind namespace opts = map_sum id (\<lambda>_.
     \<lparr>faVerb = ''list'', faResource = resource, faSubresource = [], faNamespace = namespace,
      faDetail = ListActionImpl kind (restrictions_of opts)\<rparr>) (ExtractFromListOptions env opts)"

definition NewCreateAction :: "gvr \<Rightarrow> string \<Rightarrow> runtime_object \<Rightarrow> fake_action" where
  "NewCreateAction resource namespace object =
     \<lparr>faVerb = ''create'', faResource = resource, faSubresource = [], faNamespace = namespace, faDetail = CreateActionImpl [] object\<rparr>"

definition NewUpdateAction :: "gvr \<Rightarrow> string \<Rightarrow> runtime_object \<Rightarrow> fake_action" where
  "NewUpdateAction resource namespace object =
     \<lparr>faVerb = ''update'', faResource = resource, faSubresource = [], faNamespace = namespace, faDetail = UpdateActionImpl object\<rparr>"

definition NewDeleteAction :: "gvr \<Rightarrow> string \<Rightarrow> string \<Rightarrow> fake_action" where
  "NewDeleteAction resource namespace name =
     \<lparr>faVerb = ''delete'', faResource = resource, faSubresource = [], faNamespace = namespace,
      faDetail = DeleteActionImpl name no_delete_opts\<rparr>"

definition NewDeleteCollectionAction :: "fake_env \<Rightarrow> gvr \<Rightarrow> string \<Rightarrow> list_opts \<Rightarrow> string + fake_action" where
  "NewDeleteCollectionAction env resource namespace opts = map_sum id (\<lambda>_.
     \<lparr>faVerb = ''delete-collection'', faResource = resource, faSubresource = [], faNamespace = namespace,
      faDetail = DeleteCollectionActionImpl (restrictions_of opts)\<rparr>) (ExtractFromListOptions env opts)"

definition NewWatchAction :: "fake_env \<Rightarrow> gvr \<Rightarrow> string \<Rightarrow> list_opts \<Rightarrow> string + fake_action" where
  "NewWatchAction env resource namespace opts = map_sum id (\<lambda>_.
     \<lparr>faVerb = ''watch'', faResource = resource, faSubresource = [], faNamespace = namespace,
      faDetail = WatchActionImpl (restrictions_of opts) (lsResourceVersion opts)\<rparr>) (ExtractFromListOptions env opts)"

definition NewPatchSubresourceAction :: "gvr \<Rightarrow> string \<Rightarrow> string \<Rightarrow> string \<Rightarrow> string \<Rightarrow> string list \<Rightarrow> fake_action" where
  "NewPatchSubresourceAction resource namespace name pt patch subresources =
     \<lparr>faVerb = ''patch'', faResource = resource, faSubresource = path_JoinAll subresources, faNamespace = namespace,
      faDetail = PatchActionImpl name pt patch\<rparr>"

text \<open>The actions on resources without namespaces.\<close>

definition NewRootGetAction :: "gvr \<Rightarrow> string \<Rightarrow> fake_action" where
  "NewRootGetAction resource name =
     \<lparr>faVerb = ''get'', faResource = resource, faSubresource = [], faNamespace = [], faDetail = GetActionImpl name\<rparr>"

definition NewRootListAction :: "fake_env \<Rightarrow> gvr \<Rightarrow> GroupVersionKind \<Rightarrow> list_opts \<Rightarrow> string + fake_action" where
  "NewRootListAction env resource kind opts = map_sum id (\<lambda>_.
     \<lparr>faVerb = ''list'', faResource = resource, faSubresource = [], faNamespace = [],
      faDetail = ListActionImpl kind (restrictions_of opts)\<rparr>) (ExtractFromListOptions env opts)"

definition NewRootCreateAction :: "gvr \<Rightarrow> runtime_object \<Rightarrow> fake_action" where
  "NewRootCreateAction resource object =
     \<lparr>faVerb = ''create'', faResource = resource, faSubresource = [], faNamespace = [], faDetail = CreateActionImpl [] object\<rparr>"

definition NewRootUpdateAction :: "gvr \<Rightarrow> runtime_object \<Rightarrow> fake_action" where
  "NewRootUpdateAction resource object =
     \<lparr>faVerb = ''update'', faResource = resource, faSubresource = [], faNamespace = [], faDetail = UpdateActionImpl object\<rparr>"

definition NewRootUpdateSubresourceAction :: "gvr \<Rightarrow> string \<Rightarrow> runtime_object \<Rightarrow> fake_action" where
  "NewRootUpdateSubresourceAction resource subresource object =
     \<lparr>faVerb = ''update'', faResource = resource, faSubresource = subresource, faNamespace = [], faDetail = UpdateActionImpl object\<rparr>"

definition NewRootDeleteAction :: "gvr \<Rightarrow> string \<Rightarrow> fake_action" where
  "NewRootDeleteAction resource name =
     \<lparr>faVerb = ''delete'', faResource = resource, faSubresource = [], faNamespace = [], faDetail = DeleteActionImpl name no_delete_opts\<rparr>"

definition NewRootDeleteCollectionAction :: "fake_env \<Rightarrow> gvr \<Rightarrow> list_opts \<Rightarrow> string + fake_action" where
  "NewRootDeleteCollectionAction env resource opts = map_sum id (\<lambda>_.
     \<lparr>faVerb = ''delete-collection'', faResource = resource, faSubresource = [], faNamespace = [],
      faDetail = DeleteCollectionActionImpl (restrictions_of opts)\<rparr>) (ExtractFromListOptions env opts)"

definition NewRootWatchAction :: "fake_env \<Rightarrow> gvr \<Rightarrow> list_opts \<Rightarrow> string + fake_action" where
  "NewRootWatchAction env resource opts = map_sum id (\<lambda>_.
     \<lparr>faVerb = ''watch'', faResource = resource, faSubresource = [], faNamespace = [],
      faDetail = WatchActionImpl (restrictions_of opts) (lsResourceVersion opts)\<rparr>) (ExtractFromListOptions env opts)"

definition NewRootPatchSubresourceAction :: "gvr \<Rightarrow> string \<Rightarrow> string \<Rightarrow> string \<Rightarrow> string list \<Rightarrow> fake_action" where
  "NewRootPatchSubresourceAction resource name pt patch subresources =
     \<lparr>faVerb = ''patch'', faResource = resource, faSubresource = path_JoinAll subresources, faNamespace = [],
      faDetail = PatchActionImpl name pt patch\<rparr>"

section \<open>The object tracker (testing/fixture.go)\<close>

text \<open>\<open>meta.Accessor\<close>: of the metadata, what the records have. Only reports are in namespaces.\<close>

fun object_namespace :: "runtime_object \<Rightarrow> string" where
  "object_namespace (PolicyReportObject r) = rpNamespace r"
| "object_namespace (ClusterPolicyReportObject r) = rpNamespace r"
| "object_namespace _ = []"

fun set_namespace :: "string \<Rightarrow> runtime_object \<Rightarrow> runtime_object" where
  "set_namespace ns (PolicyReportObject r) = PolicyReportObject (r\<lparr>rpNamespace := ns\<rparr>)"
| "set_namespace ns (ClusterPolicyReportObject r) = ClusterPolicyReportObject (r\<lparr>rpNamespace := ns\<rparr>)"
| "set_namespace ns obj = obj"

datatype fake_event = Added runtime_object | Modified runtime_object | Deleted runtime_object

record tracker =
  tkObjects :: "((gvr \<times> string \<times> string) \<times> runtime_object) list" \<comment> \<open>by resource, namespace and name\<close>
  tkWatchers :: "(gvr \<times> string \<times> fake_event list) list" \<comment> \<open>with what they have been sent\<close>

definition NewObjectTracker :: tracker where
  "NewObjectTracker = \<lparr>tkObjects = [], tkWatchers = []\<rparr>"

definition NewNotFound_of :: "gvr \<Rightarrow> string \<Rightarrow> go_error" where
  "NewNotFound_of gvr name = (case gvr of (grp, _, resource) \<Rightarrow>
     GoError NotFound ((if grp = [] then resource else resource @ ''.'' @ grp) @ '' '' @ quoted name @ '' not found''))"

definition NewAlreadyExists_of :: "gvr \<Rightarrow> string \<Rightarrow> go_error" where
  "NewAlreadyExists_of gvr name = (case gvr of (grp, _, resource) \<Rightarrow>
     GoError AlreadyExists ((if grp = [] then resource else resource @ ''.'' @ grp) @ '' '' @ quoted name @ '' already exists''))"

text \<open>The watchers that \<open>getWatches\<close> finds are sent an event.\<close>

definition broadcast :: "gvr \<Rightarrow> string \<Rightarrow> fake_event \<Rightarrow> tracker \<Rightarrow> tracker" where
  "broadcast gvr ns e t =
     t\<lparr>tkWatchers := map (\<lambda>(g, n, es). (g, n, if g = gvr \<and> (n = ns \<or> n = []) then es @ [e] else es)) (tkWatchers t)\<rparr>"

definition tracker_add :: "gvr \<Rightarrow> runtime_object \<Rightarrow> string \<Rightarrow> bool \<Rightarrow> tracker \<Rightarrow> go_error option \<times> tracker" where
  "tracker_add gvr obj0 ns replaceExisting t =
     (let obj = (if length (object_namespace obj0) = 0 then set_namespace ns obj0 else obj0);
          key = (gvr, object_namespace obj, object_name obj)
      in if ns \<noteq> object_namespace obj
         then (Some (Errorf (''request namespace does not match object namespace, request: '' @ quoted ns @
                 '' object: '' @ quoted (object_namespace obj))), t)
         else case map_of (tkObjects t) key of
                Some _ \<Rightarrow>
                  if replaceExisting
                  then (None, (broadcast gvr ns (Modified obj) t)\<lparr>tkObjects := map_put key obj (tkObjects t)\<rparr>)
                  else (Some (NewAlreadyExists_of gvr (object_name obj)), t)
              | None \<Rightarrow>
                  if replaceExisting then (Some (NewNotFound_of gvr (object_name obj)), t)
                  else (None, (broadcast gvr ns (Added obj) t)\<lparr>tkObjects := map_put key obj (tkObjects t)\<rparr>))"

definition tracker_Create :: "gvr \<Rightarrow> runtime_object \<Rightarrow> string \<Rightarrow> tracker \<Rightarrow> go_error option \<times> tracker" where
  "tracker_Create gvr obj ns = tracker_add gvr obj ns False"

definition tracker_Update :: "gvr \<Rightarrow> runtime_object \<Rightarrow> string \<Rightarrow> tracker \<Rightarrow> go_error option \<times> tracker" where
  "tracker_Update gvr obj ns = tracker_add gvr obj ns True"

definition tracker_Get :: "gvr \<Rightarrow> string \<Rightarrow> string \<Rightarrow> tracker \<Rightarrow> go_error + runtime_object" where
  "tracker_Get gvr ns name t =
     (case map_of (tkObjects t) (gvr, ns, name) of None \<Rightarrow> Inl (NewNotFound_of gvr name) | Some obj \<Rightarrow> Inr obj)"

definition tracker_Delete :: "gvr \<Rightarrow> string \<Rightarrow> string \<Rightarrow> tracker \<Rightarrow> go_error option \<times> tracker" where
  "tracker_Delete gvr ns name t =
     (case map_of (tkObjects t) (gvr, ns, name) of
        None \<Rightarrow> (Some (NewNotFound_of gvr name), t)
      | Some obj \<Rightarrow> (None, (broadcast gvr ns (Deleted obj) t)\<lparr>tkObjects := map_del (gvr, ns, name) (tkObjects t)\<rparr>))"

text \<open>The watcher is its number.\<close>

definition tracker_Watch :: "gvr \<Rightarrow> string \<Rightarrow> tracker \<Rightarrow> nat \<times> tracker" where
  "tracker_Watch gvr ns t = (length (tkWatchers t), t\<lparr>tkWatchers := tkWatchers t @ [(gvr, ns, [])]\<rparr>)"

definition filterByNamespace :: "runtime_object list \<Rightarrow> string \<Rightarrow> runtime_object list" where
  "filterByNamespace objs ns =
     sort_key object_namespace (sort_key object_name (filter (\<lambda>obj. ns = [] \<or> object_namespace obj = ns) objs))"

text \<open>\<open>scheme.New\<close> of the list of a kind, and \<open>meta.SetList\<close>.\<close>

definition set_list :: "string \<Rightarrow> runtime_object list \<Rightarrow> go_error + runtime_object" where
  "set_list kind objs =
     (case (if kind = ''JsPolicy'' then map_option JsPolicyListObject (those (map as_JsPolicy objs))
            else if kind = ''JsPolicyBundle'' then map_option JsPolicyBundleListObject (those (map as_JsPolicyBundle objs))
            else if kind = ''JsPolicyViolations'' then map_option JsPolicyViolationsListObject (those (map as_JsPolicyViolations objs))
            else if kind = ''PolicyReport'' then map_option PolicyReportListObject (those (map as_PolicyReport objs))
            else if kind = ''ClusterPolicyReport'' then map_option ClusterPolicyReportListObject (those (map as_ClusterPolicyReport objs))
            else None) of
        None \<Rightarrow> Inl (Errorf (''no list of kind '' @ kind)) | Some l \<Rightarrow> Inr l)"

definition tracker_List :: "gvr \<Rightarrow> GroupVersionKind \<Rightarrow> string \<Rightarrow> tracker \<Rightarrow> go_error + runtime_object" where
  "tracker_List gvr gvk ns t =
     set_list (gvkKind gvk) (filterByNamespace (map snd (filter (\<lambda>(k, _). fst k = gvr) (tkObjects t))) ns)"

text \<open>\<open>meta.UnsafeGuessKindToResource\<close>: the plural that a kind probably has.\<close>

definition UnsafeGuessKindToResource :: "GroupVersionKind \<Rightarrow> gvr" where
  "UnsafeGuessKindToResource kind =
     (if length (gvkKind kind) = 0 then ([], [], [])
      else let singular = ToLower (gvkKind kind)
           in (gvkGroup kind, gvkVersion kind,
               if has_suffix singular ''endpoints'' then singular
               else if last singular = CHR ''s'' then singular @ ''es''
               else if last singular = CHR ''y'' then butlast singular @ ''ies''
               else singular @ ''s''))"

text \<open>\<open>scheme.ObjectKinds\<close> of the five kinds.\<close>

fun object_kind :: "runtime_object \<Rightarrow> GroupVersionKind option" where
  "object_kind (JsPolicyObject _) = Some \<lparr>gvkGroup = ''policy.jspolicy.com'', gvkVersion = ''v1beta1'', gvkKind = ''JsPolicy''\<rparr>"
| "object_kind (JsPolicyBundleObject _) =
     Some \<lparr>gvkGroup = ''policy.jspolicy.com'', gvkVersion = ''v1beta1'', gvkKind = ''JsPolicyBundle''\<rparr>"
| "object_kind (JsPolicyViolationsObject _) =
     Some \<lparr>gvkGroup = ''policy.jspolicy.com'', gvkVersion = ''v1beta1'', gvkKind = ''JsPolicyViolations''\<rparr>"
| "object_kind (PolicyReportObject _) = Some \<lparr>gvkGroup = ''wgpolicyk8s.io'', gvkVersion = ''v1alpha2'', gvkKind = ''PolicyReport''\<rparr>"
| "object_kind (ClusterPolicyReportObject _) =
     Some \<lparr>gvkGroup = ''wgpolicyk8s.io'', gvkVersion = ''v1alpha2'', gvkKind = ''ClusterPolicyReport''\<rparr>"
| "object_kind _ = None"

text \<open>\<open>Add\<close>, of an object or of the items of a list (\<open>meta.IsListType\<close>, \<open>meta.ExtractList\<close>).\<close>

fun list_items :: "runtime_object \<Rightarrow> runtime_object list option" where
  "list_items (JsPolicyListObject items) = Some (map JsPolicyObject items)"
| "list_items (JsPolicyBundleListObject items) = Some (map JsPolicyBundleObject items)"
| "list_items (JsPolicyViolationsListObject items) = Some (map JsPolicyViolationsObject items)"
| "list_items (PolicyReportListObject items) = Some (map PolicyReportObject items)"
| "list_items (ClusterPolicyReportListObject items) = Some (map ClusterPolicyReportObject items)"
| "list_items _ = None"

definition tracker_Add_one :: "runtime_object \<Rightarrow> tracker \<Rightarrow> go_error option \<times> tracker" where
  "tracker_Add_one obj t =
     (case object_kind obj of
        None \<Rightarrow> (Some (Errorf ''no registered kinds''), t)
      | Some gvk \<Rightarrow> tracker_add (UnsafeGuessKindToResource gvk) obj (object_namespace obj) False t)"

fun tracker_addList :: "runtime_object list \<Rightarrow> tracker \<Rightarrow> go_error option \<times> tracker" where
  "tracker_addList [] t = (None, t)"
| "tracker_addList (obj # objs) t =
     (case tracker_Add_one obj t of (Some err, t') \<Rightarrow> (Some err, t') | (None, t') \<Rightarrow> tracker_addList objs t')"

definition tracker_Add :: "runtime_object \<Rightarrow> tracker \<Rightarrow> go_error option \<times> tracker" where
  "tracker_Add obj t = (case list_items obj of Some items \<Rightarrow> tracker_addList items t | None \<Rightarrow> tracker_Add_one obj t)"

definition patch_types :: "string list" where
  "patch_types = [''application/json-patch+json'', ''application/merge-patch+json'', ''application/strategic-merge-patch+json'']"

text \<open>\<open>ObjectReaction\<close>: whether the action is handled, the object and the error.\<close>

definition react_changed :: "gvr \<Rightarrow> string \<Rightarrow> runtime_object \<Rightarrow> go_error option \<times> tracker \<Rightarrow>
    (bool \<times> runtime_object option \<times> go_error option) \<times> tracker" where
  "react_changed gvr ns obj r =
     (case r of
        (Some err, t') \<Rightarrow> ((True, None, Some err), t')
      | (None, t') \<Rightarrow>
          (case tracker_Get gvr ns (object_name obj) t' of
             Inl err \<Rightarrow> ((True, None, Some err), t')
           | Inr obj' \<Rightarrow> ((True, Some obj', None), t')))"

definition ObjectReaction :: "fake_env \<Rightarrow> fake_action \<Rightarrow> tracker \<Rightarrow>
    (bool \<times> runtime_object option \<times> go_error option) \<times> tracker" where
  "ObjectReaction env action t =
     (let ns = faNamespace action; gvr = faResource action in
      case faDetail action of
        ListActionImpl kind _ \<Rightarrow>
          (case tracker_List gvr kind ns t of Inl err \<Rightarrow> ((True, None, Some err), t) | Inr l \<Rightarrow> ((True, Some l, None), t))
      | GetActionImpl name \<Rightarrow>
          (case tracker_Get gvr ns name t of Inl err \<Rightarrow> ((True, None, Some err), t) | Inr obj \<Rightarrow> ((True, Some obj, None), t))
      | CreateActionImpl _ obj \<Rightarrow>
          react_changed gvr ns obj
            (if faSubresource action = [] then tracker_Create gvr obj ns t else tracker_Update gvr obj ns t)
      | UpdateActionImpl obj \<Rightarrow> react_changed gvr ns obj (tracker_Update gvr obj ns t)
      | DeleteActionImpl name _ \<Rightarrow> (case tracker_Delete gvr ns name t of (err, t') \<Rightarrow> ((True, None, err), t'))
      | PatchActionImpl name pt patch \<Rightarrow>
          (case tracker_Get gvr ns name t of
             Inl err \<Rightarrow> ((True, None, Some err), t)
           | Inr old \<Rightarrow>
               if pt \<notin> set patch_types then ((True, None, Some (Errorf ''PatchType is not supported'')), t)
               else case fePatch env pt old patch of
                      Inl err \<Rightarrow> ((True, None, Some err), t)
                    | Inr obj \<Rightarrow>
                        (case tracker_Update gvr obj ns t of
                           (Some err, t') \<Rightarrow> ((True, None, Some err), t')
                         | (None, t') \<Rightarrow> ((True, Some obj, None), t')))
      | _ \<Rightarrow> ((False, None, Some (Errorf ''no reaction implemented'')), t))"

section \<open>The fake (testing/fake.go)\<close>

record reactor =
  rxVerb :: string
  rxResource :: string
  rxReact :: "fake_action \<Rightarrow> tracker \<Rightarrow> (bool \<times> runtime_object option \<times> go_error option) \<times> tracker"

record watch_reactor =
  wxResource :: string
  wxReact :: "fake_action \<Rightarrow> tracker \<Rightarrow> (bool \<times> nat option \<times> go_error option) \<times> tracker"

record fake =
  fkActions :: "fake_action list"
  fkReactionChain :: "reactor list"
  fkWatchReactionChain :: "watch_reactor list"
  fkTracker :: tracker

definition resourceCovers :: "string \<Rightarrow> fake_action \<Rightarrow> bool" where
  "resourceCovers resource action \<longleftrightarrow>
     resource = ''*'' \<or> resource = snd (snd (faResource action)) \<or>
     (case split_first (CHR ''/'') resource of
        [r, sub] \<Rightarrow> r = snd (snd (faResource action)) \<and> sub = faSubresource action
      | _ \<Rightarrow> False)"

definition SimpleReactor_Handles :: "reactor \<Rightarrow> fake_action \<Rightarrow> bool" where
  "SimpleReactor_Handles r action \<longleftrightarrow>
     (rxVerb r = ''*'' \<or> rxVerb r = faVerb action) \<and> resourceCovers (rxResource r) action"

definition AddReactor :: "string \<Rightarrow> string \<Rightarrow> (fake_action \<Rightarrow> tracker \<Rightarrow> (bool \<times> runtime_object option \<times> go_error option) \<times> tracker) \<Rightarrow>
    fake \<Rightarrow> fake" where
  "AddReactor verb resource reaction c =
     c\<lparr>fkReactionChain := fkReactionChain c @ [\<lparr>rxVerb = verb, rxResource = resource, rxReact = reaction\<rparr>]\<rparr>"

definition AddWatchReactor :: "string \<Rightarrow> (fake_action \<Rightarrow> tracker \<Rightarrow> (bool \<times> nat option \<times> go_error option) \<times> tracker) \<Rightarrow>
    fake \<Rightarrow> fake" where
  "AddWatchReactor resource reaction c =
     c\<lparr>fkWatchReactionChain := fkWatchReactionChain c @ [\<lparr>wxResource = resource, wxReact = reaction\<rparr>]\<rparr>"

fun react_chain :: "reactor list \<Rightarrow> fake_action \<Rightarrow> runtime_object \<Rightarrow> tracker \<Rightarrow> (runtime_object option \<times> go_error option) \<times> tracker" where
  "react_chain [] action d t = ((Some d, None), t)"
| "react_chain (r # rs) action d t =
     (if \<not> SimpleReactor_Handles r action then react_chain rs action d t
      else case rxReact r action t of
             ((handled, ret, err), t') \<Rightarrow> if handled then ((ret, err), t') else react_chain rs action d t')"

definition Invokes :: "fake_action \<Rightarrow> runtime_object \<Rightarrow> fake \<Rightarrow> (runtime_object option \<times> go_error option) \<times> fake" where
  "Invokes action defaultReturnObj c =
     (case react_chain (fkReactionChain c) action defaultReturnObj (fkTracker c) of
        (r, t) \<Rightarrow> (r, c\<lparr>fkActions := fkActions c @ [action], fkTracker := t\<rparr>))"

fun watch_chain :: "watch_reactor list \<Rightarrow> fake_action \<Rightarrow> tracker \<Rightarrow> (nat option \<times> go_error option) \<times> tracker" where
  "watch_chain [] action t = ((None, Some (Errorf ''unhandled watch'')), t)"
| "watch_chain (r # rs) action t =
     (if \<not> resourceCovers (wxResource r) action then watch_chain rs action t
      else case wxReact r action t of
             ((handled, ret, err), t') \<Rightarrow> if handled then ((ret, err), t') else watch_chain rs action t')"

definition InvokesWatch :: "fake_action \<Rightarrow> fake \<Rightarrow> (nat option \<times> go_error option) \<times> fake" where
  "InvokesWatch action c =
     (case watch_chain (fkWatchReactionChain c) action (fkTracker c) of
        (r, t) \<Rightarrow> (r, c\<lparr>fkActions := fkActions c @ [action], fkTracker := t\<rparr>))"

section \<open>The fake clients\<close>

text \<open>\<open>&v1beta1.JsPolicy{}\<close> and so on: what is returned if no reactor handles an action.\<close>

definition zero_spec :: JsPolicySpec where
  "zero_spec = \<lparr>Operations = [], Resources = [], APIGroups = [], APIVersions = [], Scope = None, ReinvocationPolicy = None,
     FailurePolicy = None, MatchPolicy = None, NamespaceSelector = None, ObjectSelector = None, TimeoutSeconds = None,
     ViolationPolicy = None, AuditPolicy = None, AuditLogSize = None, PType = [], Dependencies = [], JavaScript = []\<rparr>"

definition zero_report :: PolicyReport where
  "zero_report = \<lparr>rpName = [], rpNamespace = [], rpResourceVersion = [],
     rpSummary = \<lparr>sumPass = 0, sumFail = 0, sumWarn = 0, sumError = 0, sumSkip = 0\<rparr>, rpResults = []\<rparr>"

definition zero_object :: "string \<Rightarrow> runtime_object" where
  "zero_object kind =
     (if kind = ''JsPolicy'' then JsPolicyObject \<lparr>pName = [], pUID = [], pGeneration = 0, pLabels = [], pAnnotations = [],
        pSpec = zero_spec, pStatus = \<lparr>stPhase = [], stReason = [], stMessage = [], stConditions = [], stObservedGeneration = 0,
          stBundleHash = []\<rparr>\<rparr>
      else if kind = ''JsPolicyBundle'' then JsPolicyBundleObject \<lparr>bName = [], bBundle = []\<rparr>
      else if kind = ''JsPolicyViolations'' then JsPolicyViolationsObject \<lparr>jvName = [], jvResourceVersion = [], jvViolations = []\<rparr>
      else if kind = ''PolicyReport'' then PolicyReportObject zero_report
      else ClusterPolicyReportObject zero_report)"

definition zero_list :: "string \<Rightarrow> runtime_object" where
  "zero_list kind =
     (if kind = ''JsPolicy'' then JsPolicyListObject []
      else if kind = ''JsPolicyBundle'' then JsPolicyBundleListObject []
      else if kind = ''JsPolicyViolations'' then JsPolicyViolationsListObject []
      else if kind = ''PolicyReport'' then PolicyReportListObject []
      else ClusterPolicyReportListObject [])"

text \<open>\<open>if obj == nil { return nil, err }; return obj.(*T), err\<close>\<close>

definition result_as :: "(runtime_object \<Rightarrow> 'a option) \<Rightarrow> (runtime_object option \<times> go_error option) \<times> fake \<Rightarrow>
    string + ('a option \<times> go_error option) \<times> fake" where
  "result_as proj r =
     (case r of
        ((None, err), c) \<Rightarrow> Inr ((None, err), c)
      | ((Some obj, err), c) \<Rightarrow>
          (case proj obj of None \<Rightarrow> Inl ''interface conversion'' | Some x \<Rightarrow> Inr ((Some x, err), c)))"

text \<open>What \<open>List\<close> does with the objects: those whose labels match stay.\<close>

definition filter_labelled :: "fake_env \<Rightarrow> list_opts \<Rightarrow> (runtime_object \<Rightarrow> 'a list option) \<Rightarrow> ('a \<Rightarrow> runtime_object) \<Rightarrow>
    (runtime_object option \<times> go_error option) \<times> fake \<Rightarrow> string + ('a list option \<times> go_error option) \<times> fake" where
  "filter_labelled env opts proj wrap r =
     (case r of
        ((None, err), c) \<Rightarrow> Inr ((None, err), c)
      | ((Some obj, err), c) \<Rightarrow>
          (case ExtractFromListOptions env opts of
             Inl panic \<Rightarrow> Inl panic
           | Inr label \<Rightarrow>
               (case proj obj of
                  None \<Rightarrow> Inl ''interface conversion''
                | Some items \<Rightarrow> Inr ((Some (filter (\<lambda>item. label (feLabels env (wrap item))) items), err), c))))"

text \<open>The results of all methods in one type.\<close>

datatype call_result =
  GotObject "runtime_object option" "go_error option"
| Listed "runtime_object list option" "go_error option"
| Watched "nat option" "go_error option"
| Finished "go_error option"

definition got_object :: "('a \<Rightarrow> runtime_object) \<Rightarrow> string + ('a option \<times> go_error option) \<times> fake \<Rightarrow> string + call_result \<times> fake" where
  "got_object wrap = map_sum id (\<lambda>((x, err), c). (GotObject (map_option wrap x) err, c))"

definition listed :: "('a \<Rightarrow> runtime_object) \<Rightarrow> string + ('a list option \<times> go_error option) \<times> fake \<Rightarrow> string + call_result \<times> fake" where
  "listed wrap = map_sum id (\<lambda>((xs, err), c). (Listed (map_option (map wrap) xs) err, c))"

definition watched :: "string + (nat option \<times> go_error option) \<times> fake \<Rightarrow> string + call_result \<times> fake" where
  "watched = map_sum id (\<lambda>((x, err), c). (Watched x err, c))"

definition deleted :: "string + go_error option \<times> fake \<Rightarrow> string + call_result \<times> fake" where
  "deleted = map_sum id (\<lambda>(err, c). (Finished err, c))"

text \<open>\<open>FakeJsPolicies\<close>\<close>

definition jspoliciesResource :: gvr where
  "jspoliciesResource = (''policy.jspolicy.com'', ''v1beta1'', ''jspolicies'')"

definition jspoliciesKind :: GroupVersionKind where
  "jspoliciesKind = \<lparr>gvkGroup = ''policy.jspolicy.com'', gvkVersion = ''v1beta1'', gvkKind = ''JsPolicy''\<rparr>"

definition FakeJsPolicies_Get ::
  "fake_env \<Rightarrow> string \<Rightarrow> string \<Rightarrow> fake \<Rightarrow> string + (JsPolicy option \<times> go_error option) \<times> fake" where
  "FakeJsPolicies_Get env name options c =
     result_as as_JsPolicy (Invokes (NewRootGetAction jspoliciesResource name) (zero_object ''JsPolicy'') c)"

definition FakeJsPolicies_List ::
  "fake_env \<Rightarrow> list_opts \<Rightarrow> fake \<Rightarrow> string + (JsPolicy list option \<times> go_error option) \<times> fake" where
  "FakeJsPolicies_List env opts c =
     (case NewRootListAction env jspoliciesResource jspoliciesKind opts of
        Inl panic \<Rightarrow> Inl panic
      | Inr action \<Rightarrow>
          filter_labelled env opts as_JsPolicyList JsPolicyObject (Invokes action (zero_list ''JsPolicy'') c))"

definition FakeJsPolicies_Watch ::
  "fake_env \<Rightarrow> list_opts \<Rightarrow> fake \<Rightarrow> string + (nat option \<times> go_error option) \<times> fake" where
  "FakeJsPolicies_Watch env opts c =
     map_sum id (\<lambda>action. InvokesWatch action c) (NewRootWatchAction env jspoliciesResource opts)"

definition FakeJsPolicies_Create ::
  "fake_env \<Rightarrow> JsPolicy \<Rightarrow> write_opts \<Rightarrow> fake \<Rightarrow> string + (JsPolicy option \<times> go_error option) \<times> fake" where
  "FakeJsPolicies_Create env obj opts c =
     result_as as_JsPolicy (Invokes (NewRootCreateAction jspoliciesResource (JsPolicyObject obj)) (zero_object ''JsPolicy'') c)"

definition FakeJsPolicies_Update ::
  "fake_env \<Rightarrow> JsPolicy \<Rightarrow> write_opts \<Rightarrow> fake \<Rightarrow> string + (JsPolicy option \<times> go_error option) \<times> fake" where
  "FakeJsPolicies_Update env obj opts c =
     result_as as_JsPolicy (Invokes (NewRootUpdateAction jspoliciesResource (JsPolicyObject obj)) (zero_object ''JsPolicy'') c)"

definition FakeJsPolicies_UpdateStatus ::
  "fake_env \<Rightarrow> JsPolicy \<Rightarrow> write_opts \<Rightarrow> fake \<Rightarrow> string + (JsPolicy option \<times> go_error option) \<times> fake" where
  "FakeJsPolicies_UpdateStatus env obj opts c =
     result_as as_JsPolicy (Invokes (NewRootUpdateSubresourceAction jspoliciesResource ''status'' (JsPolicyObject obj)) (zero_object ''JsPolicy'') c)"

definition FakeJsPolicies_Delete ::
  "fake_env \<Rightarrow> string \<Rightarrow> delete_opts \<Rightarrow> fake \<Rightarrow> string + go_error option \<times> fake" where
  "FakeJsPolicies_Delete env name opts c =
     Inr (apfst snd (Invokes (NewRootDeleteAction jspoliciesResource name) (zero_object ''JsPolicy'') c))"

definition FakeJsPolicies_DeleteCollection ::
  "fake_env \<Rightarrow> delete_opts \<Rightarrow> list_opts \<Rightarrow> fake \<Rightarrow> string + go_error option \<times> fake" where
  "FakeJsPolicies_DeleteCollection env opts listOpts c =
     map_sum id (\<lambda>action. apfst snd (Invokes action (zero_list ''JsPolicy'') c)) (NewRootDeleteCollectionAction env jspoliciesResource listOpts)"

definition FakeJsPolicies_Patch ::
  "fake_env \<Rightarrow> string \<Rightarrow> string \<Rightarrow> string \<Rightarrow> write_opts \<Rightarrow> bool option \<Rightarrow> string list \<Rightarrow> fake \<Rightarrow> string + (JsPolicy option \<times> go_error option) \<times> fake" where
  "FakeJsPolicies_Patch env name pt data opts force subresources c =
     result_as as_JsPolicy (Invokes (NewRootPatchSubresourceAction jspoliciesResource name pt data subresources) (zero_object ''JsPolicy'') c)"

fun FakeJsPolicies_call :: "fake_env \<Rightarrow> typed_call \<Rightarrow> fake \<Rightarrow> (string + call_result \<times> fake) option" where
  "FakeJsPolicies_call env (GetCall name options) c = Some (got_object JsPolicyObject (FakeJsPolicies_Get env name options c))"
| "FakeJsPolicies_call env (ListCall opts) c = Some (listed JsPolicyObject (FakeJsPolicies_List env opts c))"
| "FakeJsPolicies_call env (WatchCall opts) c = Some (watched (FakeJsPolicies_Watch env opts c))"
| "FakeJsPolicies_call env (CreateCall (JsPolicyObject obj) opts) c = Some (got_object JsPolicyObject (FakeJsPolicies_Create env obj opts c))"
| "FakeJsPolicies_call env (UpdateCall (JsPolicyObject obj) opts) c = Some (got_object JsPolicyObject (FakeJsPolicies_Update env obj opts c))"
| "FakeJsPolicies_call env (UpdateStatusCall (JsPolicyObject obj) opts) c = Some (got_object JsPolicyObject (FakeJsPolicies_UpdateStatus env obj opts c))"
| "FakeJsPolicies_call env (DeleteCall name opts) c = Some (deleted (FakeJsPolicies_Delete env name opts c))"
| "FakeJsPolicies_call env (DeleteCollectionCall opts listOpts) c = Some (deleted (FakeJsPolicies_DeleteCollection env opts listOpts c))"
| "FakeJsPolicies_call env (PatchCall name pt data opts force subs) c = Some (got_object JsPolicyObject (FakeJsPolicies_Patch env name pt data opts force subs c))"
| "FakeJsPolicies_call env _ c = None"

text \<open>\<open>FakeJsPolicyBundles\<close>\<close>

definition jspolicybundlesResource :: gvr where
  "jspolicybundlesResource = (''policy.jspolicy.com'', ''v1beta1'', ''jspolicybundles'')"

definition jspolicybundlesKind :: GroupVersionKind where
  "jspolicybundlesKind = \<lparr>gvkGroup = ''policy.jspolicy.com'', gvkVersion = ''v1beta1'', gvkKind = ''JsPolicyBundle''\<rparr>"

definition FakeJsPolicyBundles_Get ::
  "fake_env \<Rightarrow> string \<Rightarrow> string \<Rightarrow> fake \<Rightarrow> string + (JsPolicyBundle option \<times> go_error option) \<times> fake" where
  "FakeJsPolicyBundles_Get env name options c =
     result_as as_JsPolicyBundle (Invokes (NewRootGetAction jspolicybundlesResource name) (zero_object ''JsPolicyBundle'') c)"

definition FakeJsPolicyBundles_List ::
  "fake_env \<Rightarrow> list_opts \<Rightarrow> fake \<Rightarrow> string + (JsPolicyBundle list option \<times> go_error option) \<times> fake" where
  "FakeJsPolicyBundles_List env opts c =
     (case NewRootListAction env jspolicybundlesResource jspolicybundlesKind opts of
        Inl panic \<Rightarrow> Inl panic
      | Inr action \<Rightarrow>
          filter_labelled env opts as_JsPolicyBundleList JsPolicyBundleObject (Invokes action (zero_list ''JsPolicyBundle'') c))"

definition FakeJsPolicyBundles_Watch ::
  "fake_env \<Rightarrow> list_opts \<Rightarrow> fake \<Rightarrow> string + (nat option \<times> go_error option) \<times> fake" where
  "FakeJsPolicyBundles_Watch env opts c =
     map_sum id (\<lambda>action. InvokesWatch action c) (NewRootWatchAction env jspolicybundlesResource opts)"

definition FakeJsPolicyBundles_Create ::
  "fake_env \<Rightarrow> JsPolicyBundle \<Rightarrow> write_opts \<Rightarrow> fake \<Rightarrow> string + (JsPolicyBundle option \<times> go_error option) \<times> fake" where
  "FakeJsPolicyBundles_Create env obj opts c =
     result_as as_JsPolicyBundle (Invokes (NewRootCreateAction jspolicybundlesResource (JsPolicyBundleObject obj)) (zero_object ''JsPolicyBundle'') c)"

definition FakeJsPolicyBundles_Update ::
  "fake_env \<Rightarrow> JsPolicyBundle \<Rightarrow> write_opts \<Rightarrow> fake \<Rightarrow> string + (JsPolicyBundle option \<times> go_error option) \<times> fake" where
  "FakeJsPolicyBundles_Update env obj opts c =
     result_as as_JsPolicyBundle (Invokes (NewRootUpdateAction jspolicybundlesResource (JsPolicyBundleObject obj)) (zero_object ''JsPolicyBundle'') c)"

definition FakeJsPolicyBundles_UpdateStatus ::
  "fake_env \<Rightarrow> JsPolicyBundle \<Rightarrow> write_opts \<Rightarrow> fake \<Rightarrow> string + (JsPolicyBundle option \<times> go_error option) \<times> fake" where
  "FakeJsPolicyBundles_UpdateStatus env obj opts c =
     result_as as_JsPolicyBundle (Invokes (NewRootUpdateSubresourceAction jspolicybundlesResource ''status'' (JsPolicyBundleObject obj)) (zero_object ''JsPolicyBundle'') c)"

definition FakeJsPolicyBundles_Delete ::
  "fake_env \<Rightarrow> string \<Rightarrow> delete_opts \<Rightarrow> fake \<Rightarrow> string + go_error option \<times> fake" where
  "FakeJsPolicyBundles_Delete env name opts c =
     Inr (apfst snd (Invokes (NewRootDeleteAction jspolicybundlesResource name) (zero_object ''JsPolicyBundle'') c))"

definition FakeJsPolicyBundles_DeleteCollection ::
  "fake_env \<Rightarrow> delete_opts \<Rightarrow> list_opts \<Rightarrow> fake \<Rightarrow> string + go_error option \<times> fake" where
  "FakeJsPolicyBundles_DeleteCollection env opts listOpts c =
     map_sum id (\<lambda>action. apfst snd (Invokes action (zero_list ''JsPolicyBundle'') c)) (NewRootDeleteCollectionAction env jspolicybundlesResource listOpts)"

definition FakeJsPolicyBundles_Patch ::
  "fake_env \<Rightarrow> string \<Rightarrow> string \<Rightarrow> string \<Rightarrow> write_opts \<Rightarrow> bool option \<Rightarrow> string list \<Rightarrow> fake \<Rightarrow> string + (JsPolicyBundle option \<times> go_error option) \<times> fake" where
  "FakeJsPolicyBundles_Patch env name pt data opts force subresources c =
     result_as as_JsPolicyBundle (Invokes (NewRootPatchSubresourceAction jspolicybundlesResource name pt data subresources) (zero_object ''JsPolicyBundle'') c)"

fun FakeJsPolicyBundles_call :: "fake_env \<Rightarrow> typed_call \<Rightarrow> fake \<Rightarrow> (string + call_result \<times> fake) option" where
  "FakeJsPolicyBundles_call env (GetCall name options) c = Some (got_object JsPolicyBundleObject (FakeJsPolicyBundles_Get env name options c))"
| "FakeJsPolicyBundles_call env (ListCall opts) c = Some (listed JsPolicyBundleObject (FakeJsPolicyBundles_List env opts c))"
| "FakeJsPolicyBundles_call env (WatchCall opts) c = Some (watched (FakeJsPolicyBundles_Watch env opts c))"
| "FakeJsPolicyBundles_call env (CreateCall (JsPolicyBundleObject obj) opts) c = Some (got_object JsPolicyBundleObject (FakeJsPolicyBundles_Create env obj opts c))"
| "FakeJsPolicyBundles_call env (UpdateCall (JsPolicyBundleObject obj) opts) c = Some (got_object JsPolicyBundleObject (FakeJsPolicyBundles_Update env obj opts c))"
| "FakeJsPolicyBundles_call env (UpdateStatusCall (JsPolicyBundleObject obj) opts) c = Some (got_object JsPolicyBundleObject (FakeJsPolicyBundles_UpdateStatus env obj opts c))"
| "FakeJsPolicyBundles_call env (DeleteCall name opts) c = Some (deleted (FakeJsPolicyBundles_Delete env name opts c))"
| "FakeJsPolicyBundles_call env (DeleteCollectionCall opts listOpts) c = Some (deleted (FakeJsPolicyBundles_DeleteCollection env opts listOpts c))"
| "FakeJsPolicyBundles_call env (PatchCall name pt data opts force subs) c = Some (got_object JsPolicyBundleObject (FakeJsPolicyBundles_Patch env name pt data opts force subs c))"
| "FakeJsPolicyBundles_call env _ c = None"

text \<open>\<open>FakeJsPolicyViolationses\<close>\<close>

definition jspolicyviolationsesResource :: gvr where
  "jspolicyviolationsesResource = (''policy.jspolicy.com'', ''v1beta1'', ''jspolicyviolationses'')"

definition jspolicyviolationsesKind :: GroupVersionKind where
  "jspolicyviolationsesKind = \<lparr>gvkGroup = ''policy.jspolicy.com'', gvkVersion = ''v1beta1'', gvkKind = ''JsPolicyViolations''\<rparr>"

definition FakeJsPolicyViolationses_Get ::
  "fake_env \<Rightarrow> string \<Rightarrow> string \<Rightarrow> fake \<Rightarrow> string + (JsPolicyViolations option \<times> go_error option) \<times> fake" where
  "FakeJsPolicyViolationses_Get env name options c =
     result_as as_JsPolicyViolations (Invokes (NewRootGetAction jspolicyviolationsesResource name) (zero_object ''JsPolicyViolations'') c)"

definition FakeJsPolicyViolationses_List ::
  "fake_env \<Rightarrow> list_opts \<Rightarrow> fake \<Rightarrow> string + (JsPolicyViolations list option \<times> go_error option) \<times> fake" where
  "FakeJsPolicyViolationses_List env opts c =
     (case NewRootListAction env jspolicyviolationsesResource jspolicyviolationsesKind opts of
        Inl panic \<Rightarrow> Inl panic
      | Inr action \<Rightarrow>
          filter_labelled env opts as_JsPolicyViolationsList JsPolicyViolationsObject (Invokes action (zero_list ''JsPolicyViolations'') c))"

definition FakeJsPolicyViolationses_Watch ::
  "fake_env \<Rightarrow> list_opts \<Rightarrow> fake \<Rightarrow> string + (nat option \<times> go_error option) \<times> fake" where
  "FakeJsPolicyViolationses_Watch env opts c =
     map_sum id (\<lambda>action. InvokesWatch action c) (NewRootWatchAction env jspolicyviolationsesResource opts)"

definition FakeJsPolicyViolationses_Create ::
  "fake_env \<Rightarrow> JsPolicyViolations \<Rightarrow> write_opts \<Rightarrow> fake \<Rightarrow> string + (JsPolicyViolations option \<times> go_error option) \<times> fake" where
  "FakeJsPolicyViolationses_Create env obj opts c =
     result_as as_JsPolicyViolations (Invokes (NewRootCreateAction jspolicyviolationsesResource (JsPolicyViolationsObject obj)) (zero_object ''JsPolicyViolations'') c)"

definition FakeJsPolicyViolationses_Update ::
  "fake_env \<Rightarrow> JsPolicyViolations \<Rightarrow> write_opts \<Rightarrow> fake \<Rightarrow> string + (JsPolicyViolations option \<times> go_error option) \<times> fake" where
  "FakeJsPolicyViolationses_Update env obj opts c =
     result_as as_JsPolicyViolations (Invokes (NewRootUpdateAction jspolicyviolationsesResource (JsPolicyViolationsObject obj)) (zero_object ''JsPolicyViolations'') c)"

definition FakeJsPolicyViolationses_UpdateStatus ::
  "fake_env \<Rightarrow> JsPolicyViolations \<Rightarrow> write_opts \<Rightarrow> fake \<Rightarrow> string + (JsPolicyViolations option \<times> go_error option) \<times> fake" where
  "FakeJsPolicyViolationses_UpdateStatus env obj opts c =
     result_as as_JsPolicyViolations (Invokes (NewRootUpdateSubresourceAction jspolicyviolationsesResource ''status'' (JsPolicyViolationsObject obj)) (zero_object ''JsPolicyViolations'') c)"

definition FakeJsPolicyViolationses_Delete ::
  "fake_env \<Rightarrow> string \<Rightarrow> delete_opts \<Rightarrow> fake \<Rightarrow> string + go_error option \<times> fake" where
  "FakeJsPolicyViolationses_Delete env name opts c =
     Inr (apfst snd (Invokes (NewRootDeleteAction jspolicyviolationsesResource name) (zero_object ''JsPolicyViolations'') c))"

definition FakeJsPolicyViolationses_DeleteCollection ::
  "fake_env \<Rightarrow> delete_opts \<Rightarrow> list_opts \<Rightarrow> fake \<Rightarrow> string + go_error option \<times> fake" where
  "FakeJsPolicyViolationses_DeleteCollection env opts listOpts c =
     map_sum id (\<lambda>action. apfst snd (Invokes action (zero_list ''JsPolicyViolations'') c)) (NewRootDeleteCollectionAction env jspolicyviolationsesResource listOpts)"

definition FakeJsPolicyViolationses_Patch ::
  "fake_env \<Rightarrow> string \<Rightarrow> string \<Rightarrow> string \<Rightarrow> write_opts \<Rightarrow> bool option \<Rightarrow> string list \<Rightarrow> fake \<Rightarrow> string + (JsPolicyViolations option \<times> go_error option) \<times> fake" where
  "FakeJsPolicyViolationses_Patch env name pt data opts force subresources c =
     result_as as_JsPolicyViolations (Invokes (NewRootPatchSubresourceAction jspolicyviolationsesResource name pt data subresources) (zero_object ''JsPolicyViolations'') c)"

fun FakeJsPolicyViolationses_call :: "fake_env \<Rightarrow> typed_call \<Rightarrow> fake \<Rightarrow> (string + call_result \<times> fake) option" where
  "FakeJsPolicyViolationses_call env (GetCall name options) c = Some (got_object JsPolicyViolationsObject (FakeJsPolicyViolationses_Get env name options c))"
| "FakeJsPolicyViolationses_call env (ListCall opts) c = Some (listed JsPolicyViolationsObject (FakeJsPolicyViolationses_List env opts c))"
| "FakeJsPolicyViolationses_call env (WatchCall opts) c = Some (watched (FakeJsPolicyViolationses_Watch env opts c))"
| "FakeJsPolicyViolationses_call env (CreateCall (JsPolicyViolationsObject obj) opts) c = Some (got_object JsPolicyViolationsObject (FakeJsPolicyViolationses_Create env obj opts c))"
| "FakeJsPolicyViolationses_call env (UpdateCall (JsPolicyViolationsObject obj) opts) c = Some (got_object JsPolicyViolationsObject (FakeJsPolicyViolationses_Update env obj opts c))"
| "FakeJsPolicyViolationses_call env (UpdateStatusCall (JsPolicyViolationsObject obj) opts) c = Some (got_object JsPolicyViolationsObject (FakeJsPolicyViolationses_UpdateStatus env obj opts c))"
| "FakeJsPolicyViolationses_call env (DeleteCall name opts) c = Some (deleted (FakeJsPolicyViolationses_Delete env name opts c))"
| "FakeJsPolicyViolationses_call env (DeleteCollectionCall opts listOpts) c = Some (deleted (FakeJsPolicyViolationses_DeleteCollection env opts listOpts c))"
| "FakeJsPolicyViolationses_call env (PatchCall name pt data opts force subs) c = Some (got_object JsPolicyViolationsObject (FakeJsPolicyViolationses_Patch env name pt data opts force subs c))"
| "FakeJsPolicyViolationses_call env _ c = None"

text \<open>\<open>FakePolicyReports\<close>\<close>

definition policyreportsResource :: gvr where
  "policyreportsResource = (''wgpolicyk8s.io'', ''v1alpha2'', ''policyreports'')"

definition policyreportsKind :: GroupVersionKind where
  "policyreportsKind = \<lparr>gvkGroup = ''wgpolicyk8s.io'', gvkVersion = ''v1alpha2'', gvkKind = ''PolicyReport''\<rparr>"

definition FakePolicyReports_Get ::
  "fake_env \<Rightarrow> string \<Rightarrow> string \<Rightarrow> string \<Rightarrow> fake \<Rightarrow> string + (PolicyReport option \<times> go_error option) \<times> fake" where
  "FakePolicyReports_Get env ns name options c =
     result_as as_PolicyReport (Invokes (NewGetAction policyreportsResource ns name) (zero_object ''PolicyReport'') c)"

definition FakePolicyReports_List ::
  "fake_env \<Rightarrow> string \<Rightarrow> list_opts \<Rightarrow> fake \<Rightarrow> string + (PolicyReport list option \<times> go_error option) \<times> fake" where
  "FakePolicyReports_List env ns opts c =
     (case NewListAction env policyreportsResource policyreportsKind ns opts of
        Inl panic \<Rightarrow> Inl panic
      | Inr action \<Rightarrow>
          filter_labelled env opts as_PolicyReportList PolicyReportObject (Invokes action (zero_list ''PolicyReport'') c))"

definition FakePolicyReports_Watch ::
  "fake_env \<Rightarrow> string \<Rightarrow> list_opts \<Rightarrow> fake \<Rightarrow> string + (nat option \<times> go_error option) \<times> fake" where
  "FakePolicyReports_Watch env ns opts c =
     map_sum id (\<lambda>action. InvokesWatch action c) (NewWatchAction env policyreportsResource ns opts)"

definition FakePolicyReports_Create ::
  "fake_env \<Rightarrow> string \<Rightarrow> PolicyReport \<Rightarrow> write_opts \<Rightarrow> fake \<Rightarrow> string + (PolicyReport option \<times> go_error option) \<times> fake" where
  "FakePolicyReports_Create env ns obj opts c =
     result_as as_PolicyReport (Invokes (NewCreateAction policyreportsResource ns (PolicyReportObject obj)) (zero_object ''PolicyReport'') c)"

definition FakePolicyReports_Update ::
  "fake_env \<Rightarrow> string \<Rightarrow> PolicyReport \<Rightarrow> write_opts \<Rightarrow> fake \<Rightarrow> string + (PolicyReport option \<times> go_error option) \<times> fake" where
  "FakePolicyReports_Update env ns obj opts c =
     result_as as_PolicyReport (Invokes (NewUpdateAction policyreportsResource ns (PolicyReportObject obj)) (zero_object ''PolicyReport'') c)"

definition FakePolicyReports_Delete ::
  "fake_env \<Rightarrow> string \<Rightarrow> string \<Rightarrow> delete_opts \<Rightarrow> fake \<Rightarrow> string + go_error option \<times> fake" where
  "FakePolicyReports_Delete env ns name opts c =
     Inr (apfst snd (Invokes (NewDeleteAction policyreportsResource ns name) (zero_object ''PolicyReport'') c))"

definition FakePolicyReports_DeleteCollection ::
  "fake_env \<Rightarrow> string \<Rightarrow> delete_opts \<Rightarrow> list_opts \<Rightarrow> fake \<Rightarrow> string + go_error option \<times> fake" where
  "FakePolicyReports_DeleteCollection env ns opts listOpts c =
     map_sum id (\<lambda>action. apfst snd (Invokes action (zero_list ''PolicyReport'') c)) (NewDeleteCollectionAction env policyreportsResource ns listOpts)"

definition FakePolicyReports_Patch ::
  "fake_env \<Rightarrow> string \<Rightarrow> string \<Rightarrow> string \<Rightarrow> string \<Rightarrow> write_opts \<Rightarrow> bool option \<Rightarrow> string list \<Rightarrow> fake \<Rightarrow> string + (PolicyReport option \<times> go_error option) \<times> fake" where
  "FakePolicyReports_Patch env ns name pt data opts force subresources c =
     result_as as_PolicyReport (Invokes (NewPatchSubresourceAction policyreportsResource ns name pt data subresources) (zero_object ''PolicyReport'') c)"

fun FakePolicyReports_call :: "fake_env \<Rightarrow> string \<Rightarrow> typed_call \<Rightarrow> fake \<Rightarrow> (string + call_result \<times> fake) option" where
  "FakePolicyReports_call env ns (GetCall name options) c = Some (got_object PolicyReportObject (FakePolicyReports_Get env ns name options c))"
| "FakePolicyReports_call env ns (ListCall opts) c = Some (listed PolicyReportObject (FakePolicyReports_List env ns opts c))"
| "FakePolicyReports_call env ns (WatchCall opts) c = Some (watched (FakePolicyReports_Watch env ns opts c))"
| "FakePolicyReports_call env ns (CreateCall (PolicyReportObject obj) opts) c = Some (got_object PolicyReportObject (FakePolicyReports_Create env ns obj opts c))"
| "FakePolicyReports_call env ns (UpdateCall (PolicyReportObject obj) opts) c = Some (got_object PolicyReportObject (FakePolicyReports_Update env ns obj opts c))"
| "FakePolicyReports_call env ns (DeleteCall name opts) c = Some (deleted (FakePolicyReports_Delete env ns name opts c))"
| "FakePolicyReports_call env ns (DeleteCollectionCall opts listOpts) c = Some (deleted (FakePolicyReports_DeleteCollection env ns opts listOpts c))"
| "FakePolicyReports_call env ns (PatchCall name pt data opts force subs) c = Some (got_object PolicyReportObject (FakePolicyReports_Patch env ns name pt data opts force subs c))"
| "FakePolicyReports_call env ns _ c = None"

text \<open>\<open>FakeClusterPolicyReports\<close>\<close>

definition clusterpolicyreportsResource :: gvr where
  "clusterpolicyreportsResource = (''wgpolicyk8s.io'', ''v1alpha2'', ''clusterpolicyreports'')"

definition clusterpolicyreportsKind :: GroupVersionKind where
  "clusterpolicyreportsKind = \<lparr>gvkGroup = ''wgpolicyk8s.io'', gvkVersion = ''v1alpha2'', gvkKind = ''ClusterPolicyReport''\<rparr>"

definition FakeClusterPolicyReports_Get ::
  "fake_env \<Rightarrow> string \<Rightarrow> string \<Rightarrow> fake \<Rightarrow> string + (PolicyReport option \<times> go_error option) \<times> fake" where
  "FakeClusterPolicyReports_Get env name options c =
     result_as as_ClusterPolicyReport (Invokes (NewRootGetAction clusterpolicyreportsResource name) (zero_object ''ClusterPolicyReport'') c)"

definition FakeClusterPolicyReports_List ::
  "fake_env \<Rightarrow> list_opts \<Rightarrow> fake \<Rightarrow> string + (PolicyReport list option \<times> go_error option) \<times> fake" where
  "FakeClusterPolicyReports_List env opts c =
     (case NewRootListAction env clusterpolicyreportsResource clusterpolicyreportsKind opts of
        Inl panic \<Rightarrow> Inl panic
      | Inr action \<Rightarrow>
          filter_labelled env opts as_ClusterPolicyReportList ClusterPolicyReportObject (Invokes action (zero_list ''ClusterPolicyReport'') c))"

definition FakeClusterPolicyReports_Watch ::
  "fake_env \<Rightarrow> list_opts \<Rightarrow> fake \<Rightarrow> string + (nat option \<times> go_error option) \<times> fake" where
  "FakeClusterPolicyReports_Watch env opts c =
     map_sum id (\<lambda>action. InvokesWatch action c) (NewRootWatchAction env clusterpolicyreportsResource opts)"

definition FakeClusterPolicyReports_Create ::
  "fake_env \<Rightarrow> PolicyReport \<Rightarrow> write_opts \<Rightarrow> fake \<Rightarrow> string + (PolicyReport option \<times> go_error option) \<times> fake" where
  "FakeClusterPolicyReports_Create env obj opts c =
     result_as as_ClusterPolicyReport (Invokes (NewRootCreateAction clusterpolicyreportsResource (ClusterPolicyReportObject obj)) (zero_object ''ClusterPolicyReport'') c)"

definition FakeClusterPolicyReports_Update ::
  "fake_env \<Rightarrow> PolicyReport \<Rightarrow> write_opts \<Rightarrow> fake \<Rightarrow> string + (PolicyReport option \<times> go_error option) \<times> fake" where
  "FakeClusterPolicyReports_Update env obj opts c =
     result_as as_ClusterPolicyReport (Invokes (NewRootUpdateAction clusterpolicyreportsResource (ClusterPolicyReportObject obj)) (zero_object ''ClusterPolicyReport'') c)"

definition FakeClusterPolicyReports_Delete ::
  "fake_env \<Rightarrow> string \<Rightarrow> delete_opts \<Rightarrow> fake \<Rightarrow> string + go_error option \<times> fake" where
  "FakeClusterPolicyReports_Delete env name opts c =
     Inr (apfst snd (Invokes (NewRootDeleteAction clusterpolicyreportsResource name) (zero_object ''ClusterPolicyReport'') c))"

definition FakeClusterPolicyReports_DeleteCollection ::
  "fake_env \<Rightarrow> delete_opts \<Rightarrow> list_opts \<Rightarrow> fake \<Rightarrow> string + go_error option \<times> fake" where
  "FakeClusterPolicyReports_DeleteCollection env opts listOpts c =
     map_sum id (\<lambda>action. apfst snd (Invokes action (zero_list ''ClusterPolicyReport'') c)) (NewRootDeleteCollectionAction env clusterpolicyreportsResource listOpts)"

definition FakeClusterPolicyReports_Patch ::
  "fake_env \<Rightarrow> string \<Rightarrow> string \<Rightarrow> string \<Rightarrow> write_opts \<Rightarrow> bool option \<Rightarrow> string list \<Rightarrow> fake \<Rightarrow> string + (PolicyReport option \<times> go_error option) \<times> fake" where
  "FakeClusterPolicyReports_Patch env name pt data opts force subresources c =
     result_as as_ClusterPolicyReport (Invokes (NewRootPatchSubresourceAction clusterpolicyreportsResource name pt data subresources) (zero_object ''ClusterPolicyReport'') c)"

fun FakeClusterPolicyReports_call :: "fake_env \<Rightarrow> typed_call \<Rightarrow> fake \<Rightarrow> (string + call_result \<times> fake) option" where
  "FakeClusterPolicyReports_call env (GetCall name options) c = Some (got_object ClusterPolicyReportObject (FakeClusterPolicyReports_Get env name options c))"
| "FakeClusterPolicyReports_call env (ListCall opts) c = Some (listed ClusterPolicyReportObject (FakeClusterPolicyReports_List env opts c))"
| "FakeClusterPolicyReports_call env (WatchCall opts) c = Some (watched (FakeClusterPolicyReports_Watch env opts c))"
| "FakeClusterPolicyReports_call env (CreateCall (ClusterPolicyReportObject obj) opts) c = Some (got_object ClusterPolicyReportObject (FakeClusterPolicyReports_Create env obj opts c))"
| "FakeClusterPolicyReports_call env (UpdateCall (ClusterPolicyReportObject obj) opts) c = Some (got_object ClusterPolicyReportObject (FakeClusterPolicyReports_Update env obj opts c))"
| "FakeClusterPolicyReports_call env (DeleteCall name opts) c = Some (deleted (FakeClusterPolicyReports_Delete env name opts c))"
| "FakeClusterPolicyReports_call env (DeleteCollectionCall opts listOpts) c = Some (deleted (FakeClusterPolicyReports_DeleteCollection env opts listOpts c))"
| "FakeClusterPolicyReports_call env (PatchCall name pt data opts force subs) c = Some (got_object ClusterPolicyReportObject (FakeClusterPolicyReports_Patch env name pt data opts force subs c))"
| "FakeClusterPolicyReports_call env _ c = None"

section \<open>The fake clientset (clientset/fake/clientset\_generated.go)\<close>

definition watch_reaction :: "fake_action \<Rightarrow> tracker \<Rightarrow> (bool \<times> nat option \<times> go_error option) \<times> tracker" where
  "watch_reaction action t =
     (case tracker_Watch (faResource action) (faNamespace action) t of (w, t') \<Rightarrow> ((True, Some w, None), t'))"

text \<open>The reactors that \<open>NewSimpleClientset\<close> adds.\<close>

definition simple_fake :: "fake_env \<Rightarrow> tracker \<Rightarrow> fake" where
  "simple_fake env t = AddWatchReactor ''*'' watch_reaction (AddReactor ''*'' ''*'' (ObjectReaction env)
     \<lparr>fkActions = [], fkReactionChain = [], fkWatchReactionChain = [], fkTracker = t\<rparr>)"

fun add_objects :: "runtime_object list \<Rightarrow> tracker \<Rightarrow> string + tracker" where
  "add_objects [] t = Inr t"
| "add_objects (obj # objs) t =
     (case tracker_Add obj t of (Some err, _) \<Rightarrow> Inl (err_text err) | (None, t') \<Rightarrow> add_objects objs t')"

definition NewSimpleClientset :: "fake_env \<Rightarrow> runtime_object list \<Rightarrow> string + fake" where
  "NewSimpleClientset env objects = map_sum id (simple_fake env) (add_objects objects NewObjectTracker)"

text \<open>A call of any method of the fake clientset.\<close>

fun fake_call :: "fake_env \<Rightarrow> typed_resource \<Rightarrow> typed_call \<Rightarrow> fake \<Rightarrow> (string + call_result \<times> fake) option" where
  "fake_call env JsPolicies = FakeJsPolicies_call env"
| "fake_call env JsPolicyBundles = FakeJsPolicyBundles_call env"
| "fake_call env JsPolicyViolationses = FakeJsPolicyViolationses_call env"
| "fake_call env (PolicyReports namespace) = FakePolicyReports_call env namespace"
| "fake_call env ClusterPolicyReports = FakeClusterPolicyReports_call env"

end
