(* ===== verification/FakeStore.thy ===== *)
theory FakeStore
  imports FakeClient
begin

text \<open>
  What the fake clientset of theory \<open>FakeClient\<close> promises: a store of objects by resource, namespace and name, which every
  call of its clients reads or writes as the specification here says.
\<close>

section \<open>The store that the tracker is\<close>

text \<open>The resource under which an object is kept.\<close>

definition object_gvr :: "runtime_object \<Rightarrow> gvr option" where
  "object_gvr obj = map_option UnsafeGuessKindToResource (object_kind obj)"

type_synonym object_store = "gvr \<times> string \<times> string \<Rightarrow> runtime_object option"

definition fake_store :: "fake \<Rightarrow> object_store" where
  "fake_store c = map_of (tkObjects (fkTracker c))"

definition object_key :: "runtime_object \<Rightarrow> string \<times> string" where
  "object_key obj = (object_namespace obj, object_name obj)"

definition tracker_ok :: "tracker \<Rightarrow> bool" where
  "tracker_ok t \<longleftrightarrow> distinct (map fst (tkObjects t)) \<and>
     (\<forall>(k, obj)\<in>set (tkObjects t). object_gvr obj = Some (fst k) \<and> object_key obj = snd k)"

definition simple :: "fake_env \<Rightarrow> fake \<Rightarrow> bool" where
  "simple env c \<longleftrightarrow> fkReactionChain c = [\<lparr>rxVerb = ''*'', rxResource = ''*'', rxReact = ObjectReaction env\<rparr>] \<and>
     fkWatchReactionChain c = [\<lparr>wxResource = ''*'', wxReact = watch_reaction\<rparr>]"

lemma simple_fake_simple [simp]: "simple env (simple_fake env t)" "fkTracker (simple_fake env t) = t"
  by (simp_all add: simple_def simple_fake_def AddReactor_def AddWatchReactor_def)

lemma tracker_okD:
  assumes "tracker_ok t" and "map_of (tkObjects t) k = Some obj"
  shows "object_gvr obj = Some (fst k)" and "object_key obj = snd k"
  using assms map_of_SomeD [OF assms(2)] by (auto simp: tracker_ok_def)

lemma set_map_put: "x \<in> set (map_put k v m) \<Longrightarrow> x = (k, v) \<or> x \<in> set m"
  by (induction k v m rule: map_put.induct) (auto split: if_splits)

lemma tracker_ok_put:
  "tracker_ok t \<Longrightarrow> object_gvr obj = Some g \<Longrightarrow> object_key obj = k \<Longrightarrow> tkObjects t' = map_put (g, k) obj (tkObjects t) \<Longrightarrow>
   tracker_ok t'"
  by (auto simp: tracker_ok_def simp del: set_map dest!: set_map_put)

lemma tracker_ok_del: "tracker_ok t \<Longrightarrow> tkObjects t' = map_del k (tkObjects t) \<Longrightarrow> tracker_ok t'"
  by (auto simp: tracker_ok_def map_del_def distinct_map_filter)

lemma broadcast_objects [simp]: "tkObjects (broadcast g ns e t) = tkObjects t"
  by (simp add: broadcast_def)

lemma set_namespace_simps [simp]:
  "object_kind (set_namespace ns obj) = object_kind obj" "object_name (set_namespace ns obj) = object_name obj"
  "object_gvr (set_namespace ns obj) = object_gvr obj"
  by (cases obj; simp add: object_gvr_def)+

text \<open>The object as it is stored, from a call in a namespace.\<close>

definition in_namespace :: "string \<Rightarrow> runtime_object \<Rightarrow> runtime_object" where
  "in_namespace ns obj = (if object_namespace obj = [] then set_namespace ns obj else obj)"

lemma in_namespace_simps [simp]:
  "object_kind (in_namespace ns obj) = object_kind obj" "object_name (in_namespace ns obj) = object_name obj"
  "object_gvr (in_namespace ns obj) = object_gvr obj"
  by (simp_all add: in_namespace_def)

text \<open>What a write of an object does to a store.\<close>

definition write_step :: "bool \<Rightarrow> gvr \<Rightarrow> string \<Rightarrow> runtime_object \<Rightarrow> object_store \<Rightarrow> go_error option \<Rightarrow> object_store \<Rightarrow> bool" where
  "write_step replace g ns obj s err s' \<longleftrightarrow>
     (let obj' = in_namespace ns obj; k = (g, ns, object_name obj) in
      if object_namespace obj' \<noteq> ns then s' = s \<and> err \<noteq> None
      else if replace \<noteq> (s k \<noteq> None)
      then s' = s \<and> err = Some (if replace then NewNotFound_of g (object_name obj) else NewAlreadyExists_of g (object_name obj))
      else s' = s(k \<mapsto> obj') \<and> err = None)"

lemma tracker_add_step:
  assumes "tracker_ok t" and "object_gvr obj = Some g" and "tracker_add g obj ns replace t = (err, t')"
  shows "write_step replace g ns obj (map_of (tkObjects t)) err (map_of (tkObjects t'))" and "tracker_ok t'"
proof -
  let ?obj = "in_namespace ns obj" and ?k = "(g, ns, object_name obj)"
  have add: "tracker_add g obj ns replace t =
     (if ns \<noteq> object_namespace ?obj then (Some (Errorf (''request namespace does not match object namespace, request: '' @
        quoted ns @ '' object: '' @ quoted (object_namespace ?obj))), t)
      else case map_of (tkObjects t) (g, object_namespace ?obj, object_name obj) of
        Some _ \<Rightarrow> if replace then (None, (broadcast g ns (Modified ?obj) t)\<lparr>tkObjects := map_put (g, object_namespace ?obj, object_name obj) ?obj (tkObjects t)\<rparr>)
          else (Some (NewAlreadyExists_of g (object_name obj)), t)
      | None \<Rightarrow> if replace then (Some (NewNotFound_of g (object_name obj)), t)
          else (None, (broadcast g ns (Added ?obj) t)\<lparr>tkObjects := map_put (g, object_namespace ?obj, object_name obj) ?obj (tkObjects t)\<rparr>))"
  proof -
    have e: "(if length (object_namespace obj) = 0 then set_namespace ns obj else obj) = ?obj" by (simp add: in_namespace_def)
    show ?thesis unfolding tracker_add_def Let_def e in_namespace_simps by (rule refl)
  qed
  have put: "tracker_ok t''" if "ns = object_namespace ?obj" "tkObjects t'' = map_put (g, object_namespace ?obj, object_name obj) ?obj (tkObjects t)" for t''
    by (rule tracker_ok_put [OF assms(1) _ _ that(2)]) (simp_all add: assms(2) object_key_def)
  show "write_step replace g ns obj (map_of (tkObjects t)) err (map_of (tkObjects t'))"
    using assms(3) unfolding add write_step_def Let_def by (auto split: if_splits option.splits)
  show "tracker_ok t'"
    using assms(1,3) put unfolding add by (auto split: if_splits option.splits)
qed

section \<open>What a call of the fake does to the store\<close>

fun resource_gvr :: "typed_resource \<Rightarrow> gvr" where
  "resource_gvr JsPolicies = jspoliciesResource"
| "resource_gvr JsPolicyBundles = jspolicybundlesResource"
| "resource_gvr JsPolicyViolationses = jspolicyviolationsesResource"
| "resource_gvr (PolicyReports _) = policyreportsResource"
| "resource_gvr ClusterPolicyReports = clusterpolicyreportsResource"

fun resource_namespace :: "typed_resource \<Rightarrow> string" where
  "resource_namespace (PolicyReports namespace) = namespace"
| "resource_namespace _ = []"

text \<open>The objects that a list shows, in the order of their namespaces and names.\<close>

definition lists :: "fake_env \<Rightarrow> gvr \<Rightarrow> string \<Rightarrow> ((string \<times> string) list \<Rightarrow> bool) \<Rightarrow> object_store \<Rightarrow> runtime_object list \<Rightarrow> bool" where
  "lists env g ns label s objs \<longleftrightarrow>
     set objs = {obj. (\<exists>k. s (g, k) = Some obj) \<and> (ns = [] \<or> object_namespace obj = ns) \<and> label (feLabels env obj)} \<and>
     sorted_wrt (\<lambda>a b. object_namespace a < object_namespace b \<or>
        (object_namespace a = object_namespace b \<and> object_name a < object_name b)) objs"

text \<open>
  The specification: an API server that keeps objects by resource, namespace and name. Where the fake differs from one is
  written out: \<open>DeleteCollection\<close> reports success and deletes nothing, and the status is written with the rest.
\<close>

definition get_spec :: "gvr \<Rightarrow> string \<Rightarrow> string \<Rightarrow> object_store \<Rightarrow> call_result \<Rightarrow> object_store \<Rightarrow> bool" where
  "get_spec g ns name s r s' \<longleftrightarrow> s' = s \<and>
     r = (case s (g, ns, name) of Some obj \<Rightarrow> GotObject (Some obj) None | None \<Rightarrow> GotObject None (Some (NewNotFound_of g name)))"

definition write_spec :: "bool \<Rightarrow> gvr \<Rightarrow> string \<Rightarrow> runtime_object \<Rightarrow> object_store \<Rightarrow> call_result \<Rightarrow> object_store \<Rightarrow> bool" where
  "write_spec replace g ns obj s r s' \<longleftrightarrow>
     (\<exists>err. write_step replace g ns obj s err s' \<and> r = GotObject (if err = None then s' (g, ns, object_name obj) else None) err)"

definition delete_spec :: "gvr \<Rightarrow> string \<Rightarrow> string \<Rightarrow> object_store \<Rightarrow> call_result \<Rightarrow> object_store \<Rightarrow> bool" where
  "delete_spec g ns name s r s' \<longleftrightarrow> (case s (g, ns, name) of
     None \<Rightarrow> s' = s \<and> r = Finished (Some (NewNotFound_of g name))
   | Some _ \<Rightarrow> s' = s((g, ns, name) := None) \<and> r = Finished None)"

definition patch_spec :: "fake_env \<Rightarrow> gvr \<Rightarrow> string \<Rightarrow> string \<Rightarrow> string \<Rightarrow> string \<Rightarrow> object_store \<Rightarrow> call_result \<Rightarrow> object_store \<Rightarrow> bool" where
  "patch_spec env g ns name pt patch s r s' \<longleftrightarrow> (case s (g, ns, name) of
     None \<Rightarrow> s' = s \<and> r = GotObject None (Some (NewNotFound_of g name))
   | Some old \<Rightarrow>
       if pt \<notin> set patch_types then s' = s \<and> (\<exists>err. r = GotObject None (Some err))
       else case fePatch env pt old patch of
              Inl err \<Rightarrow> s' = s \<and> r = GotObject None (Some err)
            | Inr obj \<Rightarrow> (\<exists>err. write_step True g ns obj s err s' \<and> r = GotObject (if err = None then Some obj else None) err))"

fun store_step :: "fake_env \<Rightarrow> gvr \<Rightarrow> string \<Rightarrow> typed_call \<Rightarrow> object_store \<Rightarrow> call_result \<Rightarrow> object_store \<Rightarrow> bool" where
  "store_step env g ns (GetCall name _) s r s' \<longleftrightarrow> get_spec g ns name s r s'"
| "store_step env g ns (ListCall opts) s r s' \<longleftrightarrow> s' = s \<and>
     (\<exists>label objs. ExtractFromListOptions env opts = Inr label \<and> r = Listed (Some objs) None \<and> lists env g ns label s objs)"
| "store_step env g ns (WatchCall _) s r s' \<longleftrightarrow> s' = s \<and> (\<exists>n. r = Watched (Some n) None)"
| "store_step env g ns (CreateCall obj _) s r s' \<longleftrightarrow> write_spec False g ns obj s r s'"
| "store_step env g ns (UpdateCall obj _) s r s' \<longleftrightarrow> write_spec True g ns obj s r s'"
| "store_step env g ns (UpdateStatusCall obj _) s r s' \<longleftrightarrow> write_spec True g ns obj s r s'"
| "store_step env g ns (DeleteCall name _) s r s' \<longleftrightarrow> delete_spec g ns name s r s'"
| "store_step env g ns (DeleteCollectionCall _ _) s r s' \<longleftrightarrow> s' = s \<and> r = Finished None"
| "store_step env g ns (PatchCall name pt patch _ _ _) s r s' \<longleftrightarrow> patch_spec env g ns name pt patch s r s'"

text \<open>The selectors of a call, which \<open>ExtractFromListOptions\<close> parses or panics.\<close>

fun selectors :: "typed_call \<Rightarrow> list_opts option" where
  "selectors (ListCall opts) = Some opts"
| "selectors (WatchCall opts) = Some opts"
| "selectors (DeleteCollectionCall _ opts) = Some opts"
| "selectors _ = None"

text \<open>A patch gives an object of the kind that was patched: it is unmarshalled into one.\<close>

definition keeps_kinds :: "fake_env \<Rightarrow> bool" where
  "keeps_kinds env \<longleftrightarrow> (\<forall>pt obj patch obj'. fePatch env pt obj patch = Inr obj' \<longrightarrow> object_kind obj' = object_kind obj)"

lemma Invokes_simple:
  assumes "simple env c"
  shows "Invokes action d c = (case ObjectReaction env action (fkTracker c) of
     ((handled, ret, err), t) \<Rightarrow>
       (if handled then (ret, err) else (Some d, None), c\<lparr>fkActions := fkActions c @ [action], fkTracker := t\<rparr>))"
proof -
  have "SimpleReactor_Handles \<lparr>rxVerb = ''*'', rxResource = ''*'', rxReact = ObjectReaction env\<rparr> action"
    by (simp add: SimpleReactor_Handles_def resourceCovers_def)
  then show ?thesis using assms by (auto simp: Invokes_def simple_def split: prod.splits if_splits)
qed

lemma InvokesWatch_simple:
  assumes "simple env c"
  shows "InvokesWatch action c = (case tracker_Watch (faResource action) (faNamespace action) (fkTracker c) of
     (n, t) \<Rightarrow> ((Some n, None), c\<lparr>fkActions := fkActions c @ [action], fkTracker := t\<rparr>))"
  using assms by (auto simp: InvokesWatch_def simple_def resourceCovers_def watch_reaction_def split: prod.splits)

text \<open>After any call the fake is one still, and has recorded an action.\<close>

definition fake_ok :: "fake_env \<Rightarrow> fake \<Rightarrow> bool" where
  "fake_ok env c \<longleftrightarrow> simple env c \<and> tracker_ok (fkTracker c)"

definition stepped :: "fake_env \<Rightarrow> fake \<Rightarrow> fake_action \<Rightarrow> fake \<Rightarrow> bool" where
  "stepped env c action c' \<longleftrightarrow> fake_ok env c' \<and> fkActions c' = fkActions c @ [action]"

text \<open>The resources that are guessed from the kinds are those of the fakes.\<close>

lemma guessed_resources [simp]:
  "object_gvr (JsPolicyObject p) = Some jspoliciesResource"
  "object_gvr (JsPolicyBundleObject b) = Some jspolicybundlesResource"
  "object_gvr (JsPolicyViolationsObject v) = Some jspolicyviolationsesResource"
  "object_gvr (PolicyReportObject r) = Some policyreportsResource"
  "object_gvr (ClusterPolicyReportObject r) = Some clusterpolicyreportsResource"
  unfolding object_gvr_def object_kind.simps option.map option.inject by code_simp+

lemma resource_distinct: "distinct [jspoliciesResource, jspolicybundlesResource, jspolicyviolationsesResource, policyreportsResource,
    clusterpolicyreportsResource]"
  by (simp add: jspoliciesResource_def jspolicybundlesResource_def jspolicyviolationsesResource_def policyreportsResource_def
    clusterpolicyreportsResource_def)

lemma object_of_resource:
  "object_gvr obj = Some jspoliciesResource \<Longrightarrow> \<exists>x. as_JsPolicy obj = Some x \<and> JsPolicyObject x = obj"
  "object_gvr obj = Some jspolicybundlesResource \<Longrightarrow> \<exists>x. as_JsPolicyBundle obj = Some x \<and> JsPolicyBundleObject x = obj"
  "object_gvr obj = Some jspolicyviolationsesResource \<Longrightarrow> \<exists>x. as_JsPolicyViolations obj = Some x \<and> JsPolicyViolationsObject x = obj"
  "object_gvr obj = Some policyreportsResource \<Longrightarrow> \<exists>x. as_PolicyReport obj = Some x \<and> PolicyReportObject x = obj"
  "object_gvr obj = Some clusterpolicyreportsResource \<Longrightarrow> \<exists>x. as_ClusterPolicyReport obj = Some x \<and> ClusterPolicyReportObject x = obj"
proof -
  have none: "object_gvr obj = None" if "object_kind obj = None" using that by (simp add: object_gvr_def)
  show "object_gvr obj = Some jspoliciesResource \<Longrightarrow> \<exists>x. as_JsPolicy obj = Some x \<and> JsPolicyObject x = obj"
    "object_gvr obj = Some jspolicybundlesResource \<Longrightarrow> \<exists>x. as_JsPolicyBundle obj = Some x \<and> JsPolicyBundleObject x = obj"
    "object_gvr obj = Some jspolicyviolationsesResource \<Longrightarrow> \<exists>x. as_JsPolicyViolations obj = Some x \<and> JsPolicyViolationsObject x = obj"
    "object_gvr obj = Some policyreportsResource \<Longrightarrow> \<exists>x. as_PolicyReport obj = Some x \<and> PolicyReportObject x = obj"
    "object_gvr obj = Some clusterpolicyreportsResource \<Longrightarrow> \<exists>x. as_ClusterPolicyReport obj = Some x \<and> ClusterPolicyReportObject x = obj"
    using resource_distinct by (cases obj; use none in force)+
qed

lemma those_proj:
  "\<forall>obj\<in>set objs. \<exists>x. proj obj = Some x \<and> wrap x = obj \<Longrightarrow> \<exists>xs. those (map proj objs) = Some xs \<and> map wrap xs = objs"
  by (induction objs) auto

section \<open>How each action reacts\<close>

lemma react_get:
  assumes "faDetail a = GetActionImpl name"
  shows "ObjectReaction env a t = ((True, case map_of (tkObjects t) (faResource a, faNamespace a, name) of
     None \<Rightarrow> (None, Some (NewNotFound_of (faResource a) name)) | Some obj \<Rightarrow> (Some obj, None)), t)"
  by (simp add: ObjectReaction_def Let_def assms tracker_Get_def split: option.splits)

lemma write_stepD:
  assumes "write_step replace g ns obj s None s'"
  shows "s' (g, ns, object_name obj) = Some (in_namespace ns obj)" and "object_namespace (in_namespace ns obj) = ns"
  using assms by (auto simp: write_step_def Let_def split: if_splits)

lemma react_changed_step:
  assumes "tracker_ok t" and "object_gvr obj = Some g"
  shows "\<exists>err t'. react_changed g ns obj (tracker_add g obj ns replace t) =
      ((True, if err = None then map_of (tkObjects t') (g, ns, object_name obj) else None, err), t') \<and>
    write_step replace g ns obj (map_of (tkObjects t)) err (map_of (tkObjects t')) \<and> tracker_ok t'"
proof -
  obtain err t' where add: "tracker_add g obj ns replace t = (err, t')" by (cases "tracker_add g obj ns replace t")
  note step = tracker_add_step [OF assms add]
  have "react_changed g ns obj (err, t') = ((True, if err = None then map_of (tkObjects t') (g, ns, object_name obj) else None, err), t')"
    using write_stepD(1) [of replace g ns obj "map_of (tkObjects t)" "map_of (tkObjects t')"] step(1)
    by (cases err) (simp_all add: react_changed_def tracker_Get_def)
  then show ?thesis using step add by auto
qed

lemma react_create:
  assumes "tracker_ok t" and "object_gvr obj = Some (faResource a)" and "faDetail a = CreateActionImpl n obj" and "faSubresource a = []"
  shows "\<exists>err t'. ObjectReaction env a t = ((True, if err = None then map_of (tkObjects t') (faResource a, faNamespace a, object_name obj) else None, err), t') \<and>
    write_step False (faResource a) (faNamespace a) obj (map_of (tkObjects t)) err (map_of (tkObjects t')) \<and> tracker_ok t'"
  using react_changed_step [OF assms(1,2), of "faNamespace a" False] by (simp add: ObjectReaction_def Let_def assms(3,4) tracker_Create_def)

lemma react_update:
  assumes "tracker_ok t" and "object_gvr obj = Some (faResource a)" and "faDetail a = UpdateActionImpl obj"
  shows "\<exists>err t'. ObjectReaction env a t = ((True, if err = None then map_of (tkObjects t') (faResource a, faNamespace a, object_name obj) else None, err), t') \<and>
    write_step True (faResource a) (faNamespace a) obj (map_of (tkObjects t)) err (map_of (tkObjects t')) \<and> tracker_ok t'"
  using react_changed_step [OF assms(1,2), of "faNamespace a" True] by (simp add: ObjectReaction_def Let_def assms(3) tracker_Update_def)

lemma react_delete:
  assumes "tracker_ok t" and "faDetail a = DeleteActionImpl name opts"
  shows "\<exists>err t'. ObjectReaction env a t = ((True, None, err), t') \<and> tracker_ok t' \<and>
    (case map_of (tkObjects t) (faResource a, faNamespace a, name) of
       None \<Rightarrow> map_of (tkObjects t') = map_of (tkObjects t) \<and> err = Some (NewNotFound_of (faResource a) name)
     | Some _ \<Rightarrow> map_of (tkObjects t') = (map_of (tkObjects t))((faResource a, faNamespace a, name) := None) \<and> err = None)"
  using assms(1) by (auto simp: ObjectReaction_def Let_def assms(2) tracker_Delete_def intro: tracker_ok_del split: option.splits)

lemma patched_gvr:
  "keeps_kinds env \<Longrightarrow> fePatch env pt old patch = Inr obj \<Longrightarrow> object_gvr obj = object_gvr old"
  by (auto simp: keeps_kinds_def object_gvr_def)

lemma react_patch:
  assumes "tracker_ok t" and "keeps_kinds env" and "faDetail a = PatchActionImpl name pt patch"
  shows "\<exists>ret err t'. ObjectReaction env a t = ((True, ret, err), t') \<and> tracker_ok t' \<and>
    (\<forall>obj. ret = Some obj \<longrightarrow> object_gvr obj = Some (faResource a)) \<and>
    (case map_of (tkObjects t) (faResource a, faNamespace a, name) of
       None \<Rightarrow> t' = t \<and> ret = None \<and> err = Some (NewNotFound_of (faResource a) name)
     | Some old \<Rightarrow>
         if pt \<notin> set patch_types then t' = t \<and> ret = None \<and> err \<noteq> None
         else case fePatch env pt old patch of
                Inl e \<Rightarrow> t' = t \<and> ret = None \<and> err = Some e
              | Inr obj \<Rightarrow>
                  write_step True (faResource a) (faNamespace a) obj (map_of (tkObjects t)) err (map_of (tkObjects t')) \<and>
                  ret = (if err = None then Some obj else None))"
proof (cases "map_of (tkObjects t) (faResource a, faNamespace a, name)")
  case None
  then show ?thesis using assms(1) by (simp add: ObjectReaction_def Let_def assms(3) tracker_Get_def)
next
  case (Some old)
  note old = Some
  have get: "tracker_Get (faResource a) (faNamespace a) name t = Inr old" by (simp add: tracker_Get_def old)
  show ?thesis
  proof (cases "pt \<in> set patch_types")
    case False
    then show ?thesis using assms(1) old by (simp add: ObjectReaction_def Let_def assms(3) get)
  next
    case True
    show ?thesis
    proof (cases "fePatch env pt old patch")
      case (Inl e)
      then show ?thesis using assms(1) old True by (simp add: ObjectReaction_def Let_def assms(3) get)
    next
      case (Inr obj)
      obtain err t' where add: "tracker_add (faResource a) obj (faNamespace a) True t = (err, t')"
        by (cases "tracker_add (faResource a) obj (faNamespace a) True t")
      have gvr: "object_gvr obj = Some (faResource a)"
        using tracker_okD(1) [OF assms(1) old] patched_gvr [OF assms(2) Inr] by simp
      have "ObjectReaction env a t = ((True, if err = None then Some obj else None, err), t')"
        using True by (cases err) (simp_all add: ObjectReaction_def Let_def assms(3) get Inr tracker_Update_def add)
      then show ?thesis using tracker_add_step [OF assms(1) gvr add] old True Inr gvr by auto
    qed
  qed
qed

text \<open>The two stable sorts of \<open>filterByNamespace\<close> order the objects by namespace and name.\<close>

definition key_before :: "runtime_object \<Rightarrow> runtime_object \<Rightarrow> bool" where
  "key_before a b \<longleftrightarrow> object_namespace a < object_namespace b \<or>
     (object_namespace a = object_namespace b \<and> object_name a < object_name b)"

lemma sorted_by_keys:
  "sorted (map object_namespace objs) \<Longrightarrow> \<forall>n. sorted (map object_name (filter (\<lambda>obj. object_namespace obj = n) objs)) \<Longrightarrow>
   distinct (map object_key objs) \<Longrightarrow> sorted_wrt key_before objs"
proof (induction objs)
  case (Cons a objs)
  have "key_before a b" if "b \<in> set objs" for b
  proof -
    have ns: "object_namespace a \<le> object_namespace b" using Cons.prems(1) that by simp
    have "object_key a \<noteq> object_key b" using Cons.prems(3) that by force
    moreover have "object_name a \<le> object_name b" if "object_namespace a = object_namespace b"
      using Cons.prems(2) [rule_format, of "object_namespace b"] that \<open>b \<in> set objs\<close> by simp
    ultimately show ?thesis using ns by (auto simp: key_before_def object_key_def)
  qed
  moreover have "sorted (map object_name (filter (\<lambda>obj. object_namespace obj = n) objs))" for n
    using Cons.prems(2) [rule_format, of n] by (simp split: if_splits)
  ultimately show ?case using Cons by simp
qed simp

lemma filterByNamespace_sorted:
  assumes "distinct (map object_key objs)"
  shows "sorted_wrt key_before (filterByNamespace objs ns)"
proof (rule sorted_by_keys)
  let ?xs = "filter (\<lambda>obj. ns = [] \<or> object_namespace obj = ns) objs"
  show "sorted (map object_namespace (filterByNamespace objs ns))" by (simp add: filterByNamespace_def)
  show "\<forall>n. sorted (map object_name (filter (\<lambda>obj. object_namespace obj = n) (filterByNamespace objs ns)))"
    unfolding filterByNamespace_def sort_key_stable by (simp add: sorted_filter)
  have "distinct (map object_key ?xs)" using assms by (simp add: distinct_map_filter)
  then show "distinct (map object_key (filterByNamespace objs ns))"
    unfolding filterByNamespace_def by (simp add: distinct_map)
qed

lemma set_filterByNamespace [simp]:
  "set (filterByNamespace objs ns) = {obj \<in> set objs. ns = [] \<or> object_namespace obj = ns}"
  by (simp add: filterByNamespace_def)

definition of_resource :: "gvr \<Rightarrow> tracker \<Rightarrow> runtime_object list" where
  "of_resource g t = map snd (filter (\<lambda>(k, _). fst k = g) (tkObjects t))"

lemma of_resource:
  assumes "tracker_ok t"
  shows "set (of_resource g t) = {obj. \<exists>k. map_of (tkObjects t) (g, k) = Some obj}"
    and "obj \<in> set (of_resource g t) \<Longrightarrow> object_gvr obj = Some g"
    and "distinct (map object_key (of_resource g t))"
proof -
  have d: "distinct (map fst (tkObjects t))" and k: "(k, obj) \<in> set (tkObjects t) \<Longrightarrow> object_gvr obj = Some (fst k) \<and> object_key obj = snd k" for k obj
    using assms by (auto simp: tracker_ok_def)
  show "set (of_resource g t) = {obj. \<exists>k. map_of (tkObjects t) (g, k) = Some obj}"
    unfolding of_resource_def using d by (force simp: map_of_eq_Some_iff)
  show "obj \<in> set (of_resource g t) \<Longrightarrow> object_gvr obj = Some g"
    unfolding of_resource_def using k by fastforce
  have "map object_key (of_resource g t) = map snd (map fst (filter (\<lambda>(k, _). fst k = g) (tkObjects t)))"
    unfolding of_resource_def using k by (auto simp: case_prod_beta)
  moreover have "distinct (map snd (map fst (filter (\<lambda>(k, _). fst k = g) (tkObjects t))))"
  proof -
    have "distinct (map fst (filter (\<lambda>(k, _). fst k = g) (tkObjects t)))" using d by (simp add: distinct_map_filter)
    moreover have "inj_on snd (set (map fst (filter (\<lambda>(k, _). fst k = g) (tkObjects t))))" by (auto simp: inj_on_def)
    ultimately show ?thesis using distinct_map by blast
  qed
  ultimately show "distinct (map object_key (of_resource g t))" by simp
qed

lemma lists_of_resource:
  assumes "tracker_ok t"
  shows "lists env g ns label (map_of (tkObjects t))
     (filter (\<lambda>obj. label (feLabels env obj)) (filterByNamespace (of_resource g t) ns))"
  using sorted_wrt_filter [OF filterByNamespace_sorted [OF of_resource(3) [OF assms]], unfolded key_before_def]
  by (simp add: lists_def of_resource(1) [OF assms])

definition the_lists :: "fake_env \<Rightarrow> (runtime_object \<Rightarrow> 'a option) \<Rightarrow> ('a \<Rightarrow> runtime_object) \<Rightarrow> (runtime_object \<Rightarrow> 'a list option) \<Rightarrow> ('a list \<Rightarrow> runtime_object) \<Rightarrow>
    gvr \<Rightarrow> GroupVersionKind \<Rightarrow> bool" where
  "the_lists env proj wrap proj_list wrap_list g kind \<longleftrightarrow>
     (\<forall>obj. object_gvr obj = Some g \<longrightarrow> (\<exists>x. proj obj = Some x \<and> wrap x = obj)) \<and>
     (\<forall>xs. proj_list (wrap_list xs) = Some xs) \<and>
     (\<forall>objs. set_list (gvkKind kind) objs = (case those (map proj objs) of
        None \<Rightarrow> Inl (Errorf (''no list of kind '' @ gvkKind kind)) | Some xs \<Rightarrow> Inr (wrap_list xs)))"

lemma the_lists:
  "the_lists env as_JsPolicy JsPolicyObject as_JsPolicyList JsPolicyListObject jspoliciesResource jspoliciesKind"
  "the_lists env as_JsPolicyBundle JsPolicyBundleObject as_JsPolicyBundleList JsPolicyBundleListObject jspolicybundlesResource jspolicybundlesKind"
  "the_lists env as_JsPolicyViolations JsPolicyViolationsObject as_JsPolicyViolationsList JsPolicyViolationsListObject
     jspolicyviolationsesResource jspolicyviolationsesKind"
  "the_lists env as_PolicyReport PolicyReportObject as_PolicyReportList PolicyReportListObject policyreportsResource policyreportsKind"
  "the_lists env as_ClusterPolicyReport ClusterPolicyReportObject as_ClusterPolicyReportList ClusterPolicyReportListObject
     clusterpolicyreportsResource clusterpolicyreportsKind"
  using object_of_resource
  by (simp_all add: the_lists_def set_list_def jspoliciesKind_def jspolicybundlesKind_def jspolicyviolationsesKind_def
    policyreportsKind_def clusterpolicyreportsKind_def map_option_case split: option.splits)

text \<open>A list shows what is stored.\<close>

lemma list_step:
  assumes "fake_ok env c" and "the_lists env proj wrap proj_list wrap_list g kind" and "ExtractFromListOptions env opts = Inr label"
    and "faDetail a = ListActionImpl kind rs" and "faResource a = g" and "faNamespace a = ns"
  shows "\<exists>objs c'. listed wrap (filter_labelled env opts proj_list wrap (Invokes a d c)) = Inr (Listed (Some objs) None, c') \<and>
    lists env g ns label (fake_store c) objs \<and> stepped env c a c' \<and> fake_store c' = fake_store c"
proof -
  let ?objs = "filterByNamespace (of_resource g (fkTracker c)) ns"
  have ok: "simple env c" "tracker_ok (fkTracker c)" using assms(1) by (simp_all add: fake_ok_def)
  have "\<forall>obj\<in>set ?objs. \<exists>x. proj obj = Some x \<and> wrap x = obj"
    using assms(2) of_resource(2) [OF ok(2)] by (auto simp: the_lists_def)
  then obtain xs where xs: "those (map proj ?objs) = Some xs" "map wrap xs = ?objs" using those_proj by blast
  have set: "set_list (gvkKind kind) ?objs = Inr (wrap_list xs)" and proj: "proj_list (wrap_list xs) = Some xs"
    using assms(2) xs(1) by (auto simp: the_lists_def)
  have inv: "Invokes a d c = ((Some (wrap_list xs), None), c\<lparr>fkActions := fkActions c @ [a]\<rparr>)"
    unfolding Invokes_simple [OF ok(1)] by (simp add: ObjectReaction_def Let_def assms(4-6) tracker_List_def set of_resource_def [symmetric])
  have "map wrap (filter (\<lambda>item. label (feLabels env (wrap item))) xs) = filter (\<lambda>obj. label (feLabels env obj)) ?objs"
    unfolding xs(2) [symmetric] by (simp add: filter_map comp_def)
  then show ?thesis
    using lists_of_resource [OF ok(2), of env g ns label] ok
    by (simp add: listed_def inv filter_labelled_def assms(3) proj fake_store_def stepped_def fake_ok_def simple_def)
qed

section \<open>The fake refines the store\<close>

lemmas root_actions =
  NewRootGetAction_def NewRootListAction_def NewRootCreateAction_def NewRootUpdateAction_def NewRootUpdateSubresourceAction_def
  NewRootDeleteAction_def NewRootDeleteCollectionAction_def NewRootWatchAction_def NewRootPatchSubresourceAction_def

lemmas namespaced_actions =
  NewGetAction_def NewListAction_def NewCreateAction_def NewUpdateAction_def NewDeleteAction_def NewDeleteCollectionAction_def
  NewWatchAction_def NewPatchSubresourceAction_def

definition typed_as :: "(runtime_object \<Rightarrow> 'a option) \<Rightarrow> ('a \<Rightarrow> runtime_object) \<Rightarrow> gvr \<Rightarrow> bool" where
  "typed_as proj wrap g \<longleftrightarrow> (\<forall>obj. object_gvr obj = Some g \<longrightarrow> (\<exists>x. proj obj = Some x \<and> wrap x = obj))"

text \<open>The object that a reactor returns is of the kind of the resource, so the conversion of the result does not panic.\<close>

lemma got_result:
  assumes "typed_as proj wrap g" and "\<forall>obj. ret = Some obj \<longrightarrow> object_gvr obj = Some g"
  shows "got_object wrap (result_as proj ((ret, err), c)) = Inr (GotObject ret err, c)"
  using assms by (cases ret) (auto simp: got_object_def result_as_def typed_as_def)

definition next_fake :: "fake \<Rightarrow> fake_action \<Rightarrow> tracker \<Rightarrow> fake" where
  "next_fake c a t = c\<lparr>fkActions := fkActions c @ [a], fkTracker := t\<rparr>"

lemma next_fake:
  assumes "fake_ok env c" and "tracker_ok t"
  shows "stepped env c a (next_fake c a t)" and "fake_store (next_fake c a t) = map_of (tkObjects t)"
  using assms by (simp_all add: stepped_def next_fake_def fake_ok_def simple_def fake_store_def)

lemma Invokes_handled:
  assumes "fake_ok env c" and "ObjectReaction env a (fkTracker c) = ((True, ret, err), t)"
  shows "Invokes a d c = ((ret, err), next_fake c a t)"
  using assms by (simp add: Invokes_simple [of env] fake_ok_def next_fake_def)

lemma get_result:
  assumes "fake_ok env c" and "typed_as proj wrap (faResource a)" and "faDetail a = GetActionImpl name"
  shows "\<exists>r c'. got_object wrap (result_as proj (Invokes a d c)) = Inr (r, c') \<and> stepped env c a c' \<and>
    get_spec (faResource a) (faNamespace a) name (fake_store c) r (fake_store c')"
proof -
  have ok: "tracker_ok (fkTracker c)" using assms(1) by (simp add: fake_ok_def)
  let ?o = "map_of (tkObjects (fkTracker c)) (faResource a, faNamespace a, name)"
  have "ObjectReaction env a (fkTracker c) = ((True, ?o, if ?o = None then Some (NewNotFound_of (faResource a) name) else None), fkTracker c)"
    unfolding react_get [OF assms(3)] by (auto split: option.splits)
  note inv = Invokes_handled [OF assms(1) this]
  have "\<forall>obj. ?o = Some obj \<longrightarrow> object_gvr obj = Some (faResource a)" using tracker_okD(1) [OF ok] by fastforce
  from got_result [OF assms(2) this] show ?thesis
    using next_fake [OF assms(1) ok] unfolding inv by (auto simp: get_spec_def fake_store_def split: option.splits)
qed

lemma write_result:
  assumes "fake_ok env c" and "typed_as proj wrap (faResource a)" and "object_gvr obj = Some (faResource a)"
    and "replace \<and> faDetail a = UpdateActionImpl obj \<or> \<not> replace \<and> faDetail a = CreateActionImpl n obj \<and> faSubresource a = []"
  shows "\<exists>r c'. got_object wrap (result_as proj (Invokes a d c)) = Inr (r, c') \<and> stepped env c a c' \<and>
    write_spec replace (faResource a) (faNamespace a) obj (fake_store c) r (fake_store c')"
proof -
  have ok: "tracker_ok (fkTracker c)" using assms(1) by (simp add: fake_ok_def)
  have "\<exists>err t'. ObjectReaction env a (fkTracker c) = ((True, if err = None then map_of (tkObjects t') (faResource a, faNamespace a, object_name obj) else None, err), t') \<and>
    write_step replace (faResource a) (faNamespace a) obj (map_of (tkObjects (fkTracker c))) err (map_of (tkObjects t')) \<and> tracker_ok t'"
  proof (cases replace)
    case True
    then show ?thesis using react_update [OF ok assms(3), of env] assms(4) by simp
  next
    case False
    then show ?thesis using react_create [OF ok assms(3), of n env] assms(4) by simp
  qed
  then obtain err t' where react: "ObjectReaction env a (fkTracker c) = ((True, if err = None then map_of (tkObjects t') (faResource a, faNamespace a, object_name obj) else None, err), t')"
    and step: "write_step replace (faResource a) (faNamespace a) obj (map_of (tkObjects (fkTracker c))) err (map_of (tkObjects t'))" and ok': "tracker_ok t'"
    by blast
  let ?o = "if err = None then map_of (tkObjects t') (faResource a, faNamespace a, object_name obj) else None"
  have "\<forall>obj. ?o = Some obj \<longrightarrow> object_gvr obj = Some (faResource a)"
    by (auto dest: tracker_okD(1) [OF ok'] split: if_splits)
  from got_result [OF assms(2) this] show ?thesis
    using next_fake [OF assms(1) ok'] step unfolding Invokes_handled [OF assms(1) react] by (auto simp: write_spec_def fake_store_def)
qed

lemma patch_result:
  assumes "fake_ok env c" and "typed_as proj wrap (faResource a)" and "keeps_kinds env" and "faDetail a = PatchActionImpl name pt patch"
  shows "\<exists>r c'. got_object wrap (result_as proj (Invokes a d c)) = Inr (r, c') \<and> stepped env c a c' \<and>
    patch_spec env (faResource a) (faNamespace a) name pt patch (fake_store c) r (fake_store c')"
proof -
  have ok: "tracker_ok (fkTracker c)" using assms(1) by (simp add: fake_ok_def)
  obtain ret err t' where react: "ObjectReaction env a (fkTracker c) = ((True, ret, err), t')" and ok': "tracker_ok t'"
    and ret: "\<forall>obj. ret = Some obj \<longrightarrow> object_gvr obj = Some (faResource a)"
    and step: "case map_of (tkObjects (fkTracker c)) (faResource a, faNamespace a, name) of
       None \<Rightarrow> t' = fkTracker c \<and> ret = None \<and> err = Some (NewNotFound_of (faResource a) name)
     | Some old \<Rightarrow>
         if pt \<notin> set patch_types then t' = fkTracker c \<and> ret = None \<and> err \<noteq> None
         else case fePatch env pt old patch of
                Inl e \<Rightarrow> t' = fkTracker c \<and> ret = None \<and> err = Some e
              | Inr obj \<Rightarrow>
                  write_step True (faResource a) (faNamespace a) obj (map_of (tkObjects (fkTracker c))) err (map_of (tkObjects t')) \<and>
                  ret = (if err = None then Some obj else None)"
    using react_patch [OF ok assms(3,4)] by blast
  have "patch_spec env (faResource a) (faNamespace a) name pt patch (fake_store c) (GotObject ret err) (fake_store (next_fake c a t'))"
    using step unfolding next_fake(2) [OF assms(1) ok'] patch_spec_def fake_store_def [of c]
    by (auto split: option.splits sum.splits if_splits)
  then show ?thesis
    using got_result [OF assms(2) ret] next_fake [OF assms(1) ok'] unfolding Invokes_handled [OF assms(1) react] by auto
qed

lemma delete_result:
  assumes "fake_ok env c" and "faDetail a = DeleteActionImpl name opts"
  shows "\<exists>r c'. deleted (Inr (apfst snd (Invokes a d c))) = Inr (r, c') \<and> stepped env c a c' \<and>
    delete_spec (faResource a) (faNamespace a) name (fake_store c) r (fake_store c')"
proof -
  have ok: "tracker_ok (fkTracker c)" using assms(1) by (simp add: fake_ok_def)
  obtain err t' where react: "ObjectReaction env a (fkTracker c) = ((True, None, err), t')" and ok': "tracker_ok t'"
    and step: "case map_of (tkObjects (fkTracker c)) (faResource a, faNamespace a, name) of
       None \<Rightarrow> map_of (tkObjects t') = map_of (tkObjects (fkTracker c)) \<and> err = Some (NewNotFound_of (faResource a) name)
     | Some _ \<Rightarrow> map_of (tkObjects t') = (map_of (tkObjects (fkTracker c)))((faResource a, faNamespace a, name) := None) \<and> err = None"
    using react_delete [OF ok assms(2)] by blast
  show ?thesis
    using next_fake [OF assms(1) ok'] step unfolding Invokes_handled [OF assms(1) react]
    by (auto simp: deleted_def delete_spec_def fake_store_def split: option.splits)
qed

text \<open>\<open>DeleteCollection\<close> finds no reaction, and so gives what no reactor handles: no error.\<close>

lemma delete_collection_result:
  assumes "fake_ok env c" and "faDetail a = DeleteCollectionActionImpl rs"
  shows "\<exists>c'. deleted (Inr (apfst snd (Invokes a d c))) = Inr (Finished None, c') \<and> stepped env c a c' \<and> fake_store c' = fake_store c"
proof -
  have ok: "simple env c" "tracker_ok (fkTracker c)" using assms(1) by (simp_all add: fake_ok_def)
  have "Invokes a d c = ((Some d, None), next_fake c a (fkTracker c))"
    by (simp add: Invokes_simple [OF ok(1)] ObjectReaction_def Let_def assms(2) next_fake_def)
  then show ?thesis using next_fake [OF assms(1) ok(2)] by (simp add: deleted_def fake_store_def)
qed

lemma watch_result:
  assumes "fake_ok env c"
  shows "\<exists>n c'. watched (Inr (InvokesWatch a c)) = Inr (Watched (Some n) None, c') \<and> stepped env c a c' \<and> fake_store c' = fake_store c"
proof -
  have ok: "simple env c" "tracker_ok (fkTracker c)" using assms(1) by (simp_all add: fake_ok_def)
  obtain n t where watch: "tracker_Watch (faResource a) (faNamespace a) (fkTracker c) = (n, t)"
    by (cases "tracker_Watch (faResource a) (faNamespace a) (fkTracker c)")
  have t: "tkObjects t = tkObjects (fkTracker c)" "tracker_ok t"
    using watch ok(2) unfolding tracker_Watch_def tracker_ok_def by fastforce+
  have "InvokesWatch a c = ((Some n, None), next_fake c a t)" by (simp add: InvokesWatch_simple [OF ok(1)] watch next_fake_def)
  then show ?thesis using next_fake [OF assms(1) t(2)] t(1) by (simp add: watched_def fake_store_def)
qed

text \<open>What a call of the fake gives, as the specification has it.\<close>

definition refines :: "fake_env \<Rightarrow> typed_resource \<Rightarrow> typed_call \<Rightarrow> fake \<Rightarrow> string + call_result \<times> fake \<Rightarrow> bool" where
  "refines env res call c out \<longleftrightarrow>
     (case out of
        Inl panic \<Rightarrow> (\<exists>opts. selectors call = Some opts \<and> ExtractFromListOptions env opts = Inl panic)
      | Inr (r, c') \<Rightarrow>
          store_step env (resource_gvr res) (resource_namespace res) call (fake_store c) r (fake_store c') \<and>
          fake_ok env c' \<and> (\<exists>action. fkActions c' = fkActions c @ [action]))"

definition targets :: "fake_action \<Rightarrow> typed_resource \<Rightarrow> bool" where
  "targets a res \<longleftrightarrow> faResource a = resource_gvr res \<and> faNamespace a = resource_namespace res"

lemma refinesI:
  assumes "stepped env c a c'" and "store_step env (resource_gvr res) (resource_namespace res) call (fake_store c) r (fake_store c')"
  shows "refines env res call c (Inr (r, c'))"
  using assms by (auto simp: refines_def stepped_def)

lemma refines_get:
  assumes "fake_ok env c" and "typed_as proj wrap (resource_gvr res)" and "targets a res" and "faDetail a = GetActionImpl name"
  shows "refines env res (GetCall name o') c (got_object wrap (result_as proj (Invokes a d c)))"
  using get_result [OF assms(1) _ assms(4), of proj wrap d] assms(2,3) by (auto simp: targets_def intro!: refinesI)

lemma write_refines:
  assumes "fake_ok env c" and "typed_as proj wrap (resource_gvr res)" and "targets a res" and "object_gvr obj = Some (resource_gvr res)"
    and "replace \<and> faDetail a = UpdateActionImpl obj \<or> \<not> replace \<and> faDetail a = CreateActionImpl n obj \<and> faSubresource a = []"
    and "\<And>r s'. store_step env (resource_gvr res) (resource_namespace res) call (fake_store c) r s' =
      write_spec replace (resource_gvr res) (resource_namespace res) obj (fake_store c) r s'"
  shows "refines env res call c (got_object wrap (result_as proj (Invokes a d c)))"
proof -
  have g: "faResource a = resource_gvr res" "faNamespace a = resource_namespace res" using assms(3) by (simp_all add: targets_def)
  obtain r c' where "got_object wrap (result_as proj (Invokes a d c)) = Inr (r, c')" "stepped env c a c'"
    "write_spec replace (resource_gvr res) (resource_namespace res) obj (fake_store c) r (fake_store c')"
    using write_result [OF assms(1) _ _ assms(5), unfolded g, OF assms(2,4)] by blast
  then show ?thesis using assms(6) by (simp add: refinesI)
qed

lemma refines_write:
  assumes "fake_ok env c" and "typed_as proj wrap (resource_gvr res)" and "targets a res" and "object_gvr obj = Some (resource_gvr res)"
  shows "faDetail a = CreateActionImpl n obj \<Longrightarrow> faSubresource a = [] \<Longrightarrow>
      refines env res (CreateCall obj o') c (got_object wrap (result_as proj (Invokes a d c)))"
    and "faDetail a = UpdateActionImpl obj \<Longrightarrow> refines env res (UpdateCall obj o') c (got_object wrap (result_as proj (Invokes a d c)))"
    and "faDetail a = UpdateActionImpl obj \<Longrightarrow> refines env res (UpdateStatusCall obj o') c (got_object wrap (result_as proj (Invokes a d c)))"
  by (rule write_refines [OF assms, of False n] write_refines [OF assms, of True n]; simp)+

lemma refines_patch:
  assumes "fake_ok env c" and "typed_as proj wrap (resource_gvr res)" and "keeps_kinds env" and "targets a res"
    and "faDetail a = PatchActionImpl name pt patch"
  shows "refines env res (PatchCall name pt patch o' force subs) c (got_object wrap (result_as proj (Invokes a d c)))"
  using patch_result [OF assms(1) _ assms(3,5), of proj wrap d] assms(2,4) by (auto simp: targets_def intro!: refinesI)

lemma refines_delete:
  assumes "fake_ok env c" and "targets a res" and "faDetail a = DeleteActionImpl name o''"
  shows "refines env res (DeleteCall name o') c (deleted (Inr (apfst snd (Invokes a d c))))"
  using delete_result [OF assms(1,3), of d] assms(2) by (auto simp: targets_def intro!: refinesI)

lemma refines_delete_collection:
  assumes "fake_ok env c" and "faDetail a = DeleteCollectionActionImpl rs"
  shows "refines env res (DeleteCollectionCall o' opts) c
    (deleted (map_sum id (\<lambda>a. apfst snd (Invokes a d c)) (map_sum id (\<lambda>_. a) (ExtractFromListOptions env opts))))"
proof (cases "ExtractFromListOptions env opts")
  case (Inl panic)
  then show ?thesis by (simp add: refines_def deleted_def)
next
  case (Inr label)
  then show ?thesis using delete_collection_result [OF assms, of d] by (auto intro!: refinesI)
qed

lemma refines_watch:
  assumes "fake_ok env c"
  shows "refines env res (WatchCall opts) c
    (watched (map_sum id (\<lambda>a. InvokesWatch a c) (map_sum id (\<lambda>_. a) (ExtractFromListOptions env opts))))"
proof (cases "ExtractFromListOptions env opts")
  case (Inl panic)
  then show ?thesis by (simp add: refines_def watched_def)
next
  case (Inr label)
  then show ?thesis using watch_result [OF assms, of a] by (auto intro!: refinesI)
qed

lemma refines_list:
  assumes "fake_ok env c" and "the_lists env proj wrap proj_list wrap_list g kind" and "g = resource_gvr res" and "targets a res"
    and "faDetail a = ListActionImpl kind rs"
  shows "refines env res (ListCall opts) c
    (listed wrap (case map_sum id (\<lambda>_. a) (ExtractFromListOptions env opts) of
       Inl panic \<Rightarrow> Inl panic | Inr a \<Rightarrow> filter_labelled env opts proj_list wrap (Invokes a d c)))"
proof (cases "ExtractFromListOptions env opts")
  case (Inl panic)
  then show ?thesis by (simp add: refines_def listed_def)
next
  case (Inr label)
  have "\<exists>objs c'. listed wrap (filter_labelled env opts proj_list wrap (Invokes a d c)) = Inr (Listed (Some objs) None, c') \<and>
    lists env (resource_gvr res) (resource_namespace res) label (fake_store c) objs \<and> stepped env c a c' \<and> fake_store c' = fake_store c"
    using list_step [OF assms(1,2) Inr assms(5)] assms(3,4) by (simp add: targets_def)
  then obtain objs c' where out: "listed wrap (filter_labelled env opts proj_list wrap (Invokes a d c)) = Inr (Listed (Some objs) None, c')"
    and step: "lists env (resource_gvr res) (resource_namespace res) label (fake_store c) objs" "stepped env c a c'" "fake_store c' = fake_store c" by blast
  have "store_step env (resource_gvr res) (resource_namespace res) (ListCall opts) (fake_store c) (Listed (Some objs) None) (fake_store c')"
    using step Inr by simp
  from refinesI [OF step(2) this] show ?thesis by (simp add: Inr out)
qed

lemma typed_as_lists: "the_lists env proj wrap proj_list wrap_list g kind \<Longrightarrow> typed_as proj wrap g"
  by (simp add: the_lists_def typed_as_def)

lemmas typed_as = the_lists [THEN typed_as_lists]

lemmas refinements = refines_get refines_write refines_patch refines_delete refines_delete_collection refines_watch

lemma FakeJsPolicies_refines:
  assumes "fake_ok env c" and "keeps_kinds env" and "FakeJsPolicies_call env call c = Some out"
  shows "refines env JsPolicies call c out"
  using assms
  by (elim FakeJsPolicies_call.elims)
    (simp_all add: FakeJsPolicies_Get_def FakeJsPolicies_List_def FakeJsPolicies_Watch_def FakeJsPolicies_Create_def FakeJsPolicies_Update_def
      FakeJsPolicies_UpdateStatus_def FakeJsPolicies_Delete_def FakeJsPolicies_DeleteCollection_def FakeJsPolicies_Patch_def root_actions
      refinements refines_list [OF _ the_lists(1), of _ _ JsPolicies] typed_as targets_def)

lemma FakeJsPolicyBundles_refines:
  assumes "fake_ok env c" and "keeps_kinds env" and "FakeJsPolicyBundles_call env call c = Some out"
  shows "refines env JsPolicyBundles call c out"
  using assms
  by (elim FakeJsPolicyBundles_call.elims)
    (simp_all add: FakeJsPolicyBundles_Get_def FakeJsPolicyBundles_List_def FakeJsPolicyBundles_Watch_def FakeJsPolicyBundles_Create_def FakeJsPolicyBundles_Update_def FakeJsPolicyBundles_UpdateStatus_def FakeJsPolicyBundles_Delete_def FakeJsPolicyBundles_DeleteCollection_def FakeJsPolicyBundles_Patch_def root_actions
      refinements refines_list [OF _ the_lists(2), of _ _ "JsPolicyBundles"] typed_as targets_def)

lemma FakeJsPolicyViolationses_refines:
  assumes "fake_ok env c" and "keeps_kinds env" and "FakeJsPolicyViolationses_call env call c = Some out"
  shows "refines env JsPolicyViolationses call c out"
  using assms
  by (elim FakeJsPolicyViolationses_call.elims)
    (simp_all add: FakeJsPolicyViolationses_Get_def FakeJsPolicyViolationses_List_def FakeJsPolicyViolationses_Watch_def FakeJsPolicyViolationses_Create_def FakeJsPolicyViolationses_Update_def FakeJsPolicyViolationses_UpdateStatus_def FakeJsPolicyViolationses_Delete_def FakeJsPolicyViolationses_DeleteCollection_def FakeJsPolicyViolationses_Patch_def root_actions
      refinements refines_list [OF _ the_lists(3), of _ _ "JsPolicyViolationses"] typed_as targets_def)

lemma FakePolicyReports_refines:
  assumes "fake_ok env c" and "keeps_kinds env" and "FakePolicyReports_call env ns call c = Some out"
  shows "refines env (PolicyReports ns) call c out"
  using assms
  by (elim FakePolicyReports_call.elims)
    (simp_all add: FakePolicyReports_Get_def FakePolicyReports_List_def FakePolicyReports_Watch_def FakePolicyReports_Create_def FakePolicyReports_Update_def FakePolicyReports_Delete_def FakePolicyReports_DeleteCollection_def FakePolicyReports_Patch_def namespaced_actions
      refinements refines_list [OF _ the_lists(4), of _ _ "PolicyReports n" for n] typed_as targets_def)

lemma FakeClusterPolicyReports_refines:
  assumes "fake_ok env c" and "keeps_kinds env" and "FakeClusterPolicyReports_call env call c = Some out"
  shows "refines env ClusterPolicyReports call c out"
  using assms
  by (elim FakeClusterPolicyReports_call.elims)
    (simp_all add: FakeClusterPolicyReports_Get_def FakeClusterPolicyReports_List_def FakeClusterPolicyReports_Watch_def FakeClusterPolicyReports_Create_def FakeClusterPolicyReports_Update_def FakeClusterPolicyReports_Delete_def FakeClusterPolicyReports_DeleteCollection_def FakeClusterPolicyReports_Patch_def root_actions
      refinements refines_list [OF _ the_lists(5), of _ _ "ClusterPolicyReports"] typed_as targets_def)

lemma fake_call_refines:
  assumes "fake_ok env c" and "keeps_kinds env" and "fake_call env res call c = Some out"
  shows "refines env res call c out"
proof (cases res)
  case JsPolicies
  then show ?thesis using FakeJsPolicies_refines [OF assms(1,2)] assms(3) by simp
next
  case JsPolicyBundles
  then show ?thesis using FakeJsPolicyBundles_refines [OF assms(1,2)] assms(3) by simp
next
  case JsPolicyViolationses
  then show ?thesis using FakeJsPolicyViolationses_refines [OF assms(1,2)] assms(3) by simp
next
  case (PolicyReports ns)
  then show ?thesis using FakePolicyReports_refines [OF assms(1,2)] assms(3) by simp
next
  case ClusterPolicyReports
  then show ?thesis using FakeClusterPolicyReports_refines [OF assms(1,2)] assms(3) by simp
qed

text \<open>The objects given to \<open>NewSimpleClientset\<close> are stored, unless one cannot be added, and the fake is well formed.\<close>

definition adds :: "runtime_object list \<Rightarrow> tracker \<Rightarrow> tracker \<Rightarrow> bool" where
  "adds objs t t' \<longleftrightarrow> tracker_ok t' \<and>
     (\<forall>g k obj. map_of (tkObjects t') (g, k) = Some obj \<longleftrightarrow>
        map_of (tkObjects t) (g, k) = Some obj \<or> obj \<in> set objs \<and> object_gvr obj = Some g \<and> object_key obj = k)"

lemma adds_trans: "adds xs t t1 \<Longrightarrow> adds ys t1 t2 \<Longrightarrow> adds (xs @ ys) t t2"
  unfolding adds_def set_append Un_iff by blast

lemma adds_one:
  assumes "tracker_ok t" and "tracker_Add_one obj t = (None, t')"
  shows "adds [obj] t t'"
proof -
  obtain k where k: "object_kind obj = Some k" and add: "tracker_add (UnsafeGuessKindToResource k) obj (object_namespace obj) False t = (None, t')"
    using assms(2) by (auto simp: tracker_Add_one_def split: option.splits)
  have g: "object_gvr obj = Some (UnsafeGuessKindToResource k)" by (simp add: object_gvr_def k)
  note step = tracker_add_step [OF assms(1) g add]
  have "in_namespace (object_namespace obj) obj = obj" by (cases obj) (simp_all add: in_namespace_def)
  then have "map_of (tkObjects t) (UnsafeGuessKindToResource k, object_key obj) = None"
    "map_of (tkObjects t') = (map_of (tkObjects t))((UnsafeGuessKindToResource k, object_key obj) \<mapsto> obj)"
    using step(1) by (auto simp: write_step_def Let_def object_key_def split: if_splits)
  then show ?thesis using g step(2) by (auto simp: adds_def)
qed

lemma adds_list: "tracker_ok t \<Longrightarrow> tracker_addList objs t = (None, t') \<Longrightarrow> adds objs t t'"
proof (induction objs t rule: tracker_addList.induct)
  case (1 t)
  then show ?case by (simp add: adds_def)
next
  case (2 obj objs t)
  obtain t1 where add: "tracker_Add_one obj t = (None, t1)" and rest: "tracker_addList objs t1 = (None, t')"
    using "2.prems"(2) by (auto split: prod.splits option.splits)
  note one = adds_one [OF "2.prems"(1) add]
  have "adds objs t1 t'" by (rule "2.IH" [OF add [symmetric] refl _ rest]) (use one in \<open>simp add: adds_def\<close>)
  from adds_trans [OF one this] show ?case by simp
qed

text \<open>The objects that a call of \<open>NewSimpleClientset\<close> is given, those in lists among them.\<close>

definition single_objects :: "runtime_object list \<Rightarrow> runtime_object list" where
  "single_objects objs = concat (map (\<lambda>obj. case list_items obj of Some items \<Rightarrow> items | None \<Rightarrow> [obj]) objs)"

lemma add_objects_ok: "tracker_ok t \<Longrightarrow> add_objects objs t = Inr t' \<Longrightarrow> adds (single_objects objs) t t'"
proof (induction objs t rule: add_objects.induct)
  case (1 t)
  then show ?case by (simp add: adds_def single_objects_def)
next
  case (2 obj objs t)
  obtain t1 where add: "tracker_Add obj t = (None, t1)" and rest: "add_objects objs t1 = Inr t'"
    using "2.prems"(2) by (auto split: prod.splits option.splits)
  have one: "adds (case list_items obj of Some items \<Rightarrow> items | None \<Rightarrow> [obj]) t t1"
    using add adds_one [OF "2.prems"(1)] adds_list [OF "2.prems"(1)] by (auto simp: tracker_Add_def split: option.splits)
  have "adds (single_objects objs) t1 t'" by (rule "2.IH" [OF add [symmetric] refl _ rest]) (use one in \<open>simp add: adds_def\<close>)
  from adds_trans [OF one this] show ?case by (simp add: single_objects_def)
qed

text \<open>What \<open>NewSimpleClientset\<close> stores.\<close>

definition holds_exactly :: "runtime_object list \<Rightarrow> object_store \<Rightarrow> bool" where
  "holds_exactly objs s \<longleftrightarrow>
     (\<forall>g k obj. s (g, k) = Some obj \<longleftrightarrow> obj \<in> set (single_objects objs) \<and> object_gvr obj = Some g \<and> object_key obj = k)"

lemma NewSimpleClientset_ok:
  assumes "NewSimpleClientset env objs = Inr c"
  shows "fake_ok env c" and "holds_exactly objs (fake_store c)" and "fkActions c = []"
proof -
  obtain t where t: "add_objects objs NewObjectTracker = Inr t" "c = simple_fake env t"
    using assms by (cases "add_objects objs NewObjectTracker") (auto simp: NewSimpleClientset_def)
  have "tracker_ok NewObjectTracker" by (simp add: tracker_ok_def NewObjectTracker_def)
  note ok = add_objects_ok [OF this t(1)]
  show "fake_ok env c" using ok t(2) by (simp add: adds_def fake_ok_def)
  show "holds_exactly objs (fake_store c)" using ok t(2) by (simp add: adds_def holds_exactly_def fake_store_def NewObjectTracker_def)
  show "fkActions c = []" by (simp add: t(2) simple_fake_def AddReactor_def AddWatchReactor_def)
qed

text \<open>A sequence of calls of a fake, none of which panics, and what it may do to a store.\<close>

fun fake_run :: "fake_env \<Rightarrow> (typed_resource \<times> typed_call) list \<Rightarrow> fake \<Rightarrow> (call_result list \<times> fake) option" where
  "fake_run env [] c = Some ([], c)"
| "fake_run env ((res, call) # calls) c =
     (case fake_call env res call c of
        Some (Inr (r, c')) \<Rightarrow> map_option (apfst ((#) r)) (fake_run env calls c')
      | _ \<Rightarrow> None)"

fun store_run :: "fake_env \<Rightarrow> (typed_resource \<times> typed_call) list \<Rightarrow> object_store \<Rightarrow> call_result list \<Rightarrow> object_store \<Rightarrow> bool" where
  "store_run env [] s rs s' \<longleftrightarrow> rs = [] \<and> s' = s"
| "store_run env ((res, call) # calls) s rs s' \<longleftrightarrow>
     (case rs of [] \<Rightarrow> False
      | r # rs' \<Rightarrow> \<exists>s1. store_step env (resource_gvr res) (resource_namespace res) call s r s1 \<and> store_run env calls s1 rs' s')"

lemma fake_run_refines:
  "fake_ok env c \<Longrightarrow> keeps_kinds env \<Longrightarrow> fake_run env calls c = Some (rs, c') \<Longrightarrow>
   store_run env calls (fake_store c) rs (fake_store c') \<and> fake_ok env c' \<and> length (fkActions c') = length (fkActions c) + length calls"
proof (induction env calls c arbitrary: rs rule: fake_run.induct)
  case (2 env res call calls c)
  obtain r c1 rs' where call: "fake_call env res call c = Some (Inr (r, c1))" and rest: "fake_run env calls c1 = Some (rs', c')" "rs = r # rs'"
    using "2.prems"(3) by (auto split: option.splits sum.splits prod.splits)
  have step: "store_step env (resource_gvr res) (resource_namespace res) call (fake_store c) r (fake_store c1)" "fake_ok env c1"
    "length (fkActions c1) = length (fkActions c) + 1"
    using fake_call_refines [OF "2.prems"(1,2) call] by (auto simp: refines_def)
  have "store_run env calls (fake_store c1) rs' (fake_store c') \<and> fake_ok env c' \<and> length (fkActions c') = length (fkActions c1) + length calls"
    by (rule "2.IH" [OF call refl refl step(2) "2.prems"(2) rest(1)])
  then show ?case using step(1,3) rest(2) by auto
qed simp


definition fake_env1 :: fake_env where
  "fake_env1 = \<lparr>feParseLabels = (\<lambda>s. if s = ''!'' then Inl (Errorf ''unable to parse'') else Inr (\<lambda>_. True)),
     feParseFields = (\<lambda>_. None), feLabels = (\<lambda>_. []), fePatch = (\<lambda>_ obj _. Inr obj)\<rparr>"

definition bundle1 :: "string \<Rightarrow> runtime_object" where
  "bundle1 name = JsPolicyBundleObject \<lparr>bName = name, bBundle = ''x''\<rparr>"

definition no_list_opts :: list_opts where
  "no_list_opts = \<lparr>lsLabelSelector = [], lsFieldSelector = [], lsWatch = False, lsAllowWatchBookmarks = False,
     lsResourceVersion = [], lsResourceVersionMatch = [], lsTimeoutSeconds = None, lsLimit = 0, lsContinue = []\<rparr>"

definition calls1 :: "(typed_resource \<times> typed_call) list" where
  "calls1 = [(JsPolicyBundles, CreateCall (bundle1 ''b'') \<lparr>woDryRun = [], woFieldManager = [], woFieldValidation = []\<rparr>),
     (JsPolicyBundles, CreateCall (bundle1 ''a'') \<lparr>woDryRun = [], woFieldManager = [], woFieldValidation = []\<rparr>),
     (JsPolicyBundles, DeleteCollectionCall no_delete_opts no_list_opts),
     (JsPolicyBundles, ListCall no_list_opts),
     (JsPolicyBundles, DeleteCall ''a'' no_delete_opts),
     (JsPolicyBundles, GetCall ''a'' [])]"

definition results1 :: "call_result list" where
  "results1 = [GotObject None (Some (NewAlreadyExists_of jspolicybundlesResource ''b'')), GotObject (Some (bundle1 ''a'')) None, Finished None,
     Listed (Some [bundle1 ''a'', bundle1 ''b'']) None, Finished None,
     GotObject None (Some (NewNotFound_of jspolicybundlesResource ''a''))]"

definition fake1 :: fake where
  "fake1 = projr (NewSimpleClientset fake_env1 [bundle1 ''b''])"

lemma fake1: "NewSimpleClientset fake_env1 [bundle1 ''b''] = Inr fake1"
proof -
  have "\<not> isl (NewSimpleClientset fake_env1 [bundle1 ''b''])" by code_simp
  then show ?thesis unfolding fake1_def by simp
qed

lemma results1: "map_option fst (fake_run fake_env1 calls1 fake1) = Some results1"
  by code_simp


end
