(* ===== verification/Metrics.thy ===== *)
theory Metrics
  imports Complex_Main Handler
begin

text \<open>
  \<open>pkg/metrics/metrics.go\<close>, the recording of metrics in \<open>pkg/webhook/handler.go\<close>, and the vendored Prometheus client under them:
  vectors of metrics by label values, counters and histograms. Seconds are rational numbers here, floating-point numbers there;
  whether a string is UTF-8 is a parameter. A result of type \<open>string + 'a\<close> has a panic to the left. A metric is updated
  atomically, so recording is one step.
\<close>

section \<open>Vectors of metrics (prometheus/vec.go)\<close>

record 'm metric_vec =
  mvLabels :: "string list"
  mvMetrics :: "(string list \<times> 'm) list"

definition validateLabelValues :: "(string \<Rightarrow> bool) \<Rightarrow> string list \<Rightarrow> nat \<Rightarrow> string option" where
  "validateLabelValues utf8 vals n =
     (if length vals \<noteq> n then Some (''inconsistent label cardinality: expected '' @ itoa (int n) @ '' label values'')
      else map_option (\<lambda>val. ''label value '' @ quoted val @ '' is not valid UTF-8'') (List.find (\<lambda>val. \<not> utf8 val) vals))"

text \<open>\<open>WithLabelValues\<close>, and what is done with the metric it finds or creates.\<close>

definition with_label_values :: "(string \<Rightarrow> bool) \<Rightarrow> string + 'm \<Rightarrow> string list \<Rightarrow> ('m \<Rightarrow> 'm) \<Rightarrow> 'm metric_vec \<Rightarrow> string + 'm metric_vec" where
  "with_label_values utf8 new vals f v =
     (case validateLabelValues utf8 vals (length (mvLabels v)) of
        Some err \<Rightarrow> Inl err
      | None \<Rightarrow>
          (case (case map_of (mvMetrics v) vals of Some m \<Rightarrow> Inr m | None \<Rightarrow> new) of
             Inl panic \<Rightarrow> Inl panic
           | Inr m \<Rightarrow> Inr (v\<lparr>mvMetrics := map_put vals (f m) (mvMetrics v)\<rparr>)))"

section \<open>Counters and histograms (prometheus/counter.go, histogram.go)\<close>

definition Inc :: "64 word \<Rightarrow> 64 word" where
  "Inc valInt = valInt + 1"

record histogram =
  hiUpperBounds :: "rat list"
  hiBuckets :: "64 word list"
  hiSum :: rat
  hiCount :: "64 word"

definition newHistogram :: "rat list \<Rightarrow> string + histogram" where
  "newHistogram bounds =
     (if \<not> sorted_wrt (<) bounds then Inl ''histogram buckets must be in increasing order''
      else Inr \<lparr>hiUpperBounds = bounds, hiBuckets = replicate (length bounds) 0, hiSum = 0, hiCount = 0\<rparr>)"

text \<open>\<open>sort.Search\<close>, which \<open>sort.SearchFloat64s\<close> calls.\<close>

function search_from :: "(nat \<Rightarrow> bool) \<Rightarrow> nat \<Rightarrow> nat \<Rightarrow> nat" where
  "search_from f i j =
     (if i < j
      then let h = (i + j) div 2 in if \<not> f h then search_from f (h + 1) j else search_from f i h
      else i)"
  by pat_completeness auto
termination by (relation "measure (\<lambda>(f, i, j). j - i)") auto

declare search_from.simps [simp del]

definition findBucket :: "rat \<Rightarrow> histogram \<Rightarrow> nat" where
  "findBucket v h = search_from (\<lambda>i. v \<le> hiUpperBounds h ! i) 0 (length (hiUpperBounds h))"

definition observe_in :: "rat \<Rightarrow> nat \<Rightarrow> histogram \<Rightarrow> histogram" where
  "observe_in v bucket h =
     h\<lparr>hiBuckets := (if bucket < length (hiUpperBounds h) then (hiBuckets h)[bucket := hiBuckets h ! bucket + 1] else hiBuckets h),
       hiSum := hiSum h + v, hiCount := hiCount h + 1\<rparr>"

definition Observe :: "rat \<Rightarrow> histogram \<Rightarrow> histogram" where
  "Observe v h = observe_in v (findBucket v h) h"

section \<open>The metrics of jspolicy (pkg/metrics/metrics.go)\<close>

record metrics =
  PolicyRequestTotal :: "64 word metric_vec"
  PolicyRequestLatencies :: "histogram metric_vec"

definition latency_buckets :: "rat list" where
  "latency_buckets = [1/1000, 5/1000, 1/100, 5/100, 1/10, 15/100, 2/10, 25/100, 3/10, 35/100, 4/10, 45/100, 5/10, 6/10, 7/10, 8/10, 9/10, 1,
     125/100, 15/10, 175/100, 2, 25/10, 3, 35/10, 4, 45/10, 5, 6, 7, 8, 9, 10, 15, 20, 25, 30, 40, 50, 60]"

definition initial_metrics :: metrics where
  "initial_metrics =
     \<lparr>PolicyRequestTotal = \<lparr>mvLabels = [''type'', ''name'', ''code''], mvMetrics = []\<rparr>,
      PolicyRequestLatencies = \<lparr>mvLabels = [''type'', ''name''], mvMetrics = []\<rparr>\<rparr>"

text \<open>\<open>Duration.Seconds\<close>\<close>

definition Seconds :: "int \<Rightarrow> rat" where
  "Seconds nanoseconds = rat_of_int nanoseconds / 1000000000"

text \<open>What \<open>Handle\<close> records of a request (\<open>pkg/webhook/handler.go\<close>).\<close>

definition record_metrics :: "(string \<Rightarrow> bool) \<Rightarrow> string \<times> string \<times> string \<Rightarrow> int \<Rightarrow> metrics \<Rightarrow> string + metrics" where
  "record_metrics utf8 labels elapsed m =
     (case labels of (policyType, name, code) \<Rightarrow>
        (case with_label_values utf8 (Inr 0) [policyType, name, code] Inc (PolicyRequestTotal m) of
           Inl panic \<Rightarrow> Inl panic
         | Inr totals \<Rightarrow>
             if elapsed \<noteq> 0
             then (case with_label_values utf8 (newHistogram latency_buckets) [policyType, name] (Observe (Seconds elapsed))
                          (PolicyRequestLatencies m) of
                     Inl panic \<Rightarrow> Inl panic
                   | Inr latencies \<Rightarrow> Inr (m\<lparr>PolicyRequestTotal := totals, PolicyRequestLatencies := latencies\<rparr>))
             else Inr (m\<lparr>PolicyRequestTotal := totals\<rparr>)))"

definition Handle_recorded :: "(string \<Rightarrow> bool) \<Rightarrow> 'c handler_env \<Rightarrow> AdmRequest \<Rightarrow> JsPolicy \<Rightarrow> 'c vm option \<Rightarrow> int \<Rightarrow> metrics \<Rightarrow>
    string + (AdmResponse \<times> Response option) \<times> 'c vm option \<times> metrics" where
  "Handle_recorded utf8 env req jsPolicy machine elapsed m =
     (case Handle env req jsPolicy machine of
        (r, labels, v) \<Rightarrow> map_sum id (\<lambda>m'. (r, v, m')) (record_metrics utf8 labels elapsed m))"

section \<open>The buckets\<close>

lemma search_from_between: "i \<le> j \<Longrightarrow> i \<le> search_from f i j \<and> search_from f i j \<le> j"
proof (induction f i j rule: search_from.induct)
  case (1 f i j)
  show ?case
  proof (cases "i < j")
    case True
    let ?h = "(i + j) div 2"
    have "i \<le> ?h" "?h < j" using True by simp_all
    then show ?thesis using 1 True by (subst (1 2) search_from.simps) (auto simp: Let_def)
  next
    case False
    then show ?thesis using "1.prems" by (simp add: search_from.simps)
  qed
qed

lemma search_from_least:
  "i \<le> j \<Longrightarrow> \<forall>a b. a \<le> b \<longrightarrow> b < j \<longrightarrow> f a \<longrightarrow> f b \<Longrightarrow>
   (\<forall>k. i \<le> k \<longrightarrow> k < search_from f i j \<longrightarrow> \<not> f k) \<and> (search_from f i j < j \<longrightarrow> f (search_from f i j))"
proof (induction f i j rule: search_from.induct)
  case (1 f i j)
  show ?case
  proof (cases "i < j")
    case False
    then show ?thesis using "1.prems" by (simp add: search_from.simps)
  next
    case True
    let ?h = "(i + j) div 2"
    have h: "i \<le> ?h" "?h < j" using True by simp_all
    show ?thesis
    proof (cases "f ?h")
      case f: True
      have e: "search_from f i j = search_from f i ?h" using True f by (subst search_from.simps) (simp add: Let_def)
      have mono: "\<forall>a b. a \<le> b \<longrightarrow> b < ?h \<longrightarrow> f a \<longrightarrow> f b" using "1.prems"(2) h(2) by auto
      have "(\<forall>k. i \<le> k \<longrightarrow> k < search_from f i ?h \<longrightarrow> \<not> f k) \<and> (search_from f i ?h < ?h \<longrightarrow> f (search_from f i ?h))"
        by (rule "1.IH"(2) [OF True refl _ h(1) mono]) (simp add: f)
      then show ?thesis using f search_from_between [OF h(1), of f] unfolding e by (metis le_neq_implies_less)
    next
      case f: False
      have e: "search_from f i j = search_from f (?h + 1) j" using True f by (subst search_from.simps) (simp add: Let_def)
      have "(\<forall>k. ?h + 1 \<le> k \<longrightarrow> k < search_from f (?h + 1) j \<longrightarrow> \<not> f k) \<and> (search_from f (?h + 1) j < j \<longrightarrow> f (search_from f (?h + 1) j))"
        by (rule "1.IH"(1) [OF True refl f _ "1.prems"(2)]) (use h in simp)
      moreover have "\<not> f k" if "k \<le> ?h" for k using "1.prems"(2) that f h(2) by blast
      ultimately show ?thesis unfolding e by (metis Suc_eq_plus1 not_less_eq_eq)
    qed
  qed
qed

text \<open>A value is in the buckets from the one that is found on, and in no earlier one.\<close>

lemma findBucket_iff:
  assumes "sorted_wrt (<) (hiUpperBounds h)" and "k < length (hiUpperBounds h)"
  shows "findBucket v h \<le> k \<longleftrightarrow> v \<le> hiUpperBounds h ! k"
proof -
  let ?f = "\<lambda>i. v \<le> hiUpperBounds h ! i" and ?n = "length (hiUpperBounds h)"
  have le: "hiUpperBounds h ! a \<le> hiUpperBounds h ! b" if "a \<le> b" "b < ?n" for a b
    using sorted_wrt_nth_less [OF assms(1), of a b] that by (cases "a = b") auto
  then have mono: "\<forall>a b. a \<le> b \<longrightarrow> b < ?n \<longrightarrow> ?f a \<longrightarrow> ?f b" by fastforce
  note least = search_from_least [OF le0 mono]
  show ?thesis
  proof
    assume "findBucket v h \<le> k"
    then have "?f (search_from ?f 0 ?n)" "search_from ?f 0 ?n \<le> k" using least assms(2) by (auto simp: findBucket_def)
    then show "?f k" using mono assms(2) by blast
  next
    assume "?f k"
    then show "findBucket v h \<le> k" using least unfolding findBucket_def by (meson leI le0)
  qed
qed

section \<open>What has been recorded\<close>

text \<open>A histogram of values: each bucket, with those below it, counts the values up to its bound.\<close>

definition histogram_of :: "rat list \<Rightarrow> histogram \<Rightarrow> bool" where
  "histogram_of xs h \<longleftrightarrow>
     hiUpperBounds h = latency_buckets \<and> length (hiBuckets h) = length latency_buckets \<and>
     (\<forall>k < length latency_buckets.
        sum_list (take (Suc k) (hiBuckets h)) = word_of_nat (length (filter (\<lambda>x. x \<le> latency_buckets ! k) xs))) \<and>
     hiSum h = sum_list xs \<and> hiCount h = word_of_nat (length xs)"

lemma latency_buckets_increasing: "sorted_wrt (<) latency_buckets"
  by (simp add: latency_buckets_def)

lemma sum_list_take_increment:
  fixes ws :: "'a::comm_monoid_add list"
  assumes "i < length ws"
  shows "sum_list (take k (ws[i := ws ! i + x])) = sum_list (take k ws) + (if i < k then x else 0)"
  using assms by (induction ws arbitrary: i k) (auto simp: nth_Cons take_Cons ac_simps split: nat.splits)

lemma Observe_histogram:
  assumes "histogram_of xs h"
  shows "histogram_of (xs @ [x]) (Observe x h)"
proof -
  have b: "hiUpperBounds h = latency_buckets" and len: "length (hiBuckets h) = length latency_buckets"
    using assms by (simp_all add: histogram_of_def)
  have iff: "findBucket x h \<le> k \<longleftrightarrow> x \<le> latency_buckets ! k" if "k < length latency_buckets" for k
    using findBucket_iff [of h k x] latency_buckets_increasing that by (simp add: b)
  have "sum_list (take (Suc k) (hiBuckets (Observe x h))) =
      word_of_nat (length (filter (\<lambda>y. y \<le> latency_buckets ! k) (xs @ [x])))" if k: "k < length latency_buckets" for k
  proof (cases "findBucket x h < length latency_buckets")
    case True
    then show ?thesis using assms k iff [OF k] len
      by (simp add: Observe_def observe_in_def b sum_list_take_increment less_Suc_eq_le histogram_of_def)
  next
    case False
    then show ?thesis using assms k iff [OF k] by (simp add: Observe_def observe_in_def b histogram_of_def)
  qed
  then show ?thesis using assms by (simp add: histogram_of_def Observe_def observe_in_def)
qed

text \<open>A sequence of requests, each with its labels and the time its script took.\<close>

type_synonym observation = "(string \<times> string \<times> string) \<times> int"

fun record_all :: "(string \<Rightarrow> bool) \<Rightarrow> observation list \<Rightarrow> metrics \<Rightarrow> string + metrics" where
  "record_all utf8 [] m = Inr m"
| "record_all utf8 ((labels, elapsed) # rest) m =
     (case record_metrics utf8 labels elapsed m of Inl panic \<Rightarrow> Inl panic | Inr m' \<Rightarrow> record_all utf8 rest m')"

lemma record_all_snoc:
  "record_all utf8 (xs @ [(labels, elapsed)]) m =
     (case record_all utf8 xs m of Inl panic \<Rightarrow> Inl panic | Inr m' \<Rightarrow> record_metrics utf8 labels elapsed m')"
  by (induction utf8 xs m rule: record_all.induct) (auto split: sum.splits)

definition readable :: "(string \<Rightarrow> bool) \<Rightarrow> observation \<Rightarrow> bool" where
  "readable utf8 ob \<longleftrightarrow> (case ob of ((policyType, name, code), _) \<Rightarrow> utf8 policyType \<and> utf8 name \<and> utf8 code)"

definition with_labels :: "string list \<Rightarrow> observation list \<Rightarrow> observation list" where
  "with_labels vals obs = filter (\<lambda>((policyType, name, code), _). [policyType, name, code] = vals) obs"

definition times_of :: "string list \<Rightarrow> observation list \<Rightarrow> rat list" where
  "times_of vals obs = map (\<lambda>(_, elapsed). Seconds elapsed)
     (filter (\<lambda>((policyType, name, _), elapsed). [policyType, name] = vals \<and> elapsed \<noteq> 0) obs)"

text \<open>The metrics after a sequence of requests: nothing is shown for labels that have not occurred.\<close>

definition recorded :: "observation list \<Rightarrow> metrics \<Rightarrow> bool" where
  "recorded obs m \<longleftrightarrow>
     (\<forall>vals. map_of (mvMetrics (PolicyRequestTotal m)) vals =
        (if with_labels vals obs = [] then None else Some (word_of_nat (length (with_labels vals obs))))) \<and>
     (\<forall>vals. case map_of (mvMetrics (PolicyRequestLatencies m)) vals of
        None \<Rightarrow> times_of vals obs = [] | Some h \<Rightarrow> times_of vals obs \<noteq> [] \<and> histogram_of (times_of vals obs) h) \<and>
     length (mvLabels (PolicyRequestTotal m)) = 3 \<and> length (mvLabels (PolicyRequestLatencies m)) = 2"

lemma new_latencies: "\<exists>h. newHistogram latency_buckets = Inr h \<and> histogram_of [] h"
proof -
  have "sum_list (take (Suc k) (replicate n (0 :: 64 word))) = 0" for k n
    by (simp add: sum_list_replicate)
  moreover have "sum_list (replicate k (0 :: 64 word)) = 0" for k by (simp add: sum_list_replicate)
  ultimately show ?thesis using latency_buckets_increasing by (simp add: newHistogram_def histogram_of_def)
qed

lemma record_metrics_recorded:
  assumes "recorded obs m" and "readable utf8 (labels, elapsed)"
  shows "\<exists>m'. record_metrics utf8 labels elapsed m = Inr m' \<and> recorded (obs @ [(labels, elapsed)]) m'"
proof -
  obtain policyType name code where l: "labels = (policyType, name, code)" by (cases labels)
  let ?v3 = "[policyType, name, code]" and ?v2 = "[policyType, name]"
  note r = assms(1) [unfolded recorded_def]
  have valid: "validateLabelValues utf8 ?v3 3 = None" "validateLabelValues utf8 ?v2 2 = None"
    using assms(2) by (simp_all add: validateLabelValues_def readable_def l)
  obtain n where n: "(case map_of (mvMetrics (PolicyRequestTotal m)) ?v3 of Some m \<Rightarrow> Inr m | None \<Rightarrow> Inr 0) = (Inr n :: string + 64 word)"
    "n = word_of_nat (length (with_labels ?v3 obs))"
    using r by (auto split: option.splits)
  define totals where "totals = (PolicyRequestTotal m)\<lparr>mvMetrics := map_put ?v3 (Inc n) (mvMetrics (PolicyRequestTotal m))\<rparr>"
  have t: "with_label_values utf8 (Inr 0) ?v3 Inc (PolicyRequestTotal m) = Inr totals"
    using r valid n(1) by (simp add: with_label_values_def totals_def)
  have counts: "map_of (mvMetrics totals) vals =
      (if with_labels vals (obs @ [(labels, elapsed)]) = [] then None else Some (word_of_nat (length (with_labels vals (obs @ [(labels, elapsed)])))))" for vals
    using r n(2) by (auto simp: totals_def with_labels_def l Inc_def)
  show ?thesis
  proof (cases "elapsed = 0")
    case True
    have "times_of vals (obs @ [(labels, elapsed)]) = times_of vals obs" for vals by (simp add: times_of_def True l)
    then have "recorded (obs @ [(labels, elapsed)]) (m\<lparr>PolicyRequestTotal := totals\<rparr>)"
      unfolding recorded_def using r counts by (simp add: totals_def cong: option.case_cong)
    then show ?thesis using t by (simp add: record_metrics_def l True)
  next
    case False
    have old: "case map_of (mvMetrics (PolicyRequestLatencies m)) ?v2 of
        None \<Rightarrow> times_of ?v2 obs = [] | Some h \<Rightarrow> times_of ?v2 obs \<noteq> [] \<and> histogram_of (times_of ?v2 obs) h"
      using r by blast
    obtain h where h: "(case map_of (mvMetrics (PolicyRequestLatencies m)) ?v2 of Some m \<Rightarrow> Inr m | None \<Rightarrow> newHistogram latency_buckets) = Inr h"
      "histogram_of (times_of ?v2 obs) h"
    proof (cases "map_of (mvMetrics (PolicyRequestLatencies m)) ?v2")
      case None
      then show thesis using old new_latencies that by auto
    next
      case (Some h)
      then show thesis using old that [of h] by simp
    qed
    define latencies where "latencies = (PolicyRequestLatencies m)\<lparr>mvMetrics :=
      map_put ?v2 (Observe (Seconds elapsed) h) (mvMetrics (PolicyRequestLatencies m))\<rparr>"
    have lat: "with_label_values utf8 (newHistogram latency_buckets) ?v2 (Observe (Seconds elapsed)) (PolicyRequestLatencies m) = Inr latencies"
      using r valid h(1) by (simp add: with_label_values_def latencies_def)
    have times: "times_of vals (obs @ [(labels, elapsed)]) = times_of vals obs @ (if vals = ?v2 then [Seconds elapsed] else [])" for vals
      using False by (auto simp: times_of_def l)
    have "case map_of (mvMetrics latencies) vals of
        None \<Rightarrow> times_of vals (obs @ [(labels, elapsed)]) = []
      | Some h \<Rightarrow> times_of vals (obs @ [(labels, elapsed)]) \<noteq> [] \<and> histogram_of (times_of vals (obs @ [(labels, elapsed)])) h" for vals
      using r Observe_histogram [OF h(2)] by (simp add: times latencies_def cong: option.case_cong)
    then show ?thesis using r counts t lat False by (simp add: record_metrics_def l recorded_def totals_def latencies_def cong: option.case_cong)
  qed
qed

text \<open>Recording never panics on labels that are UTF-8, and every request is counted under its labels and in its bucket.\<close>

lemma requests_are_recorded:
  "\<forall>ob\<in>set obs. readable utf8 ob \<Longrightarrow> \<exists>m. record_all utf8 obs initial_metrics = Inr m \<and> recorded obs m"
proof (induction obs rule: rev_induct)
  case Nil
  show ?case by (simp add: recorded_def initial_metrics_def with_labels_def times_of_def)
next
  case (snoc ob obs)
  obtain labels elapsed where ob: "ob = (labels, elapsed)" by (cases ob)
  obtain m where m: "record_all utf8 obs initial_metrics = Inr m" "recorded obs m" using snoc by auto
  have "readable utf8 (labels, elapsed)" using snoc.prems ob by simp
  from record_metrics_recorded [OF m(2) this] show ?case by (simp add: ob record_all_snoc m(1))
qed

end
