(* ===== verification/Spec2Isabelle.thy ===== *)
theory Spec2Isabelle
  imports Deployment ManagerSpec CacheSetup CacheMemory BlockingClient SharedConditions FakeStore Metrics
begin

text \<open>
  A verification development of jsPolicy, a policy engine for Kubernetes whose policies are scripts.
  This theory imports all others; it holds the overview and the properties that span components.

  The program and its theories. A policy (\<open>JsPolicy\<close>) is an object of the API server.
  \<^item> Data: theory \<open>Api\<close> has the types of \<open>pkg/apis\<close> as records, \<open>Prelude\<close> what all theories share
    (errors, strings, Go maps, sorting, the contracts of sorting and of keyed stores), \<open>Client\<close> the
    Kubernetes client and \<open>pkg/util/clienthelper\<close>, \<open>Admission\<close> admission requests and responses.
    \<open>GoMemory\<close> has memory as Go has it (variables, arrays, maps and what shares them), \<open>DeepCopy\<close> the
    statements of generated deep copies with their contract, \<open>ApiObjects\<close> all types of \<open>pkg/apis\<close> with
    their deep copies, and \<open>SharedConditions\<close> the setting of conditions as it runs in memory. \<open>Unstructured\<close>
    has the copies of objects that are known as JSON only, and \<open>Strconv\<close> the parsing of numbers.
  \<^item> Admission: a request for \<open>/policy/NAME\<close> reaches \<open>pkg/webhook/webhook.go\<close> (theory \<open>Webhook\<close>), which
    calls the handler (\<open>pkg/webhook/handler.go\<close>, theory \<open>Handler\<close>). The handler takes a virtual
    machine from the pool (\<open>pkg/vm/vmpool\<close>, theory \<open>VMPool\<close>), runs the policy's compiled script on it
    (\<open>pkg/vm/vm.go\<close>, theory \<open>Vm\<close>) and turns what the script exited with into a response. A denial is
    logged (\<open>pkg/webhook/audit.go\<close>, theory \<open>AuditLog\<close>) and reported (\<open>pkg/webhook/report.go\<close>, theory
    \<open>Report\<close>).
  \<^item> Validation: policies themselves are admitted by \<open>pkg/webhook/validation\<close> (theories \<open>Validation\<close>
    and \<open>Webhook\<close>).
  \<^item> Reconciliation: \<open>pkg/controllers/jspolicy.go\<close> (theory \<open>Reconciler\<close>) compiles a changed policy with
    \<open>pkg/bundle\<close> (theory \<open>Bundler\<close>), applies its webhook configuration with \<open>pkg/util/apply\<close> (theory
    \<open>Applier\<close>) or hands it to the manager of background policies, and writes its conditions back
    with \<open>pkg/util/patch\<close> (theory \<open>PatchHelper\<close>). The conditions are kept by \<open>pkg/util/conditions\<close>
    (theories \<open>Conditions\<close>, \<open>Merge\<close> and \<open>CondPatch\<close>).
  \<^item> Background policies: \<open>pkg/controller/manager.go\<close> and \<open>handler.go\<close> (theory \<open>PolicyManager\<close>) start a
    controller for each (\<open>pkg/controller/policy.go\<close>, theory \<open>PolicyController\<close>) and share informers
    between them, which live in \<open>pkg/cache\<close> (theory \<open>Cache\<close>; its options, list watchers and first sync
    in \<open>CacheSetup\<close>, its reader in memory in \<open>CacheMemory\<close>). \<open>ManagerSpec\<close> has what the manager is for, a map from policies to kinds.
  \<^item> Replicas: theory \<open>Startup\<close> has the certificate and its secret (\<open>pkg/util/certhelper\<close>,
    \<open>pkg/util/secret\<close>) and the registration of the validating webhook (\<open>pkg/store\<close>), for one replica at
    a time; theory \<open>Replicas\<close> runs the same steps for any number of them at once; theory \<open>Election\<close>
    has the leader election (\<open>pkg/leaderelection\<close> and the elector of client-go that it configures); theory
    \<open>BlockingClient\<close> the client that waits for the cache (\<open>pkg/blockingcacheclient\<close>).
  \<^item> The process: theory \<open>Entry\<close> has \<open>cmd/jspolicy/main.go\<close> and the two \<open>register.go\<close>: the settings from
    the environment, the parts in the order in which they are built, the routes, and the goroutines
    as a step relation. \<open>Logging\<close> has the loggers (\<open>pkg/util/log\<close>, \<open>pkg/util/loghelper\<close>), \<open>Util\<close> the
    small packages \<open>random\<close>, \<open>hash\<close> and \<open>compress\<close>, \<open>Metrics\<close> what is counted and timed (\<open>pkg/metrics\<close>), and \<open>Deployment\<close> puts endpoint, reconciler, bundler and
    handler together.
  \<^item> The generated clients (\<open>pkg/client/clientset_generated\<close>), for other programs: \<open>RestRequest\<close> has the requests of
    client-go that they are made of, \<open>TypedClient\<close> every method of the five clients, \<open>Clientset\<close> how a
    configuration becomes a clientset and what the chart's resource definitions serve; \<open>FakeClient\<close> has the fakes
    that stand for them in tests, and \<open>FakeStore\<close> the store that these promise.

  How the code is rendered. A struct is a record, a nil-able pointer an option, a returned pair of a
  value and an error a sum whose left side is the error, a Go map an association list (or a map where
  its order is never seen), \<open>int32\<close> a 32-bit word. The order in which Go ranges over a map, where it
  can matter, is a parameter. Everything outside the process (the API server behind its client, V8,
  the JSON codec, gzip, SHA-256, npm and webpack, X.509) is a function in an environment record that
  takes and returns an opaque world, so that anything may happen between two calls; a theorem that
  needs more of it names the law it uses: a server without other writers (\<open>quiet_server\<close>), an index
  that is kept (\<open>index_ok\<close>), programs that stay in their folder (\<open>confined\<close>). Each such law has a
  concrete function that meets it, and the witness after a theorem runs it there.

  The interfaces between components are locales, each interpreted on the component that provides it:
  sorting (\<open>go_sort\<close>, \<open>weak_order\<close>) and keyed stores (\<open>key_store\<close>) in \<open>Prelude\<close>, used by \<open>Conditions\<close>
  and \<open>Merge\<close>; \<open>conditions_setter\<close> in \<open>Api\<close>; \<open>vm_source\<close> in \<open>VMPool\<close>, where the handler gets its machines;
  \<open>policy_runner\<close> in \<open>Reconciler\<close>, what the reconciler
  relies on of the manager; \<open>deep_copier\<close> in \<open>DeepCopy\<close>, what the readers of a cache rely on.

  What is proved, by group.
  \<^item> \<open>Handler\<close>, \<open>Webhook\<close>, \<open>Vm\<close>: when a request is allowed, what is answered, logged and reported
    under every violation and audit policy, the errors of the functions scripts call.
  \<^item> \<open>VMPool\<close>: under every interleaving no machine is in two hands and each is fresh, so that requests
    are answered as if each had a machine of its own.
  \<^item> \<open>AuditLog\<close>, \<open>Report\<close>: logs and reports stay within their bounds and their summaries consistent;
    which retries return and which do not.
  \<^item> \<open>Validation\<close>: the accepted policies, as an explicit predicate; here, that each becomes a legal
    webhook.
  \<^item> \<open>Conditions\<close>, \<open>Merge\<close>, \<open>CondPatch\<close>, \<open>PatchHelper\<close>: lookups after edits, the summary, difference and
    three-way application, and that the helper's conflict loop ends with a merge on the server.
  \<^item> \<open>GoMemory\<close>, \<open>DeepCopy\<close>, \<open>ApiObjects\<close>, \<open>SharedConditions\<close>: a deep copy reads as its original and shares
    nothing with it, which is why values stand for objects everywhere else; setting conditions in place
    is the function on lists of \<open>Conditions\<close>.
  \<^item> \<open>PolicyManager\<close>, \<open>PolicyController\<close>, \<open>Cache\<close>: the invariant of the step relation of updates,
    deletions, collections and cleanups, that events reach exactly the policies that watch a kind, that
    a watched kind's informer is never collected, and what a list by field returns.
  \<^item> \<open>Reconciler\<close>, \<open>Applier\<close>: one configuration per policy and of the right kind, what a failed compile
    stops, where a repaired policy or a deleted bundle is missed, and the bounds of applying.
  \<^item> \<open>ManagerSpec\<close>: the manager refines its abstract map, for every sequence of operations.
  \<^item> \<open>Startup\<close>, \<open>Replicas\<close>, \<open>Bundler\<close>, \<open>BlockingClient\<close> and this theory: replicas share one certificate, one
    after the other and under every interleaving with failures and restarts, unless the secret was broken;
    which hosts it covers, what is registered with it, what a compilation leaves on the disk, and what a
    write that waited has seen.
  \<^item> \<open>Election\<close>, \<open>Entry\<close>: one replica leads at a time; the process that runs the controllers is the
    elected one and hands out one certificate authority; which settings are accepted.
  \<^item> \<open>Deployment\<close>: a policy's webhook leads to that policy, the script that was compiled is the script
    that runs, and when the name of a configuration is legal.
  \<^item> \<open>Unstructured\<close>, \<open>CacheMemory\<close>: what a reader of the cache is given shares nothing with it, so that no writer
    disturbs another's reads.
  \<^item> \<open>RestRequest\<close>, \<open>TypedClient\<close>, \<open>Clientset\<close>: where every request of every client goes and how often it is sent, which
    client asks for a resource that is not served, and when the clients share one rate limit.
  \<^item> \<open>FakeClient\<close>, \<open>FakeStore\<close>: the fakes refine a store of objects, for every sequence of calls.
  \<^item> \<open>Metrics\<close>: every request is counted under its labels and in the right buckets.
  \<^item> \<open>Logging\<close>, \<open>CacheSetup\<close>, \<open>Util\<close>: what is printed, what an informer lists and watches, names of random
    letters, and that decompressing undoes compressing.

  Bounds and fuel. Loops of the source with a counter keep it: five attempts of the conflict loop
  (\<open>backoffSteps\<close>), five retries of a patch (\<open>maxPatchRetry\<close>), ten retries of a request, the retry counters of logs and reports.
  Polls that end by the clock take the number
  of looks as a parameter (\<open>rwPolls\<close> and its like), and no theorem fixes it. Recursions of the source
  that need not end (\<open>LogRequest\<close>, \<open>writeAdmissionResponse\<close>, \<open>ensureSecret\<close>) are partial functions
  whose value \<open>None\<close> is divergence: that they return, and when they do not, is proved. The election has a clock
  in seconds, with the durations of the source (60, 40 and 15) and a bound on the delay of an answer as a
  parameter, which the theorem needs to be at most four seconds. The calls of replicas are counted by the
  length of a run: three for each replica and three for each restart.

  Not modelled: scheme registration, which is a table of types that the codecs read, and the tools that generate code
  or set up tests. They hold no logic that the components above depend on. The codecs, the transports and the network of the
  typed clients, the selectors and patches of the fakes, the server that shows metrics, the recording of election events, the
  clients, managers and caches that \<open>main\<close> creates, the wire protocols, klog, gzip, SHA-256 and the random
  generator are parameters. Of \<open>pkg/vm\<close> the V8 engine is a parameter, so that a script is the sequence of host
  calls it makes. Elapsed time and sleeping are left out except in the election.
\<close>

section \<open>Validated policies become legal webhooks\<close>

text \<open>
  What the API server's documentation asks of a webhook of either kind: enumerated fields from their
  enumerations, a timeout of 1 to 30 seconds, selectors it can parse, a rule that names operations,
  groups, versions and resources, wildcards on their own, and a URL or a service but not both.
\<close>

definition legal_rule :: "RuleWithOperations \<Rightarrow> bool" where
  "legal_rule r \<longleftrightarrow>
     rwOperations r \<noteq> [] \<and> alone (rwOperations r) \<and>
     set (rwOperations r) \<subseteq> {''*'', ''CREATE'', ''UPDATE'', ''DELETE'', ''CONNECT''} \<and>
     rwAPIGroups r \<noteq> [] \<and> alone (rwAPIGroups r) \<and>
     rwAPIVersions r \<noteq> [] \<and> alone (rwAPIVersions r) \<and> [] \<notin> set (rwAPIVersions r) \<and>
     admissible_resources (rwResources r) \<and>
     rwScope r \<in> {Some ''*'', Some ''Cluster'', Some ''Namespaced''}"

definition legal_webhook :: "name_checks \<Rightarrow> webhook \<Rightarrow> bool" where
  "legal_webhook nc wh \<longleftrightarrow>
     (\<forall>r \<in> set (whRules wh). legal_rule r) \<and>
     whFailurePolicy wh \<in> {Some ''Fail'', Some ''Ignore''} \<and>
     whMatchPolicy wh \<in> {Some ''Exact'', Some ''Equivalent''} \<and>
     whNamespaceSelector wh \<noteq> None \<and> admissible_selector nc (whNamespaceSelector wh) \<and>
     whObjectSelector wh \<noteq> None \<and> admissible_selector nc (whObjectSelector wh) \<and>
     whSideEffects wh \<in> {Some ''None'', Some ''NoneOnDryRun''} \<and>
     (\<exists>t. whTimeoutSeconds wh = Some t \<and> 1 \<le> sint t \<and> sint t \<le> 30) \<and>
     whAdmissionReviewVersions wh \<noteq> [] \<and>
     whReinvocationPolicy wh \<in> {None, Some ''Never'', Some ''IfNeeded''} \<and>
     (ccURL (whClientConfig wh) = None) \<noteq> (ccService (whClientConfig wh) = None)"

lemma or_default_mem: "x \<in> insert None A \<Longrightarrow> or_default d x \<in> insert (Some d) A"
  by (cases x) (simp_all add: or_default_def)

lemma or_default_selector:
  "admissible_selector nc s \<Longrightarrow>
   or_default \<lparr>matchLabels = [], matchExpressions = []\<rparr> s \<noteq> None \<and>
   admissible_selector nc (or_default \<lparr>matchLabels = [], matchExpressions = []\<rparr> s)"
  by (cases s) (simp_all add: or_default_def admissible_selector_def)

lemma or_all_legal: "alone xs \<Longrightarrow> or_all xs \<noteq> [] \<and> alone (or_all xs) \<and> ([] \<notin> set xs \<longrightarrow> [] \<notin> set (or_all xs))"
  by (simp add: or_all_def alone_def)

lemma or_default_timeout:
  "(\<forall>t. x = Some t \<longrightarrow> sint t \<in> {1..30}) \<Longrightarrow> \<exists>t :: int32. or_default 10 x = Some t \<and> 1 \<le> sint t \<and> sint t \<le> 30"
  by (cases x) (simp_all add: or_default_def)

lemma if_subset: "A \<subseteq> C \<Longrightarrow> B \<subseteq> C \<Longrightarrow> (if b then A else B) \<subseteq> C"
  by simp

lemma legal_ruleI:
  assumes "ops \<noteq> []" "alone ops" "set ops \<subseteq> {''*'', ''CREATE'', ''UPDATE'', ''DELETE'', ''CONNECT''}"
    and "alone groups" "alone versions" "[] \<notin> set versions" "admissible_resources resources"
    and "scope \<in> insert (Some ''*'') {Some ''*'', Some ''Cluster'', Some ''Namespaced''}"
  shows "legal_rule \<lparr>rwOperations = ops, rwAPIGroups = or_all groups, rwAPIVersions = or_all versions,
    rwResources = resources, rwScope = scope\<rparr>"
  unfolding legal_rule_def RuleWithOperations.simps
  using or_all_legal [OF assms(4)] or_all_legal [OF assms(5)] assms by (intro conjI) (blast | simp only: insert_absorb2)+

lemma legal_webhookI:
  assumes "legal_rule r"
    and "failure \<in> insert (Some ''Fail'') {Some ''Fail'', Some ''Ignore''}"
    and "match \<in> insert (Some ''Equivalent'') {Some ''Equivalent'', Some ''Exact''}"
    and "ns_sel \<noteq> None \<and> admissible_selector nc ns_sel" and "ob_sel \<noteq> None \<and> admissible_selector nc ob_sel"
    and "\<exists>t. timeout = Some t \<and> 1 \<le> sint t \<and> sint t \<le> 30"
    and "(ccURL client = None) \<noteq> (ccService client = None)"
    and "reinvocation \<in> {None, Some ''Never'', Some ''IfNeeded''}"
  shows "legal_webhook nc \<lparr>whName = n, whClientConfig = client, whRules = [r], whFailurePolicy = failure,
    whMatchPolicy = match, whNamespaceSelector = ns_sel, whObjectSelector = ob_sel, whSideEffects = Some ''None'',
    whTimeoutSeconds = timeout, whAdmissionReviewVersions = [''v1''], whReinvocationPolicy = reinvocation\<rparr>"
  unfolding legal_webhook_def webhook.simps
  using assms by (intro conjI) (blast | simp)+



section \<open>The certificate and the webhooks\<close>

text \<open>The host that the API server asks for when it calls a service: its name inside the cluster.\<close>

definition service_host :: "WebhookClientConfig \<Rightarrow> string option" where
  "service_host cc = map_option (\<lambda>s. srName s @ ''.'' @ srNamespace s @ ''.svc'') (ccService cc)"

lemma service_names_mem:
  "srv @ ''.'' @ ns @ ''.svc'' \<in> set (service_names service ns) \<longleftrightarrow> srv = service"
proof -
  have "srv @ ''.'' @ ns @ ''.svc'' \<noteq> service @ ''.'' @ ns @ ''.svc.cluster.local''"
  proof
    assume "srv @ ''.'' @ ns @ ''.svc'' = service @ ''.'' @ ns @ ''.svc.cluster.local''"
    then have "last (srv @ ''.'' @ ns @ ''.svc'') = last (service @ ''.'' @ ns @ ''.svc.cluster.local'')" by (rule arg_cong)
    then show False by simp
  qed
  then show ?thesis by (simp add: service_names_def)
qed

text \<open>
  A replica that starts without a certificate and without a webhook URL makes one for the host at
  which policies are validated; the host at which the policies themselves are called is among its
  names exactly if the service has its default name, since \<open>JS_POLICY_SERVICE_NAME\<close> reaches the
  webhooks of policies but not the certificate.
\<close>

theorem certificate_covers_webhooks:
  assumes "GenerateWebhookCertificate cenv fs = (None, fs')"
    and "Stat (path_Join WebhookCertFolder ''tls.key'') fs \<noteq> None"
    and "CurrentNamespace (ceGetenv cenv) (ReadFile fs) = Inr namespace"
    and "WebhookURL (ceGetenv cenv) = []" and "rcGetenv env = ceGetenv cenv"
  shows "\<exists>hosts key cert out. ceGenerateKey cenv = Inr key \<and> ceCreateCertificate cenv hosts key = Inr cert \<and>
    cePem cenv ''CERTIFICATE'' cert = Inr out \<and> fsFile fs' (path_Join WebhookCertFolder ''tls.crt'') = Some out \<and>
    service_host (whClientConfig (crd_webhook cenv namespace ca)) \<in> Some ` set hosts \<and>
    (service_host (whClientConfig (policy_webhook env p namespace)) \<in> Some ` set hosts \<longleftrightarrow>
       ServiceName (rcGetenv env) = ''jspolicy'')"
proof -
  obtain hosts key cert out where c: "dns_names cenv WebhookServiceName namespace = Inr hosts" "ceGenerateKey cenv = Inr key"
    "ceCreateCertificate cenv hosts key = Inr cert" "cePem cenv ''CERTIFICATE'' cert = Inr out"
    "fsFile fs' (path_Join WebhookCertFolder ''tls.crt'') = Some out"
    by (rule generateCertificate_new [OF assms(1) [unfolded GenerateWebhookCertificate_def] assms(2,3)])
  have hosts: "hosts = service_names WebhookServiceName namespace" using c(1) assms(4) by (simp add: dns_names_def)
  have crd: "service_host (whClientConfig (crd_webhook cenv namespace ca)) \<in> Some ` set hosts"
    by (simp add: crd_webhook_def assms(4) service_host_def hosts service_names_def)
  have "service_host (whClientConfig (policy_webhook env p namespace)) =
      Some (ServiceName (rcGetenv env) @ ''.'' @ namespace @ ''.svc'')"
    by (simp add: policy_webhook_def webhook_client_def assms(4,5) service_host_def)
  then have pol: "service_host (whClientConfig (policy_webhook env p namespace)) \<in> Some ` set hosts \<longleftrightarrow>
      ServiceName (rcGetenv env) = ''jspolicy''"
    using service_names_mem [of "ServiceName (rcGetenv env)" namespace WebhookServiceName]
    by (simp only: hosts inj_image_mem_iff [OF inj_Some])
  show ?thesis using c(2-5) crd pol by blast
qed

text \<open>A service with a name of its own.\<close>

definition custom_service_env :: cert_env where
  "custom_service_env = (example_cert_env ''k'')
     \<lparr>ceGetenv := (\<lambda>n. if n = ''KUBE_NAMESPACE'' then ''jspolicy'' else if n = ''JS_POLICY_SERVICE_NAME'' then ''custom'' else [])\<rparr>"

theorem certificate_covers_webhooks_witness:
  "\<exists>hosts. ceCreateCertificate custom_service_env hosts ''k'' = Inr ''cert k'' \<and>
     service_host (whClientConfig (policy_webhook (example_reconcile\<lparr>rcGetenv := ceGetenv custom_service_env\<rparr>) example_policy ''jspolicy''))
       \<notin> Some ` set hosts"
proof -
  let ?env = "example_reconcile\<lparr>rcGetenv := ceGetenv custom_service_env\<rparr>"
  have "fst (GenerateWebhookCertificate custom_service_env empty_disk) = None"
    by (simp add: GenerateWebhookCertificate_def generateCertificate_def Stat_def ReadFile_def empty_disk_def
        custom_service_env_def example_cert_env_def CurrentNamespace_def dns_names_def WebhookURL_def writeCert_def
        MkdirAll_def WriteFile_def)
  then obtain fs' where gen: "GenerateWebhookCertificate custom_service_env empty_disk = (None, fs')"
    by (cases "GenerateWebhookCertificate custom_service_env empty_disk") simp
  have new: "Stat (path_Join WebhookCertFolder ''tls.key'') empty_disk \<noteq> None"
    by (simp add: Stat_def ReadFile_def empty_disk_def)
  have env: "CurrentNamespace (ceGetenv custom_service_env) (ReadFile empty_disk) = Inr ''jspolicy''"
    "WebhookURL (ceGetenv custom_service_env) = []" "rcGetenv ?env = ceGetenv custom_service_env"
    "ServiceName (rcGetenv ?env) \<noteq> ''jspolicy''" "ceGenerateKey custom_service_env = Inr ''k''"
    "ceCreateCertificate custom_service_env hosts ''k'' = Inr ''cert k''" for hosts
    by (simp_all add: custom_service_env_def example_cert_env_def CurrentNamespace_def WebhookURL_def ServiceName_def)
  obtain hosts where "service_host (whClientConfig (policy_webhook ?env example_policy ''jspolicy'')) \<notin> Some ` set hosts"
    using certificate_covers_webhooks [OF gen new env(1-3), of "[]" example_policy] env(4) by blast
  then show ?thesis using env(6) by blast
qed

section \<open>The certificate authority that policies are validated under\<close>

definition config_key :: "WebhookConfiguration \<Rightarrow> string \<times> string" where
  "config_key config = ([], wcName config)"

definition same_config :: "WebhookConfiguration \<Rightarrow> WebhookConfiguration \<Rightarrow> bool" where
  "same_config a b \<longleftrightarrow> wcWebhooks a = wcWebhooks b \<and> wcAnnotations a = wcAnnotations b"

lemma EnsureValidating_quiet:
  assumes q: "quiet_server c config_key same_config (\<lambda>_. []) cur"
    and ca: "ReadFile fs (path_Join WebhookCertFolder ''ca.crt'') = Inr ca"
    and ns: "CurrentNamespace (ceGetenv env) (ReadFile fs) = Inr namespace"
  shows "\<exists>w' config. EnsureValidatingWebhookConfiguration c env fs w = (None, w') \<and>
    cur w' ([], ValidatingWebhookConfigurationName) = Some config \<and> wcWebhooks config = [crd_webhook env namespace ca] \<and>
    map_of (wcAnnotations config) ''cert-manager.io/inject-ca-from'' = None"
proof -
  define new where "new = (\<lambda>config :: WebhookConfiguration. config\<lparr>wcAnnotations := map_del ''cert-manager.io/inject-ca-from'' (wcAnnotations config),
    wcWebhooks := [crd_webhook env namespace ca]\<rparr>)"
  have prep: "prepareValidatingWebhookConfiguration env fs config = Inr (new config)" for config
    by (simp add: prepareValidatingWebhookConfiguration_def ca ns new_def)
  have new: "wcName (new config) = wcName config" "wcWebhooks (new config) = [crd_webhook env namespace ca]"
    "map_of (wcAnnotations (new config)) ''cert-manager.io/inject-ca-from'' = None" for config
    by (simp_all add: new_def)
  have conclude: ?thesis
    if "EnsureValidatingWebhookConfiguration c env fs w = (None, w')"
      and "cur w' ([], ValidatingWebhookConfigurationName) = Some x" and "same_config x (new config)" for w' x config
  proof (intro exI conjI)
    have x: "wcWebhooks x = wcWebhooks (new config)" "wcAnnotations x = wcAnnotations (new config)"
      using that(3) unfolding same_config_def by blast+
    show "EnsureValidatingWebhookConfiguration c env fs w = (None, w')" by (rule that(1))
    show "cur w' ([], ValidatingWebhookConfigurationName) = Some x" by (rule that(2))
    show "wcWebhooks x = [crd_webhook env namespace ca]" unfolding x(1) by (rule new(2))
    show "map_of (wcAnnotations x) ''cert-manager.io/inject-ca-from'' = None" unfolding x(2) by (rule new(3))
  qed
  note get = quiet_get [where w = w and ns = "[]" and n = ValidatingWebhookConfigurationName, OF q]
  show ?thesis
  proof (cases "cur w ([], ValidatingWebhookConfigurationName)")
    case None
    then obtain e where g: "cGet c [] ValidatingWebhookConfigurationName w = (Inl e, w)" "IsNotFound e" using get by auto
    let ?x = "new \<lparr>wcName = ValidatingWebhookConfigurationName, wcLabels = [], wcAnnotations = [], wcOwners = [], wcWebhooks = []\<rparr>"
    have key: "config_key ?x = ([], ValidatingWebhookConfigurationName)" by (simp add: config_key_def new)
    obtain w' x where k: "cCreate c ?x w = (None, w')" "cur w' = (cur w)(config_key ?x \<mapsto> x)" "same_config x ?x"
      by (rule quiet_create [OF q, of w ?x]) (simp_all only: key None)
    have "EnsureValidatingWebhookConfiguration c env fs w = (None, w')"
      by (simp add: EnsureValidatingWebhookConfiguration_def g prep k(1))
    moreover have "cur w' ([], ValidatingWebhookConfigurationName) = Some x" by (simp only: k(2) key fun_upd_same)
    ultimately show ?thesis using k(3) by (rule conclude)
  next
    case (Some old)
    then have g: "cGet c [] ValidatingWebhookConfigurationName w = (Inr old, w)" using get by simp
    have "config_key old = ([], ValidatingWebhookConfigurationName)" by (rule quiet_key [OF q, OF Some])
    then have key: "config_key (new old) = ([], ValidatingWebhookConfigurationName)" by (simp only: config_key_def new)
    obtain w' x where k: "cUpdate c (new old) w = (None, w')" "cur w' = (cur w)(config_key (new old) \<mapsto> x)" "same_config x (new old)"
      by (rule quiet_update [OF q, of w "new old" old]) (simp_all only: key Some)
    have "EnsureValidatingWebhookConfiguration c env fs w = (None, w')"
      by (simp add: EnsureValidatingWebhookConfiguration_def g prep k(1))
    moreover have "cur w' ([], ValidatingWebhookConfigurationName) = Some x" by (simp only: k(2) key fun_upd_same)
    ultimately show ?thesis using k(3) by (rule conclude)
  qed
qed

text \<open>
  A replica that obtained its certificate registers, when it becomes the leader, a configuration
  whose certificate authority is that of the shared secret, so that every replica can answer under it,
  and that cert-manager no longer overwrites, whatever stood there before.
\<close>

theorem registered_ca_is_shared:
  assumes "ensureSecret env namespace name WebhookCertFolder createCert fs w = Some (None, fs', w')"
    and "fsFault fs' (path_Join WebhookCertFolder ''ca.crt'') = None"
    and "CurrentNamespace (ceGetenv cenv) (ReadFile fs') = Inr namespace"
    and "quiet_server c config_key same_config (\<lambda>_. []) cur"
  shows "\<exists>s ca v' config. from_server env namespace name s w' \<and> isSecretValid s \<and> secret_file s ''ca.crt'' = Some ca \<and>
    EnsureValidatingWebhookConfiguration c cenv fs' v = (None, v') \<and>
    cur v' ([], ValidatingWebhookConfigurationName) = Some config \<and> wcWebhooks config = [crd_webhook cenv namespace ca] \<and>
    map_of (wcAnnotations config) ''cert-manager.io/inject-ca-from'' = None"
proof -
  obtain s where s: "from_server env namespace name s w'" "isSecretValid s" "disk_agrees WebhookCertFolder fs' s"
    using ensureSecret_agrees [OF assms(1)] by (elim exE conjE)
  have "''ca.crt'' \<in> set cert_files" by (simp add: cert_files_def)
  then obtain ca where ca: "secret_file s ''ca.crt'' = Some ca" "fsFile fs' (path_Join WebhookCertFolder ''ca.crt'') = Some ca"
    using s(3) unfolding disk_agrees_def by (metis not_None_eq)
  have read: "ReadFile fs' (path_Join WebhookCertFolder ''ca.crt'') = Inr ca" by (simp only: ReadFile_def assms(2) ca(2) option.case)
  show ?thesis
    using EnsureValidating_quiet [OF assms(4) read assms(3), of v] s(1,2) ca(1) by (elim exE conjE) (intro exI conjI)
qed

text \<open>An empty cluster; the configuration of an earlier installation is replaced.\<close>

lemma example_ensureSecret:
  obtains fs' w' where "ensureSecret example_secret_env ''jspolicy'' WebhookCertSecretName WebhookCertFolder
      (GenerateWebhookCertificate (example_cert_env ''k'')) empty_disk (\<lambda>_. None) = Some (None, fs', w')"
    "fsFault fs' = (\<lambda>_. None)"
proof -
  obtain fs1 where fs1: "GenerateWebhookCertificate (example_cert_env ''k'') empty_disk = (None, fs1)" "fsFault fs1 = (\<lambda>_. None)"
  proof -
    have "fst (GenerateWebhookCertificate (example_cert_env ''k'') empty_disk) = None \<and>
        fsFault (snd (GenerateWebhookCertificate (example_cert_env ''k'') empty_disk)) = (\<lambda>_. None)"
      by (simp add: GenerateWebhookCertificate_def generateCertificate_def Stat_def ReadFile_def empty_disk_def
          example_cert_env_def CurrentNamespace_def dns_names_def WebhookURL_def writeCert_def MkdirAll_def WriteFile_def)
    then show ?thesis using that by (cases "GenerateWebhookCertificate (example_cert_env ''k'') empty_disk") simp
  qed
  obtain data where data: "read_files WebhookCertFolder fs1 cert_files = Inr data"
    using example_certifies [of "''k''"] fs1(1) unfolding certifies_def by (elim conjE exE) simp
  have get: "cGet (seClient example_secret_env) ns n (\<lambda>_. None) = (Inl (GoError NotFound ''not found''), \<lambda>_. None)" for ns n
    by (simp add: example_secret_env_def keyed_client_def keyed_def)
  have create: "cCreate (seClient example_secret_env) s (\<lambda>_. None) = (None, (\<lambda>_. None)(secret_key s \<mapsto> s))" for s
    by (simp add: example_secret_env_def keyed_client_def keyed_def)
  have absent: "IsNotFound (GoError NotFound ''not found'')" by (simp add: IsNotFound_def)
  obtain w' where "ensure_round example_secret_env ''jspolicy'' WebhookCertSecretName WebhookCertFolder
      (GenerateWebhookCertificate (example_cert_env ''k'')) empty_disk (\<lambda>_. None) = Inl (None, fs1, w')"
    by (simp only: ensure_round_def create_secret_def get create absent fs1(1) data prod.case sum.case option.case simp_thms
        if_False if_True sum.inject prod.inject)
  then show ?thesis by (intro that [OF ensure_round_last fs1(2)])
qed

theorem registered_ca_is_shared_witness:
  "\<exists>s ca fs' w' v' config. from_server example_secret_env ''jspolicy'' WebhookCertSecretName s w' \<and>
     secret_file s ''ca.crt'' = Some ca \<and>
     EnsureValidatingWebhookConfiguration (keyed_client config_key) (example_cert_env ''k'') fs'
       (\<lambda>_. Some \<lparr>wcName = ValidatingWebhookConfigurationName, wcLabels = [], wcAnnotations = [(''cert-manager.io/inject-ca-from'', ''x'')],
          wcOwners = [], wcWebhooks = []\<rparr>) = (None, v') \<and>
     keyed config_key v' ([], ValidatingWebhookConfigurationName) = Some config \<and>
     wcWebhooks config = [crd_webhook (example_cert_env ''k'') ''jspolicy'' ca]"
proof -
  obtain fs' w' where r: "ensureSecret example_secret_env ''jspolicy'' WebhookCertSecretName WebhookCertFolder
      (GenerateWebhookCertificate (example_cert_env ''k'')) empty_disk (\<lambda>_. None) = Some (None, fs', w')"
    "fsFault fs' = (\<lambda>_. None)" by (rule example_ensureSecret)
  have fault: "fsFault fs' (path_Join WebhookCertFolder ''ca.crt'') = None" by (simp only: r(2))
  have ns: "CurrentNamespace (ceGetenv (example_cert_env ''k'')) (ReadFile fs') = Inr ''jspolicy''"
    by (simp add: CurrentNamespace_def example_cert_env_def)
  have q: "quiet_server (keyed_client config_key) config_key same_config (\<lambda>_. []) (keyed config_key)"
    by (rule keyed_client_quiet) (simp add: same_config_def)
  show ?thesis
    using registered_ca_is_shared [OF r(1) fault ns q] by blast
qed

end
